(* ===== verification/Media.thy ===== *)
theory Media
  imports Prelude
begin

text \<open>
  The domain types of \<open>spotuify-core/src/lib.rs\<close>: media kinds, repeat modes, release dates, album
  groups, item provenance, media items, devices, playlists, playback snapshots, queues and lyrics,
  with their label codecs and text forms. Record fields carry a short prefix because Isabelle's
  field names are global (\<open>mi_\<close> for \<open>MediaItem\<close>, \<open>dev_\<close> for \<open>Device\<close>, \<open>pb_\<close> for \<open>Playback\<close>,
  \<open>q_\<close> for \<open>Queue\<close>).
\<close>

section \<open>Enums with labels\<close>

datatype media_kind = Track | Episode | Show | Album | Artist | Playlist

primrec media_kind_label :: "media_kind \<Rightarrow> string" where
  "media_kind_label Track = ''track''"
| "media_kind_label Episode = ''episode''"
| "media_kind_label Show = ''show''"
| "media_kind_label Album = ''album''"
| "media_kind_label Artist = ''artist''"
| "media_kind_label Playlist = ''playlist''"

definition media_kind_from_str :: "string \<Rightarrow> (media_kind, string) result" where
  "media_kind_from_str s =
     (if s = ''track'' then Ok Track
      else if s = ''episode'' then Ok Episode
      else if s = ''show'' then Ok Show
      else if s = ''album'' then Ok Album
      else if s = ''artist'' then Ok Artist
      else if s = ''playlist'' then Ok Playlist
      else Err s)"

datatype repeat_mode = RepeatOff | RepeatContext | RepeatTrack

primrec repeat_mode_label :: "repeat_mode \<Rightarrow> string" where
  "repeat_mode_label RepeatOff = ''off''"
| "repeat_mode_label RepeatContext = ''context''"
| "repeat_mode_label RepeatTrack = ''track''"

definition repeat_mode_parse :: "string \<Rightarrow> (repeat_mode, string) result" where
  "repeat_mode_parse s =
     (if s = ''off'' then Ok RepeatOff
      else if s = ''context'' then Ok RepeatContext
      else if s = ''track'' then Ok RepeatTrack
      else Err s)"

text \<open>The lenient wire decoder: an unknown value is \<open>Off\<close>, never an error.\<close>

definition repeat_mode_deserialize :: "string \<Rightarrow> repeat_mode" where
  "repeat_mode_deserialize s = (case repeat_mode_parse s of Ok m \<Rightarrow> m | Err _ \<Rightarrow> RepeatOff)"

datatype recurrence = RecurNone | Daily | Weekly | Monthly

primrec recurrence_label :: "recurrence \<Rightarrow> string" where
  "recurrence_label RecurNone = ''none''"
| "recurrence_label Daily = ''daily''"
| "recurrence_label Weekly = ''weekly''"
| "recurrence_label Monthly = ''monthly''"

definition recurrence_parse :: "string \<Rightarrow> recurrence option" where
  "recurrence_parse value =
     (let s = to_ascii_lowercase value in
      if s \<in> set [''none'', ''once'', ''one-shot''] then Some RecurNone
      else if s \<in> set [''daily'', ''day''] then Some Daily
      else if s \<in> set [''weekly'', ''week''] then Some Weekly
      else if s \<in> set [''monthly'', ''month''] then Some Monthly
      else None)"

definition is_recurring :: "recurrence \<Rightarrow> bool" where
  "is_recurring r \<longleftrightarrow> r \<noteq> RecurNone"

lemma media_kind_from_str_Ok_iff: "media_kind_from_str s = Ok k \<longleftrightarrow> s = media_kind_label k"
  by (cases k) (auto simp: media_kind_from_str_def)

lemma repeat_mode_parse_Ok_iff: "repeat_mode_parse s = Ok m \<longleftrightarrow> s = repeat_mode_label m"
  by (cases m) (auto simp: repeat_mode_parse_def)

interpretation media_kind_codec:
  strict_label_codec media_kind_label "\<lambda>s. result_ok (media_kind_from_str s)"
  by unfold_locales (auto simp: media_kind_from_str_Ok_iff)

interpretation repeat_mode_codec:
  strict_label_codec repeat_mode_label "\<lambda>s. result_ok (repeat_mode_parse s)"
  by unfold_locales (auto simp: repeat_mode_parse_Ok_iff)

interpretation recurrence_codec: label_codec recurrence_label recurrence_parse
proof
  fix r
  show "recurrence_parse (recurrence_label r) = Some r"
    by (cases r) (simp_all add: recurrence_parse_def to_ascii_lowercase_def ascii)
qed

lemma media_kind_from_str_Err: "media_kind_from_str s = Err e \<Longrightarrow> e = s"
  by (auto simp: media_kind_from_str_def split: if_splits)

lemma colon_notin_label: "CHR '':'' \<notin> set (media_kind_label k)"
  by (cases k) auto

section \<open>Open enums: known labels plus a catch-all\<close>

text \<open>
  \<open>AlbumGroup\<close> and \<open>ItemSource\<close> keep a provider's unknown value verbatim. Their contract is that
  the text form of a decoded value is the text it was decoded from.
\<close>

locale scalar_codec =
  fixes as_str :: "'a \<Rightarrow> string"
    and from_str :: "string \<Rightarrow> 'a"
  assumes as_str_from: "as_str (from_str s) = s"
begin

lemma from_str_inject: "from_str s = from_str t \<longleftrightarrow> s = t"
  by (metis as_str_from)

lemma from_as_stable: "from_str (as_str (from_str s)) = from_str s"
  by (simp add: as_str_from)

end

datatype album_group = GroupAlbum | GroupSingle | GroupCompilation | GroupAppearsOn | GroupOther string

primrec album_group_as_str :: "album_group \<Rightarrow> string" where
  "album_group_as_str GroupAlbum = ''album''"
| "album_group_as_str GroupSingle = ''single''"
| "album_group_as_str GroupCompilation = ''compilation''"
| "album_group_as_str GroupAppearsOn = ''appears_on''"
| "album_group_as_str (GroupOther v) = v"

definition album_group_from :: "string \<Rightarrow> album_group" where
  "album_group_from v =
     (if v = ''album'' then GroupAlbum
      else if v = ''single'' then GroupSingle
      else if v = ''compilation'' then GroupCompilation
      else if v = ''appears_on'' then GroupAppearsOn
      else GroupOther v)"

datatype item_source = SrcProvider string | SrcMercury | SrcLocal

primrec item_source_as_str :: "item_source \<Rightarrow> string" where
  "item_source_as_str (SrcProvider p) = p"
| "item_source_as_str SrcMercury = ''mercury''"
| "item_source_as_str SrcLocal = ''local''"

definition item_source_from :: "string \<Rightarrow> item_source" where
  "item_source_from v =
     (if v = ''mercury'' then SrcMercury
      else if v = ''local'' then SrcLocal
      else SrcProvider v)"

interpretation album_group_codec: scalar_codec album_group_as_str album_group_from
  by unfold_locales (simp add: album_group_from_def)

interpretation item_source_codec: scalar_codec item_source_as_str item_source_from
  by unfold_locales (simp add: item_source_from_def)

section \<open>Release dates\<close>

record release_date =
  rd_year :: u16
  rd_month :: "u8 option"
  rd_day :: "u8 option"

record release_date_error =
  rde_value :: string
  rde_reason :: string

text \<open>
  \<open>chrono::NaiveDate::from_ymd_opt\<close> is outside the repository: \<open>ymd_ok y m d\<close> says whether it
  returns a date.
\<close>

definition validate_release_date ::
    "(nat \<Rightarrow> nat \<Rightarrow> nat \<Rightarrow> bool) \<Rightarrow> u16 \<Rightarrow> u8 option \<Rightarrow> u8 option \<Rightarrow> (unit, string) result" where
  "validate_release_date ymd_ok year month day =
     (if year > 9999 then Err ''year must use at most four digits''
      else (case (month, day) of
          (None, None) \<Rightarrow> Ok ()
        | (None, Some _) \<Rightarrow> Err ''day requires a month''
        | (Some m, None) \<Rightarrow>
            if 1 \<le> m \<and> m \<le> 12 then Ok () else Err ''month must be between 01 and 12''
        | (Some m, Some d) \<Rightarrow>
            if ymd_ok year m d then Ok () else Err ''date is not valid''))"

definition release_date_new ::
    "(nat \<Rightarrow> nat \<Rightarrow> nat \<Rightarrow> bool) \<Rightarrow> u16 \<Rightarrow> u8 option \<Rightarrow> u8 option
      \<Rightarrow> (release_date, release_date_error) result" where
  "release_date_new ymd_ok year month day =
     (let value = (case (month, day) of
          (None, None) \<Rightarrow> show_nat_pad 4 year
        | (Some m, None) \<Rightarrow> show_nat_pad 4 year @ ''-'' @ show_nat_pad 2 m
        | (Some m, Some d) \<Rightarrow> show_nat_pad 4 year @ ''-'' @ show_nat_pad 2 m @ ''-'' @ show_nat_pad 2 d
        | (None, Some d) \<Rightarrow> show_nat_pad 4 year @ ''-??-'' @ show_nat_pad 2 d)
      in case validate_release_date ymd_ok year month day of
           Ok _ \<Rightarrow> Ok \<lparr>rd_year = year, rd_month = month, rd_day = day\<rparr>
         | Err reason \<Rightarrow> Err \<lparr>rde_value = value, rde_reason = reason\<rparr>)"

definition valid_date_widths :: "string list \<Rightarrow> bool" where
  "valid_date_widths parts = (case map length parts of
       [y] \<Rightarrow> y = 4
     | [y, m] \<Rightarrow> y = 4 \<and> m = 2
     | [y, m, d] \<Rightarrow> y = 4 \<and> m = 2 \<and> d = 2
     | _ \<Rightarrow> False)"

text \<open>The second and third component are optional: absent is \<open>None\<close>, present must parse as \<open>u8\<close>.\<close>

definition parse_date_part :: "string list \<Rightarrow> nat \<Rightarrow> 'e \<Rightarrow> (u8 option, 'e) result" where
  "parse_date_part parts i e =
     (if i < length parts
      then (case parse_uint 255 (parts ! i) of Some n \<Rightarrow> Ok (Some n) | None \<Rightarrow> Err e)
      else Ok None)"

definition release_date_from_str ::
    "(nat \<Rightarrow> nat \<Rightarrow> nat \<Rightarrow> bool) \<Rightarrow> string \<Rightarrow> (release_date, release_date_error) result" where
  "release_date_from_str ymd_ok value =
     (let parts = split_on (CHR ''-'') value;
          parse_error = \<lparr>rde_value = value, rde_reason = ''date components must be decimal numbers''\<rparr>
      in if \<not> valid_date_widths parts
         then Err \<lparr>rde_value = value, rde_reason = ''expected YYYY, YYYY-MM, or YYYY-MM-DD''\<rparr>
         else (case parse_uint 65535 (parts ! 0) of
             None \<Rightarrow> Err parse_error
           | Some year \<Rightarrow>
               result_bind (parse_date_part parts 1 parse_error) (\<lambda>month.
               result_bind (parse_date_part parts 2 parse_error) (\<lambda>day.
               map_err (\<lambda>err. \<lparr>rde_value = value, rde_reason = rde_reason err\<rparr>)
                 (release_date_new ymd_ok year month day)))))"

definition release_date_display :: "release_date \<Rightarrow> string" where
  "release_date_display d = (case (rd_month d, rd_day d) of
       (None, None) \<Rightarrow> show_nat_pad 4 (rd_year d)
     | (Some m, None) \<Rightarrow> show_nat_pad 4 (rd_year d) @ ''-'' @ show_nat_pad 2 m
     | (Some m, Some day) \<Rightarrow>
         show_nat_pad 4 (rd_year d) @ ''-'' @ show_nat_pad 2 m @ ''-'' @ show_nat_pad 2 day
     | (None, Some _) \<Rightarrow> show_nat_pad 4 (rd_year d))"

text \<open>The field decoder of \<open>MediaItem::release_date\<close>: a bad string is no date, never an error.\<close>

definition deserialize_lenient_release_date ::
    "(nat \<Rightarrow> nat \<Rightarrow> nat \<Rightarrow> bool) \<Rightarrow> string option \<Rightarrow> release_date option" where
  "deserialize_lenient_release_date ymd_ok raw =
     Option.bind raw (\<lambda>value. result_ok (release_date_from_str ymd_ok value))"

lemma split_dates:
  "CHR ''-'' \<notin> set y \<Longrightarrow> split_on (CHR ''-'') y = [y]"
  "CHR ''-'' \<notin> set y \<Longrightarrow> CHR ''-'' \<notin> set m \<Longrightarrow>
     split_on (CHR ''-'') (y @ CHR ''-'' # m) = [y, m]"
  "CHR ''-'' \<notin> set y \<Longrightarrow> CHR ''-'' \<notin> set m \<Longrightarrow> CHR ''-'' \<notin> set d \<Longrightarrow>
     split_on (CHR ''-'') (y @ CHR ''-'' # m @ CHR ''-'' # d) = [y, m, d]"
  by (simp_all add: split_on_absent split_on_append)

lemma no_dash_pad: "CHR ''-'' \<notin> set (show_nat_pad w n)"
  by (rule no_dash_digits) (rule show_nat_pad_digits)

lemma release_date_new_Ok_iff:
  "release_date_new ymd y m d = Ok r \<longleftrightarrow>
     validate_release_date ymd y m d = Ok () \<and> r = \<lparr>rd_year = y, rd_month = m, rd_day = d\<rparr>"
  by (auto simp: release_date_new_def Let_def split: result.splits)

text \<open>What \<open>from_ymd_opt\<close> documents: a date has a month in 1..12 and a day in 1..31.\<close>

definition ymd_in_calendar :: "(nat \<Rightarrow> nat \<Rightarrow> nat \<Rightarrow> bool) \<Rightarrow> bool" where
  "ymd_in_calendar ymd_ok \<longleftrightarrow>
     (\<forall>y m d. ymd_ok y m d \<longrightarrow> 1 \<le> m \<and> m \<le> 12 \<and> 1 \<le> d \<and> d \<le> 31)"

text \<open>A concrete proleptic Gregorian calendar, for evaluation.\<close>

definition gregorian_ymd :: "nat \<Rightarrow> nat \<Rightarrow> nat \<Rightarrow> bool" where
  "gregorian_ymd y m d \<longleftrightarrow> 1 \<le> m \<and> m \<le> 12 \<and> 1 \<le> d \<and>
     d \<le> (if m = 2 then (if (y mod 4 = 0 \<and> y mod 100 \<noteq> 0) \<or> y mod 400 = 0 then 29 else 28)
          else if m = 4 \<or> m = 6 \<or> m = 9 \<or> m = 11 then 30 else 31)"

lemma gregorian_in_calendar: "ymd_in_calendar gregorian_ymd"
  by (auto simp: ymd_in_calendar_def gregorian_ymd_def split: if_splits)

section \<open>Records\<close>

record artist_ref =
  ar_name :: string
  ar_uri :: string

record media_item =
  mi_id :: "string option"
  mi_uri :: string
  mi_name :: string
  mi_subtitle :: string
  mi_context :: string
  mi_duration_ms :: u64
  mi_image_url :: "string option"
  mi_kind :: media_kind
  mi_source :: "item_source option"
  mi_freshness :: "string option"
  mi_explicit :: "bool option"
  mi_is_playable :: "bool option"
  mi_album :: "string option"
  mi_added_at_ms :: "i64 option"
  mi_resume_position_ms :: "u64 option"
  mi_fully_played :: "bool option"
  mi_release_date :: "release_date option"
  mi_album_group :: "album_group option"
  mi_in_library :: "bool option"
  mi_album_uri :: "string option"
  mi_artists :: "artist_ref list"
  mi_genre :: "string option"

definition default_media_item :: media_item where
  "default_media_item =
     \<lparr>mi_id = None, mi_uri = [], mi_name = [], mi_subtitle = [], mi_context = [],
      mi_duration_ms = 0, mi_image_url = None, mi_kind = Track, mi_source = None,
      mi_freshness = None, mi_explicit = None, mi_is_playable = None, mi_album = None,
      mi_added_at_ms = None, mi_resume_position_ms = None, mi_fully_played = None,
      mi_release_date = None, mi_album_group = None, mi_in_library = None, mi_album_uri = None,
      mi_artists = [], mi_genre = None\<rparr>"

text \<open>\<open>MediaItem { uri, ..Default::default() }\<close>.\<close>

definition media_stub :: "string \<Rightarrow> media_item" where
  "media_stub uri = default_media_item\<lparr>mi_uri := uri\<rparr>"

record device =
  dev_id :: "string option"
  dev_name :: string
  dev_kind :: string
  dev_is_active :: bool
  dev_is_restricted :: bool
  dev_volume_percent :: "u8 option"
  dev_supports_volume :: bool

text \<open>What a sync pass covers (\<open>spotuify-protocol/src/lib.rs\<close>).\<close>

datatype sync_target = TargetAll | TargetPlayback | TargetQueue | TargetDevices | TargetPlaylists | TargetRecent | TargetLibrary

primrec sync_target_label :: "sync_target \<Rightarrow> string" where
  "sync_target_label TargetAll = ''all''"
| "sync_target_label TargetPlayback = ''playback''"
| "sync_target_label TargetQueue = ''queue''"
| "sync_target_label TargetDevices = ''devices''"
| "sync_target_label TargetPlaylists = ''playlists''"
| "sync_target_label TargetRecent = ''recent''"
| "sync_target_label TargetLibrary = ''library''"

record playlist =
  pl_id :: string
  pl_name :: string
  pl_owner :: string
  pl_tracks_total :: u64
  pl_image_url :: "string option"
  pl_version_token :: "string option"

record queue =
  q_currently_playing :: "media_item option"
  q_items :: "media_item list"
  q_session_active :: bool
  q_as_of_ms :: i64

datatype playback_state_source = PlayerEvent | CommandResult | RemotePoll | Cache | RecentFallback

lemma media_stub_uri [simp]: "mi_uri (media_stub u) = u"
  by (simp add: media_stub_def)

lemma media_stub_fields [simp]:
  "mi_duration_ms (media_stub u) = 0" "mi_kind (media_stub u) = Track" "mi_name (media_stub u) = []"
  by (simp_all add: media_stub_def default_media_item_def)

section \<open>Lyrics\<close>

record lyric_line =
  ll_start_ms :: u64
  ll_text :: string
  ll_is_rtl :: bool

text \<open>\<open>slice::partition_point\<close> on a slice its predicate partitions: the length of the true prefix.\<close>

definition partition_point :: "('a \<Rightarrow> bool) \<Rightarrow> 'a list \<Rightarrow> nat" where
  "partition_point P xs = length (takeWhile P xs)"

definition lyric_position :: "u64 \<Rightarrow> i64 \<Rightarrow> u64" where
  "lyric_position position_ms offset_ms =
     (if offset_ms < 0 then position_ms - nat \<bar>offset_ms\<bar>
      else sat_u64 (position_ms + nat offset_ms))"

definition active_lyric_line_index :: "lyric_line list \<Rightarrow> u64 \<Rightarrow> i64 \<Rightarrow> nat option" where
  "active_lyric_line_index lines position_ms offset_ms =
     (if lines = [] then None
      else (let adjusted = lyric_position position_ms offset_ms;
                idx = partition_point (\<lambda>l. ll_start_ms l \<le> adjusted) lines
            in Some (idx - 1)))"

section \<open>Properties\<close>

lemma release_date_bounds:
  assumes "ymd_in_calendar ymd" and "validate_release_date ymd y m d = Ok ()"
  shows "y \<le> 9999" and "m = Some k \<Longrightarrow> k \<le> 12" and "d = Some j \<Longrightarrow> j \<le> 31"
    and "m = None \<Longrightarrow> d = None"
  using assms
  by (auto simp: validate_release_date_def ymd_in_calendar_def split: if_splits option.splits)

lemma date_part_widths:
  "n \<le> 9999 \<Longrightarrow> length (show_nat_pad 4 n) = 4" "n \<le> 31 \<Longrightarrow> length (show_nat_pad 2 n) = 2"
  by (rule length_show_nat_pad; simp)+

text \<open>
  Every release date the constructor accepts is read back from its text form (year, year-month
  or full date precision) by \<open>FromStr\<close>, provided the calendar library only accepts months up to 12
  and days up to 31.
\<close>

theorem release_date_roundtrip:
  assumes cal: "ymd_in_calendar ymd"
    and new: "release_date_new ymd y m d = Ok r"
  shows "release_date_from_str ymd (release_date_display r) = Ok r"
proof -
  from new have v: "validate_release_date ymd y m d = Ok ()"
    and r: "r = \<lparr>rd_year = y, rd_month = m, rd_day = d\<rparr>"
    by (auto simp: release_date_new_Ok_iff)
  note b = release_date_bounds [OF cal v]
  show ?thesis
  proof (cases m)
    case None
    with b(4) r v b(1) show ?thesis
      by (simp add: release_date_from_str_def release_date_display_def Let_def split_dates no_dash_pad
          valid_date_widths_def date_part_widths parse_uint_show_pad parse_date_part_def
          release_date_new_Ok_iff)
  next
    case m: (Some k)
    show ?thesis
    proof (cases d)
      case None
      with m b(1) b(2) [OF m] r v show ?thesis
        by (simp add: release_date_from_str_def release_date_display_def Let_def split_dates no_dash_pad
            valid_date_widths_def date_part_widths parse_uint_show_pad parse_date_part_def
            release_date_new_Ok_iff)
    next
      case d: (Some j)
      with m b(1) b(2) [OF m] b(3) [OF d] r v show ?thesis
        by (simp add: release_date_from_str_def release_date_display_def Let_def split_dates no_dash_pad
            valid_date_widths_def date_part_widths parse_uint_show_pad parse_date_part_def
            release_date_new_Ok_iff)
    qed
  qed
qed

theorem release_date_roundtrip_witness:
  "release_date_from_str gregorian_ymd
     (release_date_display \<lparr>rd_year = 2024, rd_month = Some 2, rd_day = Some 29\<rparr>)
   = Ok \<lparr>rd_year = 2024, rd_month = Some 2, rd_day = Some 29\<rparr>"
proof (rule release_date_roundtrip [OF gregorian_in_calendar])
  show "release_date_new gregorian_ymd 2024 (Some 2) (Some 29)
    = Ok \<lparr>rd_year = 2024, rd_month = Some 2, rd_day = Some 29\<rparr>"
    by (simp add: release_date_new_Ok_iff validate_release_date_def gregorian_ymd_def)
qed

text \<open>
  The date parser is wider than the shapes it announces. Rust's integer parser takes a leading
  plus sign, so the four-byte text \<open>+999\<close> is accepted as the year 999 and its text form differs
  from the text that was parsed.
\<close>

lemma release_date_accepts_plus_sign:
  "release_date_from_str ymd ''+999'' = Ok \<lparr>rd_year = 999, rd_month = None, rd_day = None\<rparr> \<and>
   release_date_display \<lparr>rd_year = 999, rd_month = None, rd_day = None\<rparr> = ''0999''"
proof
  have "digits_value ''999'' = 999"
    by (simp add: digits_value_def byte_def)
  then show "release_date_from_str ymd ''+999'' = Ok \<lparr>rd_year = 999, rd_month = None, rd_day = None\<rparr>"
    by (simp add: release_date_from_str_def valid_date_widths_def parse_uint_def ascii
        parse_date_part_def release_date_new_Ok_iff validate_release_date_def)
  have "show_nat 999 = ''999''"
    by (simp add: show_nat.simps) code_simp
  then show "release_date_display \<lparr>rd_year = 999, rd_month = None, rd_day = None\<rparr> = ''0999''"
    by (simp add: release_date_display_def show_nat_pad_def)
qed

lemma sorted_takeWhile_nth:
  assumes "sorted (map f xs)" and "i < length xs"
  shows "i < length (takeWhile (\<lambda>x. f x \<le> a) xs) \<longleftrightarrow> f (xs ! i) \<le> (a :: 'b :: linorder)"
proof
  assume "i < length (takeWhile (\<lambda>x. f x \<le> a) xs)"
  then show "f (xs ! i) \<le> a"
    by (metis nth_mem set_takeWhileD takeWhile_nth)
next
  assume le: "f (xs ! i) \<le> a"
  show "i < length (takeWhile (\<lambda>x. f x \<le> a) xs)"
  proof (rule ccontr)
    let ?n = "length (takeWhile (\<lambda>x. f x \<le> a) xs)"
    assume "\<not> i < ?n"
    then have n: "?n < length xs" "?n \<le> i" using assms(2) by auto
    from nth_length_takeWhile [OF n(1)] have "\<not> f (xs ! ?n) \<le> a" .
    moreover have "f (xs ! ?n) \<le> f (xs ! i)"
      using sorted_nth_mono [OF assms(1), of ?n i] n assms(2) by simp
    ultimately show False using le by simp
  qed
qed

text \<open>
  On lyrics sorted by start time, the highlighted line is the last one that has started at the
  offset-adjusted position; before the first line it is line 0. The index is always in range.
\<close>

theorem active_lyric_line_correct:
  assumes "sorted (map ll_start_ms ls)" and "active_lyric_line_index ls pos off = Some i"
  shows "i < length ls \<and>
    (ll_start_ms (ls ! 0) \<le> lyric_position pos off \<longrightarrow> ll_start_ms (ls ! i) \<le> lyric_position pos off) \<and>
    (\<forall>j < length ls. i < j \<longrightarrow> lyric_position pos off < ll_start_ms (ls ! j))"
proof -
  let ?a = "lyric_position pos off"
  let ?n = "length (takeWhile (\<lambda>l. ll_start_ms l \<le> ?a) ls)"
  from assms(2) have ne: "ls \<noteq> []" and i: "i = ?n - 1"
    by (auto simp: active_lyric_line_index_def partition_point_def Let_def split: if_splits)
  have n: "?n \<le> length ls" by (rule length_takeWhile_le)
  with ne i have lt: "i < length ls" by (cases ls) auto
  have iff: "j < ?n \<longleftrightarrow> ll_start_ms (ls ! j) \<le> ?a" if "j < length ls" for j
    using sorted_takeWhile_nth [OF assms(1), of j ?a] that by simp
  have "?a < ll_start_ms (ls ! j)" if "i < j" "j < length ls" for j
    using iff [of j] that i by auto
  moreover have "ll_start_ms (ls ! i) \<le> ?a" if "ll_start_ms (ls ! 0) \<le> ?a"
    using iff [of i] iff [of 0] that ne i lt by auto
  ultimately show ?thesis using lt by blast
qed

theorem active_lyric_line_correct_witness:
  "let ls = [\<lparr>ll_start_ms = 0, ll_text = ''a'', ll_is_rtl = False\<rparr>,
             \<lparr>ll_start_ms = 1000, ll_text = ''b'', ll_is_rtl = False\<rparr>,
             \<lparr>ll_start_ms = 2000, ll_text = ''c'', ll_is_rtl = False\<rparr>]
   in active_lyric_line_index ls 1600 (-500) = Some 1
      \<and> lyric_position 1600 (-500) < ll_start_ms (ls ! 2)"
proof -
  let ?ls = "[\<lparr>ll_start_ms = 0, ll_text = ''a'', ll_is_rtl = False\<rparr>,
             \<lparr>ll_start_ms = 1000, ll_text = ''b'', ll_is_rtl = False\<rparr>,
             \<lparr>ll_start_ms = 2000, ll_text = ''c'', ll_is_rtl = False\<rparr>]"
  have s: "sorted (map ll_start_ms ?ls)" by simp
  have a: "active_lyric_line_index ?ls 1600 (-500) = Some 1"
    by (simp add: active_lyric_line_index_def partition_point_def lyric_position_def)
  from active_lyric_line_correct [OF s a] have
    "\<forall>j < length ?ls. 1 < j \<longrightarrow> lyric_position 1600 (-500) < ll_start_ms (?ls ! j)" by blast
  then have "2 < length ?ls \<longrightarrow> 1 < (2::nat) \<longrightarrow> lyric_position 1600 (-500) < ll_start_ms (?ls ! 2)" by blast
  with a show ?thesis by simp
qed

end
