(* ===== verification/Queue_Merge.thy ===== *)
theory Queue_Merge
  imports Media
begin

text \<open>
  \<open>spotuify-core/src/queue_merge.rs\<close>: merging a freshly fetched, truncated provider queue with the
  cached one. \<open>reattach_cached_queue_tail\<close> is the merge, \<open>reconcile_provider_queue\<close> the entry point
  every queue write path uses, \<open>queue_tail_anchor\<close> the anchor computed from the raw fetch.
\<close>

definition ANCHOR_MISS_PRESERVE_WINDOW_MS :: i64 where
  "ANCHOR_MISS_PRESERVE_WINDOW_MS = 10000"

abbreviation uris :: "media_item list \<Rightarrow> string list" where
  "uris \<equiv> map mi_uri"

definition tail_start_of :: "queue \<Rightarrow> string \<Rightarrow> nat option" where
  "tail_start_of cached anchor =
     (if (case q_currently_playing cached of None \<Rightarrow> False | Some item \<Rightarrow> mi_uri item = anchor)
      then Some 0
      else map_option Suc (position (\<lambda>item. mi_uri item = anchor) (q_items cached)))"

definition reattach_cached_queue_tail ::
    "queue \<Rightarrow> string option \<Rightarrow> queue \<Rightarrow> bool \<Rightarrow> i64 \<Rightarrow> queue" where
  "reattach_cached_queue_tail queue anchor_uri cached shuffle now_ms =
     (if shuffle then queue
      else case anchor_uri of
        None \<Rightarrow> queue
      | Some anchor \<Rightarrow>
          (case tail_start_of cached anchor of
             None \<Rightarrow>
               let cache_is_fresh =
                     sat_i64 (now_ms - q_as_of_ms cached) < ANCHOR_MISS_PRESERVE_WINDOW_MS
               in if q_items queue = [] \<and> cache_is_fresh \<and> q_items cached \<noteq> []
                  then let current_uri = map_option mi_uri (q_currently_playing queue)
                       in queue\<lparr>q_items := filter (\<lambda>item. Some (mi_uri item) \<noteq> current_uri) (q_items cached),
                                q_session_active := True,
                                q_as_of_ms := now_ms\<rparr>
                  else queue
           | Some tail_start \<Rightarrow>
               let existing = set (uris (q_items queue));
                   tail = filter (\<lambda>item. mi_uri item \<notin> existing) (drop tail_start (q_items cached))
               in queue\<lparr>q_items := q_items queue @ tail, q_as_of_ms := now_ms\<rparr>))"

definition reconcile_provider_queue ::
    "queue \<Rightarrow> string option \<Rightarrow> queue \<Rightarrow> bool \<Rightarrow> i64 \<Rightarrow> bool \<Rightarrow> queue" where
  "reconcile_provider_queue queue anchor_uri cached shuffle now_ms snapshots_complete =
     (if snapshots_complete then queue
      else reattach_cached_queue_tail queue anchor_uri cached shuffle now_ms)"

definition queue_tail_anchor :: "queue \<Rightarrow> string option" where
  "queue_tail_anchor raw_fetched =
     (case map_option mi_uri (if q_items raw_fetched = [] then None else Some (last (q_items raw_fetched))) of
        Some u \<Rightarrow> Some u
      | None \<Rightarrow> map_option mi_uri (q_currently_playing raw_fetched))"

section \<open>Case lemmas\<close>

lemma tail_start_of_le: "tail_start_of cached a = Some n \<Longrightarrow> n \<le> length (q_items cached)"
  by (auto simp: tail_start_of_def split: if_splits option.splits dest: position_less)

lemma reattach_hit:
  assumes "\<not> shuffle" and "tail_start_of cached a = Some n"
  shows "q_items (reattach_cached_queue_tail q (Some a) cached shuffle now) =
    q_items q @ filter (\<lambda>i. mi_uri i \<notin> set (uris (q_items q))) (drop n (q_items cached))"
  using assms by (simp add: reattach_cached_queue_tail_def Let_def)

lemma reattach_keeps_current [simp]:
  "q_currently_playing (reattach_cached_queue_tail q a cached sh now) = q_currently_playing q"
  by (auto simp: reattach_cached_queue_tail_def Let_def split: option.splits)

lemma reattach_items_disj:
  "q_items (reattach_cached_queue_tail q a cached sh now) = q_items q \<or>
   (\<exists>n. q_items (reattach_cached_queue_tail q a cached sh now) =
      q_items q @ filter (\<lambda>i. mi_uri i \<notin> set (uris (q_items q))) (drop n (q_items cached))) \<or>
   (q_items q = [] \<and> q_items (reattach_cached_queue_tail q a cached sh now) =
      filter (\<lambda>i. Some (mi_uri i) \<noteq> map_option mi_uri (q_currently_playing q)) (q_items cached))"
proof (cases "sh \<or> a = None")
  case True
  then show ?thesis by (auto simp: reattach_cached_queue_tail_def)
next
  case False
  then obtain u where "\<not> sh" "a = Some u" by auto
  then show ?thesis
    by (cases "tail_start_of cached u") (auto simp: reattach_cached_queue_tail_def Let_def)
qed

lemma reattach_items_cases:
  obtains "q_items (reattach_cached_queue_tail q a cached sh now) = q_items q"
  | n where "q_items (reattach_cached_queue_tail q a cached sh now) =
      q_items q @ filter (\<lambda>i. mi_uri i \<notin> set (uris (q_items q))) (drop n (q_items cached))"
  | "q_items q = []" "q_items (reattach_cached_queue_tail q a cached sh now) =
      filter (\<lambda>i. Some (mi_uri i) \<noteq> map_option mi_uri (q_currently_playing q)) (q_items cached)"
  using reattach_items_disj [of q a cached sh now] by blast

lemma distinct_uris_filter: "distinct (uris xs) \<Longrightarrow> distinct (uris (filter P xs))"
  by (simp add: distinct_map_filter)

lemma distinct_uris_drop: "distinct (uris xs) \<Longrightarrow> distinct (uris (drop n xs))"
  by (metis distinct_drop drop_map)

lemma reattach_distinct:
  assumes "distinct (uris (q_items q))" and "distinct (uris (q_items cached))"
  shows "distinct (uris (q_items (reattach_cached_queue_tail q a cached sh now)))"
proof (rule reattach_items_cases [of q a cached sh now])
  fix n
  assume r: "q_items (reattach_cached_queue_tail q a cached sh now) =
      q_items q @ filter (\<lambda>i. mi_uri i \<notin> set (uris (q_items q))) (drop n (q_items cached))"
  show ?thesis
    unfolding r using assms by (auto simp: distinct_uris_filter distinct_uris_drop) (metis image_eqI)
qed (use assms in \<open>simp_all add: distinct_uris_filter\<close>)

lemma reattach_prefix:
  "\<exists>tail. q_items (reattach_cached_queue_tail q a cached sh now) = q_items q @ tail"
  by (rule reattach_items_cases [of q a cached sh now]) auto

lemma reattach_from_both:
  "set (q_items (reattach_cached_queue_tail q a cached sh now)) \<subseteq> set (q_items q) \<union> set (q_items cached)"
  by (rule reattach_items_cases [of q a cached sh now]) (auto dest: in_set_dropD)

section \<open>Properties\<close>

text \<open>
  C2: Reconciling never loses or reorders what the provider just reported: the fetched items are a
  prefix of the merged queue, every added item comes from the cache, the playing track is
  untouched, and a queue of distinct tracks merged with one of distinct tracks has no duplicates.
\<close>

theorem reconcile_provider_queue_safe:
  "let q' = reconcile_provider_queue q a cached sh now complete in
     (\<exists>tail. q_items q' = q_items q @ tail \<and> set tail \<subseteq> set (q_items cached)) \<and>
     q_currently_playing q' = q_currently_playing q \<and>
     (distinct (uris (q_items q)) \<and> distinct (uris (q_items cached)) \<longrightarrow> distinct (uris (q_items q')))"
proof (cases complete)
  case True
  then show ?thesis by (simp add: reconcile_provider_queue_def)
next
  case False
  let ?m = "reattach_cached_queue_tail q a cached sh now"
  have "\<exists>tail. q_items ?m = q_items q @ tail \<and> set tail \<subseteq> set (q_items cached)"
    by (rule reattach_items_cases [of q a cached sh now]) (auto dest: in_set_dropD)
  with False show ?thesis
    by (simp add: reconcile_provider_queue_def reattach_distinct)
qed

theorem reconcile_provider_queue_safe_witness:
  "let q = \<lparr>q_currently_playing = None, q_items = [media_stub ''a''], q_session_active = True, q_as_of_ms = 0\<rparr>;
       c = \<lparr>q_currently_playing = None, q_items = [media_stub ''a'', media_stub ''b''],
            q_session_active = True, q_as_of_ms = 0\<rparr>
   in uris (q_items (reconcile_provider_queue q (Some ''a'') c False 5 False)) = [''a'', ''b'']
      \<and> distinct (uris (q_items (reconcile_provider_queue q (Some ''a'') c False 5 False)))"
proof -
  let ?q = "\<lparr>q_currently_playing = None, q_items = [media_stub ''a''], q_session_active = True, q_as_of_ms = 0\<rparr>"
  let ?c = "\<lparr>q_currently_playing = None, q_items = [media_stub ''a'', media_stub ''b''],
            q_session_active = True, q_as_of_ms = 0\<rparr>"
  have "distinct (uris (q_items ?q)) \<and> distinct (uris (q_items ?c))" by simp
  with reconcile_provider_queue_safe [of ?q "Some ''a''" ?c False 5 False]
  have "distinct (uris (q_items (reconcile_provider_queue ?q (Some ''a'') ?c False 5 False)))"
    by (simp only: Let_def)
  moreover have "uris (q_items (reconcile_provider_queue ?q (Some ''a'') ?c False 5 False)) = [''a'', ''b'']"
    by (simp add: reconcile_provider_queue_def reattach_cached_queue_tail_def tail_start_of_def)
  ultimately show ?thesis by simp
qed

text \<open>
  C1: The live bug the module exists for cannot come back. When the provider truncates a long queue
  (a fetched window that is a prefix of the cached queue of distinct tracks), the merge anchored on
  the raw fetch restores the whole cached queue.
\<close>

theorem truncated_fetch_restores_queue:
  assumes "\<not> shuffle"
    and window: "q_items fetched = take n (q_items cached)" "q_items fetched \<noteq> []"
    and playing: "q_currently_playing fetched = q_currently_playing cached"
    and dist: "distinct (uris (q_items cached))"
    and cur: "\<forall>c. q_currently_playing cached = Some c \<longrightarrow> mi_uri c \<notin> set (uris (q_items cached))"
  shows "q_items (reconcile_provider_queue fetched (queue_tail_anchor fetched) cached shuffle now False)
    = q_items cached"
proof -
  let ?xs = "q_items cached"
  define k where "k = length (q_items fetched)"
  from window have k: "0 < k" "k \<le> length ?xs" "q_items fetched = take k ?xs"
    by (auto simp: k_def min_def)
  define a where "a = mi_uri (?xs ! (k - 1))"
  have anchor: "queue_tail_anchor fetched = Some a"
    using k window(2) by (simp add: queue_tail_anchor_def a_def last_conv_nth)
  have in_range: "k - 1 < length ?xs" using k by simp
  have "position (\<lambda>i. mi_uri i = a) ?xs = Some (k - 1)"
    using dist in_range by (auto simp: position_Some_iff a_def distinct_conv_nth)
  moreover have "a \<in> set (uris ?xs)" using in_range by (auto simp: a_def)
  ultimately have ts: "tail_start_of cached a = Some k"
    using cur k(1) by (auto simp: tail_start_of_def split: option.splits)
  have "set (uris (take k ?xs)) \<inter> set (uris (drop k ?xs)) = {}"
    using dist by (simp add: take_map [symmetric] drop_map [symmetric] set_take_disj_set_drop_if_distinct
        del: set_map)
  then have "filter (\<lambda>i. mi_uri i \<notin> set (uris (take k ?xs))) (drop k ?xs) = drop k ?xs"
    by (auto simp: filter_id_conv)
  then show ?thesis
    using reattach_hit [OF assms(1) ts, of fetched now] anchor k(3)
    by (simp add: reconcile_provider_queue_def)
qed

theorem truncated_fetch_restores_queue_witness:
  "let cached = \<lparr>q_currently_playing = Some (media_stub ''p''),
                 q_items = [media_stub ''a'', media_stub ''b'', media_stub ''c''],
                 q_session_active = True, q_as_of_ms = 0\<rparr>;
       fetched = cached\<lparr>q_items := [media_stub ''a'']\<rparr>
   in q_items (reconcile_provider_queue fetched (queue_tail_anchor fetched) cached False 50 False)
      = q_items cached"
  unfolding Let_def
  by (rule truncated_fetch_restores_queue [where n = 1]) simp_all

text \<open>
  The anchor-miss rule. With an anchor the cache does not know, a non-empty fetch replaces the
  cache as it is; an empty fetch keeps the cached upcoming list only while the cache is younger than
  ten seconds, and then without the track that is now playing.
\<close>

theorem anchor_miss_cases:
  assumes miss: "a \<notin> set (uris (q_items cached))"
    "\<forall>c. q_currently_playing cached = Some c \<longrightarrow> mi_uri c \<noteq> a"
  shows "q_items (reconcile_provider_queue q (Some a) cached False now False) =
    (if q_items q = [] \<and> sat_i64 (now - q_as_of_ms cached) < 10000
     then filter (\<lambda>i. Some (mi_uri i) \<noteq> map_option mi_uri (q_currently_playing q)) (q_items cached)
     else q_items q)"
proof -
  have "position (\<lambda>i. mi_uri i = a) (q_items cached) = None" using miss(1) by auto
  with miss(2) have "tail_start_of cached a = None"
    by (auto simp: tail_start_of_def split: option.splits)
  then show ?thesis
    by (simp add: reconcile_provider_queue_def reattach_cached_queue_tail_def Let_def
        ANCHOR_MISS_PRESERVE_WINDOW_MS_def)
qed

theorem anchor_miss_cases_witness:
  "let cached = \<lparr>q_currently_playing = Some (media_stub ''p''), q_items = [media_stub ''x'', media_stub ''b''],
                 q_session_active = True, q_as_of_ms = 95\<rparr>;
       q = \<lparr>q_currently_playing = Some (media_stub ''x''), q_items = [], q_session_active = True, q_as_of_ms = 0\<rparr>
   in uris (q_items (reconcile_provider_queue q (Some ''auto'') cached False 100 False)) = [''b'']"
proof -
  let ?c = "\<lparr>q_currently_playing = Some (media_stub ''p''), q_items = [media_stub ''x'', media_stub ''b''],
                 q_session_active = True, q_as_of_ms = 95\<rparr>"
  let ?q = "\<lparr>q_currently_playing = Some (media_stub ''x''), q_items = [], q_session_active = True, q_as_of_ms = 0\<rparr>"
  have m: "''auto'' \<notin> set (uris (q_items ?c))"
    "\<forall>c. q_currently_playing ?c = Some c \<longrightarrow> mi_uri c \<noteq> ''auto''" by simp_all
  show ?thesis
    using anchor_miss_cases [OF m, of ?q 100] by (simp add: sat_i64_def i64_min_def i64_max_def)
qed

end
