(* ===== verification/Resource_Uri.thy ===== *)
theory Resource_Uri
  imports Media
begin

text \<open>
  \<open>spotuify-core/src/uri.rs\<close>: provider URI schemes, canonical resource URIs
  \<open>scheme:kind:id\<close> with their strict parser, and the typed Spotify identifiers. The sources keep
  the fields private, so that the constructors' checks hold of every value; \<open>wf_resource_uri\<close>
  is that invariant.
\<close>

section \<open>Schemes\<close>

type_synonym uri_scheme = string

definition scheme_spotify :: uri_scheme where "scheme_spotify = ''spotify''"
definition scheme_fake :: uri_scheme where "scheme_fake = ''fake''"

definition uri_scheme_new :: "string \<Rightarrow> (uri_scheme, string) result" where
  "uri_scheme_new value =
     (let valid = (case value of
          [] \<Rightarrow> False
        | c # cs \<Rightarrow> is_ascii_lowercase c \<and>
            list_all (\<lambda>b. is_ascii_lowercase b \<or> is_ascii_digit b \<or> b = CHR ''-'') cs)
      in if \<not> valid then Err value else Ok value)"

section \<open>Resource URIs\<close>

datatype uri_error =
    InvalidShape
  | UnsupportedScheme string
  | UnsupportedKind string
  | UnexpectedKind media_kind media_kind
  | EmptyId
  | InvalidId string

record resource_uri =
  ru_scheme :: uri_scheme
  ru_kind :: media_kind
  ru_id :: string

definition is_id_byte :: "char \<Rightarrow> bool" where
  "is_id_byte b \<longleftrightarrow> is_ascii_alphanumeric b \<or> b \<in> {CHR ''-'', CHR ''.'', CHR ''_'', CHR ''~''}"

definition validate_bare_id :: "string \<Rightarrow> (unit, uri_error) result" where
  "validate_bare_id i =
     (if i = [] then Err EmptyId
      else if \<not> list_all is_id_byte i then Err (InvalidId i)
      else Ok ())"

definition resource_uri_new :: "uri_scheme \<Rightarrow> media_kind \<Rightarrow> string \<Rightarrow> (resource_uri, uri_error) result" where
  "resource_uri_new scheme kind i =
     (case validate_bare_id i of
        Err e \<Rightarrow> Err e
      | Ok _ \<Rightarrow> Ok \<lparr>ru_scheme = scheme, ru_kind = kind, ru_id = i\<rparr>)"

definition resource_uri_spotify :: "media_kind \<Rightarrow> string \<Rightarrow> (resource_uri, uri_error) result" where
  "resource_uri_spotify kind i = resource_uri_new scheme_spotify kind i"

definition resource_uri_parse :: "string \<Rightarrow> (resource_uri, uri_error) result" where
  "resource_uri_parse input = (case split_on (CHR '':'') input of
       [scheme, kind, i] \<Rightarrow>
         result_bind (map_err UnsupportedScheme (uri_scheme_new scheme)) (\<lambda>scheme.
         result_bind (map_err UnsupportedKind (media_kind_from_str kind)) (\<lambda>kind.
         resource_uri_new scheme kind i))
     | _ \<Rightarrow> Err InvalidShape)"

definition as_uri :: "resource_uri \<Rightarrow> string" where
  "as_uri u = ru_scheme u @ '':'' @ media_kind_label (ru_kind u) @ '':'' @ ru_id u"

definition spotify_from_uri_or_id :: "media_kind \<Rightarrow> string \<Rightarrow> (resource_uri, uri_error) result" where
  "spotify_from_uri_or_id kind input = (case resource_uri_parse input of
       Ok resource \<Rightarrow>
         if ru_scheme resource \<noteq> scheme_spotify then Err (UnsupportedScheme (ru_scheme resource))
         else if ru_kind resource = kind then Ok resource
         else Err (UnexpectedKind kind (ru_kind resource))
     | Err InvalidShape \<Rightarrow> resource_uri_spotify kind input
     | Err err \<Rightarrow> Err err)"

text \<open>The macro \<open>spotify_id_newtype\<close>: one bare-id type per kind; the id is stored verbatim.\<close>

definition typed_id_from_uri :: "media_kind \<Rightarrow> string \<Rightarrow> string option" where
  "typed_id_from_uri kind uri = (case resource_uri_parse uri of
       Err _ \<Rightarrow> None
     | Ok parsed \<Rightarrow>
         if ru_scheme parsed = scheme_spotify \<and> ru_kind parsed = kind then Some (ru_id parsed) else None)"

definition typed_id_to_uri :: "media_kind \<Rightarrow> string \<Rightarrow> string" where
  "typed_id_to_uri kind i = ''spotify:'' @ media_kind_label kind @ '':'' @ i"

section \<open>The invariant of canonical URIs\<close>

definition wf_scheme :: "string \<Rightarrow> bool" where
  "wf_scheme s \<longleftrightarrow> uri_scheme_new s = Ok s"

definition wf_resource_uri :: "resource_uri \<Rightarrow> bool" where
  "wf_resource_uri u \<longleftrightarrow> wf_scheme (ru_scheme u) \<and> validate_bare_id (ru_id u) = Ok ()"

lemma uri_scheme_new_Ok_iff: "uri_scheme_new v = Ok s \<longleftrightarrow> wf_scheme v \<and> s = v"
  by (auto simp: wf_scheme_def uri_scheme_new_def Let_def split: if_splits list.splits)

lemma uri_scheme_new_Err: "uri_scheme_new v = Err e \<Longrightarrow> e = v"
  by (auto simp: uri_scheme_new_def Let_def split: if_splits list.splits)

lemma colon_not_id_byte: "\<not> is_id_byte (CHR '':'')"
  by (simp add: is_id_byte_def ascii)

lemma wf_scheme_no_colon: "wf_scheme s \<Longrightarrow> CHR '':'' \<notin> set s"
  by (cases s) (auto simp: wf_scheme_def uri_scheme_new_def list_all_iff ascii split: if_splits)

lemma bare_id_no_colon: "validate_bare_id i = Ok () \<Longrightarrow> CHR '':'' \<notin> set i"
  by (auto simp: validate_bare_id_def list_all_iff colon_not_id_byte split: if_splits)

lemma wf_scheme_spotify [simp]: "wf_scheme scheme_spotify"
  by (simp add: wf_scheme_def scheme_spotify_def uri_scheme_new_def ascii)

lemma wf_scheme_fake [simp]: "wf_scheme scheme_fake"
  by (simp add: wf_scheme_def scheme_fake_def uri_scheme_new_def ascii)

lemma resource_uri_new_Ok_iff:
  "resource_uri_new sc k i = Ok u \<longleftrightarrow>
     validate_bare_id i = Ok () \<and> u = \<lparr>ru_scheme = sc, ru_kind = k, ru_id = i\<rparr>"
  by (auto simp: resource_uri_new_def split: result.splits)

lemma split_as_uri:
  "wf_resource_uri u \<Longrightarrow>
     split_on (CHR '':'') (as_uri u) = [ru_scheme u, media_kind_label (ru_kind u), ru_id u]"
  by (simp add: as_uri_def wf_resource_uri_def split_on_append split_on_absent wf_scheme_no_colon
      bare_id_no_colon colon_notin_label)

lemma split3_join:
  assumes "split_on d s = [a, b, c]"
  shows "s = a @ d # b @ d # c"
  using join_split_on [of d s] assms by simp

lemma resource_uri_parse_Ok_iff:
  "resource_uri_parse s = Ok u \<longleftrightarrow> wf_resource_uri u \<and> s = as_uri u"
proof
  assume "resource_uri_parse s = Ok u"
  then obtain sc k i where sp: "split_on (CHR '':'') s = [sc, k, i]"
    and ok: "result_bind (map_err UnsupportedScheme (uri_scheme_new sc)) (\<lambda>scheme.
         result_bind (map_err UnsupportedKind (media_kind_from_str k)) (\<lambda>kind.
         resource_uri_new scheme kind i)) = Ok u"
    by (auto simp: resource_uri_parse_def split: list.splits)
  from ok obtain kk where "wf_scheme sc" "k = media_kind_label kk" "validate_bare_id i = Ok ()"
    "u = \<lparr>ru_scheme = sc, ru_kind = kk, ru_id = i\<rparr>"
    by (auto simp: uri_scheme_new_Ok_iff media_kind_from_str_Ok_iff resource_uri_new_Ok_iff)
  then show "wf_resource_uri u \<and> s = as_uri u"
    using split3_join [OF sp] by (simp add: wf_resource_uri_def as_uri_def)
next
  assume u: "wf_resource_uri u \<and> s = as_uri u"
  then have "wf_scheme (ru_scheme u)" "validate_bare_id (ru_id u) = Ok ()"
    by (simp_all add: wf_resource_uri_def)
  with u show "resource_uri_parse s = Ok u"
    by (auto simp: resource_uri_parse_def split_as_uri uri_scheme_new_Ok_iff
        media_kind_from_str_Ok_iff resource_uri_new_Ok_iff intro!: exI [of _ "ru_kind u"])
qed

section \<open>Properties\<close>

text \<open>
  C31: The strict parser and the printer are inverse: a text parses to \<open>u\<close> exactly when \<open>u\<close>
  satisfies the constructors' invariant and the text is \<open>u\<close>'s canonical form. So no two texts
  denote the same resource, and every canonical URI survives the wire.
\<close>

theorem resource_uri_parse_print:
  "(resource_uri_parse s = Ok u) = (wf_resource_uri u \<and> s = as_uri u)"
  by (rule resource_uri_parse_Ok_iff)

lemma parse_bare_id_shape: "validate_bare_id i = Ok () \<Longrightarrow> resource_uri_parse i = Err InvalidShape"
  by (simp add: resource_uri_parse_def split_on_absent bare_id_no_colon)

lemma parse_InvalidShape_iff:
  "resource_uri_parse s = Err InvalidShape \<longleftrightarrow> length (split_on (CHR '':'') s) \<noteq> 3"
proof -
  have "result_bind (map_err UnsupportedScheme (uri_scheme_new sc)) (\<lambda>scheme.
         result_bind (map_err UnsupportedKind (media_kind_from_str k)) (\<lambda>kind.
         resource_uri_new scheme kind i)) \<noteq> Err InvalidShape" for sc k i
    by (cases "uri_scheme_new sc"; cases "media_kind_from_str k")
      (auto simp: resource_uri_new_def validate_bare_id_def split: result.splits if_splits)
  then show ?thesis
    by (auto simp: resource_uri_parse_def split: list.splits)
qed

text \<open>
  \<open>spotify_from_uri_or_id\<close> accepts exactly two inputs for a kind, the bare id and the full
  Spotify URI, and both denote the same resource; whatever it returns is a well-formed Spotify
  resource of the requested kind.
\<close>

theorem spotify_from_uri_or_id_correct:
  "(spotify_from_uri_or_id kind input = Ok u) =
     (wf_resource_uri u \<and> ru_scheme u = scheme_spotify \<and> ru_kind u = kind \<and>
      (input = as_uri u \<or> input = ru_id u))"
proof
  assume ok: "spotify_from_uri_or_id kind input = Ok u"
  show "wf_resource_uri u \<and> ru_scheme u = scheme_spotify \<and> ru_kind u = kind \<and>
      (input = as_uri u \<or> input = ru_id u)"
  proof (cases "resource_uri_parse input")
    case (Ok r)
    with ok show ?thesis
      by (auto simp: spotify_from_uri_or_id_def resource_uri_parse_Ok_iff split: if_splits)
  next
    case (Err e)
    with ok have "resource_uri_spotify kind input = Ok u"
      by (auto simp: spotify_from_uri_or_id_def split: uri_error.splits)
    then show ?thesis
      by (auto simp: resource_uri_spotify_def resource_uri_new_Ok_iff wf_resource_uri_def)
  qed
next
  assume u: "wf_resource_uri u \<and> ru_scheme u = scheme_spotify \<and> ru_kind u = kind \<and>
      (input = as_uri u \<or> input = ru_id u)"
  show "spotify_from_uri_or_id kind input = Ok u"
  proof (cases "input = as_uri u")
    case True
    with u have "resource_uri_parse input = Ok u" by (simp add: resource_uri_parse_Ok_iff)
    with u show ?thesis by (simp add: spotify_from_uri_or_id_def)
  next
    case False
    with u have "validate_bare_id input = Ok ()" "input = ru_id u" by (auto simp: wf_resource_uri_def)
    with u show ?thesis
      by (simp add: spotify_from_uri_or_id_def parse_bare_id_shape resource_uri_spotify_def
          resource_uri_new_Ok_iff)
  qed
qed

lemma typed_id_to_uri_as_uri:
  "typed_id_to_uri k i = as_uri \<lparr>ru_scheme = scheme_spotify, ru_kind = k, ru_id = i\<rparr>"
  by (simp add: typed_id_to_uri_def as_uri_def scheme_spotify_def)

text \<open>
  A typed identifier survives the trip through its URI exactly when its bare id is canonical:
  the unvalidated constructor is the only way to lose the round trip.
\<close>

theorem typed_id_roundtrip_iff:
  "(typed_id_from_uri k (typed_id_to_uri k i) = Some i) = (validate_bare_id i = Ok ())"
proof -
  let ?u = "\<lparr>ru_scheme = scheme_spotify, ru_kind = k, ru_id = i\<rparr>"
  show ?thesis
  proof (cases "validate_bare_id i = Ok ()")
    case True
    then have "resource_uri_parse (as_uri ?u) = Ok ?u"
      by (simp add: resource_uri_parse_Ok_iff wf_resource_uri_def)
    with True show ?thesis by (simp add: typed_id_from_uri_def typed_id_to_uri_as_uri)
  next
    case False
    have "typed_id_from_uri k (as_uri ?u) \<noteq> Some i"
    proof
      assume "typed_id_from_uri k (as_uri ?u) = Some i"
      then obtain v where "resource_uri_parse (as_uri ?u) = Ok v" "ru_id v = i"
        by (auto simp: typed_id_from_uri_def split: result.splits if_splits)
      with False show False by (auto simp: resource_uri_parse_Ok_iff wf_resource_uri_def)
    qed
    with False show ?thesis by (simp add: typed_id_to_uri_as_uri)
  qed
qed

end
