(* ===== verification/Player_Events.thy ===== *)
theory Player_Events
  imports Resource_Uri
begin

text \<open>
  The events a player backend sends to the daemon (\<open>spotuify-player/src/events.rs\<close>). The playback
  clock and the listening-session tracker are two consumers of the same stream.
\<close>

datatype player_event =
    Ready string string
  | Degraded string
  | ProviderPolicy string
  | Deactivated
  | Activated
  | SessionDisconnected string
  | Failed string u32
  | PlaybackStarted resource_uri u32
  | PlaybackPaused
  | PlaybackResumed
  | TrackChanged resource_uri u32
  | PositionTick u32
  | EndOfTrack resource_uri
  | PreloadNext resource_uri
  | VolumeChanged u8

end
