(* ===== verification/Rust_Float.thy ===== *)
theory Rust_Float
  imports Prelude "HOL-Library.Log_Nat"
begin

text \<open>
  The part of IEEE 754 arithmetic the sources use: \<open>f32\<close> and \<open>f64\<close> values as rationals with the two
  infinities and NaN, rounding to nearest with ties to even at the precision and exponent range of
  the format (subnormals and overflow included), multiplication and division by a constant,
  \<open>round\<close>, \<open>clamp\<close> and the saturating casts to unsigned integers. The sign of zero is not
  represented: nothing that is modelled observes it.
\<close>

section \<open>Formats and rounding\<close>

datatype rfloat = NaN | PosInf | NegInf | Fin rat

record float_format =
  ff_precision :: nat
  ff_emin :: int
  ff_emax :: int

definition f32 :: float_format where
  "f32 = \<lparr>ff_precision = 24, ff_emin = -126, ff_emax = 127\<rparr>"

definition f64 :: float_format where
  "f64 = \<lparr>ff_precision = 53, ff_emin = -1022, ff_emax = 1023\<rparr>"

definition rne :: "rat \<Rightarrow> int" where
  "rne x = (let f = \<lfloor>x\<rfloor>; d = x - of_int f
            in if d < 1 / 2 then f else if 1 / 2 < d then f + 1 else if even f then f else f + 1)"

definition exp2_of :: "rat \<Rightarrow> int" where
  "exp2_of x = (if 1 \<le> x then int (floorlog 2 (nat \<lfloor>x\<rfloor>)) - 1
                else - int (floorlog 2 (nat (\<lceil>1 / x\<rceil> - 1))))"

definition quantum_exp :: "float_format \<Rightarrow> rat \<Rightarrow> int" where
  "quantum_exp fmt x = max (exp2_of x) (ff_emin fmt) - int (ff_precision fmt) + 1"

definition rnd_pos :: "float_format \<Rightarrow> rat \<Rightarrow> rat" where
  "rnd_pos fmt x = of_int (rne (x / 2 powi quantum_exp fmt x)) * 2 powi quantum_exp fmt x"

definition rnd :: "float_format \<Rightarrow> rat \<Rightarrow> rat" where
  "rnd fmt x = (if x = 0 then 0 else sgn x * rnd_pos fmt \<bar>x\<bar>)"

definition to_float :: "float_format \<Rightarrow> rat \<Rightarrow> rfloat" where
  "to_float fmt x =
     (let r = rnd fmt x
      in if 2 powi (ff_emax fmt + 1) \<le> \<bar>r\<bar> then (if 0 < r then PosInf else NegInf) else Fin r)"

section \<open>Operations\<close>

fun is_finite :: "rfloat \<Rightarrow> bool" where
  "is_finite (Fin _) = True"
| "is_finite _ = False"

text \<open>Multiplication and division by a positive constant.\<close>

fun fmul_const :: "float_format \<Rightarrow> rfloat \<Rightarrow> rat \<Rightarrow> rfloat" where
  "fmul_const fmt (Fin x) c = to_float fmt (x * c)"
| "fmul_const fmt v c = v"

fun fdiv_const :: "float_format \<Rightarrow> rfloat \<Rightarrow> rat \<Rightarrow> rfloat" where
  "fdiv_const fmt (Fin x) c = to_float fmt (x / c)"
| "fdiv_const fmt v c = v"

text \<open>Multiplication of two floats.\<close>

fun fmul :: "float_format \<Rightarrow> rfloat \<Rightarrow> rfloat \<Rightarrow> rfloat" where
  "fmul fmt (Fin x) (Fin y) = to_float fmt (x * y)"
| "fmul fmt NaN v = NaN"
| "fmul fmt v NaN = NaN"
| "fmul fmt PosInf (Fin y) = (if y = 0 then NaN else if 0 < y then PosInf else NegInf)"
| "fmul fmt NegInf (Fin y) = (if y = 0 then NaN else if 0 < y then NegInf else PosInf)"
| "fmul fmt (Fin x) PosInf = (if x = 0 then NaN else if 0 < x then PosInf else NegInf)"
| "fmul fmt (Fin x) NegInf = (if x = 0 then NaN else if 0 < x then NegInf else PosInf)"
| "fmul fmt PosInf PosInf = PosInf"
| "fmul fmt NegInf NegInf = PosInf"
| "fmul fmt PosInf NegInf = NegInf"
| "fmul fmt NegInf PosInf = NegInf"

text \<open>\<open>round\<close>: to the nearest integer, halves away from zero.\<close>

definition round_away :: "rat \<Rightarrow> int" where
  "round_away x = (if 0 \<le> x then \<lfloor>x + 1 / 2\<rfloor> else - \<lfloor>- x + 1 / 2\<rfloor>)"

fun fround :: "rfloat \<Rightarrow> rfloat" where
  "fround (Fin x) = Fin (of_int (round_away x))"
| "fround v = v"

fun fclamp :: "rfloat \<Rightarrow> rat \<Rightarrow> rat \<Rightarrow> rfloat" where
  "fclamp (Fin x) lo hi = Fin (if x < lo then lo else if hi < x then hi else x)"
| "fclamp PosInf lo hi = Fin hi"
| "fclamp NegInf lo hi = Fin lo"
| "fclamp NaN lo hi = NaN"

fun fmin :: "rfloat \<Rightarrow> rat \<Rightarrow> rfloat" where
  "fmin (Fin x) c = Fin (min x c)"
| "fmin PosInf c = Fin c"
| "fmin NegInf c = NegInf"
| "fmin NaN c = Fin c"

fun fabs :: "rfloat \<Rightarrow> rfloat" where
  "fabs (Fin x) = Fin \<bar>x\<bar>"
| "fabs NegInf = PosInf"
| "fabs v = v"

text \<open>\<open>v as uN\<close>: towards zero, saturating, NaN to zero. \<open>v as i16\<close> is only used inside its range.\<close>

fun fcast_uint :: "nat \<Rightarrow> rfloat \<Rightarrow> nat" where
  "fcast_uint m (Fin x) = (if x \<le> 0 then 0 else min m (nat \<lfloor>x\<rfloor>))"
| "fcast_uint m PosInf = m"
| "fcast_uint m NegInf = 0"
| "fcast_uint m NaN = 0"

fun fcast_int :: "int \<Rightarrow> int \<Rightarrow> rfloat \<Rightarrow> int" where
  "fcast_int lo hi (Fin x) = max lo (min hi (if 0 \<le> x then \<lfloor>x\<rfloor> else \<lceil>x\<rceil>))"
| "fcast_int lo hi PosInf = hi"
| "fcast_int lo hi NegInf = lo"
| "fcast_int lo hi NaN = 0"

text \<open>
  \<open>str::parse\<close> for a float: an optional sign, then \<open>inf\<close>, \<open>infinity\<close> or \<open>nan\<close> in any case, or a
  decimal number with an optional fraction and exponent, rounded once.
\<close>

definition split_sign :: "string \<Rightarrow> bool \<times> string" where
  "split_sign s = (case s of
       c # cs \<Rightarrow> if c = CHR ''-'' then (True, cs) else if c = CHR ''+'' then (False, cs) else (False, s)
     | [] \<Rightarrow> (False, s))"

definition parse_decimal :: "string \<Rightarrow> rat option" where
  "parse_decimal s =
     (let ip = takeWhile is_ascii_digit s;
          r1 = dropWhile is_ascii_digit s;
          (fp, r2) = (case r1 of
              c # t \<Rightarrow> if c = CHR ''.'' then (takeWhile is_ascii_digit t, dropWhile is_ascii_digit t) else ([], r1)
            | [] \<Rightarrow> ([], r1));
          mant = of_nat (digits_value (ip @ fp)) :: rat
      in if ip = [] \<and> fp = [] then None
         else (case r2 of
             [] \<Rightarrow> Some (mant / 10 ^ length fp)
           | c # t \<Rightarrow>
               if c = CHR ''e'' \<or> c = CHR ''E''
               then (let (neg, ds) = split_sign t;
                         e = int (digits_value ds)
                     in if ds \<noteq> [] \<and> list_all is_ascii_digit ds
                        then Some (mant / 10 ^ length fp * 10 powi (if neg then - e else e)) else None)
               else None))"

definition parse_float :: "float_format \<Rightarrow> string \<Rightarrow> rfloat option" where
  "parse_float fmt s =
     (let (neg, body) = split_sign s; lower = to_ascii_lowercase body
      in if lower = ''inf'' \<or> lower = ''infinity'' then Some (if neg then NegInf else PosInf)
         else if lower = ''nan'' then Some NaN
         else map_option (\<lambda>x. to_float fmt (if neg then - x else x)) (parse_decimal body))"

section \<open>Rounding to an integer\<close>

lemma rne_error: "\<bar>of_int (rne x) - x\<bar> \<le> 1 / 2"
proof -
  have "of_int \<lfloor>x\<rfloor> \<le> x" "x < of_int \<lfloor>x\<rfloor> + 1" using floor_correct [of x] by auto
  then show ?thesis unfolding rne_def Let_def abs_if by (simp; linarith)
qed

lemma rne_of_int [simp]: "rne (of_int n) = n"
  by (simp add: rne_def)

lemma rne_mono: "x \<le> y \<Longrightarrow> rne x \<le> rne y"
proof -
  assume xy: "x \<le> y"
  then consider "\<lfloor>x\<rfloor> = \<lfloor>y\<rfloor>" | "\<lfloor>x\<rfloor> + 1 \<le> \<lfloor>y\<rfloor>"
    using floor_mono [OF xy] by linarith
  then show ?thesis
  proof cases
    case 1
    with xy show ?thesis by (auto simp: rne_def Let_def)
  next
    case 2
    moreover have "rne x \<le> \<lfloor>x\<rfloor> + 1" "\<lfloor>y\<rfloor> \<le> rne y" by (auto simp: rne_def Let_def)
    ultimately show ?thesis by linarith
  qed
qed

lemma rne_nonneg: "0 \<le> x \<Longrightarrow> 0 \<le> rne x"
  using rne_mono [of 0 x] rne_of_int [of 0] by simp

section \<open>Binades\<close>

lemma two_powi_pos [simp]: "0 < (2 :: rat) powi k"
  by simp

lemma two_powi_mono: "j \<le> k \<Longrightarrow> (2 :: rat) powi j \<le> 2 powi k"
  by (simp add: power_int_increasing)

lemma two_powi_less: "(2 :: rat) powi j < 2 powi k \<Longrightarrow> j < k"
  by (metis linorder_not_le two_powi_mono)

lemma powi_ratio:
  assumes "q \<le> e"
  shows "(2 :: rat) powi e / 2 powi q = of_int (2 ^ nat (e - q))"
proof -
  have "(2 :: rat) powi e / 2 powi q = 2 powi (e - q)"
    by (rule power_int_diff [symmetric]) simp
  also have "\<dots> = of_int (2 ^ nat (e - q))" using assms by (simp add: power_int_def)
  finally show ?thesis .
qed

lemma exp2_of_ge1:
  assumes "1 \<le> x"
  shows "2 powi exp2_of x \<le> x \<and> x < 2 powi (exp2_of x + 1)"
proof -
  define n where "n = nat \<lfloor>x\<rfloor>"
  have n: "0 < n" "of_nat n \<le> x" "x < of_nat n + 1"
    using assms floor_correct [of x] by (auto simp: n_def)
  define k where "k = floorlog 2 n"
  have k: "2 ^ (k - 1) \<le> n" "n < 2 ^ k" "0 < k"
    using floorlog_bounds [of n 2] n(1) by (auto simp: k_def floorlog_eq_zero_iff intro: gr0I)
  then have e: "exp2_of x = int (k - 1)" "exp2_of x + 1 = int k"
    using assms by (auto simp: exp2_of_def k_def n_def)
  have "(2 :: rat) ^ (k - 1) \<le> of_nat n" "(of_nat n :: rat) + 1 \<le> 2 ^ k"
    using k(1,2) by (metis of_nat_le_iff of_nat_numeral of_nat_power,
        metis Suc_leI of_nat_Suc add.commute of_nat_le_iff of_nat_numeral of_nat_power)
  with n(2,3) have "2 powi int (k - 1) \<le> x" "x < 2 powi int k"
    unfolding power_int_of_nat by linarith+
  with e show ?thesis by simp
qed

lemma exp2_of_lt1:
  assumes "0 < x" and "x < 1"
  shows "2 powi exp2_of x \<le> x \<and> x < 2 powi (exp2_of x + 1)"
proof -
  define c where "c = nat (\<lceil>1 / x\<rceil> - 1)"
  have gt: "1 < 1 / x" using assms by simp
  then have "2 \<le> \<lceil>1 / x\<rceil>" by linarith
  then have rc: "0 < c" "(of_nat c :: rat) = of_int \<lceil>1 / x\<rceil> - 1"
    by (simp_all only: c_def of_nat_nat)
  then have c: "0 < c" "of_nat c < 1 / x" "1 / x \<le> of_nat c + 1"
    using ceiling_correct [of "1 / x"] by linarith+
  define k where "k = floorlog 2 c"
  have k: "2 ^ (k - 1) \<le> c" "c < 2 ^ k" "0 < k"
    using floorlog_bounds [of c 2] c(1) by (auto simp: k_def floorlog_eq_zero_iff intro: gr0I)
  have e: "exp2_of x = - int k" using assms by (simp add: exp2_of_def k_def c_def)
  have "(2 :: rat) ^ (k - 1) \<le> of_nat c" "(of_nat c :: rat) + 1 \<le> 2 ^ k"
    using k(1,2) by (metis of_nat_le_iff of_nat_numeral of_nat_power,
        metis Suc_leI of_nat_Suc add.commute of_nat_le_iff of_nat_numeral of_nat_power)
  with c have b: "(2 :: rat) ^ (k - 1) < 1 / x" "1 / x \<le> 2 ^ k" by linarith+
  from b(2) assms(1) have "1 / 2 ^ k \<le> x" by (simp add: field_simps)
  moreover from b(1) assms(1) have "x < 1 / 2 ^ (k - 1)" by (simp add: field_simps)
  ultimately have "2 powi (- int k) \<le> x" "x < 2 powi (- int (k - 1))"
    by (simp_all only: power_int_minus power_int_of_nat inverse_eq_divide)
  moreover have "- int (k - 1) = - int k + 1" using k(3) by simp
  ultimately show ?thesis by (simp only: e)
qed

lemma exp2_of_bounds:
  assumes "0 < x"
  shows "2 powi exp2_of x \<le> x" and "x < 2 powi (exp2_of x + 1)"
  using exp2_of_ge1 [of x] exp2_of_lt1 [of x] assms by (cases "1 \<le> x"; simp)+

lemma exp2_of_mono:
  assumes "0 < x" and "x \<le> y"
  shows "exp2_of x \<le> exp2_of y"
proof -
  have "2 powi exp2_of x \<le> x" using assms(1) by (rule exp2_of_bounds)
  also have "x \<le> y" by fact
  also have "y < 2 powi (exp2_of y + 1)" using assms by (intro exp2_of_bounds) simp
  finally show ?thesis using two_powi_less [of "exp2_of x" "exp2_of y + 1"] by simp
qed

section \<open>Rounding to a format\<close>

lemma rnd_pos_multiple:
  assumes "x = of_int m * 2 powi k" and "quantum_exp fmt x \<le> k"
  shows "rnd_pos fmt x = x"
proof -
  let ?q = "quantum_exp fmt x"
  have "x / 2 powi ?q = of_int m * 2 powi (k - ?q)"
    unfolding assms(1) by (simp add: power_int_diff)
  also have "\<dots> = of_int (m * 2 ^ nat (k - ?q))"
    using assms(2) by (simp add: power_int_def)
  finally have eq: "x / 2 powi ?q = of_int (m * 2 ^ nat (k - ?q))" .
  then have "rne (x / 2 powi ?q) = m * 2 ^ nat (k - ?q)" by (simp only: rne_of_int)
  then have "rnd_pos fmt x = x / 2 powi ?q * 2 powi ?q" by (simp only: rnd_pos_def eq)
  then show ?thesis by simp
qed

lemma rnd_pos_error: "\<bar>rnd_pos fmt x - x\<bar> \<le> 2 powi quantum_exp fmt x / 2"
proof -
  let ?p = "2 powi quantum_exp fmt x :: rat"
  have "\<bar>of_int (rne (x / ?p)) - x / ?p\<bar> * ?p \<le> 1 / 2 * ?p"
    by (rule mult_right_mono [OF rne_error]) simp
  moreover have "\<bar>of_int (rne (x / ?p)) - x / ?p\<bar> * ?p = \<bar>rnd_pos fmt x - x\<bar>"
    unfolding rnd_pos_def by (subst abs_mult_pos) (simp_all add: left_diff_distrib)
  ultimately show ?thesis by simp
qed

lemma rnd_pos_nonneg: "0 < x \<Longrightarrow> 0 \<le> rnd_pos fmt x"
  by (simp add: rnd_pos_def rne_nonneg)

lemma rnd_pos_mono_binade:
  assumes "0 < x" "x \<le> y" "0 < ff_precision fmt" "quantum_exp fmt x < quantum_exp fmt y"
  shows "rnd_pos fmt x \<le> rnd_pos fmt y"
proof -
  let ?qx = "quantum_exp fmt x" and ?qy = "quantum_exp fmt y"
  let ?b = "2 powi exp2_of y :: rat"
  have y: "0 < y" using assms by simp
  have qy: "?qy = exp2_of y - int (ff_precision fmt) + 1" and lt: "exp2_of x < exp2_of y"
    using assms(4) by (auto simp: quantum_exp_def max_def split: if_splits)
  have "x \<le> ?b"
    using exp2_of_bounds(2) [OF assms(1)] two_powi_mono [of "exp2_of x + 1" "exp2_of y"] lt by linarith
  then have "rne (x / 2 powi ?qx) \<le> rne (?b / 2 powi ?qx)"
    by (intro rne_mono divide_right_mono) simp_all
  moreover have le: "?qx \<le> exp2_of y" using assms(3,4) qy by linarith
  then have i: "?b / 2 powi ?qx = of_int (2 ^ nat (exp2_of y - ?qx))"
    by (rule powi_ratio)
  ultimately have "of_int (rne (x / 2 powi ?qx)) \<le> ?b / 2 powi ?qx"
    using rne_of_int [of "2 ^ nat (exp2_of y - ?qx)"] by (metis of_int_le_iff)
  then have up: "rnd_pos fmt x \<le> ?b"
    unfolding rnd_pos_def by (simp add: pos_le_divide_eq)
  have le': "?qy \<le> exp2_of y" using assms(3) qy by linarith
  then have i': "?b / 2 powi ?qy = of_int (2 ^ nat (exp2_of y - ?qy))"
    by (rule powi_ratio)
  have "rne (?b / 2 powi ?qy) \<le> rne (y / 2 powi ?qy)"
    using exp2_of_bounds(1) [OF y] by (intro rne_mono divide_right_mono) simp_all
  then have "?b / 2 powi ?qy \<le> of_int (rne (y / 2 powi ?qy))"
    using rne_of_int [of "2 ^ nat (exp2_of y - ?qy)"] i' by (metis of_int_le_iff)
  then have "?b \<le> rnd_pos fmt y"
    unfolding rnd_pos_def by (simp add: pos_divide_le_eq)
  with up show ?thesis by linarith
qed

lemma rnd_pos_mono:
  assumes "0 < x" "x \<le> y" "0 < ff_precision fmt"
  shows "rnd_pos fmt x \<le> rnd_pos fmt y"
proof (cases "quantum_exp fmt x < quantum_exp fmt y")
  case True
  with assms show ?thesis by (rule rnd_pos_mono_binade)
next
  case False
  moreover have "quantum_exp fmt x \<le> quantum_exp fmt y"
    using exp2_of_mono [OF assms(1,2)] by (auto simp: quantum_exp_def)
  ultimately have q: "quantum_exp fmt y = quantum_exp fmt x" by simp
  have "rne (x / 2 powi quantum_exp fmt x) \<le> rne (y / 2 powi quantum_exp fmt x)"
    using assms(2) by (intro rne_mono divide_right_mono) simp_all
  then show ?thesis
    unfolding rnd_pos_def q by (intro mult_right_mono) simp_all
qed

lemma rnd_mono_nonneg: "0 \<le> x \<Longrightarrow> x \<le> y \<Longrightarrow> 0 < ff_precision fmt \<Longrightarrow> rnd fmt x \<le> rnd fmt y"
  using rnd_pos_mono [of x y fmt] rnd_pos_nonneg [of y fmt] by (auto simp: rnd_def)

lemma rnd_nonneg: "0 \<le> x \<Longrightarrow> 0 \<le> rnd fmt x"
  using rnd_pos_nonneg [of x fmt] by (auto simp: rnd_def)

lemma rnd_minus: "rnd fmt (- x) = - rnd fmt x"
  by (simp add: rnd_def)

lemma rnd_rel_error:
  assumes "2 powi ff_emin fmt \<le> \<bar>x\<bar>"
  shows "\<bar>rnd fmt x - x\<bar> \<le> \<bar>x\<bar> / 2 ^ ff_precision fmt"
proof -
  have pos: "0 < \<bar>x\<bar>" using assms less_le_trans [OF two_powi_pos] by blast
  have "ff_emin fmt < exp2_of \<bar>x\<bar> + 1"
    using le_less_trans [OF assms exp2_of_bounds(2) [OF pos]] by (rule two_powi_less)
  then have "quantum_exp fmt \<bar>x\<bar> = exp2_of \<bar>x\<bar> - int (ff_precision fmt) + 1"
    by (simp add: quantum_exp_def)
  then have "2 powi quantum_exp fmt \<bar>x\<bar> / 2 = (2 :: rat) powi exp2_of \<bar>x\<bar> / 2 ^ ff_precision fmt"
    by (simp add: power_int_add power_int_diff)
  also have "\<dots> \<le> \<bar>x\<bar> / 2 ^ ff_precision fmt"
    using exp2_of_bounds(1) [OF pos] by (simp add: divide_right_mono)
  finally have "\<bar>rnd_pos fmt \<bar>x\<bar> - \<bar>x\<bar>\<bar> \<le> \<bar>x\<bar> / 2 ^ ff_precision fmt"
    using rnd_pos_error [of fmt "\<bar>x\<bar>"] by linarith
  moreover have "\<bar>rnd fmt x - x\<bar> = \<bar>rnd_pos fmt \<bar>x\<bar> - \<bar>x\<bar>\<bar>"
    using pos by (auto simp: rnd_def sgn_if abs_if)
  ultimately show ?thesis by simp
qed

lemma rnd_of_nat_exact:
  assumes "n < 2 ^ ff_precision fmt" and "ff_emin fmt \<le> 0" and "0 < ff_precision fmt"
  shows "rnd fmt (of_nat n) = of_nat n"
proof (cases "n = 0")
  case False
  then have pos: "(0 :: rat) < of_nat n" and one: "(1 :: rat) \<le> of_nat n" by simp_all
  have "(2 :: rat) powi exp2_of (of_nat n) \<le> of_nat n" using pos by (rule exp2_of_bounds)
  also have "\<dots> < 2 powi int (ff_precision fmt)"
    using assms(1) by (metis of_nat_less_iff of_nat_numeral of_nat_power power_int_of_nat)
  finally have "exp2_of (of_nat n) < int (ff_precision fmt)" by (rule two_powi_less)
  moreover have "ff_emin fmt < int (ff_precision fmt)" using assms by linarith
  ultimately have "quantum_exp fmt (of_nat n) \<le> 0" by (simp add: quantum_exp_def)
  then have "rnd_pos fmt (of_nat n) = of_nat n"
    by (intro rnd_pos_multiple [where m = "int n" and k = 0]) simp_all
  with False show ?thesis by (simp add: rnd_def)
qed (simp add: rnd_def)

text \<open>A value below the format's overflow bound stays finite.\<close>

lemma to_float_Fin:
  assumes "\<bar>rnd fmt x\<bar> < 2 powi (ff_emax fmt + 1)"
  shows "to_float fmt x = Fin (rnd fmt x)"
  using assms by (simp add: to_float_def Let_def)

lemma round_away_near:
  assumes "\<bar>x - of_int n\<bar> < 1 / 2"
  shows "round_away x = n"
proof -
  have "\<lfloor>x + 1 / 2\<rfloor> = n" "\<lfloor>- x + 1 / 2\<rfloor> = - n"
    using assms by (auto simp: floor_unique abs_if split: if_splits)
  then show ?thesis by (simp add: round_away_def)
qed

lemma precisions [simp]:
  "ff_precision f32 = 24" "ff_emin f32 = -126" "ff_emax f32 = 127"
  "ff_precision f64 = 53" "ff_emin f64 = -1022" "ff_emax f64 = 1023"
  by (simp_all add: f32_def f64_def)

section \<open>Casts of non-negative values\<close>

lemma fcast_uint_le: "fcast_uint m v \<le> m"
  by (cases v) auto

lemma to_float_nonneg:
  assumes "0 \<le> x"
  obtains "to_float fmt x = PosInf" "2 powi (ff_emax fmt + 1) \<le> rnd fmt x"
  | "to_float fmt x = Fin (rnd fmt x)" "rnd fmt x < 2 powi (ff_emax fmt + 1)"
proof (cases "2 powi (ff_emax fmt + 1) \<le> rnd fmt x")
  case True
  moreover have "0 < rnd fmt x" by (rule less_le_trans [OF two_powi_pos True])
  ultimately show ?thesis by (intro that(1)) (simp_all add: to_float_def)
next
  case False
  with rnd_nonneg [OF assms, of fmt] show ?thesis by (intro that(2)) (simp_all add: to_float_def)
qed

lemma fcast_to_float_mono:
  assumes "0 \<le> x" and "x \<le> y" and "0 < ff_precision fmt"
  shows "fcast_uint m (to_float fmt x) \<le> fcast_uint m (to_float fmt y)"
proof -
  have r: "rnd fmt x \<le> rnd fmt y" using assms by (rule rnd_mono_nonneg)
  have "0 \<le> y" using assms by simp
  then show ?thesis
  proof (cases rule: to_float_nonneg [of y fmt, case_names inf fin])
    case inf
    then show ?thesis by (simp add: fcast_uint_le)
  next
    case fin
    with r have "rnd fmt x < 2 powi (ff_emax fmt + 1)" by simp
    with assms(1) have "to_float fmt x = Fin (rnd fmt x)"
      by (cases rule: to_float_nonneg [of x fmt]) simp_all
    moreover have "nat \<lfloor>rnd fmt x\<rfloor> \<le> nat \<lfloor>rnd fmt y\<rfloor>" using r by (intro nat_mono floor_mono)
    then have "min m (nat \<lfloor>rnd fmt x\<rfloor>) \<le> min m (nat \<lfloor>rnd fmt y\<rfloor>)" by simp
    ultimately show ?thesis using fin r by auto
  qed
qed

section \<open>Parsing decimals\<close>

lemma takeWhile_digits:
  "list_all is_ascii_digit ds \<Longrightarrow> \<not> is_ascii_digit c \<Longrightarrow>
     takeWhile is_ascii_digit (ds @ c # t) = ds \<and> dropWhile is_ascii_digit (ds @ c # t) = c # t"
  by (induction ds) auto

lemma takeWhile_all_digits:
  "list_all is_ascii_digit ds \<Longrightarrow>
     takeWhile is_ascii_digit ds = ds \<and> dropWhile is_ascii_digit ds = []"
  by (induction ds) auto

lemma digits_value_append:
  "digits_value (s @ t) = digits_value s * 10 ^ length t + digits_value t"
proof (induction t rule: rev_induct)
  case (snoc c t)
  then show ?case
    by (simp only: append_assoc [symmetric] digits_value_snoc) (simp add: algebra_simps)
qed (simp add: digits_value_def)

lemma parse_decimal_int:
  assumes "list_all is_ascii_digit ip" and "ip \<noteq> []"
  shows "parse_decimal ip = Some (of_nat (digits_value ip))"
  using assms by (simp add: parse_decimal_def takeWhile_all_digits)

lemma parse_decimal_frac:
  assumes "list_all is_ascii_digit ip" and "list_all is_ascii_digit fp" and "ip \<noteq> []"
  shows "parse_decimal (ip @ CHR ''.'' # fp) =
    Some (of_nat (digits_value ip) + of_nat (digits_value fp) / 10 ^ length fp)"
proof -
  have "\<not> is_ascii_digit (CHR ''.'')" by (simp add: ascii)
  with assms show ?thesis
    by (simp add: parse_decimal_def takeWhile_digits takeWhile_all_digits digits_value_append
        add_divide_distrib)
qed

section \<open>Fixed-point settings through floats\<close>

text \<open>
  The sources keep settings as integers in hundredths or tenths and show them as \<open>f32\<close>. Reading
  such a value back (\<open>(v * c).round()\<close>) gives the integer again: the two roundings are far below
  one half.
\<close>

lemma f32_scale_error:
  assumes "\<bar>n\<bar> \<le> 65535" and "1 \<le> c" and "c \<le> 100"
  shows "\<bar>rnd f32 (rnd f32 (of_int n / c) * c) - of_int n\<bar> < 1 / 4"
    and "\<bar>rnd f32 (of_int n / c)\<bar> \<le> 65536" and "\<bar>rnd f32 (rnd f32 (of_int n / c) * c)\<bar> \<le> 65536"
proof -
  let ?x = "of_int n / c :: rat"
  define e where "e = (1 / 2 ^ 24 :: rat)"
  have small: "(2 :: rat) powi (-126) \<le> 1 / 200"
    by (simp add: power_int_minus field_simps)
  have cpos: "0 < c" using assms by simp
  have "\<bar>of_int n :: rat\<bar> \<le> 65535" using assms(1) by (metis of_int_abs of_int_le_iff of_int_numeral)
  then have nx: "\<bar>?x\<bar> * c \<le> 65535" using cpos by simp
  have e1: "\<bar>rnd f32 ?x - ?x\<bar> \<le> \<bar>?x\<bar> * e" and lo: "n \<noteq> 0 \<Longrightarrow> 1 / 100 \<le> \<bar>?x\<bar>"
  proof -
    show lo: "1 / 100 \<le> \<bar>?x\<bar>" if "n \<noteq> 0"
    proof -
      have "(1 :: rat) \<le> \<bar>of_int n\<bar>" using that by (metis abs_of_nonneg of_int_1 of_int_abs of_int_le_iff int_one_le_iff_zero_less zero_less_abs_iff)
      then show ?thesis using assms(2,3) cpos by (simp add: field_simps)
    qed
    show "\<bar>rnd f32 ?x - ?x\<bar> \<le> \<bar>?x\<bar> * e"
    proof (cases "n = 0")
      case False
      with lo small show ?thesis using rnd_rel_error [of f32 ?x] by (simp add: e_def)
    qed (simp add: rnd_def e_def)
  qed
  let ?y = "rnd f32 ?x * c"
  have "\<bar>?y - of_int n\<bar> = \<bar>rnd f32 ?x - ?x\<bar> * c"
    using cpos by (simp add: abs_mult_pos left_diff_distrib)
  also have "\<dots> \<le> \<bar>?x\<bar> * e * c" using mult_right_mono [OF e1, of c] cpos by simp
  also have "\<dots> \<le> 65535 * e" using mult_right_mono [OF nx, of e] by (simp add: e_def ac_simps)
  finally have d1: "\<bar>?y - of_int n\<bar> \<le> 1 / 100" by (simp add: e_def)
  then have y: "\<bar>?y\<bar> \<le> 65536" using \<open>\<bar>of_int n :: rat\<bar> \<le> 65535\<close> by linarith
  have "\<bar>rnd f32 ?y - ?y\<bar> \<le> 65536 * e"
  proof (cases "n = 0")
    case False
    then have "(1 :: rat) \<le> \<bar>of_int n\<bar>"
      by (metis of_int_1 of_int_abs of_int_le_iff int_one_le_iff_zero_less zero_less_abs_iff)
    with d1 have "1 / 2 \<le> \<bar>?y\<bar>" by linarith
    with small have "\<bar>rnd f32 ?y - ?y\<bar> \<le> \<bar>?y\<bar> * e" using rnd_rel_error [of f32 ?y] by (simp add: e_def)
    also have "\<dots> \<le> 65536 * e" using y by (intro mult_right_mono) (simp_all add: e_def)
    finally show ?thesis .
  qed (simp add: rnd_def e_def)
  then have d2: "\<bar>rnd f32 ?y - ?y\<bar> \<le> 1 / 100" by (simp add: e_def)
  from d1 d2 show "\<bar>rnd f32 ?y - of_int n\<bar> < 1 / 4" by linarith
  from this \<open>\<bar>of_int n :: rat\<bar> \<le> 65535\<close> show "\<bar>rnd f32 ?y\<bar> \<le> 65536" by linarith
  have "\<bar>?x\<bar> \<le> \<bar>?x\<bar> * c" by (metis abs_ge_zero assms(2) mult.right_neutral mult_left_mono)
  then have "\<bar>?x\<bar> \<le> 65535" using nx by linarith
  moreover from this have "\<bar>?x\<bar> * e \<le> 65535 * e" by (intro mult_right_mono) (simp_all add: e_def)
  then have "\<bar>?x\<bar> * e \<le> 1" by (rule order_trans) (simp add: e_def)
  with e1 have "\<bar>rnd f32 ?x - ?x\<bar> \<le> 1" by (rule order_trans)
  ultimately show "\<bar>rnd f32 ?x\<bar> \<le> 65536"
    using abs_triangle_ineq [of ?x "rnd f32 ?x - ?x"] by simp
qed

lemma f32_scale_roundtrip:
  assumes "\<bar>n\<bar> \<le> 65535" and "1 \<le> c" and "c \<le> 100"
  shows "fround (fmul_const f32 (fdiv_const f32 (Fin (of_int n)) c) c) = Fin (of_int n)"
proof -
  note b = f32_scale_error [OF assms]
  have big: "(65536 :: rat) < 2 powi (127 + 1)" by simp
  have "fdiv_const f32 (Fin (of_int n)) c = Fin (rnd f32 (of_int n / c))"
    using b(2) big by (simp add: to_float_Fin)
  moreover have "to_float f32 (rnd f32 (of_int n / c) * c) = Fin (rnd f32 (rnd f32 (of_int n / c) * c))"
    using b(3) big by (simp add: to_float_Fin)
  moreover have "round_away (rnd f32 (rnd f32 (of_int n / c) * c)) = n"
    using b(1) by (intro round_away_near) linarith
  ultimately show ?thesis by simp
qed

end
