(* ===== verification/Audio_Settings.thy ===== *)
theory Audio_Settings
  imports Rust_Float
begin

text \<open>
  The playback-speed and equalizer values of \<open>spotuify-core/src/lib.rs\<close>. Both are integers inside
  (hundredths of the rate, tenths of a decibel) and floats on the wire and in the clients.
\<close>

section \<open>Playback speed\<close>

type_synonym playback_speed = u16

definition SPEED_NORMAL :: playback_speed where "SPEED_NORMAL = 100"
definition SPEED_MIN :: playback_speed where "SPEED_MIN = 50"
definition SPEED_MAX :: playback_speed where "SPEED_MAX = 350"
definition SPEED_STEP :: u16 where "SPEED_STEP = 10"

definition speed_from_f32 :: "rfloat \<Rightarrow> playback_speed" where
  "speed_from_f32 speed =
     (let hundredths = fround (fmul_const f32 speed 100);
          clamped = fclamp hundredths (of_nat SPEED_MIN) (of_nat SPEED_MAX)
      in fcast_uint 65535 clamped)"

definition speed_as_f32 :: "playback_speed \<Rightarrow> rfloat" where
  "speed_as_f32 s = fdiv_const f32 (Fin (of_nat s)) 100"

definition speed_is_normal :: "playback_speed \<Rightarrow> bool" where
  "speed_is_normal s \<longleftrightarrow> s = SPEED_NORMAL"

text \<open>\<open>u16\<close> addition wraps; the subtraction saturates.\<close>

definition speed_faster :: "playback_speed \<Rightarrow> playback_speed" where
  "speed_faster s = min ((s + SPEED_STEP) mod 65536) SPEED_MAX"

definition speed_slower :: "playback_speed \<Rightarrow> playback_speed" where
  "speed_slower s = max (s - SPEED_STEP) SPEED_MIN"

definition speed_display :: "playback_speed \<Rightarrow> string" where
  "speed_display s =
     (let whole = s div 100; frac = s mod 100
      in if frac = 0 then show_nat whole @ ''x''
         else if frac mod 10 = 0 then show_nat whole @ ''.'' @ show_nat (frac div 10) @ ''x''
         else show_nat whole @ ''.'' @ show_nat_pad 2 frac @ ''x'')"

text \<open>
  \<open>trim_end_matches(['x', 'X', '\<times>'])\<close> on the reversed text; the multiplication sign is the byte
  pair \<open>C3 97\<close>.
\<close>

fun strip_times_rev :: "string \<Rightarrow> string" where
  "strip_times_rev [] = []"
| "strip_times_rev [a] = (if a = CHR ''x'' \<or> a = CHR ''X'' then [] else [a])"
| "strip_times_rev (a # b # s) =
     (if a = CHR ''x'' \<or> a = CHR ''X'' then strip_times_rev (b # s)
      else if byte a = 0x97 \<and> byte b = 0xC3 then strip_times_rev s
      else a # b # s)"

definition speed_parse :: "string \<Rightarrow> playback_speed option" where
  "speed_parse input =
     (let trimmed = rev (strip_times_rev (rev (trim input)));
          value = (if trimmed \<noteq> [] \<and> last trimmed = CHR ''%''
                   then map_option (\<lambda>v. fdiv_const f32 v 100) (parse_float f32 (trim (butlast trimmed)))
                   else parse_float f32 trimmed)
      in case value of
           None \<Rightarrow> None
         | Some v \<Rightarrow> if is_finite v then Some (speed_from_f32 v) else None)"

text \<open>The wire form is the \<open>f64\<close> quotient; reading it narrows to \<open>f32\<close> and refuses infinities and NaN.\<close>

definition speed_serialize :: "playback_speed \<Rightarrow> rfloat" where
  "speed_serialize s = fdiv_const f64 (Fin (of_nat s)) 100"

definition speed_deserialize :: "rfloat \<Rightarrow> (playback_speed, string) result" where
  "speed_deserialize value =
     (if \<not> is_finite value then Err ''playback speed must be finite'' else Ok (speed_from_f32 value))"

definition speed_valid :: "playback_speed \<Rightarrow> bool" where
  "speed_valid s \<longleftrightarrow> SPEED_MIN \<le> s \<and> s \<le> SPEED_MAX"

lemmas speed_consts = SPEED_NORMAL_def SPEED_MIN_def SPEED_MAX_def SPEED_STEP_def

lemma speed_valid_normal [simp]: "speed_valid SPEED_NORMAL"
  by (simp add: speed_valid_def speed_consts)

lemma fcast_clamped:
  "v \<noteq> NaN \<Longrightarrow> speed_valid (fcast_uint 65535 (fclamp v (of_nat SPEED_MIN) (of_nat SPEED_MAX)))"
  by (cases v) (auto simp: speed_valid_def speed_consts le_nat_iff nat_le_iff le_floor_iff floor_le_iff)

lemma fround_NaN [simp]: "fround v = NaN \<longleftrightarrow> v = NaN"
  by (cases v) auto

lemma fmul_const_NaN [simp]: "fmul_const fmt v c = NaN \<longleftrightarrow> v = NaN"
  by (cases v) (auto simp: to_float_def Let_def)

section \<open>Equalizer\<close>

definition EQ_BAND_COUNT :: nat where "EQ_BAND_COUNT = 10"
definition EQ_MIN_TENTHS :: int where "EQ_MIN_TENTHS = -120"
definition EQ_MAX_TENTHS :: int where "EQ_MAX_TENTHS = 120"

definition EQ_PRESETS :: "(string \<times> int list) list" where
  "EQ_PRESETS =
    [(''Flat'', [0, 0, 0, 0, 0, 0, 0, 0, 0, 0]),
     (''Rock'', [50, 40, 20, -10, -20, 20, 40, 50, 50, 50]),
     (''Pop'', [-10, 20, 40, 50, 40, 10, -10, -10, 10, 20]),
     (''Jazz'', [30, 40, 20, 10, -10, -10, 10, 20, 30, 40]),
     (''Classical'', [30, 20, 10, 0, -10, -10, 0, 20, 30, 40]),
     (''Bass Boost'', [80, 60, 40, 20, 0, 0, 0, 0, 0, 0]),
     (''Treble Boost'', [0, 0, 0, 0, 0, 10, 30, 50, 60, 70]),
     (''Vocal'', [-20, -10, 10, 40, 50, 40, 20, 0, -10, -20]),
     (''Electronic'', [60, 40, 10, -10, -20, 10, 30, 40, 50, 60]),
     (''Acoustic'', [30, 30, 20, 0, 10, 20, 30, 30, 20, 10]),
     (''Hip-Hop'', [70, 50, 30, 10, -10, -10, 10, 30, 30, 30]),
     (''R&B'', [40, 60, 30, 10, -10, 10, 20, 20, 10, 0]),
     (''Loudness'', [60, 40, 10, 0, -20, -10, 10, 40, 50, 50]),
     (''Late Night'', [50, 30, 10, 0, -20, -10, 0, 20, 30, 30]),
     (''Podcast'', [-30, -10, 20, 40, 40, 30, 10, -10, -20, -30]),
     (''Small Speakers'', [70, 50, 40, 20, 10, 0, -10, 0, 10, 20])]"

type_synonym eq_limiting = u16

definition eq_limiting_from_reduction_db :: "rfloat \<Rightarrow> eq_limiting" where
  "eq_limiting_from_reduction_db db = (case db of
       Fin x \<Rightarrow> if x \<le> 0 then 0
                else fcast_uint 65535 (fmin (fround (fmul_const f32 db 10)) 65535)
     | _ \<Rightarrow> 0)"

definition eq_limiting_as_db :: "eq_limiting \<Rightarrow> rfloat" where
  "eq_limiting_as_db t =
     (if t = 0 then Fin 0
      else (case fdiv_const f32 (Fin (of_nat t)) 10 of Fin x \<Rightarrow> Fin (- x) | v \<Rightarrow> v))"

definition eq_limiting_deserialize :: "rfloat \<Rightarrow> (eq_limiting, string) result" where
  "eq_limiting_deserialize value =
     (if \<not> is_finite value then Err ''eq limiting must be finite''
      else Ok (eq_limiting_from_reduction_db (fabs value)))"

definition clamp_band_tenths :: "rfloat \<Rightarrow> int" where
  "clamp_band_tenths db =
     (if \<not> is_finite db then 0
      else fcast_int (-32768) 32767
             (fclamp (fround (fmul_const f32 db 10)) (of_int EQ_MIN_TENTHS) (of_int EQ_MAX_TENTHS)))"

definition band_tenths_in_range :: "rfloat \<Rightarrow> int option" where
  "band_tenths_in_range db = (case fround (fmul_const f32 db 10) of
       Fin t \<Rightarrow> if is_finite db \<and> of_int EQ_MIN_TENTHS \<le> t \<and> t \<le> of_int EQ_MAX_TENTHS
                then Some (fcast_int (-32768) 32767 (Fin t)) else None
     | _ \<Rightarrow> None)"

fun all_bands :: "rfloat list \<Rightarrow> int list option" where
  "all_bands [] = Some []"
| "all_bands (db # dbs) = (case band_tenths_in_range db of
       None \<Rightarrow> None
     | Some t \<Rightarrow> map_option ((#) t) (all_bands dbs))"

definition eq_bands_from_db :: "rfloat list \<Rightarrow> int list option" where
  "eq_bands_from_db bands = (if length bands \<noteq> EQ_BAND_COUNT then None else all_bands bands)"

definition eq_bands_serialize :: "int list \<Rightarrow> rfloat list" where
  "eq_bands_serialize = map (\<lambda>t. fdiv_const f32 (Fin (of_int t)) 10)"

record eq_settings =
  eq_preset :: "string option"
  eq_bands :: "int list"

definition eq_flat :: eq_settings where
  "eq_flat = \<lparr>eq_preset = Some (fst (EQ_PRESETS ! 0)), eq_bands = replicate EQ_BAND_COUNT 0\<rparr>"

definition eq_from_preset :: "string \<Rightarrow> eq_settings option" where
  "eq_from_preset name =
     map_option (\<lambda>(preset, bands). \<lparr>eq_preset = Some preset, eq_bands = bands\<rparr>)
       (List.find (\<lambda>(preset, _). eq_ignore_ascii_case preset (trim name)) EQ_PRESETS)"

definition eq_from_bands :: "int list \<Rightarrow> eq_settings" where
  "eq_from_bands bands = \<lparr>eq_preset = None, eq_bands = bands\<rparr>"

definition eq_is_flat :: "eq_settings \<Rightarrow> bool" where
  "eq_is_flat s \<longleftrightarrow> list_all (\<lambda>t. t = 0) (eq_bands s)"

definition eq_with_band :: "eq_settings \<Rightarrow> nat \<Rightarrow> rfloat \<Rightarrow> eq_settings" where
  "eq_with_band s index db =
     \<lparr>eq_preset = None,
      eq_bands = (if index < length (eq_bands s)
                  then (eq_bands s)[index := clamp_band_tenths db] else eq_bands s)\<rparr>"

definition eq_next_preset :: "eq_settings \<Rightarrow> eq_settings" where
  "eq_next_preset s =
     (let index = (case Option.bind (eq_preset s)
                      (\<lambda>name. position (\<lambda>(preset, _). eq_ignore_ascii_case preset name) EQ_PRESETS) of
                     Some i \<Rightarrow> i | None \<Rightarrow> length EQ_PRESETS - 1);
          (preset, bands) = EQ_PRESETS ! ((index + 1) mod length EQ_PRESETS)
      in \<lparr>eq_preset = Some preset, eq_bands = bands\<rparr>)"

definition eq_label :: "eq_settings \<Rightarrow> string" where
  "eq_label s = (case eq_preset s of Some p \<Rightarrow> p | None \<Rightarrow> ''Custom'')"

text \<open>The wire form carries the preset name and the decibel bands.\<close>

definition eq_settings_serialize :: "eq_settings \<Rightarrow> string option \<times> rfloat list" where
  "eq_settings_serialize s = (eq_preset s, eq_bands_serialize (eq_bands s))"

definition eq_settings_deserialize :: "string option \<times> rfloat list \<Rightarrow> eq_settings option" where
  "eq_settings_deserialize w =
     map_option (\<lambda>bands. \<lparr>eq_preset = fst w, eq_bands = bands\<rparr>) (eq_bands_from_db (snd w))"

definition eq_bands_valid :: "int list \<Rightarrow> bool" where
  "eq_bands_valid ts \<longleftrightarrow>
     length ts = EQ_BAND_COUNT \<and> list_all (\<lambda>t. EQ_MIN_TENTHS \<le> t \<and> t \<le> EQ_MAX_TENTHS) ts"

lemmas eq_consts = EQ_BAND_COUNT_def EQ_MIN_TENTHS_def EQ_MAX_TENTHS_def

section \<open>Shared facts\<close>

lemma f32_of_tenths_finite:
  "\<bar>n\<bar> \<le> 65535 \<Longrightarrow> 1 \<le> c \<Longrightarrow> c \<le> 100 \<Longrightarrow>
     fdiv_const f32 (Fin (of_int n)) c = Fin (rnd f32 (of_int n / c))"
  using f32_scale_error(2) [of n c] by (intro trans [OF fdiv_const.simps(1)] to_float_Fin) simp

lemma presets_valid: "list_all (\<lambda>(_, bands). eq_bands_valid bands) EQ_PRESETS"
  by (simp add: EQ_PRESETS_def eq_bands_valid_def eq_consts)

lemma presets_length [simp]: "length EQ_PRESETS = 16"
  by (simp add: EQ_PRESETS_def)

lemma preset_bands_valid: "(p, bands) \<in> set EQ_PRESETS \<Longrightarrow> eq_bands_valid bands"
  using presets_valid by (auto simp: list_all_iff)

lemma clamp_band_tenths_range:
  "EQ_MIN_TENTHS \<le> clamp_band_tenths db \<and> clamp_band_tenths db \<le> EQ_MAX_TENTHS"
proof (cases "fround (fmul_const f32 db 10)")
  case NaN
  then have "db = NaN" by simp
  then show ?thesis by (simp add: clamp_band_tenths_def eq_consts)
next
  case (Fin t)
  then obtain x where "db = Fin x" by (cases db) auto
  with Fin obtain k :: int where "t = of_int k" by (cases "to_float f32 (x * 10)") auto
  with Fin show ?thesis by (auto simp: clamp_band_tenths_def eq_consts)
qed (auto simp: clamp_band_tenths_def eq_consts)

lemma band_tenths_roundtrip:
  assumes "EQ_MIN_TENTHS \<le> t" and "t \<le> EQ_MAX_TENTHS"
  shows "band_tenths_in_range (fdiv_const f32 (Fin (of_int t)) 10) = Some t"
proof -
  have n: "\<bar>t\<bar> \<le> 65535" using assms by (simp add: eq_consts)
  have "fround (fmul_const f32 (fdiv_const f32 (Fin (of_int t)) 10) 10) = Fin (of_int t)"
    using n by (intro f32_scale_roundtrip) simp_all
  moreover have "is_finite (fdiv_const f32 (Fin (of_int t)) 10)"
    using f32_of_tenths_finite [OF n, of 10] by simp
  ultimately show ?thesis
    using assms by (simp add: band_tenths_in_range_def eq_consts)
qed

lemma all_bands_roundtrip:
  "list_all (\<lambda>t. EQ_MIN_TENTHS \<le> t \<and> t \<le> EQ_MAX_TENTHS) ts \<Longrightarrow>
     all_bands (eq_bands_serialize ts) = Some ts"
  by (induction ts) (simp_all add: eq_bands_serialize_def band_tenths_roundtrip del: fdiv_const.simps)

lemma speed_from_near:
  assumes v: "speed_valid s" and near: "\<bar>y - of_nat s / 100\<bar> \<le> 1 / 1000"
  shows "speed_from_f32 (Fin y) = s"
proof -
  have s: "(50 :: rat) \<le> of_nat s" "(of_nat s :: rat) \<le> 350" "s \<le> 350" "50 \<le> s"
    using v by (auto simp: speed_valid_def speed_consts)
  let ?z = "y * 100"
  have z: "\<bar>?z - of_nat s\<bar> \<le> 1 / 10"
  proof -
    have "?z - of_nat s = 100 * (y - of_nat s / 100)" by simp
    then have "\<bar>?z - of_nat s\<bar> = 100 * \<bar>y - of_nat s / 100\<bar>" by (simp only: abs_mult abs_numeral)
    with near show ?thesis by linarith
  qed
  with s have zb: "49 \<le> \<bar>?z\<bar>" "\<bar>?z\<bar> \<le> 351" by linarith+
  have "(2 :: rat) powi (-126) \<le> 1" by (simp add: power_int_minus field_simps)
  with zb have "\<bar>rnd f32 ?z - ?z\<bar> \<le> \<bar>?z\<bar> / 2 ^ 24" using rnd_rel_error [of f32 ?z] by simp
  also have "\<dots> \<le> 351 / 2 ^ 24" using zb by (intro divide_right_mono) simp_all
  finally have d: "\<bar>rnd f32 ?z - ?z\<bar> \<le> 1 / 10" by simp
  have "\<bar>rnd f32 ?z\<bar> < 2 powi (ff_emax f32 + 1)"
    using d zb(2) abs_triangle_ineq [of ?z "rnd f32 ?z - ?z"] by simp
  then have t: "fmul_const f32 (Fin y) 100 = Fin (rnd f32 ?z)" by (simp add: to_float_Fin)
  have "\<bar>rnd f32 ?z - of_int (int s)\<bar> < 1 / 2"
    unfolding of_int_of_nat_eq using d z by linarith
  then have "round_away (rnd f32 ?z) = int s" by (rule round_away_near)
  with t s show ?thesis
    by (simp add: speed_from_f32_def Let_def speed_consts del: fmul_const.simps)
qed

lemma speed_quotient_error:
  assumes "speed_valid s" and "24 \<le> ff_precision fmt" and "ff_emin fmt \<le> -126"
  shows "\<bar>rnd fmt (of_nat s / 100) - of_nat s / 100\<bar> \<le> 1 / 4000"
proof -
  let ?x = "of_nat s / 100 :: rat"
  have b: "1 / 2 \<le> \<bar>?x\<bar>" "\<bar>?x\<bar> \<le> 4" using assms(1) by (auto simp: speed_valid_def speed_consts)
  have "(2 :: rat) powi ff_emin fmt \<le> 2 powi (-1)" using assms(3) by (intro two_powi_mono) simp
  then have "2 powi ff_emin fmt \<le> \<bar>?x\<bar>" using b(1) by (simp add: power_int_minus)
  then have "\<bar>rnd fmt ?x - ?x\<bar> \<le> \<bar>?x\<bar> / 2 ^ ff_precision fmt" by (rule rnd_rel_error)
  also have "\<dots> \<le> 4 / 2 ^ 24"
    using b(2) power_increasing [OF assms(2), of "2 :: rat"] by (intro frac_le) simp_all
  finally show ?thesis by simp
qed

lemma speed_as_f32_Fin: "speed_valid s \<Longrightarrow> speed_as_f32 s = Fin (rnd f32 (of_nat s / 100))"
  using f32_of_tenths_finite [of "int s" 100] by (simp add: speed_as_f32_def speed_valid_def speed_consts)

lemma speed_serialize_Fin:
  assumes "speed_valid s"
  shows "speed_serialize s = Fin (rnd f64 (of_nat s / 100))"
proof -
  have "\<bar>of_nat s / 100 :: rat\<bar> \<le> 4" using assms by (simp add: speed_valid_def speed_consts)
  then have "\<bar>rnd f64 (of_nat s / 100)\<bar> \<le> 5"
    using speed_quotient_error [OF assms, of f64]
      abs_triangle_ineq [of "of_nat s / 100" "rnd f64 (of_nat s / 100) - of_nat s / 100"] by simp
  then show ?thesis
    by (simp add: speed_serialize_def to_float_Fin)
qed

section \<open>Properties\<close>

text \<open>
  A speed setting survives every representation it goes through: the \<open>f32\<close> handed to the
  player, and the JSON number (an \<open>f64\<close> quotient, narrowed to \<open>f32\<close> by the reader). A slider that
  reports a value within a thousandth of the rate selects exactly that rate.
\<close>

theorem speed_roundtrip:
  assumes "speed_valid s"
  shows "speed_from_f32 (speed_as_f32 s) = s \<and>
    (\<exists>y. speed_serialize s = Fin y \<and> speed_deserialize (to_float f32 y) = Ok s) \<and>
    (\<forall>y. \<bar>y - of_nat s / 100\<bar> \<le> 1 / 1000 \<longrightarrow> speed_from_f32 (Fin y) = s)"
proof -
  let ?x = "of_nat s / 100 :: rat" and ?y = "rnd f64 (of_nat s / 100)"
  have "speed_from_f32 (speed_as_f32 s) = s"
    using speed_quotient_error [OF assms, of f32] assms
    by (simp add: speed_as_f32_Fin speed_from_near)
  moreover have "to_float f32 ?y = Fin (rnd f32 ?y)" "\<bar>rnd f32 ?y - ?x\<bar> \<le> 1 / 1000"
  proof -
    have e: "\<bar>?y - ?x\<bar> \<le> 1 / 4000" using speed_quotient_error [OF assms, of f64] by simp
    have b: "1 / 2 \<le> ?x" "?x \<le> 4" using assms by (auto simp: speed_valid_def speed_consts)
    have y: "1 / 4 \<le> \<bar>?y\<bar>" "\<bar>?y\<bar> \<le> 5" using e b by linarith+
    have "(2 :: rat) powi (-126) \<le> 2 powi (-2)" by (intro two_powi_mono) simp
    then have "\<bar>rnd f32 ?y - ?y\<bar> \<le> \<bar>?y\<bar> / 2 ^ 24"
      using y(1) rnd_rel_error [of f32 ?y] by (simp add: power_int_minus)
    also have "\<dots> \<le> 5 / 2 ^ 24" using y(2) by (intro divide_right_mono) simp_all
    finally have d: "\<bar>rnd f32 ?y - ?y\<bar> \<le> 1 / 4000" by simp
    then show "\<bar>rnd f32 ?y - ?x\<bar> \<le> 1 / 1000" using e by linarith
    have "\<bar>rnd f32 ?y\<bar> \<le> 6" using d y(2) by linarith
    then show "to_float f32 ?y = Fin (rnd f32 ?y)" by (simp add: to_float_Fin)
  qed
  ultimately show ?thesis
    using assms by (auto simp: speed_serialize_Fin speed_deserialize_def speed_from_near)
qed

theorem speed_roundtrip_witness: "speed_from_f32 (speed_as_f32 125) = 125"
  using speed_roundtrip [of 125] by (simp add: speed_valid_def speed_consts)

lemma digit_printable: "is_ascii_digit c \<Longrightarrow> printable c"
  by (simp add: is_ascii_digit_def printable_def)

lemma speed_display_shape:
  assumes "speed_valid s"
  obtains d where "speed_display s = d @ ''x''" "d \<noteq> []" "is_ascii_digit (hd d)" "is_ascii_digit (last d)"
    "parse_decimal d = Some (of_nat s / 100)"
proof -
  let ?w = "show_nat (s div 100)"
  have w: "list_all is_ascii_digit ?w" "?w \<noteq> []" "digits_value ?w = s div 100"
    by (simp_all add: show_nat_digits digits_value_show)
  have hd: "is_ascii_digit (hd (?w @ t))" for t using w(1,2) by (cases ?w) simp_all
  have frac: "is_ascii_digit (last (?w @ CHR ''.'' # fp)) \<and>
      parse_decimal (?w @ CHR ''.'' # fp) = Some (of_nat s / 100)"
    if fp: "list_all is_ascii_digit fp" "fp \<noteq> []" "s mod 100 * 10 ^ length fp = digits_value fp * 100" for fp
  proof
    show "is_ascii_digit (last (?w @ CHR ''.'' # fp))" using fp(1,2) by (simp add: list_all_iff)
    have "(of_nat (s mod 100) :: rat) * 10 ^ length fp = of_nat (digits_value fp) * 100"
      using fp(3) by (metis of_nat_mult of_nat_numeral of_nat_power)
    then have "(of_nat (digits_value fp) :: rat) / 10 ^ length fp = of_nat (s mod 100) / 100"
      by (simp add: field_simps)
    moreover have "(of_nat s :: rat) = of_nat (s div 100) * 100 + of_nat (s mod 100)"
      by (metis div_mult_mod_eq of_nat_add of_nat_mult of_nat_numeral)
    ultimately show "parse_decimal (?w @ CHR ''.'' # fp) = Some (of_nat s / 100)"
      using w fp by (simp add: parse_decimal_frac add_divide_distrib)
  qed
  consider (whole) "s mod 100 = 0" | (tens) "s mod 100 \<noteq> 0" "s mod 100 mod 10 = 0"
    | (two) "s mod 100 \<noteq> 0" "s mod 100 mod 10 \<noteq> 0" by blast
  then show ?thesis
  proof cases
    case whole
    then have "(of_nat s :: rat) = of_nat (s div 100) * 100"
      by (metis add.right_neutral div_mult_mod_eq of_nat_mult of_nat_numeral)
    then have "parse_decimal ?w = Some (of_nat s / 100)" using w by (simp add: parse_decimal_int)
    moreover have "is_ascii_digit (last ?w)" using w by (simp add: list_all_iff)
    ultimately show ?thesis using that [of ?w] whole hd [of "[]"] w(2) by (simp add: speed_display_def)
  next
    case tens
    let ?f = "show_nat (s mod 100 div 10)"
    have "length ?f = 1" by (subst show_nat.simps) (simp add: div_less_iff_less_mult)
    moreover have "s mod 100 = s mod 100 div 10 * 10" using div_mult_mod_eq [of "s mod 100" 10] tens(2) by simp
    ultimately have "s mod 100 * 10 ^ length ?f = digits_value ?f * 100"
      unfolding digits_value_show by simp
    then show ?thesis
      using that [of "?w @ CHR ''.'' # ?f"] tens hd frac [of ?f] w(2)
      by (simp add: speed_display_def show_nat_digits)
  next
    case two
    let ?f = "show_nat_pad 2 (s mod 100)"
    have "length ?f = 2" by (rule length_show_nat_pad) simp_all
    then have "s mod 100 * 10 ^ length ?f = digits_value ?f * 100" by (simp add: digits_value_show_pad)
    then show ?thesis
      using that [of "?w @ CHR ''.'' # ?f"] two hd frac [of ?f] w(2)
      by (simp add: speed_display_def show_nat_pad_digits)
  qed
qed

lemma strip_one_times:
  assumes "d \<noteq> []" and "is_ascii_digit (last d)"
  shows "rev (strip_times_rev (rev (d @ ''x''))) = d"
proof -
  obtain e c where d: "d = e @ [c]" using assms(1) by (cases d rule: rev_cases) auto
  with assms(2) have c: "c \<noteq> CHR ''x''" "c \<noteq> CHR ''X''" "byte c \<noteq> 0x97" by (auto simp: ascii)
  show ?thesis
    using c by (cases "rev e") (simp_all add: d)
qed

text \<open>
  What the program prints for a speed, it accepts: the text shown to the user (\<open>1x\<close>, \<open>1.5x\<close>,
  \<open>1.25x\<close>) parses back to the same setting.
\<close>

theorem speed_display_parses:
  assumes "speed_valid s"
  shows "speed_parse (speed_display s) = Some s"
proof -
  obtain d where d: "speed_display s = d @ ''x''" "d \<noteq> []" "is_ascii_digit (hd d)" "is_ascii_digit (last d)"
    "parse_decimal d = Some (of_nat s / 100)"
    using assms by (rule speed_display_shape)
  have "trim (d @ ''x'') = d @ ''x''"
  proof (rule trim_printable)
    show "printable (hd (d @ ''x''))" using d(2,3) by (simp add: digit_printable)
    show "printable (last (d @ ''x''))" by (simp add: printable_def byte_def)
  qed simp
  then have trimmed: "rev (strip_times_rev (rev (trim (speed_display s)))) = d"
    using d strip_one_times by simp
  obtain c cs where c: "d = c # cs" "is_ascii_digit c" using d(2,3) by (cases d) auto
  then have "parse_float f32 d = Some (to_float f32 (of_nat s / 100))"
    using d(5) by (auto simp: parse_float_def split_sign_def to_ascii_lowercase_def ascii)
  moreover have "to_float f32 (of_nat s / 100) = speed_as_f32 s" by (simp add: speed_as_f32_def)
  moreover have "last d \<noteq> CHR ''%''" using d(4) by (auto simp: ascii)
  moreover have "speed_from_f32 (Fin (rnd f32 (of_nat s / 100))) = s"
    using speed_quotient_error [OF assms, of f32] assms by (simp add: speed_from_near)
  ultimately show ?thesis
    using trimmed assms by (simp add: speed_parse_def speed_as_f32_Fin)
qed

theorem speed_display_parses_witness: "speed_parse (speed_display 125) = Some 125"
  by (rule speed_display_parses) (simp add: speed_valid_def speed_consts)

text \<open>
  The speed range is closed under everything the program does with it. Clamping any float
  other than NaN lands in 0.5x to 3.5x, the two step keys stay in it, never overflow, and undo each
  other away from the rails. NaN, which the parsers refuse beforehand, would be the rate 0.
\<close>

theorem speed_range:
  "(\<forall>v. v \<noteq> NaN \<longrightarrow> speed_valid (speed_from_f32 v)) \<and>
   speed_from_f32 NaN = 0 \<and>
   (\<forall>v s. speed_deserialize v = Ok s \<longrightarrow> speed_valid s) \<and>
   (\<forall>s. speed_valid s \<longrightarrow>
      speed_valid (speed_faster s) \<and> speed_valid (speed_slower s) \<and>
      (s + SPEED_STEP \<le> SPEED_MAX \<longrightarrow> speed_slower (speed_faster s) = s) \<and>
      (SPEED_MIN + SPEED_STEP \<le> s \<longrightarrow> speed_faster (speed_slower s) = s))"
proof -
  have c: "speed_valid (speed_from_f32 v)" if "v \<noteq> NaN" for v
    unfolding speed_from_f32_def Let_def by (rule fcast_clamped) (simp add: that)
  moreover have "v \<noteq> NaN" if "speed_deserialize v = Ok s" for v s
    using that by (cases v) (auto simp: speed_deserialize_def)
  ultimately show ?thesis
    by (auto simp: speed_deserialize_def speed_from_f32_def speed_valid_def speed_consts
        speed_faster_def speed_slower_def split: if_splits)
qed

theorem speed_range_witness: "speed_valid (speed_from_f32 PosInf) \<and> speed_slower (speed_faster 100) = 100"
  using speed_range by (simp add: speed_consts speed_valid_def)

text \<open>
  An equalizer curve with every band inside \<open>\<plusminus>\<close>12 dB survives its JSON form, preset name and
  all, although the wire carries rounded single-precision decibels; a curve with a band outside
  the range, a missing band or an extra band is refused.
\<close>

theorem eq_settings_roundtrip:
  "(eq_bands_valid (eq_bands s) \<longrightarrow> eq_settings_deserialize (eq_settings_serialize s) = Some s) \<and>
   (length bands \<noteq> EQ_BAND_COUNT \<longrightarrow> eq_bands_from_db bands = None) \<and>
   (eq_bands_from_db bands = Some ts \<longrightarrow> eq_bands_valid ts)"
proof -
  have "length (eq_bands_serialize (eq_bands s)) = length (eq_bands s)"
    by (simp add: eq_bands_serialize_def)
  then have "eq_settings_deserialize (eq_settings_serialize s) = Some s" if "eq_bands_valid (eq_bands s)"
    using that by (simp add: eq_settings_deserialize_def eq_settings_serialize_def eq_bands_from_db_def
        eq_bands_valid_def all_bands_roundtrip)
  moreover have band: "EQ_MIN_TENTHS \<le> t \<and> t \<le> EQ_MAX_TENTHS" if bt: "band_tenths_in_range db = Some t" for db t
  proof -
    from bt obtain r where r: "fround (fmul_const f32 db 10) = Fin r" "is_finite db"
      "of_int EQ_MIN_TENTHS \<le> r" "r \<le> of_int EQ_MAX_TENTHS" "t = fcast_int (-32768) 32767 (Fin r)"
      by (auto simp: band_tenths_in_range_def simp del: fcast_int.simps split: rfloat.splits if_splits)
    from r(1) obtain k :: int where "r = of_int k" by (cases "fmul_const f32 db 10") auto
    with r show ?thesis by (auto simp: eq_consts)
  qed
  then have "all_bands dbs = Some us \<Longrightarrow> length us = length dbs \<and>
      list_all (\<lambda>t. EQ_MIN_TENTHS \<le> t \<and> t \<le> EQ_MAX_TENTHS) us" for dbs us
    by (induction dbs arbitrary: us) (auto split: option.splits)
  ultimately show ?thesis
    by (auto simp: eq_bands_from_db_def eq_bands_valid_def split: if_splits)
qed

theorem eq_settings_roundtrip_witness:
  "eq_settings_deserialize (eq_settings_serialize eq_flat) = Some eq_flat"
  using eq_settings_roundtrip [of eq_flat]
  by (simp add: eq_flat_def eq_bands_valid_def eq_consts list_all_iff)

text \<open>
  The gain-reduction meter is exact on the wire: the signed decibel value a client receives
  decodes to the tenths the limiter published, for every possible reading.
\<close>

lemma eq_limiting_roundtrip:
  assumes "t \<le> 65535"
  shows "eq_limiting_deserialize (eq_limiting_as_db t) = Ok t"
proof (cases "t = 0")
  case True
  then show ?thesis
    by (simp add: eq_limiting_as_db_def eq_limiting_deserialize_def eq_limiting_from_reduction_db_def)
next
  case False
  let ?r = "rnd f32 (of_int (int t) / 10)"
  have n: "\<bar>int t\<bar> \<le> 65535" using assms by simp
  note q = f32_of_tenths_finite [OF n, of 10, simplified]
  have rt: "fround (fmul_const f32 (Fin ?r) 10) = Fin (of_int (int t))"
    using f32_scale_roundtrip [OF n, of 10] q by simp
  have pos: "0 < ?r"
  proof (rule ccontr)
    assume "\<not> 0 < ?r"
    with rnd_nonneg [of "of_int (int t) / 10" f32] have "?r = 0" by simp
    moreover have "\<lfloor>1 / 2 :: rat\<rfloor> = 0" by (simp add: floor_eq_iff)
    ultimately show False using rt False by (simp add: to_float_def rnd_def round_away_def)
  qed
  have "eq_limiting_as_db t = Fin (- ?r)"
    using False q by (simp add: eq_limiting_as_db_def)
  then show ?thesis
    using pos rt assms by (simp add: eq_limiting_deserialize_def eq_limiting_from_reduction_db_def
        del: fmul_const.simps)
qed

theorem eq_limiting_roundtrip_witness: "eq_limiting_deserialize (eq_limiting_as_db 24) = Ok 24"
  by (rule eq_limiting_roundtrip) simp

lemma preset_names_lowercase:
  "map (to_ascii_lowercase \<circ> fst) EQ_PRESETS =
    [''flat'', ''rock'', ''pop'', ''jazz'', ''classical'', ''bass boost'', ''treble boost'', ''vocal'',
     ''electronic'', ''acoustic'', ''hip-hop'', ''r&b'', ''loudness'', ''late night'', ''podcast'',
     ''small speakers'']"
  by (simp add: EQ_PRESETS_def to_ascii_lowercase_def ascii) code_simp

lemma preset_names_distinct: "distinct (map (to_ascii_lowercase \<circ> fst) EQ_PRESETS)"
  unfolding preset_names_lowercase by simp

lemma preset_positions:
  assumes "i < 16"
  shows "position (\<lambda>(p, _). eq_ignore_ascii_case p (fst (EQ_PRESETS ! i))) EQ_PRESETS = Some i"
  using position_of_nth [OF preset_names_distinct, of i] assms
  by (simp add: eq_ignore_ascii_case_def case_prod_unfold)

definition nth_preset :: "nat \<Rightarrow> eq_settings" where
  "nth_preset i = \<lparr>eq_preset = Some (fst (EQ_PRESETS ! i)), eq_bands = snd (EQ_PRESETS ! i)\<rparr>"

lemma nth_preset_valid: "eq_bands_valid (snd (EQ_PRESETS ! (k mod 16)))"
  by (rule preset_bands_valid [of "fst (EQ_PRESETS ! (k mod 16))"]) simp

lemma next_of_nth_preset: "i < 16 \<Longrightarrow> eq_next_preset (nth_preset i) = nth_preset ((i + 1) mod 16)"
  using preset_positions by (simp add: eq_next_preset_def nth_preset_def split_beta)

lemma next_preset_iterate: "i < 16 \<Longrightarrow> (eq_next_preset ^^ n) (nth_preset i) = nth_preset ((i + n) mod 16)"
proof (induction n)
  case (Suc n)
  then show ?case by (simp add: next_of_nth_preset mod_Suc_eq)
qed simp

text \<open>
  The preset key is a cycle through all sixteen presets. From preset \<open>i\<close>, \<open>n\<close> presses reach
  preset \<open>i + n\<close> modulo 16, so sixteen presses return to it; a hand-edited curve steps to Flat; and
  every curve the equalizer operations build has ten bands inside the range.
\<close>

theorem eq_preset_cycle:
  "(i < 16 \<longrightarrow> (eq_next_preset ^^ n) (nth_preset i) = nth_preset ((i + n) mod 16) \<and>
      (eq_next_preset ^^ 16) (nth_preset i) = nth_preset i) \<and>
   eq_next_preset (eq_from_bands ts) = nth_preset 0 \<and>
   eq_bands_valid (eq_bands (eq_next_preset s)) \<and>
   (eq_from_preset name = Some s' \<longrightarrow> eq_bands_valid (eq_bands s')) \<and>
   (eq_bands_valid (eq_bands s) \<longrightarrow>
      eq_bands_valid (eq_bands (eq_with_band s k db)) \<and> eq_preset (eq_with_band s k db) = None)"
proof -
  have "eq_bands_valid (eq_bands (eq_next_preset s))"
    by (simp add: eq_next_preset_def Let_def split_beta nth_preset_valid)
  moreover have "eq_bands_valid (eq_bands s')" if "eq_from_preset name = Some s'"
    using that by (auto simp: eq_from_preset_def find_Some_iff)
      (metis nth_mem preset_bands_valid presets_length)
  moreover have "eq_next_preset (eq_from_bands ts) = nth_preset 0"
    by (simp add: eq_next_preset_def eq_from_bands_def nth_preset_def split_beta)
  moreover have "eq_bands_valid (eq_bands (eq_with_band s k db))" if "eq_bands_valid (eq_bands s)"
    using that clamp_band_tenths_range [of db]
    by (auto simp: eq_with_band_def eq_bands_valid_def list_all_length nth_list_update)
  ultimately show ?thesis
    using next_preset_iterate [of i n] next_preset_iterate [of i 16] by (simp add: eq_with_band_def)
qed

theorem eq_preset_cycle_witness: "(eq_next_preset ^^ 16) (nth_preset 3) = nth_preset 3"
  using eq_preset_cycle [of 3] by simp

end
