(* ===== verification/Playback_Clock.thy ===== *)
theory Playback_Clock
  imports Player_Events Audio_Settings
begin

text \<open>
  \<open>spotuify-daemon/src/clock.rs\<close>: the in-memory truth of what is playing. \<open>clock_state\<close> is the
  \<open>ClockState\<close> behind the lock; every public method is one function on it, with the monotonic
  readings of \<open>Instant::now()\<close> (nanoseconds) and the closures' results as arguments. A method that
  reads the clock twice takes two readings, \<open>now\<close> for the extrapolation and \<open>now'\<close> for the new
  anchor. Logging is left out.
\<close>

section \<open>State\<close>

record playback =
  pb_item :: "media_item option"
  pb_device :: "device option"
  pb_is_playing :: bool
  pb_progress_ms :: u64
  pb_shuffle :: bool
  pb_repeat :: repeat_mode
  pb_sampled_at_ms :: "i64 option"
  pb_provider_timestamp_ms :: "i64 option"
  pb_source :: "playback_state_source option"
  pb_playback_speed :: "playback_speed option"

definition POSITION_DRIFT_THRESHOLD_MS :: i64 where "POSITION_DRIFT_THRESHOLD_MS = 1500"
definition NO_ACTIVE_SESSION_CONFIRM_MS :: i64 where "NO_ACTIVE_SESSION_CONFIRM_MS = 10000"

type_synonym instant = nat

record clock_state =
  ck_item :: "media_item option"
  ck_device :: "device option"
  ck_is_playing :: bool
  ck_base_progress_ms :: u64
  ck_base_instant :: instant
  ck_provider_timestamp_ms :: "i64 option"
  ck_sampled_at_ms :: i64
  ck_shuffle :: bool
  ck_repeat :: repeat_mode
  ck_source :: playback_state_source
  ck_first_empty_ms :: "i64 option"
  ck_podcast_speed :: playback_speed
  ck_player_transition :: "64 word"
  ck_player_transition_at_ms :: "i64 option"

record poll_revision =
  rev_mutation_seq :: "64 word"
  rev_player_transition :: "64 word"

definition clock_empty :: "instant \<Rightarrow> clock_state" where
  "clock_empty now =
     \<lparr>ck_item = None, ck_device = None, ck_is_playing = False, ck_base_progress_ms = 0,
      ck_base_instant = now, ck_provider_timestamp_ms = None, ck_sampled_at_ms = 0,
      ck_shuffle = False, ck_repeat = RepeatOff, ck_source = RecentFallback,
      ck_first_empty_ms = None, ck_podcast_speed = SPEED_NORMAL, ck_player_transition = 0,
      ck_player_transition_at_ms = None\<rparr>"

section \<open>Progress\<close>

definition is_episode :: "media_item \<Rightarrow> bool" where
  "is_episode item \<longleftrightarrow> mi_kind item = Episode \<or>
     (case resource_uri_parse (mi_uri item) of Ok uri \<Rightarrow> ru_kind uri = Episode | Err _ \<Rightarrow> False)"

definition effective_speed :: "clock_state \<Rightarrow> playback_speed" where
  "effective_speed st =
     (if (case ck_item st of None \<Rightarrow> False | Some item \<Rightarrow> is_episode item)
      then ck_podcast_speed st else SPEED_NORMAL)"

definition clamp_to_duration :: "clock_state \<Rightarrow> u64 \<Rightarrow> u64" where
  "clamp_to_duration st ms = (case ck_item st of
       Some item \<Rightarrow> if 0 < mi_duration_ms item then min ms (mi_duration_ms item) else ms
     | None \<Rightarrow> ms)"

text \<open>\<open>saturating_duration_since(..).as_millis()\<close> of two nanosecond readings.\<close>

definition elapsed_ms :: "instant \<Rightarrow> instant \<Rightarrow> nat" where
  "elapsed_ms now base = (now - base) div 1000000"

definition advance_ms :: "playback_speed \<Rightarrow> nat \<Rightarrow> u64" where
  "advance_ms speed elapsed =
     fcast_uint u64_max (fmul f64 (to_float f64 (of_nat elapsed)) (speed_as_f32 speed))"

definition current_progress_ms :: "clock_state \<Rightarrow> instant \<Rightarrow> u64" where
  "current_progress_ms st now =
     (if \<not> ck_is_playing st then clamp_to_duration st (ck_base_progress_ms st)
      else clamp_to_duration st
             (sat_u64 (ck_base_progress_ms st +
                advance_ms (effective_speed st) (elapsed_ms now (ck_base_instant st)))))"

section \<open>Reads\<close>

definition snapshot :: "clock_state \<Rightarrow> instant \<Rightarrow> playback" where
  "snapshot st now =
     \<lparr>pb_item = ck_item st, pb_device = ck_device st, pb_is_playing = ck_is_playing st,
      pb_progress_ms = current_progress_ms st now, pb_shuffle = ck_shuffle st,
      pb_repeat = ck_repeat st, pb_sampled_at_ms = Some (ck_sampled_at_ms st),
      pb_provider_timestamp_ms = ck_provider_timestamp_ms st, pb_source = Some (ck_source st),
      pb_playback_speed = Some (effective_speed st)\<rparr>"

definition matches_uri :: "media_item option \<Rightarrow> media_item option \<Rightarrow> bool" where
  "matches_uri a b = (case (a, b) of
       (Some x, Some y) \<Rightarrow> mi_uri x = mi_uri y
     | (None, None) \<Rightarrow> True
     | _ \<Rightarrow> False)"

definition poll_precedes_player_transition :: "clock_state \<Rightarrow> playback \<Rightarrow> bool" where
  "poll_precedes_player_transition st playback \<longleftrightarrow>
     \<not> matches_uri (ck_item st) (pb_item playback) \<and>
     (case (pb_provider_timestamp_ms playback, ck_player_transition_at_ms st) of
        (Some remote, Some local) \<Rightarrow> remote < local
      | _ \<Rightarrow> False)"

definition clock_state_has_live_signal :: "clock_state \<Rightarrow> bool" where
  "clock_state_has_live_signal st \<longleftrightarrow>
     ck_is_playing st \<or> ck_device st \<noteq> None \<or> (ck_item st \<noteq> None \<and> ck_source st \<noteq> RecentFallback)"

definition playback_has_live_signal :: "playback \<Rightarrow> bool" where
  "playback_has_live_signal p \<longleftrightarrow> pb_item p \<noteq> None \<or> pb_device p \<noteq> None \<or> pb_is_playing p"

primrec source_priority :: "playback_state_source \<Rightarrow> u8" where
  "source_priority PlayerEvent = 4"
| "source_priority CommandResult = 3"
| "source_priority RemotePoll = 2"
| "source_priority Cache = 1"
| "source_priority RecentFallback = 0"

section \<open>Metadata\<close>

definition fill_opt :: "'a option \<Rightarrow> 'a option \<Rightarrow> 'a option" where
  "fill_opt t s = (if t = None \<and> s \<noteq> None then s else t)"

definition fill_list :: "'a list \<Rightarrow> 'a list \<Rightarrow> 'a list" where
  "fill_list t s = (if t = [] \<and> s \<noteq> [] then s else t)"

definition fill_num :: "nat \<Rightarrow> nat \<Rightarrow> nat" where
  "fill_num t s = (if t = 0 \<and> 0 < s then s else t)"

definition filled_metadata :: "media_item \<Rightarrow> media_item \<Rightarrow> media_item" where
  "filled_metadata t s = t\<lparr>
     mi_id := fill_opt (mi_id t) (mi_id s),
     mi_name := fill_list (mi_name t) (mi_name s),
     mi_subtitle := fill_list (mi_subtitle t) (mi_subtitle s),
     mi_context := fill_list (mi_context t) (mi_context s),
     mi_duration_ms := fill_num (mi_duration_ms t) (mi_duration_ms s),
     mi_image_url := fill_opt (mi_image_url t) (mi_image_url s),
     mi_source := fill_opt (mi_source t) (mi_source s),
     mi_freshness := fill_opt (mi_freshness t) (mi_freshness s),
     mi_explicit := fill_opt (mi_explicit t) (mi_explicit s),
     mi_is_playable := fill_opt (mi_is_playable t) (mi_is_playable s),
     mi_album := fill_opt (mi_album t) (mi_album s),
     mi_added_at_ms := fill_opt (mi_added_at_ms t) (mi_added_at_ms s),
     mi_resume_position_ms := fill_opt (mi_resume_position_ms t) (mi_resume_position_ms s),
     mi_fully_played := fill_opt (mi_fully_played t) (mi_fully_played s),
     mi_release_date := fill_opt (mi_release_date t) (mi_release_date s),
     mi_album_group := fill_opt (mi_album_group t) (mi_album_group s),
     mi_in_library := fill_opt (mi_in_library t) (mi_in_library s),
     mi_album_uri := fill_opt (mi_album_uri t) (mi_album_uri s),
     mi_artists := fill_list (mi_artists t) (mi_artists s),
     mi_genre := fill_opt (mi_genre t) (mi_genre s)\<rparr>"

definition merge_missing_item_metadata :: "media_item \<Rightarrow> media_item \<Rightarrow> media_item \<times> bool" where
  "merge_missing_item_metadata target source =
     (if mi_uri target \<noteq> mi_uri source then (target, False)
      else (filled_metadata target source,
            mi_id target = None \<and> mi_id source \<noteq> None \<or>
            mi_name target = [] \<and> mi_name source \<noteq> [] \<or>
            mi_subtitle target = [] \<and> mi_subtitle source \<noteq> [] \<or>
            mi_context target = [] \<and> mi_context source \<noteq> [] \<or>
            mi_duration_ms target = 0 \<and> 0 < mi_duration_ms source \<or>
            mi_image_url target = None \<and> mi_image_url source \<noteq> None \<or>
            mi_source target = None \<and> mi_source source \<noteq> None \<or>
            mi_freshness target = None \<and> mi_freshness source \<noteq> None \<or>
            mi_explicit target = None \<and> mi_explicit source \<noteq> None \<or>
            mi_is_playable target = None \<and> mi_is_playable source \<noteq> None \<or>
            mi_album target = None \<and> mi_album source \<noteq> None \<or>
            mi_added_at_ms target = None \<and> mi_added_at_ms source \<noteq> None \<or>
            mi_resume_position_ms target = None \<and> mi_resume_position_ms source \<noteq> None \<or>
            mi_fully_played target = None \<and> mi_fully_played source \<noteq> None \<or>
            mi_release_date target = None \<and> mi_release_date source \<noteq> None \<or>
            mi_album_group target = None \<and> mi_album_group source \<noteq> None \<or>
            mi_in_library target = None \<and> mi_in_library source \<noteq> None \<or>
            mi_album_uri target = None \<and> mi_album_uri source \<noteq> None \<or>
            mi_artists target = [] \<and> mi_artists source \<noteq> [] \<or>
            mi_genre target = None \<and> mi_genre source \<noteq> None))"

definition merge_missing_current_item_metadata ::
    "media_item option \<Rightarrow> media_item \<Rightarrow> media_item option \<times> bool" where
  "merge_missing_current_item_metadata target source = (case target of
       None \<Rightarrow> (None, False)
     | Some t \<Rightarrow> (case merge_missing_item_metadata t source of (t', changed) \<Rightarrow> (Some t', changed)))"

section \<open>Writes\<close>

definition seed_from_cache ::
    "clock_state \<Rightarrow> playback \<Rightarrow> playback_state_source \<Rightarrow> i64 \<Rightarrow> instant \<Rightarrow> clock_state" where
  "seed_from_cache st playback source sampled_at_ms now =
     st\<lparr>ck_item := pb_item playback, ck_device := pb_device playback,
        ck_is_playing := pb_is_playing playback, ck_base_progress_ms := pb_progress_ms playback,
        ck_base_instant := now, ck_shuffle := pb_shuffle playback, ck_repeat := pb_repeat playback,
        ck_provider_timestamp_ms := pb_provider_timestamp_ms playback,
        ck_sampled_at_ms := sampled_at_ms, ck_source := source, ck_first_empty_ms := None\<rparr>"

definition set_podcast_speed :: "clock_state \<Rightarrow> playback_speed \<Rightarrow> instant \<Rightarrow> clock_state" where
  "set_podcast_speed st speed now =
     st\<lparr>ck_base_progress_ms := current_progress_ms st now, ck_base_instant := now,
        ck_podcast_speed := speed\<rparr>"

definition is_playback_transition :: "player_event \<Rightarrow> bool" where
  "is_playback_transition ev = (case ev of
       PlaybackStarted _ _ \<Rightarrow> True | TrackChanged _ _ \<Rightarrow> True | PlaybackPaused \<Rightarrow> True
     | PlaybackResumed \<Rightarrow> True | Deactivated \<Rightarrow> True | EndOfTrack _ \<Rightarrow> True | _ \<Rightarrow> False)"

definition mark_transition :: "player_event \<Rightarrow> i64 \<Rightarrow> clock_state \<Rightarrow> clock_state" where
  "mark_transition ev now_ms st =
     (if is_playback_transition ev
      then st\<lparr>ck_player_transition := ck_player_transition st + 1,
              ck_player_transition_at_ms := Some now_ms\<rparr>
      else st)"

definition start_track :: "resource_uri \<Rightarrow> u32 \<Rightarrow> i64 \<Rightarrow> instant \<Rightarrow> clock_state \<Rightarrow> clock_state" where
  "start_track u position_ms now_ms now st =
     st\<lparr>ck_item := (if map_option mi_uri (ck_item st) \<noteq> Some (as_uri u)
                    then Some (media_stub (as_uri u)) else ck_item st),
        ck_base_progress_ms := position_ms, ck_base_instant := now, ck_is_playing := True,
        ck_source := PlayerEvent, ck_sampled_at_ms := now_ms, ck_first_empty_ms := None\<rparr>"

definition freeze :: "i64 \<Rightarrow> instant \<Rightarrow> instant \<Rightarrow> clock_state \<Rightarrow> clock_state" where
  "freeze now_ms now now' st =
     st\<lparr>ck_base_progress_ms := current_progress_ms st now, ck_base_instant := now',
        ck_is_playing := False, ck_source := PlayerEvent, ck_sampled_at_ms := now_ms,
        ck_first_empty_ms := None\<rparr>"

text \<open>\<open>i64::abs\<close> wraps at the minimum in the release profile.\<close>

definition position_tick :: "u32 \<Rightarrow> i64 \<Rightarrow> instant \<Rightarrow> instant \<Rightarrow> clock_state \<Rightarrow> clock_state" where
  "position_tick position_ms now_ms now now' st =
     (let st = st\<lparr>ck_first_empty_ms := None\<rparr>;
          extrapolated = u64_as_i64 (current_progress_ms st now);
          real = int position_ms
      in if POSITION_DRIFT_THRESHOLD_MS < wrap_i64 \<bar>wrap_i64 (extrapolated - real)\<bar>
         then st\<lparr>ck_base_progress_ms := i64_as_u64 real, ck_base_instant := now',
                 ck_source := PlayerEvent, ck_sampled_at_ms := now_ms\<rparr>
         else st)"

definition end_of_track :: "i64 \<Rightarrow> instant \<Rightarrow> clock_state \<Rightarrow> clock_state" where
  "end_of_track now_ms now st =
     st\<lparr>ck_base_progress_ms := (case ck_item st of
            Some item \<Rightarrow> if 0 < mi_duration_ms item then mi_duration_ms item else ck_base_progress_ms st
          | None \<Rightarrow> ck_base_progress_ms st),
        ck_base_instant := now, ck_is_playing := False, ck_source := PlayerEvent,
        ck_sampled_at_ms := now_ms, ck_first_empty_ms := None\<rparr>"

definition apply_player_event ::
    "player_event \<Rightarrow> i64 \<Rightarrow> instant \<Rightarrow> instant \<Rightarrow> clock_state \<Rightarrow> clock_state" where
  "apply_player_event ev now_ms now now' st0 =
     (let st = mark_transition ev now_ms st0
      in case ev of
           PlaybackStarted u position_ms \<Rightarrow> start_track u position_ms now_ms now st
         | TrackChanged u position_ms \<Rightarrow> start_track u position_ms now_ms now st
         | PlaybackPaused \<Rightarrow> freeze now_ms now now' st
         | Deactivated \<Rightarrow> freeze now_ms now now' st
         | PlaybackResumed \<Rightarrow>
             st\<lparr>ck_base_instant := now, ck_is_playing := True, ck_source := PlayerEvent,
                ck_sampled_at_ms := now_ms, ck_first_empty_ms := None\<rparr>
         | PositionTick position_ms \<Rightarrow> position_tick position_ms now_ms now now' st
         | EndOfTrack _ \<Rightarrow> end_of_track now_ms now st
         | _ \<Rightarrow> st)"

definition mark_audio_stalled :: "i64 \<Rightarrow> instant \<Rightarrow> instant \<Rightarrow> clock_state \<Rightarrow> clock_state \<times> bool" where
  "mark_audio_stalled now_ms now now' st =
     (if \<not> ck_is_playing st then (st, False) else (freeze now_ms now now' st, True))"

definition enrich_current_item :: "media_item \<Rightarrow> clock_state \<Rightarrow> clock_state \<times> bool" where
  "enrich_current_item item st = (case ck_item st of
       None \<Rightarrow> (st, False)
     | Some current \<Rightarrow>
         if mi_uri current \<noteq> mi_uri item then (st, False)
         else (case merge_missing_item_metadata current item of (merged, changed) \<Rightarrow>
             (if changed then st\<lparr>ck_item := Some merged, ck_first_empty_ms := None\<rparr>
              else st\<lparr>ck_item := Some merged\<rparr>, changed)))"

definition apply_device_volume :: "u8 \<Rightarrow> device option \<Rightarrow> i64 \<Rightarrow> clock_state \<Rightarrow> clock_state" where
  "apply_device_volume percent seed now_ms st =
     st\<lparr>ck_device := (case ck_device st of
            Some d \<Rightarrow> Some (d\<lparr>dev_volume_percent := Some percent\<rparr>)
          | None \<Rightarrow> seed),
        ck_sampled_at_ms := now_ms, ck_first_empty_ms := None\<rparr>"

definition apply_command_result :: "playback \<Rightarrow> i64 \<Rightarrow> instant \<Rightarrow> clock_state \<Rightarrow> clock_state" where
  "apply_command_result playback sampled_at_ms now st =
     (let same_uri = matches_uri (ck_item st) (pb_item playback);
          player_event_owns_track = same_uri \<and> ck_source st = PlayerEvent;
          st' = st\<lparr>ck_item := pb_item playback, ck_device := pb_device playback,
                   ck_shuffle := pb_shuffle playback, ck_repeat := pb_repeat playback,
                   ck_first_empty_ms := None\<rparr>
      in if \<not> player_event_owns_track
         then st'\<lparr>ck_is_playing := pb_is_playing playback, ck_base_progress_ms := pb_progress_ms playback,
                  ck_base_instant := now, ck_source := CommandResult, ck_sampled_at_ms := sampled_at_ms\<rparr>
         else st')"

definition clear_session :: "i64 \<Rightarrow> i64 option \<Rightarrow> instant \<Rightarrow> instant \<Rightarrow> clock_state \<Rightarrow> clock_state" where
  "clear_session sampled_at_ms provider_timestamp_ms now now' st =
     st\<lparr>ck_device := None, ck_is_playing := False,
        ck_base_progress_ms := (if ck_item st \<noteq> None then current_progress_ms st now else 0),
        ck_base_instant := now',
        ck_shuffle := (if ck_item st = None then False else ck_shuffle st),
        ck_repeat := (if ck_item st = None then RepeatOff else ck_repeat st),
        ck_provider_timestamp_ms := provider_timestamp_ms,
        ck_source := (if ck_item st \<noteq> None then RecentFallback else RemotePoll),
        ck_sampled_at_ms := sampled_at_ms, ck_first_empty_ms := None\<rparr>"

definition apply_empty_web_api_poll ::
    "i64 \<Rightarrow> i64 option \<Rightarrow> instant \<Rightarrow> instant \<Rightarrow> clock_state \<Rightarrow> clock_state \<times> bool" where
  "apply_empty_web_api_poll sampled_at_ms provider_timestamp_ms now now' st =
     (if \<not> clock_state_has_live_signal st
      then (st\<lparr>ck_first_empty_ms := None, ck_provider_timestamp_ms := provider_timestamp_ms\<rparr>, False)
      else (case ck_first_empty_ms st of
          None \<Rightarrow> (st\<lparr>ck_first_empty_ms := Some sampled_at_ms\<rparr>, False)
        | Some first_empty_ms \<Rightarrow>
            if sat_i64 (sampled_at_ms - first_empty_ms) < NO_ACTIVE_SESSION_CONFIRM_MS
            then (st, False)
            else (clear_session sampled_at_ms provider_timestamp_ms now now' st,
                  ck_is_playing st \<or> ck_device st \<noteq> None \<or>
                  (ck_item st \<noteq> None \<and> ck_source st \<noteq> RecentFallback))))"

definition reseat_from_poll ::
    "playback \<Rightarrow> i64 \<Rightarrow> i64 option \<Rightarrow> instant \<Rightarrow> clock_state \<Rightarrow> clock_state" where
  "reseat_from_poll playback sampled_at_ms provider_timestamp_ms now st =
     st\<lparr>ck_item := pb_item playback, ck_device := pb_device playback,
        ck_is_playing := pb_is_playing playback, ck_base_progress_ms := pb_progress_ms playback,
        ck_base_instant := now, ck_shuffle := pb_shuffle playback, ck_repeat := pb_repeat playback,
        ck_provider_timestamp_ms := provider_timestamp_ms, ck_source := RemotePoll,
        ck_sampled_at_ms := sampled_at_ms, ck_first_empty_ms := None\<rparr>"

definition poll_may_reseat :: "i64 \<Rightarrow> clock_state \<Rightarrow> bool" where
  "poll_may_reseat sampled_at_ms st \<longleftrightarrow>
     source_priority (ck_source st) < source_priority RemotePoll \<or>
     POSITION_DRIFT_THRESHOLD_MS < wrap_i64 (sampled_at_ms - ck_sampled_at_ms st)"

definition apply_web_api_poll ::
    "playback \<Rightarrow> poll_revision \<Rightarrow> 64 word \<Rightarrow> i64 \<Rightarrow> i64 option \<Rightarrow> bool \<Rightarrow> instant \<Rightarrow> instant
      \<Rightarrow> clock_state \<Rightarrow> clock_state \<times> bool" where
  "apply_web_api_poll playback revision state_seq sampled_at_ms provider_timestamp_ms on_current now now' st =
     (if rev_mutation_seq revision \<noteq> state_seq then (st, False)
      else if rev_player_transition revision \<noteq> ck_player_transition st \<or> \<not> on_current then (st, False)
      else if \<not> playback_has_live_signal playback
      then apply_empty_web_api_poll sampled_at_ms provider_timestamp_ms now now' st
      else let st = st\<lparr>ck_first_empty_ms := None\<rparr>
           in if matches_uri (ck_item st) (pb_item playback) \<and> \<not> poll_may_reseat sampled_at_ms st
              then (case (case pb_item playback of
                       Some item \<Rightarrow> merge_missing_current_item_metadata (ck_item st) item
                     | None \<Rightarrow> (ck_item st, False)) of
                   (item', metadata_changed) \<Rightarrow>
                     (st\<lparr>ck_item := item', ck_provider_timestamp_ms := provider_timestamp_ms\<rparr>,
                      metadata_changed))
              else (reseat_from_poll playback sampled_at_ms provider_timestamp_ms now st, True))"

definition prepare_web_api_poll ::
    "playback \<Rightarrow> i64 \<Rightarrow> i64 option \<Rightarrow> instant \<Rightarrow> clock_state \<Rightarrow> clock_state \<times> playback option" where
  "prepare_web_api_poll playback sampled_at_ms provider_timestamp_ms now st =
     (if playback_has_live_signal playback then (st, Some playback)
      else if \<not> clock_state_has_live_signal st then (st\<lparr>ck_first_empty_ms := None\<rparr>, None)
      else (case ck_first_empty_ms st of
          None \<Rightarrow> (st\<lparr>ck_first_empty_ms := Some sampled_at_ms\<rparr>, None)
        | Some first_empty_ms \<Rightarrow>
            if sat_i64 (sampled_at_ms - first_empty_ms) < NO_ACTIVE_SESSION_CONFIRM_MS then (st, None)
            else (st, Some
              \<lparr>pb_item = ck_item st, pb_device = None, pb_is_playing = False,
               pb_progress_ms = (if ck_item st \<noteq> None then current_progress_ms st now else 0),
               pb_shuffle = ck_shuffle st, pb_repeat = ck_repeat st,
               pb_sampled_at_ms = Some sampled_at_ms,
               pb_provider_timestamp_ms = provider_timestamp_ms,
               pb_source = Some (if ck_item st \<noteq> None then RecentFallback else RemotePoll),
               pb_playback_speed = Some (effective_speed st)\<rparr>)))"

definition apply_seek :: "u64 \<Rightarrow> i64 \<Rightarrow> instant \<Rightarrow> clock_state \<Rightarrow> clock_state" where
  "apply_seek position_ms sampled_at_ms now st =
     st\<lparr>ck_base_progress_ms := clamp_to_duration st position_ms, ck_base_instant := now,
        ck_source := CommandResult, ck_sampled_at_ms := sampled_at_ms, ck_first_empty_ms := None\<rparr>"

end
