(* ===== verification/Clock_Laws.thy ===== *)
theory Clock_Laws
  imports Playback_Clock
begin

text \<open>
  The laws of the playback clock. Progress is a bounded, monotone extrapolation that stands still
  while paused and is carried over by every re-anchoring operation; samples of lower trust never
  displace what the player reported; a poll that started before a native transition or a command is
  dropped; a session is cleared only after confirmed empty polls. The operations are also the steps
  of a machine (\<open>clock_op\<close>), whose reachable states satisfy \<open>clock_ok\<close>.
\<close>

section \<open>Extrapolation\<close>

text \<open>What the progress computation needs of the rate at which a position advances.\<close>

locale extrapolation =
  fixes advance :: "nat \<Rightarrow> nat"
  assumes advance_zero: "advance 0 = 0"
    and advance_mono: "m \<le> n \<Longrightarrow> advance m \<le> advance n"
begin

lemma carried_zero: "b \<le> u64_max \<Longrightarrow> sat_u64 (b + advance 0) = b"
  by (simp add: advance_zero sat_u64_id)

lemma carried_mono: "m \<le> n \<Longrightarrow> sat_u64 (b + advance m) \<le> sat_u64 (b + advance n)"
  by (intro sat_u64_mono add_left_mono advance_mono)

lemma carried_ge: "b \<le> u64_max \<Longrightarrow> b \<le> sat_u64 (b + advance m)"
  by (simp add: sat_u64_def)

end

lemma rnd_zero [simp]: "rnd fmt 0 = 0"
  by (simp add: rnd_def)

lemma to_float_zero [simp]: "to_float fmt 0 = Fin 0"
  by (simp add: to_float_def not_le)

lemma elapsed_ms_self [simp]: "elapsed_ms t t = 0"
  by (simp add: elapsed_ms_def)

lemma elapsed_ms_mono: "t \<le> t' \<Longrightarrow> elapsed_ms t b \<le> elapsed_ms t' b"
  by (simp add: elapsed_ms_def div_le_mono diff_le_mono)

lemma speed_as_f32_cases:
  obtains "speed_as_f32 s = PosInf" | r where "speed_as_f32 s = Fin r" "0 \<le> r"
  using to_float_nonneg [of "of_nat s / 100" f32] rnd_nonneg [of "of_nat s / 100" f32]
  unfolding speed_as_f32_def fdiv_const.simps by (metis divide_nonneg_nonneg of_nat_0_le_iff zero_le_numeral)

lemma advance_ms_mono:
  assumes "m \<le> n"
  shows "advance_ms s m \<le> advance_ms s n"
proof -
  have le: "rnd f64 (of_nat m) \<le> rnd f64 (of_nat n)" using assms by (simp add: rnd_mono_nonneg)
  have nn: "0 \<le> rnd f64 (of_nat m)" by (simp add: rnd_nonneg)
  show ?thesis
  proof (cases rule: to_float_nonneg [of "of_nat n" f64, case_names nonneg inf fin])
    case inf
    then show ?thesis
      by (cases rule: speed_as_f32_cases [of s]; cases "to_float f64 (of_nat m)")
        (auto simp: advance_ms_def fcast_uint_le)
  next
    case fin
    with le have "rnd f64 (of_nat m) < 2 powi (ff_emax f64 + 1)" by simp
    then have m: "to_float f64 (of_nat m) = Fin (rnd f64 (of_nat m))"
      by (simp add: to_float_Fin rnd_nonneg)
    show ?thesis
    proof (cases rule: speed_as_f32_cases [of s, case_names inf fin])
      case inf
      with le nn m fin show ?thesis by (simp add: advance_ms_def fcast_uint_le)
    next
      case (fin r)
      then have "rnd f64 (of_nat m) * r \<le> rnd f64 (of_nat n) * r" "0 \<le> rnd f64 (of_nat m) * r"
        using le nn by (auto intro: mult_right_mono)
      then show ?thesis using \<open>to_float f64 (of_nat n) = _\<close> m fin
        by (simp add: advance_ms_def fcast_to_float_mono)
    qed
  qed simp
qed

lemma advance_ms_zero: "advance_ms s 0 = 0"
  by (cases rule: speed_as_f32_cases [of s]) (auto simp: advance_ms_def)

interpretation adv: extrapolation "advance_ms s" for s
  by unfold_locales (auto simp: advance_ms_zero advance_ms_mono)

lemma advance_ms_normal:
  assumes "e < 2 ^ 53"
  shows "advance_ms SPEED_NORMAL e = e"
proof -
  have one: "speed_as_f32 SPEED_NORMAL = Fin 1"
    using rnd_of_nat_exact [of 1 f32] speed_as_f32_Fin [OF speed_valid_normal] by (simp add: SPEED_NORMAL_def)
  have r: "rnd f64 (of_nat e) = of_nat e" using assms by (simp add: rnd_of_nat_exact)
  have small: "(of_nat e :: rat) < 2 ^ 53"
    using assms by (metis of_nat_less_iff of_nat_numeral of_nat_power)
  also have "\<dots> \<le> 2 powi (ff_emax f64 + 1)" by simp
  finally have "to_float f64 (of_nat e) = Fin (of_nat e)"
    by (simp add: to_float_Fin r)
  then show ?thesis
    using assms by (simp add: advance_ms_def one u64_max_def)
qed

section \<open>Progress\<close>

lemma clamp_mono: "m \<le> n \<Longrightarrow> clamp_to_duration st m \<le> clamp_to_duration st n"
  by (auto simp: clamp_to_duration_def split: option.split)

lemma clamp_le [simp]: "clamp_to_duration st m \<le> m"
  by (auto simp: clamp_to_duration_def split: option.split)

lemma clamp_idem [simp]: "clamp_to_duration st (clamp_to_duration st m) = clamp_to_duration st m"
  by (auto simp: clamp_to_duration_def split: option.split)

lemma clamp_cong: "ck_item st' = ck_item st \<Longrightarrow> clamp_to_duration st' = clamp_to_duration st"
  by (simp add: clamp_to_duration_def fun_eq_iff)

lemma clamp_progress [simp]:
  "clamp_to_duration st (current_progress_ms st t) = current_progress_ms st t"
  by (simp add: current_progress_ms_def)

lemma progress_cong:
  assumes "ck_item st' = ck_item st" and "ck_podcast_speed st' = ck_podcast_speed st"
    and "ck_is_playing st' = ck_is_playing st" and "ck_base_instant st' = ck_base_instant st"
    and "ck_base_progress_ms st' = ck_base_progress_ms st"
  shows "current_progress_ms st' t = current_progress_ms st t"
  using assms by (simp add: current_progress_ms_def clamp_cong [of st' st] effective_speed_def)

lemma progress_le_u64: "ck_base_progress_ms st \<le> u64_max \<Longrightarrow> current_progress_ms st t \<le> u64_max"
  by (auto simp: current_progress_ms_def intro: order_trans [OF clamp_le])

lemma progress_paused:
  "\<not> ck_is_playing st \<Longrightarrow> current_progress_ms st t = clamp_to_duration st (ck_base_progress_ms st)"
  by (simp add: current_progress_ms_def)

lemma progress_mono: "t \<le> t' \<Longrightarrow> current_progress_ms st t \<le> current_progress_ms st t'"
  by (simp add: current_progress_ms_def clamp_mono adv.carried_mono elapsed_ms_mono)

lemma progress_at_anchor:
  "ck_base_progress_ms st \<le> u64_max \<Longrightarrow>
     current_progress_ms st (ck_base_instant st) = clamp_to_duration st (ck_base_progress_ms st)"
  by (simp add: current_progress_ms_def adv.carried_zero)

lemma reanchored_progress:
  assumes "ck_item st' = ck_item st" and "ck_base_instant st' = t"
    and "ck_base_progress_ms st' = current_progress_ms st t" and "ck_base_progress_ms st \<le> u64_max"
  shows "current_progress_ms st' t = current_progress_ms st t"
  using progress_at_anchor [of st'] progress_le_u64 [OF assms(4), of t] assms(1-3)
  by (simp add: clamp_cong [of st' st])


definition sample_track :: "string \<Rightarrow> nat \<Rightarrow> media_item" where
  "sample_track u d = (media_stub u)\<lparr>mi_duration_ms := d\<rparr>"

definition sample_clock :: clock_state where
  "sample_clock = (clock_empty 0)\<lparr>ck_item := Some (sample_track ''spotify:track:a'' 5000),
     ck_is_playing := True, ck_base_progress_ms := 1000, ck_source := PlayerEvent\<rparr>"

lemma sample_clock_simps:
  "ck_is_playing sample_clock" "ck_base_instant sample_clock = 0" "ck_base_progress_ms sample_clock = 1000"
  "ck_source sample_clock = PlayerEvent" "ck_first_empty_ms sample_clock = None"
  "ck_item sample_clock = Some (sample_track ''spotify:track:a'' 5000)"
  "ck_sampled_at_ms sample_clock = 0" "ck_player_transition sample_clock = 0"
  "clamp_to_duration sample_clock m = min m 5000"
  by (simp_all add: sample_clock_def sample_track_def clamp_to_duration_def clock_empty_def)

lemma sample_speed: "effective_speed sample_clock = SPEED_NORMAL"
  by code_simp

lemma sample_progress:
  "e < 2 ^ 53 \<Longrightarrow> current_progress_ms sample_clock (e * 1000000) = min (1000 + e) 5000"
  by (simp add: current_progress_ms_def sample_speed sample_clock_simps elapsed_ms_def advance_ms_normal
      sat_u64_def u64_max_def)


section \<open>Re-anchoring\<close>

lemma freeze_simps [simp]:
  "ck_item (freeze w n n' st) = ck_item st" "ck_is_playing (freeze w n n' st) = False"
  "ck_base_progress_ms (freeze w n n' st) = current_progress_ms st n"
  by (simp_all add: freeze_def)

lemma freeze_progress [simp]: "current_progress_ms (freeze w n n' st) t = current_progress_ms st n"
  by (simp add: progress_paused clamp_cong [of "freeze w n n' st" st])

lemma mark_transition_simps [simp]:
  "ck_item (mark_transition ev w st) = ck_item st"
  "ck_is_playing (mark_transition ev w st) = ck_is_playing st"
  "ck_base_progress_ms (mark_transition ev w st) = ck_base_progress_ms st"
  "ck_base_instant (mark_transition ev w st) = ck_base_instant st"
  "ck_podcast_speed (mark_transition ev w st) = ck_podcast_speed st"
  by (simp_all add: mark_transition_def)

lemma resumed_simps [simp]:
  "ck_item (apply_player_event PlaybackResumed w n n' st) = ck_item st"
  "ck_base_progress_ms (apply_player_event PlaybackResumed w n n' st) = ck_base_progress_ms st"
  "ck_base_instant (apply_player_event PlaybackResumed w n n' st) = n"
  by (simp_all add: apply_player_event_def)

lemma anchored_progress:
  "ck_base_instant st = t \<Longrightarrow> ck_base_progress_ms st \<le> u64_max \<Longrightarrow>
     current_progress_ms st t = clamp_to_duration st (ck_base_progress_ms st)"
  using progress_at_anchor [of st] by simp

lemma pause_event: "ev \<in> {PlaybackPaused, Deactivated} \<Longrightarrow>
    apply_player_event ev w n n' st = freeze w n n' (mark_transition ev w st)"
  by (auto simp: apply_player_event_def)

lemma mark_transition_progress [simp]:
  "current_progress_ms (mark_transition ev w st) t = current_progress_ms st t"
  by (rule progress_cong) simp_all

text \<open>
  Progress is continuous across every operation that moves the anchor. A change of podcast speed
  keeps the position of that instant; a pause, a hand-over to another device or an audio stall holds
  the position that was shown, at every later reading; resuming afterwards continues from it; a seek
  lands on the requested position, cut at the duration.
\<close>

theorem clock_reanchoring_continuous:
  assumes "ck_base_progress_ms st \<le> u64_max" and "ev \<in> {PlaybackPaused, Deactivated}"
    and "p \<le> u64_max"
  shows "current_progress_ms (set_podcast_speed st s t) t = current_progress_ms st t \<and>
    current_progress_ms (apply_player_event ev w t t1 st) t2 = current_progress_ms st t \<and>
    current_progress_ms (fst (mark_audio_stalled w t t1 st)) t2 =
      current_progress_ms st (if ck_is_playing st then t else t2) \<and>
    current_progress_ms (apply_player_event PlaybackResumed w' t3 t4
        (apply_player_event ev w t t1 st)) t3 = current_progress_ms st t \<and>
    current_progress_ms (apply_seek p w t st) t = clamp_to_duration st p"
proof -
  let ?p = "apply_player_event ev w t t1 st"
  let ?r = "apply_player_event PlaybackResumed w' t3 t4 ?p"
  have p: "?p = freeze w t t1 (mark_transition ev w st)" using assms(2) by (rule pause_event)
  have "current_progress_ms ?r t3 = current_progress_ms st t"
    using anchored_progress [of ?r t3] progress_le_u64 [OF assms(1), of t]
    by (simp add: p clamp_cong [of "apply_player_event _ _ _ _ _" st])
  moreover have "current_progress_ms (set_podcast_speed st s t) t = current_progress_ms st t"
    using assms(1) by (intro reanchored_progress) (simp_all add: set_podcast_speed_def)
  moreover have "current_progress_ms (apply_seek p w t st) t = clamp_to_duration st p"
    using anchored_progress [of "apply_seek p w t st" t] assms(3) order_trans [OF clamp_le assms(3)]
    by (simp add: apply_seek_def clamp_cong [of "apply_seek p w t st" st, unfolded apply_seek_def])
  ultimately show ?thesis
    by (simp add: p mark_audio_stalled_def)
qed

theorem clock_reanchoring_continuous_witness:
  "current_progress_ms (apply_player_event PlaybackResumed 2 7000000000 7000000000
     (apply_player_event PlaybackPaused 1 2000000000 2000000000 sample_clock)) 7000000000 = 3000"
  using clock_reanchoring_continuous [of sample_clock PlaybackPaused 0 100 2000000000 1 2000000000 0 2 7000000000 7000000000]
    sample_progress [of 2000]
  by (simp add: sample_clock_simps u64_max_def)

section \<open>Position heartbeats\<close>

text \<open>
  A heartbeat bounds the drift: right after a \<open>PositionTick\<close> the clock is within the threshold of
  the position the player reported, and it is exactly there when the extrapolation had drifted
  further. The play state, the item and the transition counter are untouched.
\<close>

theorem position_tick_bounds_drift:
  assumes "ck_base_progress_ms st \<le> u64_max" and "current_progress_ms st t < 2 ^ 63" and "p < 2 ^ 32"
    and "clamp_to_duration st p = p"
  shows "let st' = apply_player_event (PositionTick p) w t t st
    in \<bar>int (current_progress_ms st' t) - int p\<bar> \<le> POSITION_DRIFT_THRESHOLD_MS \<and>
       (POSITION_DRIFT_THRESHOLD_MS < \<bar>int (current_progress_ms st t) - int p\<bar> \<longrightarrow>
          current_progress_ms st' t = p) \<and>
       ck_is_playing st' = ck_is_playing st \<and> ck_item st' = ck_item st \<and>
       ck_player_transition st' = ck_player_transition st"
proof -
  let ?st = "st\<lparr>ck_first_empty_ms := None\<rparr>" and ?x = "int (current_progress_ms st t) - int p"
  let ?st' = "apply_player_event (PositionTick p) w t t st"
  have x: "current_progress_ms ?st t = current_progress_ms st t" by (rule progress_cong) simp_all
  have "int (current_progress_ms st t) < 2 ^ 63" "int p < 2 ^ 32"
    using assms(2,3) by (metis of_nat_less_iff of_nat_numeral of_nat_power)+
  then have w: "wrap_i64 \<bar>wrap_i64 (u64_as_i64 (current_progress_ms st t) - int p)\<bar> = \<bar>?x\<bar>"
    "i64_as_u64 (int p) = p"
    using assms(2) by (simp_all add: rust_int in_i64_def i64_min_def i64_max_def abs_if)
  have st': "?st' = (if POSITION_DRIFT_THRESHOLD_MS < \<bar>?x\<bar>
      then ?st\<lparr>ck_base_progress_ms := p, ck_base_instant := t, ck_source := PlayerEvent,
        ck_sampled_at_ms := w\<rparr> else ?st)"
    by (simp add: apply_player_event_def mark_transition_def is_playback_transition_def position_tick_def x w)
  have "current_progress_ms (?st\<lparr>ck_base_progress_ms := p, ck_base_instant := t,
      ck_source := PlayerEvent, ck_sampled_at_ms := w\<rparr>) t = p" (is "current_progress_ms ?re t = p")
    using assms(3,4) anchored_progress [of ?re t] clamp_cong [of ?re st] by (simp add: u64_max_def)
  then have "current_progress_ms ?st' t =
      (if POSITION_DRIFT_THRESHOLD_MS < \<bar>?x\<bar> then p else current_progress_ms st t)"
    using x by (simp add: st')
  then show ?thesis by (auto simp: Let_def st' POSITION_DRIFT_THRESHOLD_MS_def)
qed

theorem position_tick_bounds_drift_witness:
  "current_progress_ms (apply_player_event (PositionTick 4500) 9 1000000000 1000000000 sample_clock)
     1000000000 = 4500"
proof -
  have "current_progress_ms sample_clock 1000000000 = 2000"
    using sample_progress [of 1000] by simp
  then show ?thesis
    using position_tick_bounds_drift [of sample_clock 1000000000 4500 9]
    by (simp add: sample_clock_simps Let_def u64_max_def POSITION_DRIFT_THRESHOLD_MS_def)
qed

section \<open>The clock as a machine\<close>

datatype clock_op =
    OpSeed playback playback_state_source i64 instant
  | OpSpeed playback_speed instant
  | OpEvent player_event i64 instant instant
  | OpStall i64 instant instant
  | OpEnrich media_item
  | OpVolume u8 "device option" i64
  | OpCommand playback i64 instant
  | OpPoll playback poll_revision "64 word" i64 "i64 option" bool instant instant
  | OpPrepare playback i64 "i64 option" instant
  | OpSeek u64 i64 instant

primrec clock_step :: "clock_op \<Rightarrow> clock_state \<Rightarrow> clock_state" where
  "clock_step (OpSeed p src t n) st = seed_from_cache st p src t n"
| "clock_step (OpSpeed s n) st = set_podcast_speed st s n"
| "clock_step (OpEvent ev t n n') st = apply_player_event ev t n n' st"
| "clock_step (OpStall t n n') st = fst (mark_audio_stalled t n n' st)"
| "clock_step (OpEnrich item) st = fst (enrich_current_item item st)"
| "clock_step (OpVolume v d t) st = apply_device_volume v d t st"
| "clock_step (OpCommand p t n) st = apply_command_result p t n st"
| "clock_step (OpPoll p r sq t pt cur n n') st = fst (apply_web_api_poll p r sq t pt cur n n' st)"
| "clock_step (OpPrepare p t pt n) st = fst (prepare_web_api_poll p t pt n st)"
| "clock_step (OpSeek p t n) st = apply_seek p t n st"

definition run_clock :: "clock_op list \<Rightarrow> clock_state \<Rightarrow> clock_state" where
  "run_clock ops st = fold clock_step ops st"

lemma run_clock_simps [simp]:
  "run_clock [] st = st" "run_clock (op # ops) st = run_clock ops (clock_step op st)"
  by (simp_all add: run_clock_def)

lemma run_clock_append: "run_clock (xs @ ys) st = run_clock ys (run_clock xs st)"
  by (simp add: run_clock_def)

fun is_transition_op :: "clock_op \<Rightarrow> bool" where
  "is_transition_op (OpEvent ev _ _ _) = is_playback_transition ev"
| "is_transition_op _ = False"

definition transitions :: "clock_op list \<Rightarrow> nat" where
  "transitions ops = length (filter is_transition_op ops)"

section \<open>Invariant\<close>

definition clock_ok :: "clock_state \<Rightarrow> bool" where
  "clock_ok st \<longleftrightarrow> ck_base_progress_ms st \<le> u64_max \<and> speed_valid (ck_podcast_speed st) \<and>
     (ck_first_empty_ms st \<noteq> None \<longrightarrow> clock_state_has_live_signal st) \<and>
     (\<forall>item. ck_item st = Some item \<longrightarrow> mi_duration_ms item \<le> u64_max)"

definition item_opt_ok :: "media_item option \<Rightarrow> bool" where
  "item_opt_ok it = (case it of Some item \<Rightarrow> mi_duration_ms item \<le> u64_max | None \<Rightarrow> True)"

definition playback_ok :: "playback \<Rightarrow> bool" where
  "playback_ok p \<longleftrightarrow> pb_progress_ms p \<le> u64_max \<and> item_opt_ok (pb_item p)"

text \<open>Which arguments are values of the Rust types.\<close>

fun op_ok :: "clock_op \<Rightarrow> bool" where
  "op_ok (OpSeed p _ _ _) = playback_ok p"
| "op_ok (OpSpeed s _) = speed_valid s"
| "op_ok (OpEvent (PlaybackStarted _ p) _ _ _) = (p < 2 ^ 32)"
| "op_ok (OpEvent (TrackChanged _ p) _ _ _) = (p < 2 ^ 32)"
| "op_ok (OpEvent (PositionTick p) _ _ _) = (p < 2 ^ 32)"
| "op_ok (OpEnrich item) = (mi_duration_ms item \<le> u64_max)"
| "op_ok (OpCommand p _ _) = playback_ok p"
| "op_ok (OpPoll p _ _ _ _ _ _ _) = playback_ok p"
| "op_ok (OpSeek p _ _) = (p \<le> u64_max)"
| "op_ok _ = True"

lemma clock_okI:
  "ck_base_progress_ms st \<le> u64_max \<Longrightarrow> speed_valid (ck_podcast_speed st) \<Longrightarrow>
   (ck_first_empty_ms st \<noteq> None \<Longrightarrow> clock_state_has_live_signal st) \<Longrightarrow>
   item_opt_ok (ck_item st) \<Longrightarrow> clock_ok st"
  by (auto simp: clock_ok_def item_opt_ok_def)

lemma clock_okD:
  assumes "clock_ok st"
  shows "ck_base_progress_ms st \<le> u64_max" "speed_valid (ck_podcast_speed st)"
    "ck_first_empty_ms st \<noteq> None \<Longrightarrow> clock_state_has_live_signal st" "item_opt_ok (ck_item st)"
    "current_progress_ms st t \<le> u64_max"
  using assms progress_le_u64 [of st t] by (auto simp: clock_ok_def item_opt_ok_def split: option.split)

lemma i64_as_u64_le [simp]: "i64_as_u64 x \<le> u64_max"
  by (simp add: i64_as_u64_def u64_max_def nat_le_iff)

lemma clock_ok_empty: "clock_ok (clock_empty now)"
  by (intro clock_okI) (simp_all add: clock_empty_def item_opt_ok_def)

lemma clock_ok_mark_transition: "clock_ok st \<Longrightarrow> clock_ok (mark_transition ev t st)"
  by (simp add: mark_transition_def clock_ok_def clock_state_has_live_signal_def)

lemma clock_ok_freeze: "clock_ok st \<Longrightarrow> clock_ok (freeze t n n' st)"
  by (intro clock_okI) (simp_all add: clock_okD freeze_def)

lemma clock_ok_start_track: "clock_ok st \<Longrightarrow> p < 2 ^ 32 \<Longrightarrow> clock_ok (start_track u p t n st)"
  by (intro clock_okI)
    (auto simp: clock_okD start_track_def u64_max_def item_opt_ok_def media_stub_def default_media_item_def
      dest: clock_okD(4) split: option.splits)

lemma clock_ok_position_tick: "clock_ok st \<Longrightarrow> p < 2 ^ 32 \<Longrightarrow> clock_ok (position_tick p t n n' st)"
  by (intro clock_okI)
    (auto simp: clock_okD position_tick_def Let_def)

lemma clock_ok_end_of_track: "clock_ok st \<Longrightarrow> clock_ok (end_of_track t n st)"
  by (intro clock_okI)
    (auto simp: clock_okD end_of_track_def item_opt_ok_def dest: clock_okD(4) split: option.split)

lemma clock_ok_event:
  assumes "clock_ok st" and "op_ok (OpEvent ev t n n')"
  shows "clock_ok (apply_player_event ev t n n' st)"
  using assms clock_ok_mark_transition [OF assms(1), of ev t]
  by (cases ev) (auto simp: apply_player_event_def clock_ok_freeze clock_ok_start_track
      clock_ok_position_tick clock_ok_end_of_track intro!: clock_okI dest: clock_okD)

lemma merge_metadata_ok:
  assumes "item_opt_ok (Some a)" and "item_opt_ok (Some b)"
  shows "item_opt_ok (Some (fst (merge_missing_item_metadata a b)))"
  using assms by (simp add: merge_missing_item_metadata_def filled_metadata_def fill_num_def item_opt_ok_def)

lemma merge_current_ok:
  "item_opt_ok a \<Longrightarrow> item_opt_ok (Some b) \<Longrightarrow>
     item_opt_ok (fst (merge_missing_current_item_metadata a b))"
  by (cases a) (simp_all add: merge_missing_current_item_metadata_def case_prod_beta merge_metadata_ok)

lemma clock_ok_enrich:
  assumes "clock_ok st" and "item_opt_ok (Some item)"
  shows "clock_ok (fst (enrich_current_item item st))"
proof (cases "ck_item st")
  case (Some cur)
  then show ?thesis
    using assms merge_metadata_ok [of cur item] clock_okD(4) [OF assms(1)]
    by (auto simp: enrich_current_item_def split: prod.split intro!: clock_okI
        simp: clock_okD clock_state_has_live_signal_def dest: clock_okD(3))
qed (simp add: enrich_current_item_def assms)

lemma clock_ok_clear: "clock_ok st \<Longrightarrow> clock_ok (clear_session t pt n n' st)"
  by (intro clock_okI) (simp_all add: clear_session_def clock_okD)

lemma clock_ok_empty_poll: "clock_ok st \<Longrightarrow> clock_ok (fst (apply_empty_web_api_poll t pt n n' st))"
  by (auto simp: apply_empty_web_api_poll_def clock_ok_clear split: option.split)
    (auto simp: clock_ok_def clock_state_has_live_signal_def)

lemma clock_ok_poll:
  assumes "clock_ok st" and "playback_ok p"
  shows "clock_ok (fst (apply_web_api_poll p r sq t pt cur n n' st))"
proof -
  have re: "clock_ok (reseat_from_poll p t pt n st')" if "clock_ok st'" for st'
    using assms(2) that by (intro clock_okI) (simp_all add: reseat_from_poll_def playback_ok_def clock_okD)
  have none: "clock_ok (st\<lparr>ck_first_empty_ms := None\<rparr>)"
    using assms(1) by (intro clock_okI) (simp_all add: clock_okD)
  have "item_opt_ok (fst (merge_missing_current_item_metadata (ck_item st) item))"
    if "pb_item p = Some item" for item
    using assms(2) clock_okD(4) [OF assms(1)] that by (intro merge_current_ok) (simp_all add: playback_ok_def)
  then show ?thesis
    using assms clock_ok_empty_poll [OF assms(1), of t pt n n'] re [OF none]
    by (auto simp: apply_web_api_poll_def Let_def clock_okD split: option.splits prod.splits
        intro!: clock_okI)
qed

lemma clock_ok_prepare: "clock_ok st \<Longrightarrow> clock_ok (fst (prepare_web_api_poll p t pt n st))"
  by (auto simp: prepare_web_api_poll_def clock_ok_def clock_state_has_live_signal_def split: option.split)

lemma clock_ok_step:
  assumes "clock_ok st" and "op_ok op"
  shows "clock_ok (clock_step op st)"
proof (cases op)
  case OpEvent
  with assms show ?thesis by (simp add: clock_ok_event)
next
  case OpPoll
  with assms show ?thesis by (simp add: clock_ok_poll)
next
  case OpEnrich
  with assms show ?thesis by (simp add: clock_ok_enrich item_opt_ok_def)
next
  case (OpSeek p t n)
  with assms show ?thesis
    using order_trans [OF clamp_le, of p u64_max st]
    by (intro clock_okI) (simp_all add: apply_seek_def clock_okD)
qed (use assms in \<open>auto simp: seed_from_cache_def set_podcast_speed_def mark_audio_stalled_def
  clock_ok_freeze apply_device_volume_def apply_command_result_def Let_def clock_ok_prepare
  playback_ok_def clock_okD clock_state_has_live_signal_def intro!: clock_okI dest: clock_okD(3)\<close>)

text \<open>States the clock can be in: an empty clock, then any operations with arguments in range.\<close>

inductive clock_reachable :: "nat \<Rightarrow> clock_state \<Rightarrow> bool" where
  start: "clock_reachable 0 (clock_empty now)"
| step: "clock_reachable k st \<Longrightarrow> op_ok op \<Longrightarrow>
    clock_reachable (if is_transition_op op then Suc k else k) (clock_step op st)"

lemma poll_transition [simp]:
  "ck_player_transition (fst (apply_web_api_poll p r sq t pt cur n n' st)) = ck_player_transition st"
  by (auto simp: apply_web_api_poll_def apply_empty_web_api_poll_def clear_session_def reseat_from_poll_def
      Let_def split: option.split prod.split)

lemma event_transition [simp]:
  "ck_player_transition (apply_player_event ev t n n' st) =
     ck_player_transition st + (if is_playback_transition ev then 1 else 0)"
  by (cases ev) (simp_all add: apply_player_event_def mark_transition_def is_playback_transition_def
      start_track_def freeze_def position_tick_def end_of_track_def Let_def)

lemma step_transition:
  "ck_player_transition (clock_step op st) =
     ck_player_transition st + (if is_transition_op op then 1 else 0)"
  by (cases op)
    (auto simp: seed_from_cache_def set_podcast_speed_def mark_audio_stalled_def freeze_def
      enrich_current_item_def apply_device_volume_def apply_command_result_def prepare_web_api_poll_def
      apply_seek_def Let_def split: option.split prod.split)

lemma run_transition:
  "ck_player_transition (run_clock ops st) = ck_player_transition st + of_nat (transitions ops)"
  by (induction ops arbitrary: st) (simp_all add: step_transition transitions_def)

text \<open>
  C13: In every state the clock can reach, the stored position and speed are in range, a pending
  empty-poll marker implies that there is a session to lose, the shown progress is a \<open>u64\<close>, and the
  transition counter is the number of native transitions so far, modulo its width.
\<close>

theorem clock_invariant:
  assumes "clock_reachable k st"
  shows "clock_ok st \<and> (\<forall>t. current_progress_ms st t \<le> u64_max) \<and> ck_player_transition st = of_nat k"
proof -
  from assms have "clock_ok st \<and> ck_player_transition st = of_nat k"
    by (induction rule: clock_reachable.induct)
      (simp_all add: clock_ok_empty clock_ok_step step_transition, simp add: clock_empty_def)
  then show ?thesis by (simp add: clock_okD)
qed

theorem clock_invariant_witness:
  "clock_ok (apply_player_event PlaybackPaused 5 8 9 (clock_empty 3))"
  using clock_invariant [OF clock_reachable.step [OF clock_reachable.start [of 3], of "OpEvent PlaybackPaused 5 8 9"]]
  by simp

section \<open>Trust\<close>

text \<open>
  C14: A poll is dropped, without touching the clock, when a command was issued since it started (the
  mutation sequence moved) or when the player reported any transition in between, whatever else
  happened: the counter would have to wrap all the way round to let it through.
\<close>

theorem stale_poll_dropped:
  assumes "rev_mutation_seq r \<noteq> state_seq \<or>
    rev_player_transition r = ck_player_transition st \<and> 0 < transitions ops \<and> transitions ops < 2 ^ 64"
  shows "apply_web_api_poll p r state_seq t pt cur n n' (run_clock ops st) = (run_clock ops st, False)"
proof (cases "rev_mutation_seq r = state_seq")
  case True
  with assms have r: "rev_player_transition r = ck_player_transition st"
    and k: "0 < transitions ops" "transitions ops < 2 ^ 64" by simp_all
  have "(of_nat (transitions ops) :: 64 word) \<noteq> 0"
    using k by (simp add: word_of_nat_eq_0_iff nat_dvd_not_less)
  with r show ?thesis by (simp add: apply_web_api_poll_def run_transition)
qed (simp add: apply_web_api_poll_def)

theorem stale_poll_dropped_witness:
  "apply_web_api_poll (snapshot sample_clock 0) \<lparr>rev_mutation_seq = 7, rev_player_transition = 0\<rparr> 7
      9000 None True 5 5 (run_clock [OpEvent PlaybackPaused 1 2 3, OpSeek 4 5 6] sample_clock) =
   (run_clock [OpEvent PlaybackPaused 1 2 3, OpSeek 4 5 6] sample_clock, False)"
  by (rule stale_poll_dropped) (simp add: sample_clock_simps transitions_def is_playback_transition_def)

text \<open>The part of the state that says what the listener hears, and who said so.\<close>

definition transport :: "clock_state \<Rightarrow> bool \<times> u64 \<times> instant \<times> playback_state_source \<times> i64" where
  "transport st = (ck_is_playing st, ck_base_progress_ms st, ck_base_instant st, ck_source st, ck_sampled_at_ms st)"

definition plays :: "string \<Rightarrow> media_item option \<Rightarrow> bool" where
  "plays u it \<longleftrightarrow> map_option mi_uri it = Some u"

text \<open>Samples about track \<open>u\<close> that lag behind what the player said at time \<open>s\<close>.\<close>

fun lagging :: "string \<Rightarrow> i64 \<Rightarrow> clock_op \<Rightarrow> bool" where
  "lagging u s (OpCommand p _ _) = plays u (pb_item p)"
| "lagging u s (OpPoll p _ _ t _ _ _ _) =
     (plays u (pb_item p) \<and> in_i64 (t - s) \<and> t - s \<le> POSITION_DRIFT_THRESHOLD_MS)"
| "lagging u s (OpPrepare _ _ _ _) = True"
| "lagging u s (OpEnrich _) = True"
| "lagging u s _ = False"

lemma plays_matches: "plays u a \<Longrightarrow> plays u b \<Longrightarrow> matches_uri a b"
  by (cases a; cases b) (simp_all add: plays_def matches_uri_def)

lemma merge_uri [simp]: "mi_uri (fst (merge_missing_item_metadata a b)) = mi_uri a"
  by (simp add: merge_missing_item_metadata_def filled_metadata_def)

lemma plays_merge [simp]: "plays u (fst (merge_missing_current_item_metadata a b)) = plays u a"
  by (cases a) (simp_all add: plays_def merge_missing_current_item_metadata_def case_prod_beta)

lemma player_owned_poll:
  assumes "ck_source st = PlayerEvent" and "plays u (ck_item st)" and "plays u (pb_item p)"
    and "in_i64 (t - ck_sampled_at_ms st)" and "t - ck_sampled_at_ms st \<le> POSITION_DRIFT_THRESHOLD_MS"
  shows "transport (fst (apply_web_api_poll p r sq t pt cur n n' st)) = transport st \<and>
    plays u (ck_item (fst (apply_web_api_poll p r sq t pt cur n n' st)))"
proof -
  from assms(3) obtain item where item: "pb_item p = Some item" by (auto simp: plays_def)
  then have "playback_has_live_signal p" by (simp add: playback_has_live_signal_def)
  moreover have "\<not> poll_may_reseat t (st\<lparr>ck_first_empty_ms := None\<rparr>)"
    using assms(1,4,5) by (simp add: poll_may_reseat_def wrap_i64_id)
  ultimately show ?thesis
    using plays_matches [OF assms(2,3)] assms(1,2) item
    by (auto simp: apply_web_api_poll_def Let_def transport_def case_prod_beta)
qed

lemma lagging_step:
  assumes "ck_source st = PlayerEvent" and "plays u (ck_item st)"
    and "lagging u (ck_sampled_at_ms st) op"
  shows "transport (clock_step op st) = transport st \<and> plays u (ck_item (clock_step op st))"
proof (cases op)
  case OpPoll
  with assms show ?thesis using player_owned_poll by simp
next
  case (OpCommand p t n)
  with assms show ?thesis
    using plays_matches [OF assms(2), of "pb_item p"]
    by (simp add: apply_command_result_def Let_def transport_def)
next
  case (OpEnrich item)
  obtain cur where cur: "ck_item st = Some cur" "mi_uri cur = u" using assms(2) by (auto simp: plays_def)
  then show ?thesis
    using OpEnrich by (simp add: enrich_current_item_def transport_def plays_def case_prod_beta)
next
  case OpPrepare
  with assms show ?thesis by (auto simp: prepare_web_api_poll_def transport_def split: option.split)
qed (use assms in auto)

text \<open>
  C15: What the player reported about the current track wins. No sequence of command read-backs,
  polls taken within the drift threshold of the report, poll preparations and metadata updates
  about that track changes the play state, the position anchor, the source or the sample time.
\<close>

theorem player_truth_wins:
  assumes "ck_source st = PlayerEvent" and "plays u (ck_item st)"
    and "list_all (lagging u (ck_sampled_at_ms st)) ops"
  shows "transport (run_clock ops st) = transport st \<and> plays u (ck_item (run_clock ops st))"
  using assms
proof (induction ops arbitrary: st)
  case (Cons op ops)
  then have step: "transport (clock_step op st) = transport st \<and> plays u (ck_item (clock_step op st))"
    by (intro lagging_step) simp_all
  then have "ck_source (clock_step op st) = PlayerEvent"
    "ck_sampled_at_ms (clock_step op st) = ck_sampled_at_ms st"
    using Cons.prems(1) by (simp_all add: transport_def)
  with Cons step show ?case by simp
qed simp

definition sample_lag :: "clock_op list" where
  "sample_lag =
     (let p = (snapshot sample_clock 0)\<lparr>pb_is_playing := False\<rparr>
      in [OpCommand p 1 2,
          OpPoll p \<lparr>rev_mutation_seq = 0, rev_player_transition = 0\<rparr> 0 1400 None True 3 3])"

theorem player_truth_wins_witness:
  "transport (run_clock sample_lag sample_clock) = (True, 1000, 0, PlayerEvent, 0)"
  using player_truth_wins [of sample_clock "''spotify:track:a''" sample_lag]
  by (simp add: sample_clock_simps transport_def plays_def snapshot_def sample_track_def media_stub_def
      in_i64_def i64_min_def i64_max_def POSITION_DRIFT_THRESHOLD_MS_def sample_lag_def Let_def)

section \<open>Losing the session\<close>

lemma sat_below_confirm: "sat_i64 x < NO_ACTIVE_SESSION_CONFIRM_MS \<longleftrightarrow> x < NO_ACTIVE_SESSION_CONFIRM_MS"
  by (auto simp: sat_i64_def NO_ACTIVE_SESSION_CONFIRM_MS_def i64_min_def i64_max_def)

lemma cleared_progress:
  "ck_item st \<noteq> None \<Longrightarrow> current_progress_ms (clear_session t1 pt n n' st) t = current_progress_ms st n"
  using clamp_cong [of "clear_session t1 pt n n' st" st] progress_paused [of "clear_session t1 pt n n' st" t]
  by (auto simp: clear_session_def)

definition empty_polls :: "clock_state \<Rightarrow> playback \<Rightarrow> (i64 \<times> i64 option \<times> instant \<times> instant) list \<Rightarrow> clock_op list" where
  "empty_polls st p = map (\<lambda>(t, pt, n, n').
     OpPoll p \<lparr>rev_mutation_seq = 0, rev_player_transition = ck_player_transition st\<rparr> 0 t pt True n n')"

lemma unconfirmed_polls:
  assumes "clock_state_has_live_signal st" and "\<not> playback_has_live_signal p"
    and "ck_first_empty_ms st = Some t0" and "\<forall>(t, _) \<in> set ts. t - t0 < NO_ACTIVE_SESSION_CONFIRM_MS"
  shows "run_clock (empty_polls st p ts) st = st"
  using assms(4)
  by (induction ts)
    (auto simp: empty_polls_def apply_web_api_poll_def apply_empty_web_api_poll_def assms(1-3) sat_below_confirm)

text \<open>
  An empty provider answer is not believed at once. While a session is live, any number of empty
  polls within ten seconds of the first one leaves everything but the marker unchanged; the first
  one at ten seconds or more ends the session: the item stays as the last played one, its position
  is frozen, and device and play state are cleared.
\<close>

theorem empty_polls_need_confirmation:
  assumes "clock_state_has_live_signal st" and "ck_first_empty_ms st = None"
    and "\<not> playback_has_live_signal p"
    and "\<forall>(t, _) \<in> set ts. t - t0 < NO_ACTIVE_SESSION_CONFIRM_MS"
    and "NO_ACTIVE_SESSION_CONFIRM_MS \<le> t1 - t0"
  shows "run_clock (empty_polls st p ((t0, pt0, n0, n0') # ts)) st = st\<lparr>ck_first_empty_ms := Some t0\<rparr> \<and>
    (let st' = run_clock (empty_polls st p ((t0, pt0, n0, n0') # ts @ [(t1, pt1, n1, n1')])) st
     in ck_item st' = ck_item st \<and> ck_device st' = None \<and> \<not> ck_is_playing st' \<and>
        ck_first_empty_ms st' = None \<and> \<not> clock_state_has_live_signal st' \<and>
        (ck_item st \<noteq> None \<longrightarrow> (\<forall>t. current_progress_ms st' t = current_progress_ms st n1)))"
proof -
  let ?m = "st\<lparr>ck_first_empty_ms := Some t0\<rparr>"
  have live: "clock_state_has_live_signal ?m" using assms(1) by (simp add: clock_state_has_live_signal_def)
  have eq: "empty_polls ?m p = empty_polls st p" by (simp add: empty_polls_def)
  have first: "run_clock (empty_polls st p [(t0, pt0, n0, n0')]) st = ?m"
    using assms(1-3) by (simp add: empty_polls_def apply_web_api_poll_def apply_empty_web_api_poll_def)
  have mid: "run_clock (empty_polls st p ts) ?m = ?m"
    using unconfirmed_polls [of ?m p t0 ts] live assms(3,4) eq by simp
  have append: "empty_polls st p (xs @ ys) = empty_polls st p xs @ empty_polls st p ys" for xs ys
    by (simp add: empty_polls_def)
  have one: "run_clock (empty_polls st p ((t0, pt0, n0, n0') # ts)) st = ?m"
    using first mid append [of "[(t0, pt0, n0, n0')]" ts] by (simp add: run_clock_append)
  have last: "run_clock (empty_polls st p [(t1, pt1, n1, n1')]) ?m = clear_session t1 pt1 n1 n1' ?m"
    using live assms(3,5)
    by (simp add: empty_polls_def apply_web_api_poll_def apply_empty_web_api_poll_def sat_below_confirm)
  have "run_clock (empty_polls st p ((t0, pt0, n0, n0') # ts @ [(t1, pt1, n1, n1')])) st =
      clear_session t1 pt1 n1 n1' ?m"
    using one last append [of "(t0, pt0, n0, n0') # ts" "[(t1, pt1, n1, n1')]"]
    by (simp add: run_clock_append)
  moreover have "current_progress_ms (clear_session t1 pt1 n1 n1' ?m) t = current_progress_ms st n1"
    if "ck_item st \<noteq> None" for t
    using cleared_progress [of ?m] that progress_cong [of ?m st] by simp
  ultimately show ?thesis
    using one by (auto simp: Let_def clear_session_def clock_state_has_live_signal_def)
qed

definition sample_empty :: playback where
  "sample_empty = (snapshot (clock_empty 0) 0)"

theorem empty_polls_need_confirmation_witness:
  "run_clock (empty_polls sample_clock sample_empty [(100, None, 1, 2), (9000, None, 3, 4)]) sample_clock =
     sample_clock\<lparr>ck_first_empty_ms := Some 100\<rparr>"
  using empty_polls_need_confirmation [of sample_clock sample_empty "[(9000, None, 3, 4)]" 100 20000 None 1 2]
  by (simp add: sample_clock_simps sample_empty_def snapshot_def clock_empty_def
      clock_state_has_live_signal_def playback_has_live_signal_def NO_ACTIVE_SESSION_CONFIRM_MS_def)


definition sample_idle_device :: clock_state where
  "sample_idle_device = (clock_empty 0)\<lparr>ck_device := Some
     \<lparr>dev_id = None, dev_name = ''desk'', dev_kind = ''speaker'', dev_is_active = True,
      dev_is_restricted = False, dev_volume_percent = None, dev_supports_volume = True\<rparr>,
     ck_shuffle := True, ck_first_empty_ms := Some 0\<rparr>"


section \<open>Metadata\<close>

lemma fill_eq_iff:
  "fill_opt t s = t \<longleftrightarrow> \<not> (t = None \<and> s \<noteq> None)" "fill_list u v = u \<longleftrightarrow> \<not> (u = [] \<and> v \<noteq> [])"
  "fill_num n m = n \<longleftrightarrow> \<not> (n = 0 \<and> 0 < m)"
  by (auto simp: fill_opt_def fill_list_def fill_num_def)

lemma fill_again [simp]:
  "fill_opt (fill_opt t s) s = fill_opt t s" "fill_list (fill_list u v) v = fill_list u v"
  "fill_num (fill_num n m) m = fill_num n m"
  by (auto simp: fill_opt_def fill_list_def fill_num_def)

lemma filled_again: "filled_metadata (filled_metadata a b) b = filled_metadata a b"
  by (simp add: filled_metadata_def)

lemma merge_flag: "snd (merge_missing_item_metadata a b) \<longleftrightarrow> fst (merge_missing_item_metadata a b) \<noteq> a"
proof (cases "mi_uri a = mi_uri b")
  case True
  have "filled_metadata a b = a \<longleftrightarrow> \<not> snd (merge_missing_item_metadata a b)"
    using True unfolding filled_metadata_def merge_missing_item_metadata_def
    by (cases a) (simp add: fill_eq_iff)
  then show ?thesis using True by (simp add: merge_missing_item_metadata_def)
qed (simp add: merge_missing_item_metadata_def)

text \<open>
  Filling in metadata is conservative: for the same track every field that was known keeps its
  value, the change flag is set exactly when something was filled in, merging the same source again
  changes nothing, and for another track nothing happens.
\<close>

theorem metadata_merge_conservative:
  "case merge_missing_item_metadata a b of (c, changed) \<Rightarrow>
     (changed \<longleftrightarrow> c \<noteq> a) \<and> merge_missing_item_metadata c b = (c, False) \<and>
     c = (if mi_uri a = mi_uri b then filled_metadata a b else a)"
proof -
  obtain c changed where c: "merge_missing_item_metadata a b = (c, changed)" by fastforce
  have "c = (if mi_uri a = mi_uri b then filled_metadata a b else a)"
    using c by (simp add: merge_missing_item_metadata_def split: if_splits)
  moreover have "mi_uri c = mi_uri a" using merge_uri [of a b] c by simp
  ultimately have "fst (merge_missing_item_metadata c b) = c"
    by (simp add: merge_missing_item_metadata_def filled_again)
  with merge_flag [of c b] have "merge_missing_item_metadata c b = (c, False)"
    by (metis prod.collapse)
  with c merge_flag [of a b] \<open>c = _\<close> show ?thesis by simp
qed

end
