(* ===== verification/Analytics.thy ===== *)
theory Analytics
  imports Media Rust_Float
begin

text \<open>
  \<open>spotuify-core/src/analytics.rs\<close>: the analytics vocabulary (event kinds, sources, skip reasons and
  the other labelled enums), the rule that decides which listens count, the \<open>listen_facts\<close> row, and
  the redaction of provider paths before they are recorded. The JSON payloads of the event builders
  and the SHA-256 of search queries are not modelled.
\<close>

section \<open>Labels\<close>

datatype analytics_event_kind =
    EvActionFinished | EvSearchPerformed | EvSearchResultSelected | EvPlaybackStarted
  | EvPlaybackPaused | EvPlaybackResumed | EvPlaybackSkipped | EvPlaybackCompleted
  | EvListenQualified | EvProviderApiFinished

primrec analytics_event_kind_label :: "analytics_event_kind \<Rightarrow> string" where
  "analytics_event_kind_label EvActionFinished = ''action_finished''"
| "analytics_event_kind_label EvSearchPerformed = ''search_performed''"
| "analytics_event_kind_label EvSearchResultSelected = ''search_result_selected''"
| "analytics_event_kind_label EvPlaybackStarted = ''playback_started''"
| "analytics_event_kind_label EvPlaybackPaused = ''playback_paused''"
| "analytics_event_kind_label EvPlaybackResumed = ''playback_resumed''"
| "analytics_event_kind_label EvPlaybackSkipped = ''playback_skipped''"
| "analytics_event_kind_label EvPlaybackCompleted = ''playback_completed''"
| "analytics_event_kind_label EvListenQualified = ''listen_qualified''"
| "analytics_event_kind_label EvProviderApiFinished = ''spotify_api_finished''"

definition analytics_event_kind_from_str :: "string \<Rightarrow> (analytics_event_kind, string) result" where
  "analytics_event_kind_from_str v =
     (if v = ''action_finished'' then Ok EvActionFinished
      else if v = ''search_performed'' then Ok EvSearchPerformed
      else if v = ''search_result_selected'' then Ok EvSearchResultSelected
      else if v = ''playback_started'' then Ok EvPlaybackStarted
      else if v = ''playback_paused'' then Ok EvPlaybackPaused
      else if v = ''playback_resumed'' then Ok EvPlaybackResumed
      else if v = ''playback_skipped'' then Ok EvPlaybackSkipped
      else if v = ''playback_completed'' then Ok EvPlaybackCompleted
      else if v = ''listen_qualified'' then Ok EvListenQualified
      else if v = ''spotify_api_finished'' \<or> v = ''provider_api_finished'' then Ok EvProviderApiFinished
      else Err (''unknown analytics event kind `'' @ v @ ''`''))"

datatype analytics_source = SourceCli | SourceTui | SourceProviderApi | SourceDaemon

primrec analytics_source_label :: "analytics_source \<Rightarrow> string" where
  "analytics_source_label SourceCli = ''cli''"
| "analytics_source_label SourceTui = ''tui''"
| "analytics_source_label SourceProviderApi = ''spotify_api''"
| "analytics_source_label SourceDaemon = ''daemon''"

definition analytics_source_from_str :: "string \<Rightarrow> (analytics_source, string) result" where
  "analytics_source_from_str v =
     (if v = ''cli'' then Ok SourceCli
      else if v = ''tui'' then Ok SourceTui
      else if v = ''spotify_api'' \<or> v = ''provider_api'' then Ok SourceProviderApi
      else if v = ''daemon'' then Ok SourceDaemon
      else Err (''unknown analytics source `'' @ v @ ''`''))"

datatype skip_reason = UserNext | UserPrevious | TrackEnd | SkipError | SessionDied

primrec skip_reason_label :: "skip_reason \<Rightarrow> string" where
  "skip_reason_label UserNext = ''user_next''"
| "skip_reason_label UserPrevious = ''user_previous''"
| "skip_reason_label TrackEnd = ''track_end''"
| "skip_reason_label SkipError = ''error''"
| "skip_reason_label SessionDied = ''session_died''"

datatype playback_source =
    FromSearch | FromPlaylist | FromAlbum | FromQueue | FromLibrary | FromAgent | FromRadio | FromUnknown

primrec playback_source_label :: "playback_source \<Rightarrow> string" where
  "playback_source_label FromSearch = ''search''"
| "playback_source_label FromPlaylist = ''playlist''"
| "playback_source_label FromAlbum = ''album''"
| "playback_source_label FromQueue = ''queue''"
| "playback_source_label FromLibrary = ''library''"
| "playback_source_label FromAgent = ''agent''"
| "playback_source_label FromRadio = ''radio''"
| "playback_source_label FromUnknown = ''unknown''"

datatype backend_label = Embedded | Spotifyd | Connect

primrec backend_label_label :: "backend_label \<Rightarrow> string" where
  "backend_label_label Embedded = ''embedded''"
| "backend_label_label Spotifyd = ''spotifyd''"
| "backend_label_label Connect = ''connect''"

datatype measurement_kind = ObservedPlayback | LastfmScrobbleImport

primrec measurement_kind_label :: "measurement_kind \<Rightarrow> string" where
  "measurement_kind_label ObservedPlayback = ''observed_playback''"
| "measurement_kind_label LastfmScrobbleImport = ''lastfm_scrobble_import''"

interpretation analytics_event_kind_codec:
  label_codec analytics_event_kind_label "\<lambda>s. result_ok (analytics_event_kind_from_str s)"
proof unfold_locales
  fix x show "result_ok (analytics_event_kind_from_str (analytics_event_kind_label x)) = Some x"
    by (cases x) (simp_all add: analytics_event_kind_from_str_def)
qed

interpretation analytics_source_codec:
  label_codec analytics_source_label "\<lambda>s. result_ok (analytics_source_from_str s)"
proof unfold_locales
  fix x show "result_ok (analytics_source_from_str (analytics_source_label x)) = Some x"
    by (cases x) (simp_all add: analytics_source_from_str_def)
qed

section \<open>Which listens count\<close>

definition QUALIFICATION_RULE_VERSION :: u32 where "QUALIFICATION_RULE_VERSION = 1"

record qualification =
  qual_qualified :: bool
  qual_threshold_ms :: i64
  qual_rule_version :: u32

definition FLOOR_MS :: i64 where "FLOOR_MS = 30000"
definition CAP_MS :: i64 where "CAP_MS = 240000"

text \<open>\<open>duration_ms / 2\<close> is taken only of positive durations, where Rust's division is \<open>div\<close>.\<close>

definition qualify_listen :: "i64 \<Rightarrow> i64 \<Rightarrow> qualification" where
  "qualify_listen duration_ms audible_ms =
     (let threshold_ms = (if duration_ms \<le> FLOOR_MS then FLOOR_MS
                          else max (min (duration_ms div 2) CAP_MS) FLOOR_MS)
      in \<lparr>qual_qualified = (FLOOR_MS < duration_ms \<and> threshold_ms \<le> audible_ms),
          qual_threshold_ms = threshold_ms, qual_rule_version = QUALIFICATION_RULE_VERSION\<rparr>)"

record listen_fact =
  lf_id :: "i64 option"
  lf_session_id :: string
  lf_track_uri :: string
  lf_artist_uri :: "string option"
  lf_album_uri :: "string option"
  lf_context_uri :: "string option"
  lf_started_at_ms :: i64
  lf_ended_at_ms :: i64
  lf_duration_ms :: i64
  lf_elapsed_ms :: i64
  lf_audible_ms :: i64
  lf_completion_ratio :: rfloat
  lf_qualified :: bool
  lf_qualification_rule_version :: u32
  lf_skip_reason :: "skip_reason option"
  lf_source :: "playback_source option"
  lf_backend :: "backend_label option"
  lf_private_session :: bool
  lf_measurement_kind :: measurement_kind
  lf_external_scrobble_id :: "i64 option"
  lf_created_at_ms :: i64

section \<open>Redaction of provider paths\<close>

definition REDACT :: "string list" where
  "REDACT = [''q'', ''ids'', ''uri'', ''uris'', ''market'']"

text \<open>Rust's \<open>split_once\<close> at a single character.\<close>

fun split_once :: "char \<Rightarrow> string \<Rightarrow> (string \<times> string) option" where
  "split_once c [] = None"
| "split_once c (x # xs) =
     (if x = c then Some ([], xs) else map_option (\<lambda>(a, b). (x # a, b)) (split_once c xs))"

definition redact_pair :: "string \<Rightarrow> string option" where
  "redact_pair pair = (case split_once (CHR ''='') pair of
       None \<Rightarrow> None
     | Some (key, _) \<Rightarrow>
         if list_ex (\<lambda>k. eq_ignore_ascii_case k key) REDACT then Some (key @ ''=<redacted>'') else Some pair)"

definition redact_provider_path :: "string \<Rightarrow> string" where
  "redact_provider_path path = (case split_once (CHR ''?'') path of
       None \<Rightarrow> path
     | Some (base, query) \<Rightarrow>
         let query = join_with ''&'' (List.map_filter redact_pair (split_on (CHR ''&'') query))
         in if query = [] then base else base @ ''?'' @ query)"

section \<open>Properties\<close>

text \<open>
  The listen rule: a track counts exactly when it is longer than thirty seconds and was audible
  for at least thirty seconds and for half of it or four minutes, whichever is less. The threshold
  shown to users lies between thirty seconds and four minutes, and more audible time never undoes a
  qualification.
\<close>

theorem qualify_listen_correct:
  assumes "a \<le> a'"
  shows "(qual_qualified (qualify_listen d a) \<longleftrightarrow>
      30000 < d \<and> 30000 \<le> a \<and> (d div 2 \<le> a \<or> 240000 \<le> a)) \<and>
    30000 \<le> qual_threshold_ms (qualify_listen d a) \<and> qual_threshold_ms (qualify_listen d a) \<le> 240000 \<and>
    (qual_qualified (qualify_listen d a) \<longrightarrow> qual_qualified (qualify_listen d a')) \<and>
    (0 \<le> d \<and> d \<le> a \<and> 30000 < d \<longrightarrow> qual_qualified (qualify_listen d a))"
  using assms by (auto simp: qualify_listen_def Let_def FLOOR_MS_def CAP_MS_def)

theorem qualify_listen_correct_witness:
  "qual_qualified (qualify_listen 200000 100000) \<and> qual_qualified (qualify_listen 200000 150000) \<and>
   \<not> qual_qualified (qualify_listen 200000 99999)"
  using qualify_listen_correct [of 100000 150000 200000] qualify_listen_correct [of 99999 99999 200000]
  by simp

lemma split_once_Some:
  "split_once c s = Some (a, b) \<longleftrightarrow> s = a @ c # b \<and> c \<notin> set a"
proof (induction s arbitrary: a)
  case (Cons x xs)
  show ?case
  proof (cases a)
    case Nil
    then show ?thesis by (cases "split_once c xs") auto
  next
    case [simp]: (Cons y ys)
    show ?thesis using Cons.IH [of ys] by (cases "split_once c xs") auto
  qed
qed simp

lemma split_once_None: "split_once c s = None \<longleftrightarrow> c \<notin> set s"
  by (induction s) auto

lemma split_on_join:
  "ps \<noteq> [] \<Longrightarrow> \<forall>p \<in> set ps. d \<notin> set p \<Longrightarrow> split_on d (join_with [d] ps) = ps"
proof (induction ps)
  case (Cons p ps)
  then show ?case by (cases ps) (simp_all add: split_on_absent split_on_append)
qed simp

lemma redact_pair_again:
  assumes "redact_pair p = Some r"
  shows "redact_pair r = Some r"
proof -
  from assms obtain k v where p: "split_once (CHR ''='') p = Some (k, v)"
    by (auto simp: redact_pair_def split: option.splits)
  then have "CHR ''='' \<notin> set k" by (simp add: split_once_Some)
  then have "split_once (CHR ''='') (k @ ''=<redacted>'') = Some (k, ''<redacted>'')"
    by (simp add: split_once_Some)
  with assms p show ?thesis by (auto simp: redact_pair_def split: if_splits)
qed

lemma redact_pair_no_amp: "redact_pair p = Some r \<Longrightarrow> CHR ''&'' \<notin> set p \<Longrightarrow> CHR ''&'' \<notin> set r"
  by (auto simp: redact_pair_def split_once_Some split: option.splits prod.splits if_splits)

lemma redacted_pairs_again:
  "List.map_filter redact_pair (List.map_filter redact_pair ps) = List.map_filter redact_pair ps"
  by (induction ps) (auto simp: List.map_filter_simps redact_pair_again split: option.split)

lemma redacted_pairs_in: "r \<in> set (List.map_filter redact_pair ps) \<Longrightarrow> \<exists>p \<in> set ps. redact_pair p = Some r"
  by (induction ps) (auto simp: List.map_filter_simps split: option.splits)

text \<open>Two query parameters that differ at most in the value of a sensitive key.\<close>

definition hidden_change :: "string \<Rightarrow> string \<Rightarrow> bool" where
  "hidden_change p p' \<longleftrightarrow> p = p' \<or>
     (case (split_once (CHR ''='') p, split_once (CHR ''='') p') of
        (Some (k, _), Some (k', _)) \<Rightarrow> k = k' \<and> list_ex (\<lambda>r. eq_ignore_ascii_case r k) REDACT
      | _ \<Rightarrow> False)"

lemma hidden_change_pair: "hidden_change p p' \<Longrightarrow> redact_pair p = redact_pair p'"
  by (auto simp: hidden_change_def redact_pair_def split: option.splits prod.splits)

lemma hidden_change_pairs:
  "list_all2 hidden_change ps ps' \<Longrightarrow> List.map_filter redact_pair ps = List.map_filter redact_pair ps'"
  by (induction rule: list_all2_induct) (auto simp: List.map_filter_simps hidden_change_pair split: option.split)

lemma redact_idempotent: "redact_provider_path (redact_provider_path path) = redact_provider_path path"
proof (cases "split_once (CHR ''?'') path")
  case None
  then show ?thesis by (simp add: redact_provider_path_def)
next
  case (Some bq)
  obtain b q where bq: "bq = (b, q)" by fastforce
  let ?rs = "List.map_filter redact_pair (split_on (CHR ''&'') q)"
  from Some have b: "CHR ''?'' \<notin> set b" by (simp add: bq split_once_Some)
  have amp: "\<forall>r \<in> set ?rs. CHR ''&'' \<notin> set r"
    using redacted_pairs_in redact_pair_no_amp split_on_pieces by blast
  show ?thesis
  proof (cases "join_with ''&'' ?rs = []")
    case True
    then have "redact_provider_path path = b" using Some by (simp add: bq redact_provider_path_def)
    moreover have "redact_provider_path b = b"
      using b by (simp add: redact_provider_path_def split_once_None [THEN iffD2])
    ultimately show ?thesis by simp
  next
    case False
    then have "?rs \<noteq> []" by auto
    then have "split_on (CHR ''&'') (join_with ''&'' ?rs) = ?rs" using amp by (rule split_on_join)
    moreover have "redact_provider_path path = b @ ''?'' @ join_with ''&'' ?rs"
      using Some False by (simp add: bq redact_provider_path_def Let_def)
    moreover have "split_once (CHR ''?'') (b @ ''?'' @ join_with ''&'' ?rs) = Some (b, join_with ''&'' ?rs)"
      using b by (simp add: split_once_Some)
    ultimately show ?thesis
      using False by (simp add: redact_provider_path_def redacted_pairs_again)
  qed
qed

text \<open>
  Redaction hides what it promises to hide: two request paths that differ only in the values of
  \<open>q\<close>, \<open>ids\<close>, \<open>uri\<close>, \<open>uris\<close> or \<open>market\<close> parameters (in any letter case) are recorded identically, so
  the event log carries nothing about those values; recording an already redacted path changes
  nothing, and a path without a query is recorded as it is.
\<close>

theorem redaction_hides_values:
  assumes "CHR ''?'' \<notin> set base"
    and "list_all2 hidden_change (split_on (CHR ''&'') query) (split_on (CHR ''&'') query')"
  shows "redact_provider_path (base @ ''?'' @ query) = redact_provider_path (base @ ''?'' @ query') \<and>
    redact_provider_path (redact_provider_path (base @ ''?'' @ query)) = redact_provider_path (base @ ''?'' @ query) \<and>
    redact_provider_path base = base"
proof -
  have "split_once (CHR ''?'') (base @ ''?'' @ s) = Some (base, s)" for s
    using assms(1) by (simp add: split_once_Some)
  then have "redact_provider_path (base @ ''?'' @ query) = redact_provider_path (base @ ''?'' @ query')"
    using hidden_change_pairs [OF assms(2)] by (simp add: redact_provider_path_def)
  then show ?thesis
    using redact_idempotent assms(1) by (simp add: redact_provider_path_def split_once_None [THEN iffD2])
qed

theorem redaction_hides_values_witness:
  "redact_provider_path ''/search?Q=secret&limit=5'' = redact_provider_path ''/search?Q=other&limit=5''"
proof -
  have "list_all2 hidden_change (split_on (CHR ''&'') ''Q=secret&limit=5'')
      (split_on (CHR ''&'') ''Q=other&limit=5'')" by code_simp
  then show ?thesis
    using redaction_hides_values [of "''/search''" "''Q=secret&limit=5''" "''Q=other&limit=5''"] by simp
qed

end
