(* ===== verification/Session_Tracker.thy ===== *)
theory Session_Tracker
  imports Analytics Player_Events
begin

text \<open>
  \<open>spotuify-daemon/src/session_tracker.rs\<close>: the state machine that turns player events into listen
  facts, and the PCM counter it reads (\<open>spotuify-player/src/backends/audio_counter_tap.rs\<close>). What the
  tracker reads from its surroundings is an argument: the wall clock, the fresh session id, the
  counter, the playback context, and what the store returns for the track. What it writes is
  returned: a finalisation request, a progress sample, and for \<open>finalize\<close> the fact, the metric
  updates and the event.
\<close>

section \<open>The audio counter\<close>

record audio_counter =
  ac_samples :: "64 word"
  ac_sample_rate :: u32
  ac_channels :: u32

definition audio_counter_new :: audio_counter where
  "audio_counter_new = \<lparr>ac_samples = 0, ac_sample_rate = 44100, ac_channels = 2\<rparr>"

definition counter_reset :: "audio_counter \<Rightarrow> audio_counter" where
  "counter_reset c = c\<lparr>ac_samples := 0\<rparr>"

definition set_format :: "u32 \<Rightarrow> u32 \<Rightarrow> audio_counter \<Rightarrow> audio_counter" where
  "set_format rate channels c = c\<lparr>ac_sample_rate := rate, ac_channels := max channels 1\<rparr>"

definition add_samples :: "u64 \<Rightarrow> audio_counter \<Rightarrow> audio_counter" where
  "add_samples count c = c\<lparr>ac_samples := ac_samples c + of_nat count\<rparr>"

text \<open>The product is a \<open>u64\<close> and wraps in the release profile.\<close>

definition counter_audible_ms :: "audio_counter \<Rightarrow> u64" where
  "counter_audible_ms c =
     (if ac_sample_rate c = 0 then 0
      else unat (ac_samples c * 1000) div (ac_sample_rate c * max (ac_channels c) 1))"

definition tap_start :: "audio_counter \<Rightarrow> audio_counter" where "tap_start = counter_reset"
definition tap_stop :: "audio_counter \<Rightarrow> audio_counter" where "tap_stop c = c"
definition tap_write :: "int list \<Rightarrow> audio_counter \<Rightarrow> audio_counter" where
  "tap_write frames = add_samples (length frames)"

section \<open>Sessions\<close>

record session =
  ss_session_id :: string
  ss_uri :: string
  ss_started_at_ms :: i64
  ss_last_position_ms :: u32
  ss_accumulated_paused_ms :: i64
  ss_audible_baseline_ms :: u64
  ss_context_uri :: "string option"
  ss_source :: playback_source
  ss_backend :: backend_label
  ss_private_session :: bool

text \<open>\<open>SessionState\<close>: a paused session also remembers when the pause began.\<close>

datatype session_state = Idle | Playing session | Paused session i64

primrec session_state_label :: "session_state \<Rightarrow> string" where
  "session_state_label Idle = ''idle''"
| "session_state_label (Playing _) = ''playing''"
| "session_state_label (Paused _ _) = ''paused''"

record progress_sample =
  ps_session_id :: string
  ps_track_uri :: string
  ps_sampled_at_ms :: i64
  ps_position_ms :: i64
  ps_audible_samples :: i64
  ps_sample_rate :: i64
  ps_channels :: i64

record surroundings =
  sr_now_ms :: i64
  sr_session_id :: string
  sr_counter :: "audio_counter option"
  sr_context :: "string option"
  sr_has_store :: bool

datatype effect =
    SpawnFinalize session_state skip_reason
  | InsertProgressSample progress_sample

definition audible_now :: "audio_counter option \<Rightarrow> u64" where
  "audible_now c = (case c of Some c \<Rightarrow> counter_audible_ms c | None \<Rightarrow> 0)"

definition new_session :: "surroundings \<Rightarrow> resource_uri \<Rightarrow> u32 \<Rightarrow> session" where
  "new_session sr u position_ms =
     \<lparr>ss_session_id = sr_session_id sr, ss_uri = as_uri u, ss_started_at_ms = sr_now_ms sr,
      ss_last_position_ms = position_ms, ss_accumulated_paused_ms = 0,
      ss_audible_baseline_ms = audible_now (sr_counter sr), ss_context_uri = sr_context sr,
      ss_source = FromUnknown, ss_backend = Embedded, ss_private_session = False\<rparr>"

text \<open>
  The sample is taken in a task of its own; it reads the same counter and clock a little later, which
  the model identifies with the readings at the event.
\<close>

definition progress_sample_of :: "surroundings \<Rightarrow> session \<Rightarrow> u32 \<Rightarrow> progress_sample" where
  "progress_sample_of sr s position_ms =
     (let (samples, rate, channels) = (case sr_counter sr of
            Some c \<Rightarrow> (u64_as_i64 (unat (ac_samples c)), int (ac_sample_rate c), int (max (ac_channels c) 1))
          | None \<Rightarrow> (int position_ms, 1000, 1))
      in \<lparr>ps_session_id = ss_session_id s, ps_track_uri = ss_uri s, ps_sampled_at_ms = sr_now_ms sr,
          ps_position_ms = int position_ms, ps_audible_samples = samples, ps_sample_rate = rate,
          ps_channels = channels\<rparr>)"

definition observe :: "surroundings \<Rightarrow> player_event \<Rightarrow> session_state \<Rightarrow> session_state \<times> effect list" where
  "observe sr ev st = (case ev of
       PlaybackStarted u position_ms \<Rightarrow> (Playing (new_session sr u position_ms), [])
     | PlaybackPaused \<Rightarrow> (case st of Playing s \<Rightarrow> (Paused s (sr_now_ms sr), []) | _ \<Rightarrow> (st, []))
     | PlaybackResumed \<Rightarrow> (case st of
           Paused s paused_at_ms \<Rightarrow>
             (Playing (s\<lparr>ss_accumulated_paused_ms :=
                sat_i64 (ss_accumulated_paused_ms s + sat_i64 (sr_now_ms sr - paused_at_ms))\<rparr>), [])
         | _ \<Rightarrow> (st, []))
     | PositionTick position_ms \<Rightarrow> (case st of
           Playing s \<Rightarrow>
             (Playing (s\<lparr>ss_last_position_ms := position_ms\<rparr>),
              if sr_has_store sr then [InsertProgressSample (progress_sample_of sr s position_ms)] else [])
         | _ \<Rightarrow> (st, []))
     | TrackChanged _ _ \<Rightarrow> (Idle, [SpawnFinalize st UserNext])
     | EndOfTrack _ \<Rightarrow> (Idle, [SpawnFinalize st TrackEnd])
     | SessionDisconnected _ \<Rightarrow> (Idle, [SpawnFinalize st SessionDied])
     | Deactivated \<Rightarrow> (Idle, [SpawnFinalize st SessionDied])
     | _ \<Rightarrow> (st, []))"

section \<open>Finalisation\<close>

record closing =
  cl_ended_at_ms :: i64
  cl_counter :: "audio_counter option"
  cl_has_store :: bool
  cl_has_event_tx :: bool
  cl_track :: "media_item option"
  cl_artist_uri :: "string option"
  cl_album_uri :: "string option"

record metric_update =
  mu_uri :: string
  mu_qualified :: bool
  mu_audible_ms :: i64
  mu_ended_at_ms :: i64

record listen_qualified =
  lq_track_uri :: string
  lq_duration_ms :: i64
  lq_audible_ms :: i64
  lq_started_at_ms :: "i64 option"
  lq_track_name :: "string option"
  lq_artist_name :: "string option"
  lq_album_name :: "string option"
  lq_artist_uri :: "string option"
  lq_album_uri :: "string option"

record finalized =
  fz_fact :: listen_fact
  fz_stored :: bool
  fz_track_metric :: "metric_update option"
  fz_artist_metric :: "metric_update option"
  fz_album_metric :: "metric_update option"
  fz_event :: "listen_qualified option"

primrec open_session :: "session_state \<Rightarrow> session option" where
  "open_session Idle = None"
| "open_session (Playing s) = Some s"
| "open_session (Paused s _) = Some s"

definition session_elapsed_ms :: "i64 \<Rightarrow> session \<Rightarrow> i64" where
  "session_elapsed_ms ended_at_ms s = max (sat_i64 (ended_at_ms - ss_started_at_ms s)) 0"

definition wall_clock_audible_ms :: "i64 \<Rightarrow> session \<Rightarrow> i64" where
  "wall_clock_audible_ms ended_at_ms s =
     max (sat_i64 (session_elapsed_ms ended_at_ms s - ss_accumulated_paused_ms s)) 0"

definition session_audible_ms :: "i64 \<Rightarrow> audio_counter option \<Rightarrow> session \<Rightarrow> i64" where
  "session_audible_ms ended_at_ms counter s = (case counter of
       Some c \<Rightarrow>
         (let current = counter_audible_ms c; tap_delta = current - ss_audible_baseline_ms s
          in if ss_audible_baseline_ms s \<le> current \<and> 0 < tap_delta
             then min (u64_as_i64 tap_delta) (max (session_elapsed_ms ended_at_ms s) 0)
             else wall_clock_audible_ms ended_at_ms s)
     | None \<Rightarrow> wall_clock_audible_ms ended_at_ms s)"

definition session_duration_ms :: "media_item option \<Rightarrow> session \<Rightarrow> i64" where
  "session_duration_ms track s = (case track of
       Some item \<Rightarrow> if 0 < u64_as_i64 (mi_duration_ms item) then u64_as_i64 (mi_duration_ms item)
                     else int (ss_last_position_ms s)
     | None \<Rightarrow> int (ss_last_position_ms s))"

text \<open>The quotient of two \<open>i64\<close> values as \<open>f64\<close>, clamped to the unit interval.\<close>

definition completion_ratio :: "i64 \<Rightarrow> i64 \<Rightarrow> rfloat" where
  "completion_ratio audible_ms duration_ms =
     (if 0 < duration_ms
      then fclamp (fdiv_const f64 (to_float f64 (of_int audible_ms)) (rnd f64 (of_int duration_ms))) 0 1
      else Fin 0)"

definition nonempty :: "string \<Rightarrow> string option" where
  "nonempty s = (if s = [] then None else Some s)"

definition finalize :: "closing \<Rightarrow> session_state \<Rightarrow> skip_reason \<Rightarrow> finalized option" where
  "finalize cl st reason = map_option (\<lambda>s.
     let ended_at_ms = cl_ended_at_ms cl;
         elapsed_ms = session_elapsed_ms ended_at_ms s;
         audible_ms = session_audible_ms ended_at_ms (cl_counter cl) s;
         track = (if cl_has_store cl then cl_track cl else None);
         duration_ms = session_duration_ms track s;
         qualified = (qual_qualified (qualify_listen duration_ms audible_ms) \<and> reason \<noteq> SessionDied);
         artist_uri = (if cl_has_store cl then cl_artist_uri cl else None);
         album_uri = (if cl_has_store cl then cl_album_uri cl else None);
         metric = (\<lambda>u. \<lparr>mu_uri = u, mu_qualified = qualified, mu_audible_ms = audible_ms,
                        mu_ended_at_ms = ended_at_ms\<rparr>)
     in \<lparr>fz_fact = \<lparr>lf_id = None, lf_session_id = ss_session_id s, lf_track_uri = ss_uri s,
            lf_artist_uri = artist_uri, lf_album_uri = album_uri, lf_context_uri = ss_context_uri s,
            lf_started_at_ms = ss_started_at_ms s, lf_ended_at_ms = ended_at_ms,
            lf_duration_ms = duration_ms, lf_elapsed_ms = elapsed_ms, lf_audible_ms = audible_ms,
            lf_completion_ratio = completion_ratio audible_ms duration_ms, lf_qualified = qualified,
            lf_qualification_rule_version = QUALIFICATION_RULE_VERSION, lf_skip_reason = Some reason,
            lf_source = Some FromUnknown, lf_backend = Some Embedded,
            lf_private_session = ss_private_session s, lf_measurement_kind = ObservedPlayback,
            lf_external_scrobble_id = None, lf_created_at_ms = ended_at_ms\<rparr>,
         fz_stored = cl_has_store cl,
         fz_track_metric = (if cl_has_store cl then Some (metric (ss_uri s)) else None),
         fz_artist_metric = map_option metric artist_uri,
         fz_album_metric = map_option metric album_uri,
         fz_event = (if qualified \<and> \<not> ss_private_session s \<and> cl_has_event_tx cl
           then Some \<lparr>lq_track_uri = ss_uri s, lq_duration_ms = duration_ms, lq_audible_ms = audible_ms,
             lq_started_at_ms = Some (ss_started_at_ms s),
             lq_track_name = Option.bind track (\<lambda>item. nonempty (mi_name item)),
             lq_artist_name = Option.bind track (\<lambda>item. nonempty (mi_subtitle item)),
             lq_album_name = Option.bind track (\<lambda>item. nonempty (mi_context item)),
             lq_artist_uri = artist_uri, lq_album_uri = album_uri\<rparr>
           else None)\<rparr>) (open_session st)"

section \<open>Runs\<close>

fun track :: "(surroundings \<times> player_event) list \<Rightarrow> session_state \<Rightarrow> session_state \<times> effect list" where
  "track [] st = (st, [])"
| "track ((sr, ev) # evs) st =
     (case observe sr ev st of (st', es) \<Rightarrow> case track evs st' of (st'', es') \<Rightarrow> (st'', es @ es'))"

fun closes_session :: "effect \<Rightarrow> bool" where
  "closes_session (SpawnFinalize st _) = (st \<noteq> Idle)"
| "closes_session (InsertProgressSample _) = False"

fun is_start :: "player_event \<Rightarrow> bool" where
  "is_start (PlaybackStarted _ _) = True"
| "is_start _ = False"

text \<open>Starts that arrive while a session is open.\<close>

fun overwritten :: "(surroundings \<times> player_event) list \<Rightarrow> session_state \<Rightarrow> nat" where
  "overwritten [] st = 0"
| "overwritten ((sr, ev) # evs) st =
     (if is_start ev \<and> st \<noteq> Idle then 1 else 0) + overwritten evs (fst (observe sr ev st))"

definition open_count :: "session_state \<Rightarrow> nat" where
  "open_count st = (if st = Idle then 0 else 1)"

lemma observe_balance:
  "open_count st + (if is_start ev then 1 else 0) =
     length (filter closes_session (snd (observe sr ev st))) +
     (if is_start ev \<and> st \<noteq> Idle then 1 else 0) + open_count (fst (observe sr ev st))"
  by (cases ev; cases st) (simp_all add: observe_def open_count_def)


section \<open>Facts\<close>

lemma to_float_not_NaN [simp]: "to_float fmt x \<noteq> NaN"
  by (simp add: to_float_def Let_def)

lemma fclamp_unit: "v \<noteq> NaN \<Longrightarrow> \<exists>r. fclamp v 0 1 = Fin r \<and> 0 \<le> r \<and> r \<le> 1"
  by (cases v) auto

lemma completion_ratio_unit: "\<exists>r. completion_ratio a d = Fin r \<and> 0 \<le> r \<and> r \<le> 1"
proof -
  have "fdiv_const f64 (to_float f64 (of_int a)) c \<noteq> NaN" for c
    by (cases "to_float f64 (of_int a)") (use to_float_not_NaN [of f64 "of_int a"] in auto)
  then show ?thesis using fclamp_unit by (simp add: completion_ratio_def)
qed

lemma wall_clock_le_elapsed:
  "0 \<le> ss_accumulated_paused_ms s \<Longrightarrow> wall_clock_audible_ms t s \<le> session_elapsed_ms t s"
  by (auto simp: wall_clock_audible_ms_def session_elapsed_ms_def sat_i64_def i64_max_def i64_min_def)

lemma audible_bounds:
  assumes "0 \<le> ss_accumulated_paused_ms s"
    and "\<forall>c. counter = Some c \<longrightarrow> counter_audible_ms c < 2 ^ 63"
  shows "0 \<le> session_audible_ms t counter s \<and> session_audible_ms t counter s \<le> session_elapsed_ms t s"
proof -
  have wall: "0 \<le> wall_clock_audible_ms t s" "wall_clock_audible_ms t s \<le> session_elapsed_ms t s"
    using wall_clock_le_elapsed [OF assms(1)] by (simp_all add: wall_clock_audible_ms_def)
  show ?thesis
  proof (cases counter)
    case (Some c)
    with assms(2) have "u64_as_i64 (counter_audible_ms c - b) = int (counter_audible_ms c - b)" for b
      by (intro u64_as_i64_small) (simp add: less_imp_diff_less)
    with wall Some show ?thesis
      by (auto simp: session_audible_ms_def Let_def session_elapsed_ms_def)
  qed (use wall in \<open>simp add: session_audible_ms_def\<close>)
qed


definition sample_session :: session where
  "sample_session = \<lparr>ss_session_id = ''s'', ss_uri = ''spotify:track:a'', ss_started_at_ms = 0,
     ss_last_position_ms = 0, ss_accumulated_paused_ms = 0, ss_audible_baseline_ms = 0,
     ss_context_uri = None, ss_source = FromUnknown, ss_backend = Embedded, ss_private_session = False\<rparr>"

definition sample_closing :: "i64 \<Rightarrow> closing" where
  "sample_closing t = \<lparr>cl_ended_at_ms = t, cl_counter = None, cl_has_store = True, cl_has_event_tx = True,
     cl_track = Some ((media_stub ''spotify:track:a'')\<lparr>mi_duration_ms := 200000\<rparr>),
     cl_artist_uri = None, cl_album_uri = None\<rparr>"


section \<open>Pauses\<close>

text \<open>Closed pauses between two times, in order, with both ends on the clock of the daemon.\<close>

fun pauses_within :: "i64 \<Rightarrow> (i64 \<times> i64) list \<Rightarrow> i64 \<Rightarrow> bool" where
  "pauses_within lo [] hi = (lo \<le> hi)"
| "pauses_within lo ((p, r) # ps) hi = (lo \<le> p \<and> p \<le> r \<and> pauses_within r ps hi)"

definition paused_total :: "(i64 \<times> i64) list \<Rightarrow> i64" where
  "paused_total ps = sum_list (map (\<lambda>(p, r). r - p) ps)"

definition at_ms :: "i64 \<Rightarrow> surroundings" where
  "at_ms t = \<lparr>sr_now_ms = t, sr_session_id = [], sr_counter = None, sr_context = None, sr_has_store = False\<rparr>"

definition pause_events :: "(i64 \<times> i64) list \<Rightarrow> (surroundings \<times> player_event) list" where
  "pause_events ps = concat (map (\<lambda>(p, r). [(at_ms p, PlaybackPaused), (at_ms r, PlaybackResumed)]) ps)"

lemma paused_total_bounds:
  "pauses_within lo ps hi \<Longrightarrow> 0 \<le> paused_total ps \<and> paused_total ps \<le> hi - lo"
  by (induction ps arbitrary: lo) (auto simp: paused_total_def, fastforce+)

lemma track_pauses:
  assumes "pauses_within lo ps hi" and "0 \<le> lo" and "hi \<le> i64_max"
    and "0 \<le> ss_accumulated_paused_ms s" and "ss_accumulated_paused_ms s \<le> lo"
  shows "track (pause_events ps) (Playing s) =
    (Playing (s\<lparr>ss_accumulated_paused_ms := ss_accumulated_paused_ms s + paused_total ps\<rparr>), [])"
  using assms
proof (induction ps arbitrary: lo s)
  case (Cons pr ps)
  obtain p r where pr: "pr = (p, r)" by fastforce
  let ?a = "ss_accumulated_paused_ms s"
  from Cons.prems have w: "lo \<le> p" "p \<le> r" "pauses_within r ps hi" by (simp_all add: pr)
  with paused_total_bounds have "r \<le> hi" by force
  then have sat: "sat_i64 (r - p) = r - p" "sat_i64 (?a + (r - p)) = ?a + (r - p)"
    using w Cons.prems by (auto intro!: sat_i64_id simp: in_i64_def i64_min_def)
  have "track (pause_events ps) (Playing (s\<lparr>ss_accumulated_paused_ms := ?a + (r - p)\<rparr>)) =
      (Playing (s\<lparr>ss_accumulated_paused_ms := ?a + (r - p) + paused_total ps\<rparr>), [])"
    using Cons.IH [OF w(3), of "s\<lparr>ss_accumulated_paused_ms := ?a + (r - p)\<rparr>"] w Cons.prems by simp
  then show ?case
    by (simp add: pr pause_events_def paused_total_def observe_def at_ms_def sat add.assoc)
qed (simp add: pause_events_def paused_total_def)

lemma wall_clock_exact:
  assumes "0 \<le> ss_started_at_ms s" and "ss_started_at_ms s \<le> t" and "t \<le> i64_max"
    and "0 \<le> ss_accumulated_paused_ms s" and "ss_accumulated_paused_ms s \<le> t - ss_started_at_ms s"
  shows "session_audible_ms t None s = t - ss_started_at_ms s - ss_accumulated_paused_ms s"
  using assms by (simp add: session_audible_ms_def wall_clock_audible_ms_def session_elapsed_ms_def
      sat_i64_id in_i64_def i64_min_def)

text \<open>
  Without a PCM counter the audible time of a session that is finalised while playing is the time
  since its start less every pause, however often the listener paused and resumed. A session that is
  finalised while paused is charged differently: the pause still open at that point is counted as
  audible.
\<close>

theorem pauses_are_not_audible:
  assumes "pauses_within (ss_started_at_ms s) ps t" and "0 \<le> ss_started_at_ms s" and "t \<le> i64_max"
    and "ss_accumulated_paused_ms s = 0" and "cl_counter cl = None" and "cl_ended_at_ms cl = t"
  shows "(\<exists>f. finalize cl (fst (track (pause_events ps) (Playing s))) reason = Some f \<and>
      lf_audible_ms (fz_fact f) = t - ss_started_at_ms s - paused_total ps) \<and>
    (\<forall>p. pauses_within (ss_started_at_ms s) (ps @ [(p, t)]) t \<longrightarrow>
      (\<exists>f. finalize cl (fst (track (pause_events ps @ [(at_ms p, PlaybackPaused)]) (Playing s))) reason = Some f \<and>
        lf_audible_ms (fz_fact f) = (p - ss_started_at_ms s - paused_total ps) + (t - p)))"
proof -
  let ?s = "s\<lparr>ss_accumulated_paused_ms := paused_total ps\<rparr>"
  have run: "track (pause_events ps) (Playing s) = (Playing ?s, [])"
    using track_pauses [OF assms(1-3), of s] assms(2,4) by simp
  have append: "track (xs @ ys) st = (case track xs st of (st', es) \<Rightarrow> case track ys st' of (st'', es') \<Rightarrow> (st'', es @ es'))"
    for xs ys st by (induction xs arbitrary: st) (auto split: prod.split)
  have "session_audible_ms t None ?s = t - ss_started_at_ms s - paused_total ps"
    using wall_clock_exact [of ?s t] paused_total_bounds [OF assms(1)] assms(2,3) by simp
  then show ?thesis
    using assms(5,6) by (auto simp: finalize_def run append Let_def observe_def)
qed

theorem pauses_are_not_audible_witness:
  "\<exists>f. finalize (sample_closing 310000)
      (fst (track ([] @ [(at_ms 10000, PlaybackPaused)]) (Playing sample_session))) UserNext = Some f \<and>
    lf_audible_ms (fz_fact f) = 310000"
  using pauses_are_not_audible [of sample_session "[]" 310000 "sample_closing 310000" UserNext]
  by (simp add: sample_session_def sample_closing_def pause_events_def paused_total_def i64_max_def)

text \<open>
  The charge for an open pause changes verdicts: ten seconds of a track, paused for five minutes
  and then skipped, are recorded as a qualified listen and announced as one.
\<close>

theorem paused_skip_qualifies:
  "case track [(at_ms 10000, PlaybackPaused), (at_ms 310000, TrackChanged u 0)] (Playing sample_session) of
     (st, [SpawnFinalize snap reason]) \<Rightarrow>
       st = Idle \<and> reason = UserNext \<and>
       (case finalize (sample_closing 310000) snap reason of
          Some f \<Rightarrow> lf_qualified (fz_fact f) \<and> fz_event f \<noteq> None
        | None \<Rightarrow> False)
   | _ \<Rightarrow> False"
  by (simp add: observe_def at_ms_def finalize_def sample_closing_def sample_session_def Let_def
      session_audible_ms_def wall_clock_audible_ms_def session_elapsed_ms_def sat_i64_id in_i64_def
      i64_min_def i64_max_def session_duration_ms_def u64_as_i64_small qualify_listen_def FLOOR_MS_def CAP_MS_def)

end
