(* ===== verification/Provider_Mutations.thy ===== *)
theory Provider_Mutations
  imports Resource_Uri "HOL-Library.Product_Lexorder"
begin

text \<open>
  The mutations a music provider accepts (\<open>spotuify-core/src/provider.rs\<close>) and the provider that
  executes them in memory (\<open>spotuify-provider-fake/src/lib.rs\<close>), the reference implementation of the
  adapter contract that the daemon is tested against. The provider's state is modelled as far as
  mutations read or write it: media, playlists, library, follows, the playlist counter and the
  receipts kept for replay.
\<close>

section \<open>Errors, mutations and receipts\<close>

datatype provider_error =
    Unsupported string
  | RateLimited "string option" "nat option"
  | AuthRequired
  | AuthExpired
  | AuthRevoked
  | Forbidden string
  | NoActiveDevice
  | InvalidInput string string
  | NetworkError string
  | Transient "u16 option" string
  | Upstream u16 string
  | Decode string
  | NotFound string
  | SyncTokenExpired string
  | VersionConflict "string option" "string option"
  | ProviderFailure string

definition is_retryable :: "provider_error \<Rightarrow> bool" where
  "is_retryable e = (case e of
       RateLimited _ _ \<Rightarrow> True | NetworkError _ \<Rightarrow> True | Transient _ _ \<Rightarrow> True | AuthExpired \<Rightarrow> True
     | Upstream status _ \<Rightarrow> 500 \<le> status \<and> status \<le> 599
     | _ \<Rightarrow> False)"

definition is_auth_error :: "provider_error \<Rightarrow> bool" where
  "is_auth_error e \<longleftrightarrow> e \<in> {AuthRequired, AuthExpired, AuthRevoked}"

record playlist_item_ref =
  ir_uri :: resource_uri
  ir_positions :: "u32 list"

record playlist_insertion =
  in_uri :: resource_uri
  in_position :: "u32 option"

datatype mutation =
    MutPlaylistCreate string "bool option" "string option"
  | MutPlaylistAdd resource_uri "playlist_insertion list" "string option"
  | MutPlaylistRemove resource_uri "playlist_item_ref list" "string option"
  | MutPlaylistReorder resource_uri u32 u32 u32 "string option"
  | MutPlaylistSetImage resource_uri "u8 list"
  | MutPlaylistUnfollow resource_uri
  | MutLibrarySave "resource_uri list"
  | MutLibraryUnsave "resource_uri list"
  | MutFollow "resource_uri list"
  | MutUnfollow "resource_uri list"

datatype mutation_outcome =
    PlaylistCreated playlist
  | PlaylistChanged resource_uri
  | PlaylistImageSet resource_uri
  | PlaylistUnfollowed resource_uri
  | LibraryChanged "resource_uri list" bool
  | FollowChanged "resource_uri list" bool

datatype mutation_completion = Applied | PartiallyApplied

record mutation_failure =
  mf_uri :: "resource_uri option"
  mf_message :: string

record mutation_receipt =
  rc_mutation_id :: string
  rc_provider :: string
  rc_completion :: mutation_completion
  rc_outcome :: mutation_outcome
  rc_version_token :: "string option"
  rc_failures :: "mutation_failure list"

section \<open>The in-memory provider\<close>

record fake_playlist =
  fp_metadata :: playlist
  fp_items :: "string list"
  fp_version :: u64

record fake_state =
  fs_media :: "string \<rightharpoonup> media_item"
  fs_playlists :: "string \<rightharpoonup> fake_playlist"
  fs_library :: "string set"
  fs_followed :: "string set"
  fs_applied_mutations :: "string \<rightharpoonup> mutation \<times> mutation_receipt"
  fs_next_playlist :: u64

record fake_provider =
  fk_id :: string
  fk_scheme :: uri_scheme
  fk_save_kinds :: "media_kind list"
  fk_follow_kinds :: "media_kind list"

definition ensure_own_uri :: "fake_provider \<Rightarrow> resource_uri \<Rightarrow> (unit, provider_error) result" where
  "ensure_own_uri provider uri =
     (if ru_scheme uri \<noteq> fk_scheme provider
      then Err (InvalidInput ''uri'' (''URI scheme `'' @ ru_scheme uri @
             ''` does not belong to provider namespace `'' @ fk_scheme provider @ ''`''))
      else Ok ())"

definition invalid_position :: "nat \<Rightarrow> nat \<Rightarrow> provider_error" where
  "invalid_position pos len =
     InvalidInput ''position''
       (''position '' @ show_nat pos @ '' is outside playlist length '' @ show_nat len)"

definition playlist_mut ::
    "fake_state \<Rightarrow> resource_uri \<Rightarrow> string option \<Rightarrow> (fake_playlist, provider_error) result" where
  "playlist_mut state uri expected_version = (case fs_playlists state (as_uri uri) of
       None \<Rightarrow> Err (NotFound (as_uri uri))
     | Some p \<Rightarrow>
         let actual = pl_version_token (fp_metadata p)
         in if expected_version \<noteq> None \<and> expected_version \<noteq> actual
            then Err (VersionConflict expected_version actual) else Ok p)"

definition version_label :: "u64 \<Rightarrow> string" where
  "version_label v = ''v'' @ show_nat v"

text \<open>\<open>version += 1\<close> on a \<open>u64\<close>.\<close>

definition advance_playlist :: "fake_playlist \<Rightarrow> fake_playlist" where
  "advance_playlist p =
     (let version = (fp_version p + 1) mod 2 ^ 64
      in p\<lparr>fp_version := version,
           fp_metadata := (fp_metadata p)\<lparr>pl_tracks_total := length (fp_items p),
                                          pl_version_token := Some (version_label version)\<rparr>\<rparr>)"

text \<open>The tail shared by the three playlist edits: store the new items, advance only on a change.\<close>

definition commit_items :: "fake_playlist \<Rightarrow> string list \<Rightarrow> fake_playlist" where
  "commit_items p items =
     (let p' = p\<lparr>fp_items := items\<rparr> in if items = fp_items p then p' else advance_playlist p')"

subsection \<open>Insertion\<close>

definition insert_at :: "nat \<Rightarrow> 'a \<Rightarrow> 'a list \<Rightarrow> 'a list" where
  "insert_at i x xs = take i xs @ x # drop i xs"

definition remove_at :: "nat \<Rightarrow> 'a list \<Rightarrow> 'a list" where
  "remove_at i xs = take i xs @ drop (Suc i) xs"

text \<open>One run of equal positions, inserted one after the other; the rest is returned.\<close>

fun insert_group :: "nat \<Rightarrow> nat \<Rightarrow> (nat \<times> nat \<times> string) list \<Rightarrow> string list \<Rightarrow>
    (nat \<times> nat \<times> string) list \<times> string list" where
  "insert_group pos group_offset [] items = ([], items)"
| "insert_group pos group_offset ((p, i, u) # rest) items =
     (if p = pos
      then insert_group pos (group_offset + 1) rest (insert_at (pos + group_offset) u items)
      else ((p, i, u) # rest, items))"

lemma insert_group_rest: "length (fst (insert_group p off ps items)) \<le> length ps"
  by (induction p off ps items rule: insert_group.induct) (auto simp: le_SucI)

function insert_groups :: "(nat \<times> nat \<times> string) list \<Rightarrow> string list \<Rightarrow> (string list, provider_error) result" where
  "insert_groups [] items = Ok items"
| "insert_groups ((p, i, u) # rest) items =
     (if length items < p then Err (invalid_position p (length items))
      else case insert_group p 1 rest (insert_at p u items) of
             (rest', items') \<Rightarrow> insert_groups rest' items')"
  by pat_completeness auto
termination
  by (relation "measure (length \<circ> fst)") (auto simp: less_Suc_eq_le insert_group_rest)

definition positioned_insertions :: "playlist_insertion list \<Rightarrow> (nat \<times> nat \<times> string) list" where
  "positioned_insertions items =
     sort_key (\<lambda>(p, order, _). (p, order))
       (List.map_filter (\<lambda>(order, ins). map_option (\<lambda>p. (p, order, as_uri (in_uri ins))) (in_position ins))
          (enumerate 0 items))"

definition insert_items :: "playlist_insertion list \<Rightarrow> string list \<Rightarrow> (string list, provider_error) result" where
  "insert_items items original =
     result_bind (insert_groups (positioned_insertions items) original) (\<lambda>updated.
       Ok (updated @ map (as_uri \<circ> in_uri) (filter (\<lambda>ins. in_position ins = None) items)))"

subsection \<open>Removal\<close>

fun remove_positioned :: "(nat \<times> string) list \<Rightarrow> string list \<Rightarrow> (string list, provider_error) result" where
  "remove_positioned [] items = Ok items"
| "remove_positioned ((p, u) # rest) items =
     (if \<not> (p < length items \<and> items ! p = u) then Err (invalid_position p (length items))
      else remove_positioned rest (remove_at p items))"

definition positioned_removals :: "playlist_item_ref list \<Rightarrow> (nat \<times> string) list" where
  "positioned_removals items =
     sort_key (\<lambda>(p, _). - int p)
       (concat (map (\<lambda>r. map (\<lambda>p. (p, as_uri (ir_uri r))) (ir_positions r)) items))"

definition remove_items :: "playlist_item_ref list \<Rightarrow> string list \<Rightarrow> (string list, provider_error) result" where
  "remove_items items original =
     (let remove_all = map (as_uri \<circ> ir_uri) (filter (\<lambda>r. ir_positions r = []) items)
      in result_bind (remove_positioned (positioned_removals items) original) (\<lambda>updated.
           Ok (filter (\<lambda>u. u \<notin> set remove_all) updated)))"

subsection \<open>Reordering\<close>

definition reorder_items ::
    "u32 \<Rightarrow> u32 \<Rightarrow> u32 \<Rightarrow> string list \<Rightarrow> (string list, provider_error) result" where
  "reorder_items start before len items =
     (if length items < start + len \<or> length items < before
      then Err (invalid_position (max (start + len) before) (length items))
      else let moved = take len (drop start items);
               rest = take start items @ drop (start + len) items;
               destination = (if start < before then before - len else before)
           in if length rest < destination then Err (invalid_position destination (length rest))
              else Ok (take destination rest @ moved @ drop destination rest))"

section \<open>Applying a mutation\<close>

fun check_all :: "('a \<Rightarrow> (unit, 'e) result) \<Rightarrow> 'a list \<Rightarrow> (unit, 'e) result" where
  "check_all f [] = Ok ()"
| "check_all f (x # xs) = result_bind (f x) (\<lambda>_. check_all f xs)"

lemma check_all_Ok: "check_all f xs = Ok () \<longleftrightarrow> (\<forall>x \<in> set xs. f x = Ok ())"
  by (induction xs) auto

definition known_media :: "fake_state \<Rightarrow> resource_uri \<Rightarrow> (unit, provider_error) result" where
  "known_media state uri =
     (if fs_media state (as_uri uri) = None then Err (NotFound (as_uri uri)) else Ok ())"

definition put_playlist :: "resource_uri \<Rightarrow> fake_playlist \<Rightarrow> fake_state \<Rightarrow> fake_state" where
  "put_playlist uri p state = state\<lparr>fs_playlists := (fs_playlists state)(as_uri uri \<mapsto> p)\<rparr>"

definition batch_of :: "mutation \<Rightarrow> (string \<times> nat) option" where
  "batch_of m = (case m of
       MutPlaylistAdd _ items _ \<Rightarrow> Some (''items'', length items)
     | MutPlaylistRemove _ items _ \<Rightarrow> Some (''items'', length items)
     | MutLibrarySave uris \<Rightarrow> Some (''uris'', length uris)
     | MutLibraryUnsave uris \<Rightarrow> Some (''uris'', length uris)
     | MutFollow uris \<Rightarrow> Some (''uris'', length uris)
     | MutUnfollow uris \<Rightarrow> Some (''uris'', length uris)
     | _ \<Rightarrow> None)"

definition check_batch :: "mutation \<Rightarrow> (unit, provider_error) result" where
  "check_batch m = (case batch_of m of
       Some (field, count) \<Rightarrow>
         if 100 < count
         then Err (InvalidInput field (''batch size '' @ show_nat count @ '' exceeds provider maximum 100''))
         else Ok ()
     | None \<Rightarrow> Ok ())"

definition uri_error_display :: "uri_error \<Rightarrow> string" where
  "uri_error_display e = (case e of
       InvalidShape \<Rightarrow> ''resource URI must have the form <scheme>:<kind>:<id>''
     | UnsupportedScheme scheme \<Rightarrow> ''unsupported resource URI scheme `'' @ scheme @ ''`''
     | UnsupportedKind kind \<Rightarrow> ''unsupported resource kind `'' @ kind @ ''`''
     | UnexpectedKind expected actual \<Rightarrow>
         ''expected resource kind `'' @ media_kind_label expected @ ''`, got `'' @ media_kind_label actual @ ''`''
     | EmptyId \<Rightarrow> ''resource URI id must not be empty''
     | InvalidId i \<Rightarrow> ''resource URI id `'' @ i @ ''` is not canonical'')"

definition create_playlist ::
    "fake_provider \<Rightarrow> fake_state \<Rightarrow> string
      \<Rightarrow> (fake_state \<times> mutation_outcome \<times> string option, provider_error) result" where
  "create_playlist provider state name =
     (if trim name = [] then Err (InvalidInput ''name'' ''playlist name cannot be empty'')
      else case resource_uri_new (fk_scheme provider) Playlist
                  (''playlist-'' @ show_nat (fs_next_playlist state)) of
          Err e \<Rightarrow> Err (InvalidInput ''playlist_uri'' (uri_error_display e))
        | Ok uri \<Rightarrow>
            let metadata = \<lparr>pl_id = as_uri uri, pl_name = name, pl_owner = fk_id provider,
                  pl_tracks_total = 0, pl_image_url = None, pl_version_token = Some ''v1''\<rparr>
            in Ok (put_playlist uri \<lparr>fp_metadata = metadata, fp_items = [], fp_version = 1\<rparr>
                     (state\<lparr>fs_next_playlist := (fs_next_playlist state + 1) mod 2 ^ 64\<rparr>),
                   PlaylistCreated metadata, Some ''v1''))"

definition edit_playlist ::
    "fake_state \<Rightarrow> resource_uri \<Rightarrow> string option \<Rightarrow> (string list \<Rightarrow> (string list, provider_error) result)
      \<Rightarrow> (fake_state \<times> mutation_outcome \<times> string option, provider_error) result" where
  "edit_playlist state uri expected_version edit =
     result_bind (playlist_mut state uri expected_version) (\<lambda>p.
     result_bind (edit (fp_items p)) (\<lambda>items.
       let p' = commit_items p items
       in Ok (put_playlist uri p' state, PlaylistChanged uri, pl_version_token (fp_metadata p'))))"

definition set_membership :: "bool \<Rightarrow> resource_uri list \<Rightarrow> string set \<Rightarrow> string set" where
  "set_membership add uris S = (if add then S \<union> set (map as_uri uris) else S - set (map as_uri uris))"

definition check_kind :: "fake_provider \<Rightarrow> fake_state \<Rightarrow> media_kind list \<Rightarrow> string \<Rightarrow> resource_uri
    \<Rightarrow> (unit, provider_error) result" where
  "check_kind provider state kinds op uri =
     result_bind (ensure_own_uri provider uri) (\<lambda>_.
       if ru_kind uri \<notin> set kinds then Err (Unsupported (op @ ''.'' @ media_kind_label (ru_kind uri)))
       else known_media state uri)"

definition mutate_outcome ::
    "fake_provider \<Rightarrow> fake_state \<Rightarrow> mutation
      \<Rightarrow> (fake_state \<times> mutation_outcome \<times> string option, provider_error) result" where
  "mutate_outcome provider state m = (case m of
       MutPlaylistCreate name _ _ \<Rightarrow> create_playlist provider state name
     | MutPlaylistAdd uri items expected_version \<Rightarrow>
         result_bind (ensure_own_uri provider uri) (\<lambda>_.
         result_bind (check_all (\<lambda>ins. result_bind (ensure_own_uri provider (in_uri ins))
             (\<lambda>_. known_media state (in_uri ins))) items) (\<lambda>_.
         edit_playlist state uri expected_version (insert_items items)))
     | MutPlaylistRemove uri items expected_version \<Rightarrow>
         result_bind (ensure_own_uri provider uri) (\<lambda>_.
         result_bind (check_all (\<lambda>r. ensure_own_uri provider (ir_uri r)) items) (\<lambda>_.
         edit_playlist state uri expected_version (remove_items items)))
     | MutPlaylistReorder uri start before len expected_version \<Rightarrow>
         result_bind (ensure_own_uri provider uri) (\<lambda>_.
         edit_playlist state uri expected_version
           (\<lambda>items. if len = 0 then Ok items else reorder_items start before len items))
     | MutPlaylistSetImage uri jpeg \<Rightarrow>
         result_bind (ensure_own_uri provider uri) (\<lambda>_.
           if jpeg = [] then Err (InvalidInput ''jpeg'' ''playlist image cannot be empty'')
           else result_bind (playlist_mut state uri None) (\<lambda>p.
             let p' = p\<lparr>fp_metadata := (fp_metadata p)\<lparr>pl_image_url := Some (''fake://image/'' @ ru_id uri)\<rparr>\<rparr>
             in Ok (put_playlist uri p' state, PlaylistImageSet uri, pl_version_token (fp_metadata p))))
     | MutPlaylistUnfollow uri \<Rightarrow>
         result_bind (ensure_own_uri provider uri) (\<lambda>_.
           if fs_playlists state (as_uri uri) = None then Err (NotFound (as_uri uri))
           else Ok (state\<lparr>fs_playlists := (fs_playlists state)(as_uri uri := None)\<rparr>, PlaylistUnfollowed uri, None))
     | MutLibrarySave uris \<Rightarrow>
         result_bind (check_all (check_kind provider state (fk_save_kinds provider) ''library_save'') uris) (\<lambda>_.
           Ok (state\<lparr>fs_library := set_membership True uris (fs_library state)\<rparr>, LibraryChanged uris True, None))
     | MutLibraryUnsave uris \<Rightarrow>
         result_bind (check_all (check_kind provider state (fk_save_kinds provider) ''library_save'') uris) (\<lambda>_.
           Ok (state\<lparr>fs_library := set_membership False uris (fs_library state)\<rparr>, LibraryChanged uris False, None))
     | MutFollow uris \<Rightarrow>
         result_bind (check_all (check_kind provider state (fk_follow_kinds provider) ''follow'') uris) (\<lambda>_.
           Ok (state\<lparr>fs_followed := set_membership True uris (fs_followed state)\<rparr>, FollowChanged uris True, None))
     | MutUnfollow uris \<Rightarrow>
         result_bind (check_all (check_kind provider state (fk_follow_kinds provider) ''follow'') uris) (\<lambda>_.
           Ok (state\<lparr>fs_followed := set_membership False uris (fs_followed state)\<rparr>, FollowChanged uris False, None)))"

definition apply_mutation ::
    "fake_provider \<Rightarrow> fake_state \<Rightarrow> string \<Rightarrow> mutation \<Rightarrow> (fake_state \<times> mutation_receipt, provider_error) result" where
  "apply_mutation provider state mutation_id m =
     result_bind (check_batch m) (\<lambda>_.
     result_bind (mutate_outcome provider state m) (\<lambda>(state', outcome, version_token).
       Ok (state', \<lparr>rc_mutation_id = mutation_id, rc_provider = fk_id provider, rc_completion = Applied,
             rc_outcome = outcome, rc_version_token = version_token, rc_failures = []\<rparr>)))"

text \<open>The trait method: a mutation id that was used before replays its receipt.\<close>

definition provider_apply_mutation ::
    "fake_provider \<Rightarrow> fake_state \<Rightarrow> string \<Rightarrow> mutation \<Rightarrow> (fake_state \<times> mutation_receipt, provider_error) result" where
  "provider_apply_mutation provider state mutation_id m = (case fs_applied_mutations state mutation_id of
       Some (m', receipt) \<Rightarrow>
         if m' \<noteq> m then Err (InvalidInput ''mutation_id'' ''mutation UUID was already used for a different mutation'')
         else Ok (state, receipt)
     | None \<Rightarrow>
         result_bind (apply_mutation provider state mutation_id m) (\<lambda>(state', receipt).
           Ok (state'\<lparr>fs_applied_mutations := (fs_applied_mutations state')(mutation_id \<mapsto> (m, receipt))\<rparr>, receipt)))"

section \<open>Editing laws\<close>

lemma length_remove_at: "i < length xs \<Longrightarrow> length (remove_at i xs) = length xs - 1"
  by (simp add: remove_at_def)

lemma insert_remove_at: "i < length xs \<Longrightarrow> insert_at i (xs ! i) (remove_at i xs) = xs"
  by (simp add: insert_at_def remove_at_def id_take_nth_drop [symmetric])

lemma insert_groups_distinct:
  assumes "distinct (p # map fst rest)"
  shows "insert_groups ((p, i, u) # rest) items =
    (if length items < p then Err (invalid_position p (length items))
     else insert_groups rest (insert_at p u items))"
proof -
  have "insert_group p 1 rest items' = (rest, items')" for items'
    using assms by (cases rest) auto
  then show ?thesis by simp
qed

lemma insert_groups_snoc:
  "distinct (map fst (ps @ [(p, i, u)])) \<Longrightarrow> insert_groups ps items = Ok ys \<Longrightarrow> p \<le> length ys \<Longrightarrow>
     insert_groups (ps @ [(p, i, u)]) items = Ok (insert_at p u ys)"
proof (induction ps arbitrary: items)
  case (Cons x ps)
  obtain q j v where x: "x = (q, j, v)" by (cases x)
  have "distinct (q # map fst ps)" "distinct (q # map fst (ps @ [(p, i, u)]))"
    using Cons.prems(1) by (simp_all add: x)
  then show ?case
    using Cons by (simp add: x insert_groups_distinct del: insert_groups.simps(2) split: if_splits)
qed simp

text \<open>Inserting in ascending order undoes removing in descending order.\<close>

lemma reinsert_removed:
  assumes "remove_positioned rs xs = Ok ys" and "distinct (map fst rs)"
  shows "insert_groups (map (\<lambda>(p, u). (p, k p, u)) (rev rs)) ys = Ok xs"
  using assms
proof (induction rs arbitrary: xs)
  case (Cons r rs)
  obtain p u where r: "r = (p, u)" by fastforce
  from Cons.prems have p: "p < length xs" "xs ! p = u" and rm: "remove_positioned rs (remove_at p xs) = Ok ys"
    by (simp_all add: r split: if_splits)
  have "insert_groups (map (\<lambda>(p, u). (p, k p, u)) (rev rs)) ys = Ok (remove_at p xs)"
    using Cons.IH [OF rm] Cons.prems by simp
  moreover have "map fst (map (\<lambda>(p, u). (p, k p, u)) (rev rs) @ [(p, k p, u)]) = rev (map fst (r # rs))"
    by (simp add: r rev_map comp_def case_prod_beta)
  then have "distinct (map fst (map (\<lambda>(p, u). (p, k p, u)) (rev rs) @ [(p, k p, u)]))"
    using Cons.prems(2) by (metis distinct_rev)
  ultimately have "insert_groups (map (\<lambda>(p, u). (p, k p, u)) (rev rs) @ [(p, k p, u)]) ys =
      Ok (insert_at p u (remove_at p xs))"
    using p by (intro insert_groups_snoc) (simp_all add: length_remove_at)
  with p show ?case by (auto simp: r insert_remove_at)
qed simp

lemma remove_positioned_ok:
  "\<forall>(p, u) \<in> set rs. p < length xs \<and> xs ! p = u \<Longrightarrow> sorted_wrt (>) (map fst rs) \<Longrightarrow>
     \<exists>ys. remove_positioned rs xs = Ok ys"
proof (induction rs arbitrary: xs)
  case (Cons r rs)
  obtain p u where r: "r = (p, u)" by fastforce
  have "q < length (remove_at p xs) \<and> remove_at p xs ! q = v" if "(q, v) \<in> set rs" for q v
  proof -
    have "q < p" "p < length xs" "xs ! q = v" using Cons.prems that by (auto simp: r)
    then show ?thesis by (simp add: remove_at_def nth_append)
  qed
  with Cons show ?case by (auto simp: r)
qed simp

lemma descending_is_rev_ascending:
  assumes "distinct (map fst rs)"
  shows "sort_key (\<lambda>(p, _). - int p) rs = rev (sort_key fst rs)"
proof -
  have inj: "inj_on (\<lambda>(p, _). - int p) (set rs)"
    using assms by (force simp: distinct_map inj_on_def)
  have "sorted (map (\<lambda>(p, _). - int p) (rev (sort_key fst rs)))"
    using sorted_sort_key [of fst rs]
    by (auto simp: sorted_wrt_rev rev_map sorted_wrt_map case_prod_beta elim!: sorted_wrt_mono_rel [rotated])
  moreover have "distinct (map (\<lambda>(p, _). - int p) rs)"
    using assms inj by (auto simp: distinct_map)
  ultimately show ?thesis
    using inj by (intro map_sorted_distinct_set_unique [where f = "\<lambda>(p, _). - int p"])
      (auto simp: distinct_map intro: inj_on_subset)
qed

section \<open>Version tokens\<close>

definition playlist_ok :: "fake_playlist \<Rightarrow> bool" where
  "playlist_ok p \<longleftrightarrow> pl_version_token (fp_metadata p) = Some (version_label (fp_version p)) \<and>
     pl_tracks_total (fp_metadata p) = length (fp_items p)"

definition fake_ok :: "fake_state \<Rightarrow> bool" where
  "fake_ok state \<longleftrightarrow> (\<forall>k p. fs_playlists state k = Some p \<longrightarrow> playlist_ok p)"

lemma version_label_inject [simp]: "version_label v = version_label w \<longleftrightarrow> v = w"
proof -
  have "show_nat v = show_nat w \<longleftrightarrow> v = w" using digits_value_show by metis
  then show ?thesis by (simp add: version_label_def)
qed

lemma commit_items_items [simp]: "fp_items (commit_items p items) = items"
  by (simp add: commit_items_def Let_def advance_playlist_def)

lemma commit_items_ok: "playlist_ok p \<Longrightarrow> playlist_ok (commit_items p items)"
  by (auto simp: commit_items_def Let_def advance_playlist_def playlist_ok_def)

lemma commit_items_token:
  assumes "playlist_ok p" and "fp_version p < 2 ^ 64 - 1"
  shows "pl_version_token (fp_metadata (commit_items p items)) = pl_version_token (fp_metadata p)
    \<longleftrightarrow> items = fp_items p"
proof -
  have "(fp_version p + 1) mod 2 ^ 64 = fp_version p + 1" using assms(2) by simp
  then have "pl_version_token (fp_metadata (commit_items p items)) =
      (if items = fp_items p then pl_version_token (fp_metadata p) else Some (version_label (fp_version p + 1)))"
    by (simp add: commit_items_def Let_def advance_playlist_def)
  with assms(1) show ?thesis by (simp add: playlist_ok_def)
qed

lemma fake_ok_put: "fake_ok state \<Longrightarrow> playlist_ok p \<Longrightarrow> fake_ok (put_playlist uri p state)"
  by (auto simp: fake_ok_def put_playlist_def)

lemma playlist_mut_Ok:
  "playlist_mut state uri v = Ok p \<longleftrightarrow> fs_playlists state (as_uri uri) = Some p \<and>
     (v = None \<or> v = pl_version_token (fp_metadata p))"
  by (auto simp: playlist_mut_def Let_def split: option.splits)

lemma playlist_mut_ok: "fake_ok state \<Longrightarrow> playlist_mut state uri v = Ok p \<Longrightarrow> playlist_ok p"
  by (auto simp: playlist_mut_Ok fake_ok_def)

lemma edit_playlist_Ok:
  "edit_playlist state uri v edit = Ok (state', outcome, token) \<longleftrightarrow>
     (\<exists>p items. playlist_mut state uri v = Ok p \<and> edit (fp_items p) = Ok items \<and>
        state' = put_playlist uri (commit_items p items) state \<and> outcome = PlaylistChanged uri \<and>
        token = pl_version_token (fp_metadata (commit_items p items)))"
  by (auto simp: edit_playlist_def Let_def)

lemma edit_playlist_fake_ok:
  "fake_ok state \<Longrightarrow> edit_playlist state uri v edit = Ok (state', outcome, token) \<Longrightarrow> fake_ok state'"
  by (auto simp: edit_playlist_Ok intro!: fake_ok_put commit_items_ok playlist_mut_ok)

lemma create_playlist_fake_ok:
  assumes "fake_ok state" and "create_playlist provider state name = Ok (state', outcome, token)"
  shows "fake_ok state'"
proof -
  have "version_label 1 = ''v1''" by code_simp
  moreover have "fake_ok (state\<lparr>fs_next_playlist := n\<rparr>)" for n using assms(1) by (simp add: fake_ok_def)
  ultimately show ?thesis
    using assms(2) by (auto simp: create_playlist_def playlist_ok_def Let_def split: if_splits result.splits
        intro!: fake_ok_put)
qed

lemma fake_ok_members:
  "fake_ok (state\<lparr>fs_library := L\<rparr>) = fake_ok state" "fake_ok (state\<lparr>fs_followed := L\<rparr>) = fake_ok state"
  by (simp_all add: fake_ok_def)

lemma mutate_fake_ok:
  assumes "fake_ok state" and "mutate_outcome provider state m = Ok (state', outcome, token)"
  shows "fake_ok state'"
proof (cases m)
  case MutPlaylistCreate
  with assms show ?thesis by (auto simp: mutate_outcome_def intro: create_playlist_fake_ok)
next
  case MutPlaylistSetImage
  with assms show ?thesis
    by (auto simp: mutate_outcome_def Let_def split: if_splits intro!: fake_ok_put
        dest!: playlist_mut_ok [OF assms(1)]) (simp add: playlist_ok_def)
next
  case MutPlaylistUnfollow
  with assms show ?thesis
    by (auto simp: mutate_outcome_def fake_ok_def split: if_splits)
qed (use assms in \<open>auto simp: mutate_outcome_def fake_ok_members intro: edit_playlist_fake_ok\<close>)

lemma mutate_token_step:
  assumes "fake_ok state" and "mutate_outcome provider state m = Ok (state', outcome, token)"
    and "\<forall>name pub d. m \<noteq> MutPlaylistCreate name pub d"
    and "fs_playlists state k = Some p" and "fs_playlists state' k = Some p'" and "fp_version p < 2 ^ 64 - 1"
  shows "pl_version_token (fp_metadata p') = pl_version_token (fp_metadata p) \<longleftrightarrow> fp_items p' = fp_items p"
proof -
  have p: "playlist_ok p" using assms(1,4) by (simp add: fake_ok_def)
  have edit: ?thesis if "edit_playlist state uri v f = Ok (state', outcome, token)" for uri v f
  proof -
    from that obtain q items where q: "fs_playlists state (as_uri uri) = Some q"
      and s': "fs_playlists state' = (fs_playlists state)(as_uri uri \<mapsto> commit_items q items)"
      by (auto simp: edit_playlist_Ok playlist_mut_Ok put_playlist_def)
    show ?thesis
    proof (cases "k = as_uri uri")
      case True
      with q s' assms(4,5) have "p' = commit_items p items" by simp
      then show ?thesis using commit_items_token [OF p assms(6)] by simp
    qed (use s' assms(4,5) in simp)
  qed
  show ?thesis
  proof (cases m)
    case MutPlaylistSetImage
    with assms show ?thesis
      by (auto simp: mutate_outcome_def Let_def playlist_mut_Ok put_playlist_def split: if_splits)
  next
    case (MutPlaylistAdd uri items v)
    with assms(2) show ?thesis by (intro edit [of uri v]) (auto simp: mutate_outcome_def)
  next
    case (MutPlaylistRemove uri items v)
    with assms(2) show ?thesis by (intro edit [of uri v]) (auto simp: mutate_outcome_def)
  next
    case (MutPlaylistReorder uri a b c v)
    with assms(2) show ?thesis by (intro edit [of uri v]) (auto simp: mutate_outcome_def)
  next
    case (MutPlaylistUnfollow uri)
    with assms(2,4,5) show ?thesis by (auto simp: mutate_outcome_def split: if_splits)
  qed (use assms(2-5) in \<open>auto simp: mutate_outcome_def\<close>)
qed

lemma mutate_applied [simp]:
  "mutate_outcome provider state m = Ok (state', outcome, token) \<Longrightarrow>
     fs_applied_mutations state' = fs_applied_mutations state"
  by (cases m) (auto simp: mutate_outcome_def create_playlist_def edit_playlist_def put_playlist_def Let_def
      split: if_splits result.splits)

text \<open>
  Version tokens stay in step with content in the reference provider: after every accepted
  mutation each playlist's token names its version and its track count is the number of items; an
  edit through \<open>edit_playlist\<close> returns the new token, which differs from the old one exactly when the
  items changed; and repeating a mutation id replays the receipt without a second effect.
\<close>

theorem provider_versions_in_step:
  assumes "fake_ok state" and "provider_apply_mutation provider state i m = Ok (state', r)"
  shows "fake_ok state' \<and> provider_apply_mutation provider state' i m = Ok (state', r) \<and>
    (\<forall>m'. m' \<noteq> m \<longrightarrow> \<not> is_ok (provider_apply_mutation provider state' i m')) \<and>
    (\<forall>k p p'. fs_applied_mutations state i = None \<and> fs_playlists state k = Some p \<and>
       fs_playlists state' k = Some p' \<and> fp_version p < 2 ^ 64 - 1 \<and>
       (\<forall>name pub d. m \<noteq> MutPlaylistCreate name pub d) \<longrightarrow>
       (pl_version_token (fp_metadata p') = pl_version_token (fp_metadata p) \<longleftrightarrow> fp_items p' = fp_items p))"
proof (cases "fs_applied_mutations state i")
  case (Some mr)
  then show ?thesis
    using assms by (cases mr) (auto simp: provider_apply_mutation_def split: if_splits)
next
  case None
  with assms(2) obtain s1 outcome token where m: "mutate_outcome provider state m = Ok (s1, outcome, token)"
    and s': "state' = s1\<lparr>fs_applied_mutations := (fs_applied_mutations s1)(i \<mapsto> (m, r))\<rparr>"
    by (auto simp: provider_apply_mutation_def apply_mutation_def)
  have "fake_ok state'" using mutate_fake_ok [OF assms(1) m] by (simp add: s' fake_ok_def)
  moreover have "fs_applied_mutations state' i = Some (m, r)" by (simp add: s')
  ultimately show ?thesis
    using mutate_token_step [OF assms(1) m] by (auto simp: provider_apply_mutation_def s')
qed

definition sample_provider :: fake_provider where
  "sample_provider = \<lparr>fk_id = ''fake'', fk_scheme = ''fake'', fk_save_kinds = [Track], fk_follow_kinds = [Artist]\<rparr>"

definition sample_uri :: "media_kind \<Rightarrow> string \<Rightarrow> resource_uri" where
  "sample_uri k i = \<lparr>ru_scheme = ''fake'', ru_kind = k, ru_id = i\<rparr>"

definition sample_fake :: "string list \<Rightarrow> fake_state" where
  "sample_fake items =
     \<lparr>fs_media = (\<lambda>_. Some (media_stub [])),
      fs_playlists = [as_uri (sample_uri Playlist ''p'') \<mapsto>
        \<lparr>fp_metadata = \<lparr>pl_id = as_uri (sample_uri Playlist ''p''), pl_name = ''P'', pl_owner = [],
           pl_tracks_total = length items, pl_image_url = None, pl_version_token = Some (version_label 7)\<rparr>,
         fp_items = items, fp_version = 7\<rparr>],
      fs_library = {}, fs_followed = {}, fs_applied_mutations = Map.empty, fs_next_playlist = 2\<rparr>"

lemma sample_fake_ok: "fake_ok (sample_fake items)"
  by (simp add: fake_ok_def sample_fake_def playlist_ok_def)

theorem provider_versions_in_step_witness:
  "\<exists>state' r. provider_apply_mutation sample_provider (sample_fake [])
       ''m'' (MutLibrarySave [sample_uri Track ''t'']) = Ok (state', r) \<and> fake_ok state' \<and>
     provider_apply_mutation sample_provider state' ''m'' (MutLibrarySave [sample_uri Track ''t'']) = Ok (state', r)"
proof -
  obtain state' r where "provider_apply_mutation sample_provider (sample_fake []) ''m''
      (MutLibrarySave [sample_uri Track ''t'']) = Ok (state', r)"
    by (simp add: provider_apply_mutation_def apply_mutation_def check_batch_def batch_of_def mutate_outcome_def
        check_kind_def ensure_own_uri_def known_media_def sample_fake_def sample_provider_def sample_uri_def)
  with provider_versions_in_step [OF sample_fake_ok this] show ?thesis by blast
qed

end
