(* ===== verification/Operation_Log.thy ===== *)
theory Operation_Log
  imports Provider_Mutations
begin

text \<open>
  The operation log and undo. \<open>spotuify-protocol/src/operations.rs\<close>: operation rows, their labels,
  pre-states and reversal plans. \<open>spotuify-daemon/src/undo.rs\<close>: which rows may be undone and the
  version-token check. \<open>spotuify-store/src/operations.rs\<close>: the table the rows live in, as a list in
  insertion order; each SQL statement is a function on it. \<open>spotuify-daemon/src/handler.rs\<close>: the
  undo request, single and bulk. Ids are their textual form; JSON columns are the values they encode.
\<close>

section \<open>Labels\<close>

record label_parse_error =
  lp_kind :: string
  lp_value :: string

definition label_parse_error_display :: "label_parse_error \<Rightarrow> string" where
  "label_parse_error_display e = ''unknown '' @ lp_kind e @ '' `'' @ lp_value e @ ''`''"

datatype operation_source = OpCli | OpTui | OpMcp | OpAgent | OpDaemonInternal

primrec operation_source_label :: "operation_source \<Rightarrow> string" where
  "operation_source_label OpCli = ''cli''"
| "operation_source_label OpTui = ''tui''"
| "operation_source_label OpMcp = ''mcp''"
| "operation_source_label OpAgent = ''agent''"
| "operation_source_label OpDaemonInternal = ''daemon-internal''"

definition operation_source_from_str :: "string \<Rightarrow> (operation_source, label_parse_error) result" where
  "operation_source_from_str v =
     (if v = ''cli'' then Ok OpCli
      else if v = ''tui'' then Ok OpTui
      else if v = ''mcp'' then Ok OpMcp
      else if v = ''agent'' then Ok OpAgent
      else if v = ''daemon-internal'' then Ok OpDaemonInternal
      else Err \<lparr>lp_kind = ''operation source'', lp_value = v\<rparr>)"

datatype operation_status = Pending | Succeeded | OpFailed | Undone | Redone

primrec operation_status_label :: "operation_status \<Rightarrow> string" where
  "operation_status_label Pending = ''pending''"
| "operation_status_label Succeeded = ''succeeded''"
| "operation_status_label OpFailed = ''failed''"
| "operation_status_label Undone = ''undone''"
| "operation_status_label Redone = ''redone''"

definition operation_status_from_str :: "string \<Rightarrow> (operation_status, label_parse_error) result" where
  "operation_status_from_str v =
     (if v = ''pending'' then Ok Pending
      else if v = ''succeeded'' then Ok Succeeded
      else if v = ''failed'' then Ok OpFailed
      else if v = ''undone'' then Ok Undone
      else if v = ''redone'' then Ok Redone
      else Err \<lparr>lp_kind = ''operation status'', lp_value = v\<rparr>)"

datatype operation_kind =
    KQueueAdd | KPlaylistAdd | KPlaylistRemove | KPlaylistCreate | KPlaylistUnfollow
   | KPlaylistSetImage | KPlaylistReorder | KLibrarySave | KLibraryUnsave | KArtistFollow
   | KArtistUnfollow | KTransfer | KLike | KUnlike | KPlay | KPause | KResume | KToggle | KNext
   | KPrevious | KSeek | KVolume | KShuffle | KRepeat | KUndo | KRedo

primrec operation_kind_label :: "operation_kind \<Rightarrow> string" where
  "operation_kind_label KQueueAdd = ''queue_add''"
| "operation_kind_label KPlaylistAdd = ''playlist_add''"
| "operation_kind_label KPlaylistRemove = ''playlist_remove''"
| "operation_kind_label KPlaylistCreate = ''playlist_create''"
| "operation_kind_label KPlaylistUnfollow = ''playlist_unfollow''"
| "operation_kind_label KPlaylistSetImage = ''playlist_set_image''"
| "operation_kind_label KPlaylistReorder = ''playlist_reorder''"
| "operation_kind_label KLibrarySave = ''library_save''"
| "operation_kind_label KLibraryUnsave = ''library_unsave''"
| "operation_kind_label KArtistFollow = ''artist_follow''"
| "operation_kind_label KArtistUnfollow = ''artist_unfollow''"
| "operation_kind_label KTransfer = ''transfer''"
| "operation_kind_label KLike = ''like''"
| "operation_kind_label KUnlike = ''unlike''"
| "operation_kind_label KPlay = ''play''"
| "operation_kind_label KPause = ''pause''"
| "operation_kind_label KResume = ''resume''"
| "operation_kind_label KToggle = ''toggle''"
| "operation_kind_label KNext = ''next''"
| "operation_kind_label KPrevious = ''previous''"
| "operation_kind_label KSeek = ''seek''"
| "operation_kind_label KVolume = ''volume''"
| "operation_kind_label KShuffle = ''shuffle''"
| "operation_kind_label KRepeat = ''repeat''"
| "operation_kind_label KUndo = ''undo''"
| "operation_kind_label KRedo = ''redo''"

definition operation_kind_from_str :: "string \<Rightarrow> (operation_kind, label_parse_error) result" where
  "operation_kind_from_str v =
     (if v = ''queue_add'' then Ok KQueueAdd
      else if v = ''playlist_add'' then Ok KPlaylistAdd
      else if v = ''playlist_remove'' then Ok KPlaylistRemove
      else if v = ''playlist_create'' then Ok KPlaylistCreate
      else if v = ''playlist_unfollow'' then Ok KPlaylistUnfollow
      else if v = ''playlist_set_image'' then Ok KPlaylistSetImage
      else if v = ''playlist_reorder'' then Ok KPlaylistReorder
      else if v = ''library_save'' then Ok KLibrarySave
      else if v = ''library_unsave'' then Ok KLibraryUnsave
      else if v = ''artist_follow'' then Ok KArtistFollow
      else if v = ''artist_unfollow'' then Ok KArtistUnfollow
      else if v = ''transfer'' then Ok KTransfer
      else if v = ''like'' then Ok KLike
      else if v = ''unlike'' then Ok KUnlike
      else if v = ''play'' then Ok KPlay
      else if v = ''pause'' then Ok KPause
      else if v = ''resume'' then Ok KResume
      else if v = ''toggle'' then Ok KToggle
      else if v = ''next'' then Ok KNext
      else if v = ''previous'' then Ok KPrevious
      else if v = ''seek'' then Ok KSeek
      else if v = ''volume'' then Ok KVolume
      else if v = ''shuffle'' then Ok KShuffle
      else if v = ''repeat'' then Ok KRepeat
      else if v = ''undo'' then Ok KUndo
      else if v = ''redo'' then Ok KRedo
      else Err \<lparr>lp_kind = ''operation kind'', lp_value = v\<rparr>)"

definition is_reversible :: "operation_kind \<Rightarrow> bool" where
  "is_reversible k \<longleftrightarrow> k \<in> {KPlaylistAdd, KPlaylistRemove, KPlaylistCreate, KPlaylistReorder, KLibrarySave,
     KLibraryUnsave, KTransfer, KLike, KUnlike, KUndo, KRedo}"

section \<open>Rows\<close>

type_synonym operation_id = string

datatype pre_state =
    PsPlaylistAdd string "string option" "string list"
  | PsPlaylistRemove string "string option" "(string \<times> u32) list"
  | PsPlaylistCreate string
  | PsPlaylistReorder string "string option" u32 u32 u32
  | PsLibrarySave string bool
  | PsTransfer "string option"
  | PsQueueAdd string
  | PsLike string bool
  | PsTransport

datatype reversal_plan =
    RpQueueRemove string
  | RpPlaylistRemoveTracks string "string list" "string option"
  | RpPlaylistAddAtPositions string "(string \<times> u32) list" "string option"
  | RpPlaylistDelete string
  | RpPlaylistReorder string u32 u32 u32 "string option"
  | RpLibraryUnsave string
  | RpLibrarySave string "i64 option"
  | RpTransferToPriorDevice string "string option"
  | RpLike string
  | RpUnlike string
  | RpRedo operation_id
  | RpNotReversible string

record operation =
  op_id :: operation_id
  op_kind :: operation_kind
  op_occurred_at_ms :: i64
  op_finished_at_ms :: "i64 option"
  op_source :: operation_source
  op_requester :: "string option"
  op_subject_uris :: "string list"
  op_reversible :: bool
  op_reversal_plan :: "reversal_plan option"
  op_pre_state :: "pre_state option"
  op_status :: operation_status
  op_receipt_id :: "string option"
  op_subject_op_id :: "operation_id option"
  op_undone_by_op_id :: "operation_id option"
  op_redone_by_op_id :: "operation_id option"
  op_error_message :: "string option"

section \<open>May this be undone?\<close>

datatype undo_error =
    NotReversible operation_kind
  | NotInUndoableState operation_id operation_status
  | VersionTokenMismatch string string string
  | MissingPreState operation_id
  | MissingReversalPlan operation_id

definition validate_undoable :: "operation \<Rightarrow> (unit, undo_error) result" where
  "validate_undoable op =
     (if \<not> op_reversible op then Err (NotReversible (op_kind op))
      else if op_status op \<noteq> Succeeded then Err (NotInUndoableState (op_id op) (op_status op))
      else if op_pre_state op = None then Err (MissingPreState (op_id op))
      else if op_reversal_plan op = None then Err (MissingReversalPlan (op_id op))
      else Ok ())"

definition version_token_check_target :: "reversal_plan \<Rightarrow> (string \<times> string) option" where
  "version_token_check_target plan = (case plan of
       RpPlaylistRemoveTracks playlist_id _ (Some token) \<Rightarrow> Some (playlist_id, token)
     | RpPlaylistAddAtPositions playlist_id _ (Some token) \<Rightarrow> Some (playlist_id, token)
     | RpPlaylistReorder playlist_id _ _ _ (Some token) \<Rightarrow> Some (playlist_id, token)
     | _ \<Rightarrow> None)"

definition check_version_token ::
    "reversal_plan \<Rightarrow> (string \<Rightarrow> string option) \<Rightarrow> bool \<Rightarrow> (unit, undo_error) result" where
  "check_version_token plan fetch_current force = (case version_token_check_target plan of
       None \<Rightarrow> Ok ()
     | Some (playlist_id, stored) \<Rightarrow>
         if force then Ok ()
         else (case fetch_current playlist_id of
             None \<Rightarrow> Err (VersionTokenMismatch playlist_id stored [])
           | Some current \<Rightarrow>
               if current = stored then Ok () else Err (VersionTokenMismatch playlist_id stored current)))"

text \<open>The summary's arrow and dash are three UTF-8 bytes each.\<close>

definition utf8_arrow :: string where "utf8_arrow = map char_of [226, 134, 146 :: nat]"
definition utf8_em_dash :: string where "utf8_em_dash = map char_of [226, 128, 148 :: nat]"

definition render_plan_summary :: "reversal_plan \<Rightarrow> pre_state \<Rightarrow> string" where
  "render_plan_summary plan pre = (case plan of
       RpPlaylistRemoveTracks playlist_id uris _ \<Rightarrow>
         ''Remove '' @ show_nat (length uris) @ '' track(s) from playlist '' @ playlist_id
     | RpPlaylistAddAtPositions playlist_id items _ \<Rightarrow>
         ''Re-insert '' @ show_nat (length items) @ '' track(s) into playlist '' @ playlist_id
     | RpPlaylistDelete playlist_id \<Rightarrow> ''Unfollow / delete playlist '' @ playlist_id
     | RpPlaylistReorder playlist_id range_start insert_before range_length _ \<Rightarrow>
         ''Reverse playlist '' @ playlist_id @ '' reorder ('' @ show_nat range_start @ ''..+'' @
         show_nat range_length @ '' '' @ utf8_arrow @ '' before '' @ show_nat insert_before @ '')''
     | RpLibraryUnsave uri \<Rightarrow> ''Unsave '' @ uri @ '' from library''
     | RpLibrarySave uri _ \<Rightarrow> ''Re-save '' @ uri @ '' to library''
     | RpTransferToPriorDevice device_id _ \<Rightarrow> ''Transfer playback back to device '' @ device_id
     | RpLike uri \<Rightarrow> ''Like '' @ uri
     | RpUnlike uri \<Rightarrow> ''Unlike '' @ uri
     | RpQueueRemove uri \<Rightarrow>
         ''Cannot remove queued '' @ uri @ '': the provider has no queue-remove operation '' @
         ''(legacy plan; queue adds are no longer recorded as reversible)''
     | RpRedo target \<Rightarrow> ''Re-execute the forward action of operation '' @ target
     | RpNotReversible reason \<Rightarrow> ''Not reversible '' @ utf8_em_dash @ '' '' @ reason)"

section \<open>The table\<close>

type_synonym op_table = "operation list"

definition has_op :: "operation_id \<Rightarrow> op_table \<Rightarrow> bool" where
  "has_op i t \<longleftrightarrow> i \<in> op_id ` set t"

text \<open>\<open>UPDATE operations SET .. WHERE operation_id = i AND ..\<close>, and the number of rows it affects.\<close>

definition update_where :: "operation_id \<Rightarrow> (operation \<Rightarrow> bool) \<Rightarrow> (operation \<Rightarrow> operation) \<Rightarrow> op_table \<Rightarrow> op_table" where
  "update_where i cond f = map (\<lambda>op. if op_id op = i \<and> cond op then f op else op)"

definition rows_affected :: "operation_id \<Rightarrow> (operation \<Rightarrow> bool) \<Rightarrow> op_table \<Rightarrow> nat" where
  "rows_affected i cond t = length (filter (\<lambda>op. op_id op = i \<and> cond op) t)"

definition is_pending :: "operation \<Rightarrow> bool" where "is_pending op \<longleftrightarrow> op_status op = Pending"

definition insert_pending_operation :: "operation \<Rightarrow> op_table \<Rightarrow> op_table option" where
  "insert_pending_operation op t = (if has_op (op_id op) t then None else Some (t @ [op]))"

definition finalize_operation ::
    "operation_id \<Rightarrow> operation_status \<Rightarrow> i64 \<Rightarrow> string option \<Rightarrow> op_table \<Rightarrow> op_table" where
  "finalize_operation i status finished_at_ms error =
     update_where i is_pending (\<lambda>op. op\<lparr>op_status := status, op_finished_at_ms := Some finished_at_ms,
       op_error_message := error\<rparr>)"

definition update_operation_plan ::
    "operation_id \<Rightarrow> pre_state option \<Rightarrow> reversal_plan option \<Rightarrow> op_table \<Rightarrow> op_table" where
  "update_operation_plan i pre plan =
     update_where i is_pending (\<lambda>op. op\<lparr>op_pre_state := pre, op_reversal_plan := plan\<rparr>)"

definition activate_operation_reversal_plan ::
    "operation_id \<Rightarrow> pre_state \<Rightarrow> reversal_plan \<Rightarrow> op_table \<Rightarrow> (op_table, string) result" where
  "activate_operation_reversal_plan i pre plan t =
     (let cond = (\<lambda>op. is_pending op \<and> \<not> op_reversible op)
      in if rows_affected i cond t \<noteq> 1
         then Err (''operation '' @ i @ '' is not a pending non-reversible operation'')
         else Ok (update_where i cond (\<lambda>op. op\<lparr>op_pre_state := Some pre, op_reversal_plan := Some plan,
                op_reversible := True\<rparr>) t))"

definition update_operation_subject_uris :: "operation_id \<Rightarrow> string list \<Rightarrow> op_table \<Rightarrow> op_table" where
  "update_operation_subject_uris i uris =
     update_where i is_pending (\<lambda>op. op\<lparr>op_subject_uris := uris\<rparr>)"

definition update_operation_subject :: "operation_id \<Rightarrow> operation_id \<Rightarrow> op_table \<Rightarrow> op_table" where
  "update_operation_subject i subject =
     update_where i is_pending (\<lambda>op. op\<lparr>op_subject_op_id := Some subject\<rparr>)"

definition mark_operation_undone :: "operation_id \<Rightarrow> operation_id \<Rightarrow> op_table \<Rightarrow> op_table" where
  "mark_operation_undone original undo_op_id =
     update_where original (\<lambda>op. op_status op = Succeeded)
       (\<lambda>op. op\<lparr>op_status := Undone, op_undone_by_op_id := Some undo_op_id\<rparr>)"

definition mark_operation_redone :: "operation_id \<Rightarrow> operation_id \<Rightarrow> op_table \<Rightarrow> op_table" where
  "mark_operation_redone original redo_op_id =
     update_where original (\<lambda>op. op_status op = Undone)
       (\<lambda>op. op\<lparr>op_status := Redone, op_redone_by_op_id := Some redo_op_id\<rparr>)"

definition get_operation :: "operation_id \<Rightarrow> op_table \<Rightarrow> (operation, string) result" where
  "get_operation i t = (case find (\<lambda>op. op_id op = i) t of
       Some op \<Rightarrow> Ok op | None \<Rightarrow> Err (''operation '' @ i @ '' not found''))"

definition get_subject_operation :: "operation_id \<Rightarrow> op_table \<Rightarrow> operation option" where
  "get_subject_operation i t =
     Option.bind (find (\<lambda>op. op_id op = i) t) (\<lambda>outer.
     Option.bind (op_subject_op_id outer) (\<lambda>s. find (\<lambda>op. op_id op = s) t))"

text \<open>
  \<open>ORDER BY occurred_at_ms DESC\<close>. SQL leaves the order of rows with equal times open; here they keep
  their insertion order, and no property below depends on it.
\<close>

definition newest_first :: "op_table \<Rightarrow> op_table" where
  "newest_first = sort_key (\<lambda>op. - op_occurred_at_ms op)"

definition list_operations ::
    "u32 \<Rightarrow> i64 option \<Rightarrow> operation_source option \<Rightarrow> op_table \<Rightarrow> operation list" where
  "list_operations limit since_ms source t =
     take limit (newest_first (filter (\<lambda>op.
       (case since_ms of Some since \<Rightarrow> since \<le> op_occurred_at_ms op | None \<Rightarrow> True) \<and>
       (case source of Some src \<Rightarrow> op_source op = src | None \<Rightarrow> True)) t))"

definition find_last_reversible_operation :: "op_table \<Rightarrow> operation option" where
  "find_last_reversible_operation t =
     (case newest_first (filter (\<lambda>op. op_reversible op \<and> op_status op = Succeeded) t) of
        [] \<Rightarrow> None | op # _ \<Rightarrow> Some op)"

definition find_reversible_operations_since ::
    "i64 \<Rightarrow> operation_source option \<Rightarrow> op_table \<Rightarrow> operation list" where
  "find_reversible_operations_since since_ms source t =
     newest_first (filter (\<lambda>op. op_reversible op \<and> op_status op = Succeeded \<and>
       since_ms \<le> op_occurred_at_ms op \<and>
       (case source of Some src \<Rightarrow> op_source op = src | None \<Rightarrow> True)) t)"

text \<open>
  \<open>DELETE FROM operations WHERE occurred_at_ms < cutoff_ms\<close>, the retention job. The columns that refer
  to other operations are foreign keys without a cascade, so the statement fails as a whole when a row
  that would stay refers to one that would go.
\<close>

definition op_references :: "operation \<Rightarrow> operation_id list" where
  "op_references op = concat (map (case_option [] (\<lambda>i. [i]))
     [op_subject_op_id op, op_undone_by_op_id op, op_redone_by_op_id op])"

definition prune_operations_older_than :: "i64 \<Rightarrow> op_table \<Rightarrow> op_table \<times> (nat, string) result" where
  "prune_operations_older_than cutoff_ms t =
     (let old = filter (\<lambda>op. op_occurred_at_ms op < cutoff_ms) t;
          kept = filter (\<lambda>op. cutoff_ms \<le> op_occurred_at_ms op) t
      in if \<exists>op \<in> set kept. \<exists>i \<in> set (op_references op). has_op i old
         then (t, Err ''FOREIGN KEY constraint failed'') else (kept, Ok (length old)))"

text \<open>\<open>disable_partial_undo_tx\<close> of \<open>provider_reconciliations.rs\<close>.\<close>

definition disable_partial_undo :: "operation_id \<Rightarrow> op_table \<Rightarrow> op_table" where
  "disable_partial_undo original =
     update_where original (\<lambda>_. True) (\<lambda>op. op\<lparr>op_reversible := False,
       op_reversal_plan := Some (RpNotReversible
         ''a partial reversal was acknowledged; reconcile remote state before a new mutation'')\<rparr>)"

section \<open>Executing a reversal\<close>

text \<open>
  The daemon reaches providers through trait objects. What it calls is a parameter: the version token
  it can read for a playlist, the playlist a bare id denotes at the default provider, a mutation and
  a device transfer. A failed call says whether the write may have happened.
\<close>

record call_failure =
  cf_message :: string
  cf_may_have_written :: bool

record 'w provider_api =
  api_version_token :: "'w \<Rightarrow> string \<Rightarrow> string option"
  api_default_playlist :: "string \<Rightarrow> (resource_uri, string) result"
  api_apply :: "mutation \<Rightarrow> 'w \<Rightarrow> ('w, call_failure) result"
  api_transfer :: "string \<Rightarrow> string option \<Rightarrow> 'w \<Rightarrow> ('w, call_failure) result"

definition refused :: "string \<Rightarrow> call_failure" where
  "refused msg = \<lparr>cf_message = msg, cf_may_have_written = False\<rparr>"

definition provider_playlist_resource ::
    "(string \<Rightarrow> (resource_uri, string) result) \<Rightarrow> string \<Rightarrow> (resource_uri, string) result" where
  "provider_playlist_resource default_playlist v = (case resource_uri_parse v of
       Ok resource \<Rightarrow>
         if ru_kind resource \<noteq> Playlist
         then Err (''invalid provider input `playlist`: expected playlist URI, got '' @ media_kind_label (ru_kind resource))
         else Ok resource
     | Err _ \<Rightarrow> default_playlist v)"

fun parse_uris :: "string list \<Rightarrow> (resource_uri list, string) result" where
  "parse_uris [] = Ok []"
| "parse_uris (u # us) =
     result_bind (map_err uri_error_display (resource_uri_parse u)) (\<lambda>r.
     result_bind (parse_uris us) (\<lambda>rs. Ok (r # rs)))"

text \<open>The mutation that \<open>apply_reversal\<close> sends for a plan; a device transfer is sent separately.\<close>

definition reversal_mutation ::
    "(string \<Rightarrow> (resource_uri, string) result) \<Rightarrow> reversal_plan \<Rightarrow> (mutation, string) result" where
  "reversal_mutation default_playlist plan = (case plan of
       RpPlaylistRemoveTracks playlist_id uris version_token \<Rightarrow>
         result_bind (provider_playlist_resource default_playlist playlist_id) (\<lambda>playlist.
         result_bind (parse_uris uris) (\<lambda>rs.
           Ok (MutPlaylistRemove playlist (map (\<lambda>r. \<lparr>ir_uri = r, ir_positions = []\<rparr>) rs) version_token)))
     | RpPlaylistAddAtPositions playlist_id items version_token \<Rightarrow>
         result_bind (provider_playlist_resource default_playlist playlist_id) (\<lambda>playlist.
         result_bind (parse_uris (map fst items)) (\<lambda>rs.
           Ok (MutPlaylistAdd playlist
                 (map2 (\<lambda>r p. \<lparr>in_uri = r, in_position = Some p\<rparr>) rs (map snd items)) version_token)))
     | RpPlaylistDelete playlist_id \<Rightarrow>
         result_bind (provider_playlist_resource default_playlist playlist_id) (\<lambda>playlist.
           Ok (MutPlaylistUnfollow playlist))
     | RpPlaylistReorder playlist_id range_start insert_before range_length version_token \<Rightarrow>
         result_bind (provider_playlist_resource default_playlist playlist_id) (\<lambda>playlist.
           Ok (MutPlaylistReorder playlist range_start insert_before range_length version_token))
     | RpLibraryUnsave uri \<Rightarrow> result_bind (parse_uris [uri]) (\<lambda>rs. Ok (MutLibraryUnsave rs))
     | RpLibrarySave uri _ \<Rightarrow> result_bind (parse_uris [uri]) (\<lambda>rs. Ok (MutLibrarySave rs))
     | RpLike uri \<Rightarrow> result_bind (parse_uris [uri]) (\<lambda>rs. Ok (MutLibrarySave rs))
     | RpUnlike uri \<Rightarrow> result_bind (parse_uris [uri]) (\<lambda>rs. Ok (MutLibraryUnsave rs))
     | RpQueueRemove uri \<Rightarrow>
         Err (''cannot remove '' @ uri @ '' from the queue: the provider has no queue-remove operation '' @
              ''(queue adds recorded by older versions are not actually reversible)'')
     | RpNotReversible reason \<Rightarrow> Err (''operation is not reversible: '' @ reason)
     | RpRedo _ \<Rightarrow>
         Err (''redo of an undo replays the original forward op; use `ops redo` instead of `ops undo`'')
     | RpTransferToPriorDevice _ _ \<Rightarrow> Err [])"

definition apply_reversal :: "'w provider_api \<Rightarrow> reversal_plan \<Rightarrow> 'w \<Rightarrow> ('w, call_failure) result" where
  "apply_reversal api plan w = (case plan of
       RpTransferToPriorDevice device_id provider \<Rightarrow> api_transfer api device_id provider w
     | _ \<Rightarrow> (case reversal_mutation (api_default_playlist api) plan of
           Err msg \<Rightarrow> Err (refused msg)
         | Ok m \<Rightarrow> api_apply api m w))"

section \<open>Undoing one operation\<close>

datatype undo_outcome = UndoApplied | UndoPreview string

datatype undo_failure =
    UndoRefused undo_error
  | UndoVersionConflict "string option" "string option"
  | UndoCallFailed call_failure

definition undo_single ::
    "'w provider_api \<Rightarrow> operation \<Rightarrow> operation_id \<Rightarrow> bool \<Rightarrow> bool \<Rightarrow> op_table \<times> 'w
      \<Rightarrow> (undo_outcome \<times> op_table \<times> 'w, undo_failure) result" where
  "undo_single api op undo_op_id dry_run force tw = (case tw of (t, w) \<Rightarrow>
     (case validate_undoable op of
        Err e \<Rightarrow> Err (UndoRefused e)
      | Ok _ \<Rightarrow> (case op_reversal_plan op of
          None \<Rightarrow> Err (UndoRefused (MissingReversalPlan (op_id op)))
        | Some plan \<Rightarrow> (case check_version_token plan (api_version_token api w) force of
            Err (VersionTokenMismatch _ stored current) \<Rightarrow>
              Err (UndoVersionConflict (Some stored) (if current = [] then None else Some current))
          | Err e \<Rightarrow> Err (UndoRefused e)
          | Ok _ \<Rightarrow>
              if dry_run
              then Ok (UndoPreview (''would undo '' @ operation_kind_label (op_kind op) @ '' '' @ op_id op @ '': '' @
                     render_plan_summary plan (case op_pre_state op of Some pre \<Rightarrow> pre | None \<Rightarrow> PsTransport)), t, w)
              else (case apply_reversal api plan w of
                  Err e \<Rightarrow> Err (UndoCallFailed e)
                | Ok w' \<Rightarrow> Ok (UndoApplied, mark_operation_undone (op_id op) undo_op_id t, w'))))))"

section \<open>The undo request\<close>

record request_context =
  rq_operation_id :: operation_id
  rq_receipt_id :: string
  rq_occurred_at_ms :: i64
  rq_finished_at_ms :: i64
  rq_source :: operation_source
  rq_error_text :: "undo_failure \<Rightarrow> string"

text \<open>
  \<open>record_operation\<close> for a request without a client-supplied mutation id: the row it inserts before
  the body runs, and how the row ends. The redacted error text is part of the request context.
\<close>

definition recorded_row ::
    "request_context \<Rightarrow> operation_kind \<Rightarrow> string list \<Rightarrow> pre_state option \<Rightarrow> reversal_plan option \<Rightarrow> operation" where
  "recorded_row rq kind subject_uris pre plan =
     \<lparr>op_id = rq_operation_id rq, op_kind = kind, op_occurred_at_ms = rq_occurred_at_ms rq,
      op_finished_at_ms = None, op_source = rq_source rq, op_requester = None,
      op_subject_uris = subject_uris,
      op_reversible = (is_reversible kind \<and> (case plan of Some (RpNotReversible _) \<Rightarrow> False | _ \<Rightarrow> True)),
      op_reversal_plan = plan, op_pre_state = pre, op_status = Pending,
      op_receipt_id = Some (rq_receipt_id rq), op_subject_op_id = None, op_undone_by_op_id = None,
      op_redone_by_op_id = None, op_error_message = None\<rparr>"

text \<open>
  After a failed body the row is marked failed; when the remote write may have happened the original
  is withdrawn from undo.
\<close>

definition finish_failed :: "request_context \<Rightarrow> operation_id \<Rightarrow> undo_failure \<Rightarrow> op_table \<Rightarrow> op_table" where
  "finish_failed rq original e t =
     (let t' = finalize_operation (rq_operation_id rq) OpFailed (rq_finished_at_ms rq) (Some (rq_error_text rq e)) t
      in case e of
           UndoCallFailed cf \<Rightarrow> if cf_may_have_written cf then disable_partial_undo original t' else t'
         | _ \<Rightarrow> t')"

definition finish_succeeded :: "request_context \<Rightarrow> op_table \<Rightarrow> op_table" where
  "finish_succeeded rq = finalize_operation (rq_operation_id rq) Succeeded (rq_finished_at_ms rq) None"

datatype undo_response =
    NothingToUndo string
  | UndoDone
  | UndoDryRun "string list"
  | UndoError undo_failure
  | IdCollision

definition undo_target :: "operation_id option \<Rightarrow> op_table \<Rightarrow> (operation, string) result" where
  "undo_target target t = (case target of
       Some i \<Rightarrow> get_operation i t
     | None \<Rightarrow> (case find_last_reversible_operation t of
           Some op \<Rightarrow> Ok op | None \<Rightarrow> Err ''no reversible operations to undo''))"

definition handle_ops_undo ::
    "'w provider_api \<Rightarrow> request_context \<Rightarrow> operation_id option \<Rightarrow> bool \<Rightarrow> bool \<Rightarrow> op_table \<times> 'w
      \<Rightarrow> undo_response \<times> op_table \<times> 'w" where
  "handle_ops_undo api rq target dry_run force tw = (case tw of (t, w) \<Rightarrow>
     (case undo_target target t of
        Err msg \<Rightarrow> (NothingToUndo msg, t, w)
      | Ok op \<Rightarrow>
          if dry_run
          then (case undo_single api op (rq_operation_id rq) True force (t, w) of
              Err e \<Rightarrow> (UndoError e, t, w)
            | Ok (UndoPreview line, _, _) \<Rightarrow> (UndoDryRun [line], t, w)
            | Ok (UndoApplied, _, _) \<Rightarrow> (UndoDryRun [], t, w))
          else (case insert_pending_operation
                  (recorded_row rq KUndo (op_subject_uris op) None (Some (RpRedo (op_id op)))) t of
              None \<Rightarrow> (IdCollision, t, w)
            | Some t1 \<Rightarrow>
                let t2 = update_operation_subject (rq_operation_id rq) (op_id op) t1
                in case undo_single api op (rq_operation_id rq) False force (t2, w) of
                     Err e \<Rightarrow> (UndoError e, finish_failed rq (op_id op) e t2, w)
                   | Ok (_, t3, w') \<Rightarrow> (UndoDone, finish_succeeded rq t3, w'))))"

text \<open>Bulk undo: newest first, stop at the first failure.\<close>

fun undo_all ::
    "'w provider_api \<Rightarrow> operation_id \<Rightarrow> bool \<Rightarrow> operation list \<Rightarrow> op_table \<times> 'w
      \<Rightarrow> (op_table \<times> 'w) \<times> (operation_id \<times> undo_failure) option" where
  "undo_all api undo_op_id force [] tw = (tw, None)"
| "undo_all api undo_op_id force (op # ops) tw =
     (case undo_single api op undo_op_id False force tw of
        Err e \<Rightarrow> (tw, Some (op_id op, e))
      | Ok (_, tw') \<Rightarrow> undo_all api undo_op_id force ops tw')"

text \<open>A dry run asks \<open>undo_single\<close> for a preview of each; a refusal ends the request.\<close>

fun preview_all ::
    "'w provider_api \<Rightarrow> operation_id \<Rightarrow> bool \<Rightarrow> operation list \<Rightarrow> op_table \<times> 'w
      \<Rightarrow> (string list, undo_failure) result" where
  "preview_all api undo_op_id force [] tw = Ok []"
| "preview_all api undo_op_id force (op # ops) tw =
     (case undo_single api op undo_op_id True force tw of
        Err e \<Rightarrow> Err e
      | Ok (outcome, _) \<Rightarrow>
          result_bind (preview_all api undo_op_id force ops tw) (\<lambda>lines.
            Ok (case outcome of UndoPreview line \<Rightarrow> line # lines | UndoApplied \<Rightarrow> lines)))"

definition handle_bulk_undo ::
    "'w provider_api \<Rightarrow> request_context \<Rightarrow> i64 \<Rightarrow> bool \<Rightarrow> bool \<Rightarrow> op_table \<times> 'w
      \<Rightarrow> undo_response \<times> op_table \<times> 'w" where
  "handle_bulk_undo api rq since dry_run force tw = (case tw of (t, w) \<Rightarrow>
     let ops = find_reversible_operations_since since None t
     in if dry_run
        then (case preview_all api (rq_operation_id rq) force ops (t, w) of
                Err e \<Rightarrow> (UndoError e, t, w)
              | Ok preview \<Rightarrow> (UndoDryRun preview, t, w))
        else case insert_pending_operation
               (recorded_row rq KUndo (concat (map op_subject_uris ops)) None
                 (Some (RpNotReversible ''bulk undo is not atomically reversible''))) t of
          None \<Rightarrow> (IdCollision, t, w)
        | Some t1 \<Rightarrow>
            (case undo_all api (rq_operation_id rq) force ops (t1, w) of
               ((t2, w'), None) \<Rightarrow> (UndoDone, finish_succeeded rq t2, w')
             | ((t2, w'), Some (original, e)) \<Rightarrow> (UndoError e, finish_failed rq original e t2, w')))"

section \<open>Laws of the table\<close>

lemma update_where_ids [simp]: "(\<And>op. op_id (f op) = op_id op) \<Longrightarrow> map op_id (update_where i c f t) = map op_id t"
  by (induction t) (simp_all add: update_where_def)

lemma update_where_length [simp]: "length (update_where i c f t) = length t"
  by (simp add: update_where_def)

lemma update_where_append [simp]: "update_where i c f (t @ u) = update_where i c f t @ update_where i c f u"
  by (simp add: update_where_def)

lemma update_where_absent: "\<not> has_op i t \<Longrightarrow> update_where i c f t = t"
  by (induction t) (auto simp: update_where_def has_op_def)

lemmas table_updates = finalize_operation_def update_operation_plan_def update_operation_subject_uris_def
  update_operation_subject_def mark_operation_undone_def mark_operation_redone_def disable_partial_undo_def

definition status_le :: "operation_status \<Rightarrow> operation_status \<Rightarrow> bool" where
  "status_le s s' \<longleftrightarrow> s = s' \<or> s = Pending \<or> s = Succeeded \<and> s' \<in> {Undone, Redone} \<or> s = Undone \<and> s' = Redone"

lemma status_le_trans: "status_le a b \<Longrightarrow> status_le b c \<Longrightarrow> status_le a c"
  by (auto simp: status_le_def)

text \<open>How a row may change: its identity never, its plan only while pending or by withdrawing it.\<close>

definition evolves :: "operation \<Rightarrow> operation \<Rightarrow> bool" where
  "evolves a b \<longleftrightarrow> op_id b = op_id a \<and> op_kind b = op_kind a \<and> op_occurred_at_ms b = op_occurred_at_ms a \<and>
     op_source b = op_source a \<and> op_receipt_id b = op_receipt_id a \<and> status_le (op_status a) (op_status b) \<and>
     (op_status a \<noteq> Pending \<longrightarrow> op_pre_state b = op_pre_state a \<and> op_subject_uris b = op_subject_uris a \<and>
        op_error_message b = op_error_message a \<and> op_finished_at_ms b = op_finished_at_ms a \<and>
        (op_reversible b \<longrightarrow> op_reversible a \<and> op_reversal_plan b = op_reversal_plan a))"

lemma evolves_refl [simp]: "evolves a a"
  by (simp add: evolves_def status_le_def)

lemma evolves_trans:
  assumes "evolves a b" and "evolves b c"
  shows "evolves a c"
proof -
  have "status_le (op_status a) (op_status c)"
    using assms status_le_trans unfolding evolves_def by blast
  moreover have "op_status a \<noteq> Pending \<Longrightarrow> op_status b \<noteq> Pending"
    using assms(1) by (auto simp: evolves_def status_le_def)
  ultimately show ?thesis using assms unfolding evolves_def by simp
qed

lemma evolves_update:
  "(\<And>op. c op \<Longrightarrow> evolves op (f op)) \<Longrightarrow> list_all2 evolves t (update_where i c f t)"
  by (induction t) (simp_all add: update_where_def)

datatype table_op =
    TInsert operation
  | TFinalize operation_id operation_status i64 "string option"
  | TPlan operation_id "pre_state option" "reversal_plan option"
  | TActivate operation_id pre_state reversal_plan
  | TSubjectUris operation_id "string list"
  | TSubject operation_id operation_id
  | TUndone operation_id operation_id
  | TRedone operation_id operation_id
  | TDisable operation_id
  | TRetain i64

primrec table_step :: "table_op \<Rightarrow> op_table \<Rightarrow> op_table" where
  "table_step (TInsert op) t = (case insert_pending_operation op t of Some t' \<Rightarrow> t' | None \<Rightarrow> t)"
| "table_step (TFinalize i s at e) t = finalize_operation i s at e t"
| "table_step (TPlan i pre plan) t = update_operation_plan i pre plan t"
| "table_step (TActivate i pre plan) t =
     (case activate_operation_reversal_plan i pre plan t of Ok t' \<Rightarrow> t' | Err _ \<Rightarrow> t)"
| "table_step (TSubjectUris i us) t = update_operation_subject_uris i us t"
| "table_step (TSubject i s) t = update_operation_subject i s t"
| "table_step (TUndone i u) t = mark_operation_undone i u t"
| "table_step (TRedone i u) t = mark_operation_redone i u t"
| "table_step (TDisable i) t = disable_partial_undo i t"
| "table_step (TRetain cutoff) t = fst (prune_operations_older_than cutoff t)"

text \<open>
  The rows that a change keeps evolve in their order, ahead of whatever it appends.
\<close>

definition kept_rows :: "(i64 \<Rightarrow> bool) \<Rightarrow> op_table \<Rightarrow> op_table \<Rightarrow> bool" where
  "kept_rows keep t t' \<longleftrightarrow>
     (\<exists>u v. t' = u @ v \<and> list_all2 evolves (filter (\<lambda>op. keep (op_occurred_at_ms op)) t) u)"

lemma filter_along:
  assumes "\<And>x y. R x y \<Longrightarrow> Q x = Q y"
  shows "list_all2 R (filter P xs) us \<Longrightarrow> list_all2 R (filter (\<lambda>x. P x \<and> Q x) xs) (filter Q us)"
proof (induction xs arbitrary: us)
  case (Cons x xs)
  show ?case
  proof (cases "P x")
    case True
    with Cons.prems obtain u us' where "us = u # us'" "R x u" "list_all2 R (filter P xs) us'"
      by (auto simp: list_all2_Cons1)
    with True assms [of x u] Cons.IH show ?thesis by simp
  qed (use Cons in simp)
qed simp

lemma kept_rows_trans:
  assumes "kept_rows P t t'" and "kept_rows Q t' t''"
  shows "kept_rows (\<lambda>at. P at \<and> Q at) t t''"
proof -
  obtain u v where u: "t' = u @ v" "list_all2 evolves (filter (\<lambda>op. P (op_occurred_at_ms op)) t) u"
    using assms(1) by (auto simp: kept_rows_def)
  then obtain a b c where a: "t'' = (a @ b) @ c" "list_all2 evolves (filter (\<lambda>op. Q (op_occurred_at_ms op)) u) a"
    using assms(2) by (auto simp: kept_rows_def list_all2_append1)
  have "list_all2 evolves (filter (\<lambda>op. P (op_occurred_at_ms op) \<and> Q (op_occurred_at_ms op)) t)
      (filter (\<lambda>op. Q (op_occurred_at_ms op)) u)"
    by (rule filter_along [OF _ u(2)]) (simp add: evolves_def)
  from list_all2_trans [OF evolves_trans this a(2)] a(1) show ?thesis by (auto simp: kept_rows_def)
qed

lemma kept_rows_update: "(\<And>op. c op \<Longrightarrow> evolves op (f op)) \<Longrightarrow> kept_rows (\<lambda>_. True) t (update_where i c f t)"
  using evolves_update [of c f t i] by (force simp: kept_rows_def)

lemma kept_rows_append [simp]: "kept_rows (\<lambda>_. True) t (t @ u)"
  unfolding kept_rows_def by (intro exI [of _ t] exI [of _ u]) (simp add: list_all2_refl)

lemma kept_rows_refl [simp]: "kept_rows (\<lambda>_. True) t t"
  using kept_rows_append [of t "[]"] by simp

lemma kept_rows_filter: "kept_rows keep t (filter (\<lambda>op. keep (op_occurred_at_ms op)) t)"
  unfolding kept_rows_def by (intro exI [of _ "filter (\<lambda>op. keep (op_occurred_at_ms op)) t"] exI [of _ "[]"]) (simp add: list_all2_refl)

text \<open>The times at which a step may remove rows.\<close>

definition retires :: "table_op \<Rightarrow> i64 \<Rightarrow> bool" where
  "retires op at \<longleftrightarrow> (case op of TRetain cutoff \<Rightarrow> at < cutoff | _ \<Rightarrow> False)"

lemma prune_keeps:
  "\<exists>keep. (\<forall>at. keep at \<or> at < cutoff) \<and> kept_rows keep t (fst (prune_operations_older_than cutoff t))"
proof (cases "fst (prune_operations_older_than cutoff t) = t")
  case True
  then show ?thesis by (intro exI [of _ "\<lambda>_. True"]) simp
next
  case False
  then have "fst (prune_operations_older_than cutoff t) = filter (\<lambda>op. cutoff \<le> op_occurred_at_ms op) t"
    by (auto simp: prune_operations_older_than_def Let_def split: if_splits)
  with kept_rows_filter [of "\<lambda>at. cutoff \<le> at" t] show ?thesis by (intro exI [of _ "\<lambda>at. cutoff \<le> at"]) auto
qed

lemma table_step_keeps: "\<exists>keep. (\<forall>at. keep at \<or> retires op at) \<and> kept_rows keep t (table_step op t)"
proof (cases "\<exists>cutoff. op = TRetain cutoff")
  case True
  then show ?thesis using prune_keeps by (auto simp: retires_def)
next
  case False
  have "kept_rows (\<lambda>_. True) t (table_step op t)"
  proof (cases op)
    case (TActivate i pre plan)
    let ?c = "\<lambda>op. is_pending op \<and> \<not> op_reversible op"
    have "kept_rows (\<lambda>_. True) t (update_where i ?c (\<lambda>op. op\<lparr>op_pre_state := Some pre,
        op_reversal_plan := Some plan, op_reversible := True\<rparr>) t)"
      by (rule kept_rows_update) (simp add: evolves_def is_pending_def status_le_def)
    then show ?thesis
      by (auto simp: TActivate activate_operation_reversal_plan_def Let_def split: result.split)
  qed (use False in \<open>auto simp: table_updates insert_pending_operation_def is_pending_def intro!: kept_rows_update,
    auto simp: evolves_def status_le_def\<close>)
  then show ?thesis by (intro exI [of _ "\<lambda>_. True"]) simp
qed

lemma table_step_distinct: "distinct (map op_id t) \<Longrightarrow> distinct (map op_id (table_step op t))"
proof (cases op)
  case (TActivate i pre plan)
  assume "distinct (map op_id t)"
  then show ?thesis by (auto simp: TActivate activate_operation_reversal_plan_def Let_def split: result.split)
next
  case (TRetain cutoff)
  assume "distinct (map op_id t)"
  then show ?thesis by (simp add: TRetain prune_operations_older_than_def Let_def distinct_map_filter)
qed (simp_all add: table_updates insert_pending_operation_def has_op_def)

text \<open>A retention job leaves no row behind that refers to a missing one.\<close>

lemma prune_keeps_references:
  assumes "\<forall>op \<in> set t. \<forall>i \<in> set (op_references op). has_op i t"
  shows "\<forall>op \<in> set (fst (prune_operations_older_than cutoff t)). \<forall>i \<in> set (op_references op).
    has_op i (fst (prune_operations_older_than cutoff t))"
proof (cases "fst (prune_operations_older_than cutoff t) = t")
  case False
  then have kept: "fst (prune_operations_older_than cutoff t) = filter (\<lambda>op. cutoff \<le> op_occurred_at_ms op) t"
    and none: "\<forall>op \<in> set t. cutoff \<le> op_occurred_at_ms op \<longrightarrow> (\<forall>i \<in> set (op_references op).
      \<not> has_op i (filter (\<lambda>op. op_occurred_at_ms op < cutoff) t))"
    by (auto simp: prune_operations_older_than_def Let_def split: if_splits)
  show ?thesis
  proof (intro ballI)
    fix op i assume op: "op \<in> set (fst (prune_operations_older_than cutoff t))" "i \<in> set (op_references op)"
    then have "op \<in> set t" "cutoff \<le> op_occurred_at_ms op" by (simp_all add: kept)
    with assms none op(2) show "has_op i (fst (prune_operations_older_than cutoff t))"
      by (fastforce simp: kept has_op_def)
  qed
qed (use assms in simp)

text \<open>
  C25: Operation rows settle. Whatever the store is asked to do, in any order, its retention job
  included: ids stay unique; a row is lost only to a retention job, and only when it is older than the
  cutoff of one that ran; the others stay in their order ahead of the new ones, keep their identity,
  and their status only moves forward (pending, then succeeded or failed, then undone, then redone);
  and once a row is no longer pending its pre-state, subjects, outcome and error are frozen, and its
  reversal plan can only be withdrawn.
\<close>

theorem operation_rows_settle:
  assumes "distinct (map op_id t)"
  shows "distinct (map op_id (fold table_step ops t)) \<and>
    (\<exists>keep. kept_rows keep t (fold table_step ops t) \<and>
       (\<forall>at. keep at \<or> (\<exists>cutoff. TRetain cutoff \<in> set ops \<and> at < cutoff)))"
  using assms
proof (induction ops arbitrary: t)
  case Nil
  then show ?case by (auto intro: exI [of _ "\<lambda>_. True"])
next
  case (Cons op ops)
  obtain keep where keep: "\<forall>at. keep at \<or> retires op at" "kept_rows keep t (table_step op t)"
    using table_step_keeps by blast
  from Cons.IH [OF table_step_distinct [OF Cons.prems, of op]] obtain keep' where
    d: "distinct (map op_id (fold table_step ops (table_step op t)))"
    and keep': "kept_rows keep' (table_step op t) (fold table_step ops (table_step op t))"
      "\<forall>at. keep' at \<or> (\<exists>cutoff. TRetain cutoff \<in> set ops \<and> at < cutoff)" by blast
  from kept_rows_trans [OF keep(2) keep'(1)] keep(1) keep'(2) d show ?case
    by (auto simp: retires_def split: table_op.splits intro!: exI [of _ "\<lambda>at. keep at \<and> keep' at"])
      (metis table_op.exhaust)
qed

definition sample_op :: "operation_id \<Rightarrow> i64 \<Rightarrow> operation" where
  "sample_op i at = \<lparr>op_id = i, op_kind = KLibrarySave, op_occurred_at_ms = at, op_finished_at_ms = Some at,
     op_source = OpCli, op_requester = None, op_subject_uris = [''fake:track:t''], op_reversible = True,
     op_reversal_plan = Some (RpLibraryUnsave ''fake:track:t''),
     op_pre_state = Some (PsLibrarySave ''fake:track:t'' False), op_status = Succeeded,
     op_receipt_id = None, op_subject_op_id = None, op_undone_by_op_id = None, op_redone_by_op_id = None,
     op_error_message = None\<rparr>"

definition sample_steps :: "table_op list" where
  "sample_steps = [TUndone ''a'' ''u'', TFinalize ''a'' OpFailed 9 None, TRetain 5]"

theorem operation_rows_settle_witness:
  "op_status (sample_op ''a'' 7) = Succeeded \<and>
   map op_id (fold table_step sample_steps [sample_op ''b'' 1, sample_op ''a'' 7]) = [''a''] \<and>
   (\<exists>keep. kept_rows keep [sample_op ''b'' 1, sample_op ''a'' 7]
        (fold table_step sample_steps [sample_op ''b'' 1, sample_op ''a'' 7]) \<and> keep 7 \<and> \<not> keep 1)"
proof (intro conjI)
  let ?t = "[sample_op ''b'' 1, sample_op ''a'' 7]"
  show a: "map op_id (fold table_step sample_steps ?t) = [''a'']" by code_simp
  have "distinct (map op_id ?t)" by (simp add: sample_op_def)
  from operation_rows_settle [OF this, of sample_steps] obtain keep where
    keep: "kept_rows keep ?t (fold table_step sample_steps ?t)"
      "\<forall>at. keep at \<or> (\<exists>cutoff. TRetain cutoff \<in> set sample_steps \<and> at < cutoff)" by blast
  obtain u v where u: "fold table_step sample_steps ?t = u @ v"
    "list_all2 evolves (filter (\<lambda>op. keep (op_occurred_at_ms op)) ?t) u" using keep(1) by (auto simp: kept_rows_def)
  have "keep 7" using keep(2) by (auto simp: sample_steps_def)
  moreover have "\<not> keep 1"
  proof
    assume "keep 1"
    with \<open>keep 7\<close> u(2) obtain x us where "u = x # us" "op_id x = ''b''"
      by (auto simp: sample_op_def list_all2_Cons1 evolves_def)
    with u(1) a show False by simp
  qed
  ultimately show "\<exists>keep. kept_rows keep ?t (fold table_step sample_steps ?t) \<and> keep 7 \<and> \<not> keep 1" using keep(1) by blast
qed (simp add: sample_op_def)

text \<open>
  An undo that straddles the cutoff blocks the whole retention job: the newer row of the undo names the
  older one as its subject, the foreign key refuses the statement, and no row is removed.
\<close>

lemma retention_blocked:
  assumes "undo \<in> set t" and "cutoff \<le> op_occurred_at_ms undo" and "op_subject_op_id undo = Some i"
    and "op \<in> set t" and "op_id op = i" and "op_occurred_at_ms op < cutoff"
  shows "prune_operations_older_than cutoff t = (t, Err ''FOREIGN KEY constraint failed'')"
proof -
  have "i \<in> set (op_references undo)" using assms(3) by (simp add: op_references_def)
  then show ?thesis using assms by (force simp: prune_operations_older_than_def Let_def has_op_def)
qed

interpretation operation_source_codec:
  strict_label_codec operation_source_label "\<lambda>s. result_ok (operation_source_from_str s)"
proof unfold_locales
  fix x show "result_ok (operation_source_from_str (operation_source_label x)) = Some x"
    by (cases x) (simp_all add: operation_source_from_str_def)
next
  fix s x assume "result_ok (operation_source_from_str s) = Some x"
  then show "operation_source_label x = s" by (auto simp: operation_source_from_str_def split: if_splits)
qed

interpretation operation_status_codec:
  strict_label_codec operation_status_label "\<lambda>s. result_ok (operation_status_from_str s)"
proof unfold_locales
  fix x show "result_ok (operation_status_from_str (operation_status_label x)) = Some x"
    by (cases x) (simp_all add: operation_status_from_str_def)
next
  fix s x assume "result_ok (operation_status_from_str s) = Some x"
  then show "operation_status_label x = s" by (auto simp: operation_status_from_str_def split: if_splits)
qed

interpretation operation_kind_codec:
  strict_label_codec operation_kind_label "\<lambda>s. result_ok (operation_kind_from_str s)"
proof unfold_locales
  fix x show "result_ok (operation_kind_from_str (operation_kind_label x)) = Some x"
    by (cases x) (simp_all add: operation_kind_from_str_def)
next
  fix s x assume "result_ok (operation_kind_from_str s) = Some x"
  then show "operation_kind_label x = s" by (auto simp: operation_kind_from_str_def split: if_splits)
qed

section \<open>Undo\<close>

lemma validate_undoable_Ok:
  "validate_undoable op = Ok () \<longleftrightarrow> op_reversible op \<and> op_status op = Succeeded \<and>
     op_pre_state op \<noteq> None \<and> op_reversal_plan op \<noteq> None"
  by (simp add: validate_undoable_def)

lemma check_version_token_Ok:
  "check_version_token plan fetch force = Ok () \<longleftrightarrow>
     (\<forall>p stored. version_token_check_target plan = Some (p, stored) \<longrightarrow> force \<or> fetch p = Some stored)"
  by (auto simp: check_version_token_def split: option.split)

lemma undo_single_applied:
  "undo_single api op u False force (t, w) = Ok (r, t', w') \<longleftrightarrow>
     (\<exists>plan. validate_undoable op = Ok () \<and> op_reversal_plan op = Some plan \<and>
        check_version_token plan (api_version_token api w) force = Ok () \<and>
        apply_reversal api plan w = Ok w' \<and> r = UndoApplied \<and> t' = mark_operation_undone (op_id op) u t)"
  by (auto simp: undo_single_def split: result.splits option.splits undo_error.splits)

lemma mark_undone_nth:
  "n < length t \<Longrightarrow> op_id (t ! n) = i \<Longrightarrow> op_status (t ! n) = Succeeded \<Longrightarrow>
     op_status (mark_operation_undone i u t ! n) = Undone"
  by (simp add: mark_operation_undone_def update_where_def)


definition sample_api :: "bool provider_api" where
  "sample_api = \<lparr>api_version_token = (\<lambda>_ _. None), api_default_playlist = (\<lambda>v. Err v),
     api_apply = (\<lambda>_ _. Ok True), api_transfer = (\<lambda>_ _ _. Ok True)\<rparr>"

lemma sample_undo:
  "undo_single sample_api (sample_op ''a'' 1) ''u'' False False ([sample_op ''a'' 1], False) =
     Ok (UndoApplied, [(sample_op ''a'' 1)\<lparr>op_status := Undone, op_undone_by_op_id := Some ''u''\<rparr>], True)"
  by code_simp


section \<open>Undoing again\<close>

definition undoable_rows :: "op_table \<Rightarrow> op_table" where
  "undoable_rows t = filter (\<lambda>op. op_reversible op \<and> op_status op = Succeeded) t"

lemma find_last_undoable:
  "find_last_reversible_operation t = (case newest_first (undoable_rows t) of [] \<Rightarrow> None | op # _ \<Rightarrow> Some op)"
  by (simp add: find_last_reversible_operation_def undoable_rows_def)

lemma newest_first_snoc:
  assumes "\<forall>op \<in> set t. op_occurred_at_ms op < op_occurred_at_ms u"
  shows "newest_first (t @ [u]) = u # newest_first t"
  using assms by (induction t) (auto simp: newest_first_def)

lemma undoable_append [simp]: "undoable_rows (t @ u) = undoable_rows t @ undoable_rows u"
  by (simp add: undoable_rows_def)

lemma undoable_update_subset: "set (undoable_rows t) \<subseteq> set t"
  by (auto simp: undoable_rows_def)

text \<open>The last undoable row has no pre-state: what a default undo leaves behind.\<close>

definition undo_stuck :: "op_table \<Rightarrow> bool" where
  "undo_stuck t = (case find_last_reversible_operation t of Some op \<Rightarrow> op_pre_state op = None | None \<Rightarrow> False)"

lemma find_last_Some:
  "find_last_reversible_operation t = Some op \<Longrightarrow> op \<in> set t \<and> op_reversible op \<and> op_status op = Succeeded"
proof -
  assume "find_last_reversible_operation t = Some op"
  then have "op \<in> set (newest_first (undoable_rows t))"
    by (auto simp: find_last_undoable split: list.splits)
  then show ?thesis by (simp add: newest_first_def undoable_rows_def)
qed

lemma stuck_undo_refused:
  assumes "find_last_reversible_operation t = Some op" and "op_pre_state op = None"
  shows "undo_single api op u dry force (t', w) = Err (UndoRefused (MissingPreState (op_id op)))"
  using assms find_last_Some [OF assms(1)] by (simp add: undo_single_def validate_undoable_def)

lemma stuck_undo_step:
  assumes "undo_stuck t" and "handle_ops_undo api rq None dry force (t, w) = (r, t', w')"
  shows "undo_stuck t' \<and> w' = w \<and> r \<noteq> UndoDone \<and> (\<exists>rest. t' = t @ rest)"
proof -
  from assms(1) obtain op where op: "find_last_reversible_operation t = Some op" "op_pre_state op = None"
    by (auto simp: undo_stuck_def split: option.splits)
  note refused = stuck_undo_refused [OF op]
  show ?thesis
  proof (cases "dry \<or> has_op (rq_operation_id rq) t")
    case True
    with assms op show ?thesis
      by (auto simp: refused handle_ops_undo_def undo_target_def insert_pending_operation_def recorded_row_def
          split: if_splits)
  next
    case False
    let ?row = "recorded_row rq KUndo (op_subject_uris op) None (Some (RpRedo (op_id op)))"
    have "t' = t @ [?row\<lparr>op_subject_op_id := Some (op_id op), op_status := OpFailed,
        op_finished_at_ms := Some (rq_finished_at_ms rq),
        op_error_message := Some (rq_error_text rq (UndoRefused (MissingPreState (op_id op))))\<rparr>]"
      and "w' = w" "r \<noteq> UndoDone"
      using assms(2) False op
      by (auto simp: refused handle_ops_undo_def undo_target_def insert_pending_operation_def Let_def finish_failed_def
          finalize_operation_def update_operation_subject_def update_where_absent recorded_row_def)
        (simp_all add: update_where_def is_pending_def)
    moreover from this(1) have "undoable_rows t' = undoable_rows t" by (simp add: undoable_rows_def)
    ultimately show ?thesis using assms(1) by (simp add: undo_stuck_def find_last_undoable)
  qed
qed

lemma undo_target_mem: "undo_target target t = Ok op \<Longrightarrow> op \<in> set t"
  by (auto simp: undo_target_def get_operation_def find_Some_iff dest!: find_last_Some split: option.splits)

lemma update_where_times:
  "(\<And>op. op_occurred_at_ms (f op) = op_occurred_at_ms op) \<Longrightarrow> op \<in> set (update_where i c f t) \<Longrightarrow>
     \<exists>op' \<in> set t. op_occurred_at_ms op = op_occurred_at_ms op'"
  by (auto simp: update_where_def)

lemma undo_done_stuck:
  assumes "handle_ops_undo api rq target False force (t, w) = (UndoDone, t', w')"
    and "\<forall>op \<in> set t. op_occurred_at_ms op < rq_occurred_at_ms rq"
  shows "\<exists>u. find_last_reversible_operation t' = Some u \<and> op_id u = rq_operation_id rq \<and> op_pre_state u = None"
proof -
  from assms(1) obtain op where op: "undo_target target t = Ok op"
    by (auto simp: handle_ops_undo_def split: result.splits)
  let ?row = "recorded_row rq KUndo (op_subject_uris op) None (Some (RpRedo (op_id op)))"
  let ?sub = "?row\<lparr>op_subject_op_id := Some (op_id op)\<rparr>"
  from assms(1) op have fresh: "\<not> has_op (rq_operation_id rq) t"
    by (auto simp: handle_ops_undo_def insert_pending_operation_def recorded_row_def split: if_splits)
  have ne: "op_id op \<noteq> rq_operation_id rq"
    using fresh undo_target_mem [OF op] by (force simp: has_op_def)
  have t2: "update_operation_subject (rq_operation_id rq) (op_id op) (t @ [?row]) = t @ [?sub]"
    using fresh by (simp add: update_operation_subject_def update_where_absent)
      (simp add: update_where_def recorded_row_def is_pending_def)
  let ?m = "mark_operation_undone (op_id op) (rq_operation_id rq) t"
  have "map op_id ?m = map op_id t" by (simp add: mark_operation_undone_def)
  then have "\<not> has_op (rq_operation_id rq) ?m" using fresh by (metis has_op_def set_map)
  then have fin: "finish_succeeded rq (?m @ [?sub]) = ?m @ [?sub\<lparr>op_status := Succeeded,
      op_finished_at_ms := Some (rq_finished_at_ms rq), op_error_message := None\<rparr>]" (is "_ = _ @ [?u]")
    by (simp add: finish_succeeded_def finalize_operation_def update_where_absent)
      (simp add: update_where_def recorded_row_def is_pending_def)
  have mark: "mark_operation_undone (op_id op) (rq_operation_id rq) (t @ [?sub]) = ?m @ [?sub]"
    using ne by (simp add: mark_operation_undone_def) (simp add: update_where_def recorded_row_def)
  have ins: "insert_pending_operation ?row t = Some (t @ [?row])"
    using fresh by (simp add: insert_pending_operation_def recorded_row_def)
  have t': "t' = ?m @ [?u]"
    using assms(1) op
    by (auto simp: handle_ops_undo_def Let_def ins t2 undo_single_applied mark fin split: result.splits)
  have u: "undoable_rows [?u] = [?u]" by (simp add: undoable_rows_def recorded_row_def is_reversible_def)
  have "\<forall>op' \<in> set (undoable_rows ?m). op_occurred_at_ms op' < op_occurred_at_ms ?u"
  proof
    fix op' assume "op' \<in> set (undoable_rows ?m)"
    then have "op' \<in> set ?m" using undoable_update_subset by blast
    then obtain o2 where "o2 \<in> set t" "op_occurred_at_ms op' = op_occurred_at_ms o2"
      unfolding mark_operation_undone_def by (auto dest!: update_where_times [rotated])
    with assms(2) show "op_occurred_at_ms op' < op_occurred_at_ms ?u" by (simp add: recorded_row_def)
  qed
  then have "find_last_reversible_operation t' = Some ?u"
    by (simp add: find_last_undoable t' u newest_first_snoc)
  then show ?thesis by (simp add: recorded_row_def)
qed

text \<open>A series of undo requests that name no operation.\<close>

fun default_undos ::
    "'w provider_api \<Rightarrow> (request_context \<times> bool \<times> bool) list \<Rightarrow> op_table \<times> 'w \<Rightarrow> undo_response list \<times> op_table \<times> 'w" where
  "default_undos api [] tw = ([], tw)"
| "default_undos api ((rq, dry_run, force) # rest) tw =
     (case handle_ops_undo api rq None dry_run force tw of (r, tw') \<Rightarrow>
        (case default_undos api rest tw' of (rs, tw'') \<Rightarrow> (r # rs, tw'')))"

lemma stuck_undos:
  "undo_stuck t \<Longrightarrow> default_undos api rqs (t, w) = (rs, t', w') \<Longrightarrow>
     UndoDone \<notin> set rs \<and> w' = w \<and> (\<exists>rest. t' = t @ rest)"
proof (induction rqs arbitrary: t w rs)
  case (Cons x rqs)
  obtain rq dry force where x: "x = (rq, dry, force)" by (cases x)
  obtain r t1 w1 where r: "handle_ops_undo api rq None dry force (t, w) = (r, t1, w1)" by (cases "handle_ops_undo api rq None dry force (t, w)")
  obtain rs1 where rs: "default_undos api rqs (t1, w1) = (rs1, t', w')" "rs = r # rs1"
    using Cons.prems(2) by (auto simp: x r split: prod.splits)
  from stuck_undo_step [OF Cons.prems(1) r] Cons.IH [OF _ rs(1)] show ?case by (auto simp: rs)
qed simp

text \<open>
  Undo cannot be repeated. A successful undo is itself recorded as a succeeded, reversible row
  without a pre-state, and it is the newest one; so every later undo request that names no operation,
  forced or not, picks that row and is refused, the provider is never called again, and the operations
  before it can only be undone by naming them.
\<close>

theorem default_undo_stops_after_one:
  assumes "handle_ops_undo api rq target False force (t, w) = (UndoDone, t', w')"
    and "\<forall>op \<in> set t. op_occurred_at_ms op < rq_occurred_at_ms rq"
    and "default_undos api rqs (t', w') = (rs, t'', w'')"
  shows "UndoDone \<notin> set rs \<and> w'' = w' \<and> (\<exists>rest. t'' = t' @ rest) \<and>
    map_option op_id (find_last_reversible_operation t') = Some (rq_operation_id rq)"
  using undo_done_stuck [OF assms(1,2)] stuck_undos [OF _ assms(3)] by (auto simp: undo_stuck_def)

definition sample_rq :: "string \<Rightarrow> i64 \<Rightarrow> request_context" where
  "sample_rq i at = \<lparr>rq_operation_id = i, rq_receipt_id = i, rq_occurred_at_ms = at, rq_finished_at_ms = at,
     rq_source = OpCli, rq_error_text = (\<lambda>_. [])\<rparr>"

theorem default_undo_stops_after_one_witness:
  "case handle_ops_undo sample_api (sample_rq ''u1'' 10) None False False ([sample_op ''a'' 1, sample_op ''b'' 2], False) of
     (r, t', w') \<Rightarrow> r = UndoDone \<and>
       UndoDone \<notin> set (fst (default_undos sample_api [(sample_rq ''u2'' 11, False, True)] (t', w')))"
proof -
  let ?h = "handle_ops_undo sample_api (sample_rq ''u1'' 10) None False False ([sample_op ''a'' 1, sample_op ''b'' 2], False)"
  have ok: "fst ?h = UndoDone" by code_simp
  obtain t' w' where h: "?h = (UndoDone, t', w')" using ok by (cases ?h) auto
  obtain rs t'' w'' where d: "default_undos sample_api [(sample_rq ''u2'' 11, False, True)] (t', w') = (rs, t'', w'')"
    by (cases "default_undos sample_api [(sample_rq ''u2'' 11, False, True)] (t', w')")
  have "\<forall>op \<in> set [sample_op ''a'' 1, sample_op ''b'' 2]. op_occurred_at_ms op < rq_occurred_at_ms (sample_rq ''u1'' 10)"
    by (simp add: sample_op_def sample_rq_def)
  from default_undo_stops_after_one [OF h this d] show ?thesis by (simp add: h d del: default_undos.simps)
qed

text \<open>
  A bulk undo works backwards and stops at the first failure: exactly the operations before the
  failing one are marked undone, all of them by the same undo, and later ones are not attempted.
\<close>

theorem bulk_undo_stops_at_failure:
  "case undo_all api u force ops (t, w) of ((t', w'), failure) \<Rightarrow>
     \<exists>k \<le> length ops. t' = fold (\<lambda>op. mark_operation_undone (op_id op) u) (take k ops) t \<and>
       (failure = None \<longleftrightarrow> k = length ops) \<and>
       (\<forall>i e. failure = Some (i, e) \<longrightarrow> i = op_id (ops ! k) \<and>
          undo_single api (ops ! k) u False force (t', w') = Err e)"
proof (induction ops arbitrary: t w)
  case (Cons op ops)
  show ?case
  proof (cases "undo_single api op u False force (t, w)")
    case (Ok r)
    obtain o1 t1 w1 where r: "r = (o1, t1, w1)" by (cases r)
    have t1: "t1 = mark_operation_undone (op_id op) u t" using Ok by (auto simp: r undo_single_applied)
    obtain t' w' failure where ua: "undo_all api u force ops (t1, w1) = ((t', w'), failure)"
      by (metis surj_pair)
    with Cons.IH [of t1 w1] obtain k where "k \<le> length ops"
      "t' = fold (\<lambda>op. mark_operation_undone (op_id op) u) (take k ops) t1"
      "failure = None \<longleftrightarrow> k = length ops"
      "\<forall>i e. failure = Some (i, e) \<longrightarrow> i = op_id (ops ! k) \<and> undo_single api (ops ! k) u False force (t', w') = Err e"
      by auto
    then show ?thesis using Ok ua by (auto simp: r t1 intro!: exI [of _ "Suc k"])
  next
    case (Err e)
    then show ?thesis by (auto intro!: exI [of _ 0])
  qed
qed simp

theorem bulk_undo_stops_at_failure_witness:
  "\<exists>k \<le> 1. fst (fst (undo_all sample_api ''u'' False [sample_op ''a'' 1] ([sample_op ''a'' 1], False))) =
     fold (\<lambda>op. mark_operation_undone (op_id op) ''u'') (take k [sample_op ''a'' 1]) [sample_op ''a'' 1]"
proof -
  obtain t' w' f where ua: "undo_all sample_api ''u'' False [sample_op ''a'' 1] ([sample_op ''a'' 1], False) = ((t', w'), f)"
    by (metis surj_pair)
  with bulk_undo_stops_at_failure [where api = sample_api and u = "''u''" and force = False
      and ops = "[sample_op ''a'' 1]" and t = "[sample_op ''a'' 1]" and w = False]
  show ?thesis by (auto simp del: undo_all.simps)
qed

end
