(* ===== verification/Playlist_Undo.thy ===== *)
theory Playlist_Undo
  imports Operation_Log
begin

text \<open>
  Undoing playlist edits end to end: how the daemon chooses what to remove and records the plan
  (\<open>spotuify-daemon/src/handlers/playlists.rs\<close>), and what executing that plan does at a provider.
  The provider interface the daemon relies on is the locale \<open>versioned_provider\<close>; the in-memory
  provider of \<open>spotuify-provider-fake\<close> is its instance.
\<close>

section \<open>Choosing occurrences to remove\<close>

text \<open>The map from URI to the queue of positions at which it occurs, front first.\<close>

definition available_positions :: "media_item list \<Rightarrow> string \<Rightarrow> nat list" where
  "available_positions current u = map fst (filter (\<lambda>(_, item). mi_uri item = u) (enumerate 0 current))"

fun select_loop ::
    "nat \<Rightarrow> resource_uri list \<Rightarrow> (string \<Rightarrow> nat list)
      \<Rightarrow> (playlist_item_ref list \<times> (string \<times> u32) list, provider_error) result" where
  "select_loop index [] available = Ok ([], [])"
| "select_loop index (uri # rest) available =
     (let canonical = as_uri uri
      in case available canonical of
           [] \<Rightarrow> Err (InvalidInput ''uris'' (''playlist does not contain requested occurrence '' @
                   show_nat (index + 1) @ '' of `'' @ canonical @ ''`''))
         | p # ps \<Rightarrow>
             result_bind (select_loop (index + 1) rest (available(canonical := ps))) (\<lambda>(items, removed).
               Ok (\<lparr>ir_uri = uri, ir_positions = [p]\<rparr> # items, (canonical, p) # removed)))"

definition select_playlist_remove_items ::
    "resource_uri list \<Rightarrow> media_item list
      \<Rightarrow> (playlist_item_ref list \<times> (string \<times> u32) list, provider_error) result" where
  "select_playlist_remove_items requested current =
     (if 2 ^ 32 < length current
      then Err (InvalidInput ''playlist'' ''playlist position exceeds the supported range'')
      else select_loop 0 requested (available_positions current))"

section \<open>Recorded plans\<close>

record remove_plan =
  rp_playlist_id :: string
  rp_version_token :: "string option"
  rp_playlist_uri :: resource_uri
  rp_mutation_items :: "playlist_item_ref list"
  rp_removed_items :: "(string \<times> u32) list"

text \<open>The tail of \<open>build_playlist_remove_plan\<close>, once the playlist and its current items are known.\<close>

definition build_remove_plan ::
    "string \<Rightarrow> string option \<Rightarrow> resource_uri \<Rightarrow> resource_uri list \<Rightarrow> media_item list
      \<Rightarrow> (remove_plan, provider_error) result" where
  "build_remove_plan playlist_id version_token playlist_uri requested current =
     result_bind (select_playlist_remove_items requested current) (\<lambda>(items, removed).
       Ok \<lparr>rp_playlist_id = playlist_id, rp_version_token = version_token, rp_playlist_uri = playlist_uri,
           rp_mutation_items = items, rp_removed_items = sort_key snd removed\<rparr>)"

definition remove_plan_mutation :: "remove_plan \<Rightarrow> mutation" where
  "remove_plan_mutation plan =
     MutPlaylistRemove (rp_playlist_uri plan) (rp_mutation_items plan) (rp_version_token plan)"

text \<open>The reversal published after the removal, guarded by the version it produced.\<close>

definition remove_reversal :: "remove_plan \<Rightarrow> string \<Rightarrow> reversal_plan" where
  "remove_reversal plan post_version =
     RpPlaylistAddAtPositions (rp_playlist_id plan) (rp_removed_items plan) (Some post_version)"

text \<open>The reversal recorded for an addition, before the addition is sent.\<close>

definition add_reversal :: "string \<Rightarrow> string list \<Rightarrow> string option \<Rightarrow> reversal_plan" where
  "add_reversal playlist_id uris version_token = RpPlaylistRemoveTracks playlist_id uris version_token"

definition add_mutation :: "resource_uri \<Rightarrow> resource_uri list \<Rightarrow> string option \<Rightarrow> mutation" where
  "add_mutation playlist_uri uris version_token =
     MutPlaylistAdd playlist_uri (map (\<lambda>u. \<lparr>in_uri = u, in_position = None\<rparr>) uris) version_token"

section \<open>The in-memory provider as the daemon sees it\<close>

definition provider_error_may_follow_write :: "provider_error \<Rightarrow> bool" where
  "provider_error_may_follow_write e = (case e of
       NetworkError _ \<Rightarrow> True | Transient _ _ \<Rightarrow> True | Decode _ \<Rightarrow> True | ProviderFailure _ \<Rightarrow> True
     | Upstream status _ \<Rightarrow> 500 \<le> status
     | _ \<Rightarrow> False)"

definition default_playlist_resource :: "fake_provider \<Rightarrow> string \<Rightarrow> (resource_uri, string) result" where
  "default_playlist_resource provider v =
     map_err uri_error_display (resource_uri_new (fk_scheme provider) Playlist v)"

definition fake_api :: "(provider_error \<Rightarrow> string) \<Rightarrow> fake_provider \<Rightarrow> fake_state provider_api" where
  "fake_api show_error provider =
     \<lparr>api_version_token = (\<lambda>w playlist_id.
        case provider_playlist_resource (default_playlist_resource provider) playlist_id of
          Ok r \<Rightarrow> Option.bind (fs_playlists w (as_uri r)) (\<lambda>p. pl_version_token (fp_metadata p))
        | Err _ \<Rightarrow> None),
      api_default_playlist = default_playlist_resource provider,
      api_apply = (\<lambda>m w. case apply_mutation provider w [] m of
          Ok (w', _) \<Rightarrow> Ok w'
        | Err e \<Rightarrow> Err \<lparr>cf_message = show_error e, cf_may_have_written = provider_error_may_follow_write e\<rparr>),
      api_transfer = (\<lambda>_ _ _. Err (refused []))\<rparr>"

section \<open>Restoring removed occurrences\<close>

lemma available_positions_props:
  "distinct (available_positions current u) \<and>
     (\<forall>p \<in> set (available_positions current u). p < length current \<and> mi_uri (current ! p) = u)"
proof
  have "distinct (map fst (enumerate 0 current))" by simp
  then show "distinct (available_positions current u)"
    unfolding available_positions_def by (rule distinct_map_filter)
  show "\<forall>p \<in> set (available_positions current u). p < length current \<and> mi_uri (current ! p) = u"
    by (auto simp: available_positions_def in_set_enumerate_eq)
qed

lemma select_loop_spec:
  assumes "select_loop index requested available = Ok (items, removed)"
    and "\<forall>u. distinct (available u) \<and> (\<forall>p \<in> set (available u). owner p = u)"
  shows "map fst removed = map as_uri requested \<and> distinct (map snd removed) \<and>
    items = map2 (\<lambda>r up. \<lparr>ir_uri = r, ir_positions = [snd up]\<rparr>) requested removed \<and>
    (\<forall>(u, p) \<in> set removed. p \<in> set (available u))"
  using assms
proof (induction index requested available arbitrary: items removed rule: select_loop.induct)
  case (2 index uri rest available)
  let ?c = "as_uri uri"
  from "2.prems"(1) obtain p ps items' removed' where av: "available ?c = p # ps"
    and rec: "select_loop (index + 1) rest (available(?c := ps)) = Ok (items', removed')"
    and eq: "items = \<lparr>ir_uri = uri, ir_positions = [p]\<rparr> # items'" "removed = (?c, p) # removed'"
    by (auto simp: Let_def split: list.splits)
  have inv: "\<forall>u. distinct ((available(?c := ps)) u) \<and> (\<forall>q \<in> set ((available(?c := ps)) u). owner q = u)"
    using "2.prems"(2) av by (metis distinct.simps(2) fun_upd_other fun_upd_same list.set_intros(2))
  note IH = "2.IH" [OF refl av rec inv]
  have "p \<notin> set (map snd removed')"
  proof
    assume "p \<in> set (map snd removed')"
    then obtain u where "(u, p) \<in> set removed'" by auto
    with IH have "p \<in> set ((available(?c := ps)) u)" by auto
    moreover from this have "u = ?c" using inv "2.prems"(2) av by (metis list.set_intros(1))
    ultimately show False using "2.prems"(2) av by (metis distinct.simps(2) fun_upd_same)
  qed
  moreover have "\<forall>(u, q) \<in> set removed'. q \<in> set (available u)"
    using IH av by (auto split: if_splits)
  ultimately show ?case using IH by (auto simp: eq av)
qed simp

text \<open>The order column of an insertion only breaks ties in the sort.\<close>

definition drop_order :: "(nat \<times> nat \<times> string) list \<Rightarrow> (nat \<times> nat \<times> string) list" where
  "drop_order = map (\<lambda>(p, _, u). (p, 0, u))"

lemma insert_group_drop_order:
  "insert_group p off (drop_order ps) items = map_prod drop_order id (insert_group p off ps items)"
  by (induction p off ps items rule: insert_group.induct) (auto simp: drop_order_def)

lemma insert_groups_drop_order: "insert_groups (drop_order ps) items = insert_groups ps items"
proof (induction ps items rule: insert_groups.induct)
  case (2 p i u rest items)
  obtain rest' items' where g: "insert_group p 1 rest (insert_at p u items) = (rest', items')" by fastforce
  have "drop_order ((p, i, u) # rest) = (p, 0, u) # drop_order rest" by (simp add: drop_order_def)
  then show ?case using "2.IH" [OF _ g [symmetric]] g by (simp add: insert_group_drop_order)
qed (simp add: drop_order_def)

definition ins_pos :: "playlist_insertion \<Rightarrow> nat" where
  "ins_pos ins = (case in_position ins of Some p \<Rightarrow> p | None \<Rightarrow> 0)"

lemma map_filter_positions:
  "\<forall>ins \<in> set inss. in_position ins \<noteq> None \<Longrightarrow>
     List.map_filter (\<lambda>(order, ins). map_option (\<lambda>p. (p, order, as_uri (in_uri ins))) (in_position ins)) (enumerate n inss) =
     map (\<lambda>(order, ins). (ins_pos ins, order, as_uri (in_uri ins))) (enumerate n inss)"
  by (induction inss arbitrary: n) (auto simp: List.map_filter_simps ins_pos_def)

lemma sorted_positions:
  "sorted_wrt (<) (map ins_pos inss) \<Longrightarrow>
     sorted (map (\<lambda>(p, order, _). (p, order)) (map (\<lambda>(order, ins). (ins_pos ins, order, as_uri (in_uri ins))) (enumerate n inss)))"
  by (induction inss arbitrary: n) (auto simp: in_set_enumerate_eq less_eq_prod_def)

lemma positioned_insertions_sorted:
  assumes "\<forall>ins \<in> set inss. in_position ins \<noteq> None" and "sorted_wrt (<) (map ins_pos inss)"
  shows "drop_order (positioned_insertions inss) = map (\<lambda>ins. (ins_pos ins, 0, as_uri (in_uri ins))) inss"
proof -
  have "positioned_insertions inss =
      map (\<lambda>(order, ins). (ins_pos ins, order, as_uri (in_uri ins))) (enumerate 0 inss)"
    unfolding positioned_insertions_def map_filter_positions [OF assms(1)]
    using sorted_positions [OF assms(2), of 0] by (rule sort_key_id_if_sorted)
  moreover have "map (\<lambda>x. (ins_pos (snd x), 0 :: nat, as_uri (in_uri (snd x)))) (enumerate n inss) =
      map (\<lambda>ins. (ins_pos ins, 0, as_uri (in_uri ins))) inss" for n :: nat
    by (induction inss arbitrary: n) auto
  ultimately show ?thesis by (simp add: drop_order_def comp_def case_prod_beta)
qed

lemma insert_items_reinserts:
  assumes rm: "remove_positioned rs xs = Ok ys" and dist: "distinct (map fst rs)"
    and pos: "\<forall>ins \<in> set inss. in_position ins \<noteq> None" and "sorted_wrt (<) (map ins_pos inss)"
    and same: "map (\<lambda>ins. (ins_pos ins, as_uri (in_uri ins))) inss = rev rs"
  shows "insert_items inss ys = Ok xs"
proof -
  have "drop_order (positioned_insertions inss) = map (\<lambda>(p, u). (p, 0, u)) (rev rs)"
    unfolding positioned_insertions_sorted [OF assms(3,4)] same [symmetric] by (simp add: comp_def)
  with reinsert_removed [OF rm dist, of "\<lambda>_. 0"] have "insert_groups (positioned_insertions inss) ys = Ok xs"
    by (metis insert_groups_drop_order)
  moreover have "filter (\<lambda>ins. in_position ins = None) inss = []" using pos by (auto simp: filter_empty_conv)
  ultimately show ?thesis by (simp add: insert_items_def)
qed

lemma parse_uris_as_uri:
  "\<forall>r \<in> set rs. resource_uri_parse (as_uri r) = Ok r \<Longrightarrow> parse_uris (map as_uri rs) = Ok rs"
  by (induction rs) simp_all

lemma sorted_distinct_strict: "sorted xs \<Longrightarrow> distinct xs \<Longrightarrow> sorted_wrt (<) (xs :: nat list)"
  by (simp add: strict_sorted_iff)

lemma sort_key_map: "sort_key f (map g xs) = map g (sort_key (f \<circ> g) xs)"
proof -
  have "insort_key f (g x) (map g ys) = map g (insort_key (f \<circ> g) x ys)" for x ys
    by (induction ys) auto
  then show ?thesis by (induction xs) simp_all
qed

lemma selected_positions:
  "length requested = length removed \<Longrightarrow> map fst removed = map as_uri requested \<Longrightarrow>
     concat (map (\<lambda>r. map (\<lambda>p. (p, as_uri (ir_uri r))) (ir_positions r))
       (map2 (\<lambda>r up. \<lparr>ir_uri = r, ir_positions = [snd up]\<rparr>) requested removed)) = map prod.swap removed"
  by (induction requested removed rule: list_induct2) auto

lemma selection_facts:
  assumes "select_playlist_remove_items requested current = Ok (items, removed)"
  shows "map fst removed = map as_uri requested" and "distinct (map snd removed)"
    and "positioned_removals items = rev (map prod.swap (sort_key snd removed))"
    and "\<forall>(u, p) \<in> set removed. p < length current \<and> mi_uri (current ! p) = u"
    and "filter (\<lambda>r. ir_positions r = []) items = []" and "map ir_uri items = requested"
    and "length items = length requested"
proof -
  have "select_loop 0 requested (available_positions current) = Ok (items, removed)"
    using assms by (simp add: select_playlist_remove_items_def split: if_splits)
  note spec = select_loop_spec [OF this, of "\<lambda>p. mi_uri (current ! p)"]
  have *: "map fst removed = map as_uri requested \<and> distinct (map snd removed) \<and>
      items = map2 (\<lambda>r up. \<lparr>ir_uri = r, ir_positions = [snd up]\<rparr>) requested removed \<and>
      (\<forall>(u, p) \<in> set removed. p \<in> set (available_positions current u))"
    using spec available_positions_props by blast
  then show "map fst removed = map as_uri requested" "distinct (map snd removed)" by simp_all
  have len: "length requested = length removed" using * by (metis length_map)
  show "\<forall>(u, p) \<in> set removed. p < length current \<and> mi_uri (current ! p) = u"
    using * available_positions_props by blast
  show "filter (\<lambda>r. ir_positions r = []) items = []" using * by (auto simp: filter_empty_conv)
  show "map ir_uri items = requested" "length items = length requested"
    using * len by (simp_all add: comp_def case_prod_beta map_fst_zip [symmetric] split_def)
  have "concat (map (\<lambda>r. map (\<lambda>p. (p, as_uri (ir_uri r))) (ir_positions r)) items) = map prod.swap removed"
    using * len by (simp only: selected_positions)
  moreover have "sort_key fst (map prod.swap removed) = map prod.swap (sort_key snd removed)"
    using sort_key_map [of fst prod.swap removed] by (simp add: comp_def)
  moreover have "distinct (map fst (map prod.swap removed))" using * by (simp add: comp_def)
  ultimately show "positioned_removals items = rev (map prod.swap (sort_key snd removed))"
    by (simp add: positioned_removals_def descending_is_rev_ascending)
qed

lemma parse_known_uris:
  "\<forall>u \<in> set us. \<exists>r \<in> R. u = as_uri r \<and> resource_uri_parse u = Ok r \<Longrightarrow>
     \<exists>rs. parse_uris us = Ok rs \<and> map as_uri rs = us \<and> set rs \<subseteq> R"
proof (induction us)
  case (Cons u us)
  from Cons.prems obtain r where r: "r \<in> R" "u = as_uri r" "resource_uri_parse u = Ok r" by auto
  from Cons obtain rs where "parse_uris us = Ok rs" "map as_uri rs = us" "set rs \<subseteq> R" by auto
  with r show ?case by (intro exI [of _ "r # rs"]) simp
qed simp

lemma apply_add_Ok:
  assumes "length inss \<le> 100" and "ensure_own_uri provider puri = Ok ()"
    and "\<forall>ins \<in> set inss. ensure_own_uri provider (in_uri ins) = Ok () \<and> fs_media w (as_uri (in_uri ins)) \<noteq> None"
    and "playlist_mut w puri v = Ok q" and "insert_items inss (fp_items q) = Ok xs"
  shows "\<exists>r. apply_mutation provider w i (MutPlaylistAdd puri inss v) =
    Ok (put_playlist puri (commit_items q xs) w, r)"
proof -
  have "check_all (\<lambda>ins. result_bind (ensure_own_uri provider (in_uri ins)) (\<lambda>_. known_media w (in_uri ins))) inss = Ok ()"
    using assms(3) by (auto simp: check_all_Ok known_media_def)
  with assms show ?thesis
    by (simp add: apply_mutation_def check_batch_def batch_of_def mutate_outcome_def edit_playlist_def Let_def)
qed

lemma apply_remove_Ok:
  assumes "apply_mutation provider w i (MutPlaylistRemove puri items v) = Ok (w', r)"
    and "fs_playlists w (as_uri puri) = Some p"
  shows "\<exists>ys. remove_items items (fp_items p) = Ok ys \<and> w' = put_playlist puri (commit_items p ys) w \<and>
    rc_version_token r = pl_version_token (fp_metadata (commit_items p ys)) \<and>
    length items \<le> 100 \<and> ensure_own_uri provider puri = Ok () \<and>
    (\<forall>it \<in> set items. ensure_own_uri provider (ir_uri it) = Ok ())"
  using assms
  by (auto simp: apply_mutation_def check_batch_def batch_of_def mutate_outcome_def edit_playlist_Ok check_all_Ok
      playlist_mut_Ok split: if_splits)

lemma insertions_of:
  assumes "length rs = length ups" and "map as_uri rs = map fst ups"
  shows "map (\<lambda>ins. (ins_pos ins, as_uri (in_uri ins)))
      (map2 (\<lambda>r p. \<lparr>in_uri = r, in_position = Some p\<rparr>) rs (map snd ups)) = map prod.swap ups"
  using assms by (induction rs ups rule: list_induct2) (auto simp: ins_pos_def)

lemma sorted_removals:
  assumes "distinct (map snd removed)"
  shows "sorted_wrt (<) (map snd (sort_key snd removed :: (string \<times> nat) list))"
proof -
  have "distinct (map snd (sort_key snd removed))"
    using assms by (simp add: distinct_map inj_on_def)
  then show ?thesis by (simp add: sorted_distinct_strict)
qed

text \<open>
  C27: Undoing a removal restores the playlist exactly. Whatever occurrences the daemon selected, with
  repeated tracks and in any order, the recorded reversal passes the version check right after the
  removal and puts every track back where it was.
\<close>

theorem removal_undo_restores:
  assumes pid: "resource_uri_parse pid = Ok puri" "ru_kind puri = Playlist"
    and pl: "fs_playlists w (as_uri puri) = Some p" and cur: "map mi_uri current = fp_items p"
    and plan: "build_remove_plan pid (pl_version_token (fp_metadata p)) puri requested current = Ok plan"
    and wf: "\<forall>r \<in> set requested. resource_uri_parse (as_uri r) = Ok r \<and> fs_media w (as_uri r) \<noteq> None"
    and applied: "apply_mutation provider w i (remove_plan_mutation plan) = Ok (w1, receipt)"
    and tok: "rc_version_token receipt = Some v"
  shows "check_version_token (remove_reversal plan v) (api_version_token (fake_api sh provider) w1) False = Ok () \<and>
    (\<exists>w2 p2. apply_reversal (fake_api sh provider) (remove_reversal plan v) w1 = Ok w2 \<and>
       fs_playlists w2 (as_uri puri) = Some p2 \<and> fp_items p2 = fp_items p)"
proof -
  from plan obtain items removed where sel: "select_playlist_remove_items requested current = Ok (items, removed)"
    and p1: "rp_playlist_id plan = pid" "rp_playlist_uri plan = puri" "rp_mutation_items plan = items"
      "rp_removed_items plan = sort_key snd removed"
    by (auto simp: build_remove_plan_def)
  note sf = selection_facts [OF sel]
  let ?s = "sort_key snd removed"
  obtain ys where ys: "remove_items items (fp_items p) = Ok ys"
    and w1: "w1 = put_playlist puri (commit_items p ys) w"
    and v: "pl_version_token (fp_metadata (commit_items p ys)) = Some v"
    and len: "length items \<le> 100" and own: "ensure_own_uri provider puri = Ok ()"
      "\<forall>it \<in> set items. ensure_own_uri provider (ir_uri it) = Ok ()"
    using apply_remove_Ok [OF _ pl] applied tok unfolding remove_plan_mutation_def p1 by metis
  have q: "fs_playlists w1 (as_uri puri) = Some (commit_items p ys)" by (simp add: w1 put_playlist_def)
  have res: "provider_playlist_resource d pid = Ok puri" for d
    using pid by (simp add: provider_playlist_resource_def)
  have rm: "remove_positioned (rev (map prod.swap ?s)) (fp_items p) = Ok ys"
    using ys sf(3,5) by (simp add: remove_items_def)
  have "\<forall>u \<in> set (map fst ?s). \<exists>r \<in> set requested. u = as_uri r \<and> resource_uri_parse u = Ok r"
    using sf(1) wf by (metis (no_types, lifting) image_iff list.set_map set_sort)
  then obtain rs where rs: "parse_uris (map fst ?s) = Ok rs" "map as_uri rs = map fst ?s" "set rs \<subseteq> set requested"
    using parse_known_uris by blast
  then have lrs: "length rs = length ?s" by (metis length_map)
  define inss where "inss = map2 (\<lambda>r p. \<lparr>in_uri = r, in_position = Some p\<rparr>) rs (map snd ?s)"
  have ins: "map (\<lambda>ins. (ins_pos ins, as_uri (in_uri ins))) inss = map prod.swap ?s"
    unfolding inss_def using lrs rs(2) by (rule insertions_of)
  then have "map ins_pos inss = map snd ?s"
    by (metis (no_types, lifting) comp_def fst_conv fst_swap list.map_comp map_eq_conv)
  then have strict: "sorted_wrt (<) (map ins_pos inss)" using sorted_removals [OF sf(2)] by simp
  have "distinct (map fst (rev (map prod.swap ?s)))"
    using sf(2) by (simp add: rev_map [symmetric] comp_def distinct_map inj_on_def)
  moreover have "\<forall>x \<in> set inss. in_position x \<noteq> None" by (auto simp: inss_def)
  ultimately have reins: "insert_items inss ys = Ok (fp_items p)"
    using insert_items_reinserts [OF rm _ _ strict] ins by simp
  have in_req: "in_uri x \<in> set requested" if "x \<in> set inss" for x
    using that rs(3) by (auto simp: inss_def dest: set_zip_leftD)
  have "ensure_own_uri provider r = Ok ()" if "r \<in> set requested" for r
    using that own(2) sf(6) by auto
  moreover have "length inss \<le> 100"
    using len sf(1,7) lrs length_map [of fst removed] length_map [of as_uri requested] by (simp add: inss_def)
  ultimately obtain r2 where "apply_mutation provider w1 [] (MutPlaylistAdd puri inss (Some v)) =
      Ok (put_playlist puri (commit_items (commit_items p ys) (fp_items p)) w1, r2)"
    using apply_add_Ok [of inss provider puri w1 "Some v" "commit_items p ys" "fp_items p" "[]"] own(1) wf in_req q v reins
    by (auto simp: playlist_mut_Ok w1 put_playlist_def)
  moreover have "reversal_mutation d (remove_reversal plan v) = Ok (MutPlaylistAdd puri inss (Some v))" for d
    by (simp add: reversal_mutation_def remove_reversal_def p1 res rs(1) inss_def)
  moreover have "check_version_token (remove_reversal plan v) (api_version_token (fake_api sh provider) w1) False = Ok ()"
    using q v by (simp add: check_version_token_def version_token_check_target_def remove_reversal_def p1 fake_api_def res)
  ultimately show ?thesis
    by (simp add: apply_reversal_def remove_reversal_def fake_api_def put_playlist_def)
qed

definition sample_track_a :: resource_uri where "sample_track_a = sample_uri Track ''a''"
definition sample_playlist :: resource_uri where "sample_playlist = sample_uri Playlist ''p''"

definition sample_items :: "string list" where
  "sample_items = [''fake:track:a'', ''fake:track:b'', ''fake:track:a'']"

definition sample_plan :: remove_plan where
  "sample_plan = \<lparr>rp_playlist_id = ''fake:playlist:p'', rp_version_token = Some ''v7'', rp_playlist_uri = sample_playlist,
     rp_mutation_items = [\<lparr>ir_uri = sample_track_a, ir_positions = [0]\<rparr>, \<lparr>ir_uri = sample_track_a, ir_positions = [2]\<rparr>],
     rp_removed_items = [(''fake:track:a'', 0), (''fake:track:a'', 2)]\<rparr>"

lemma sample_plan_built:
  "build_remove_plan ''fake:playlist:p'' (Some ''v7'') sample_playlist [sample_track_a, sample_track_a]
     (map media_stub sample_items) = Ok sample_plan"
proof -
  have "select_loop 0 [sample_track_a, sample_track_a] (available_positions (map media_stub sample_items)) =
      Ok (rp_mutation_items sample_plan, rp_removed_items sample_plan)" by code_simp
  then show ?thesis
    by (simp add: build_remove_plan_def select_playlist_remove_items_def sample_items_def sample_plan_def)
qed

theorem removal_undo_restores_witness:
  "\<exists>w1 v w2 p2. apply_reversal (fake_api (\<lambda>_. []) sample_provider) (remove_reversal sample_plan v) w1 = Ok w2 \<and>
     fs_playlists w2 (as_uri sample_playlist) = Some p2 \<and> fp_items p2 = sample_items"
proof -
  have v7: "version_label 7 = ''v7''" by code_simp
  have a: "as_uri \<lparr>ru_scheme = ''fake'', ru_kind = Track, ru_id = ''a''\<rparr> = ''fake:track:a''" by code_simp
  have "case apply_mutation sample_provider (sample_fake sample_items) [] (remove_plan_mutation sample_plan) of
      Ok (_, r) \<Rightarrow> rc_version_token r = Some (version_label 8) | Err _ \<Rightarrow> False"
    by (simp add: apply_mutation_def check_batch_def batch_of_def remove_plan_mutation_def sample_plan_def
        mutate_outcome_def ensure_own_uri_def sample_provider_def sample_playlist_def sample_track_a_def sample_uri_def
        edit_playlist_def playlist_mut_def sample_fake_def remove_items_def positioned_removals_def v7 a
        sample_items_def remove_at_def commit_items_def advance_playlist_def Let_def)
  then obtain w1 r where ap: "apply_mutation sample_provider (sample_fake sample_items) [] (remove_plan_mutation sample_plan) = Ok (w1, r)"
    "rc_version_token r = Some (version_label 8)" by (auto split: result.splits)
  have parse: "resource_uri_parse ''fake:playlist:p'' = Ok sample_playlist" by code_simp
  have kind: "ru_kind sample_playlist = Playlist" by code_simp
  have parse_a: "resource_uri_parse (as_uri sample_track_a) = Ok sample_track_a" by code_simp
  obtain p where p: "fs_playlists (sample_fake sample_items) (as_uri sample_playlist) = Some p"
    "fp_items p = sample_items" "pl_version_token (fp_metadata p) = Some ''v7''"
    by (simp add: sample_fake_def sample_playlist_def v7)
  have "map mi_uri (map media_stub sample_items) = fp_items p" by (simp add: p comp_def)
  moreover have "\<forall>r \<in> set [sample_track_a, sample_track_a]. resource_uri_parse (as_uri r) = Ok r \<and>
      fs_media (sample_fake sample_items) (as_uri r) \<noteq> None" using parse_a by (simp add: sample_fake_def)
  ultimately show ?thesis
    using removal_undo_restores [OF parse kind p(1) _ _ _ ap, of "map media_stub sample_items"
        "[sample_track_a, sample_track_a]" "\<lambda>_. []"] sample_plan_built p by auto
qed

section \<open>Undoing an addition\<close>

text \<open>What a provider with version tokens promises about them.\<close>

locale versioned_provider =
  fixes api :: "'w provider_api" and good :: "'w \<Rightarrow> bool"
  assumes add_moves_token:
    "good w \<Longrightarrow> api_apply api (add_mutation puri us expected) w = Ok w' \<Longrightarrow> us \<noteq> [] \<Longrightarrow>
       provider_playlist_resource (api_default_playlist api) pid = Ok puri \<Longrightarrow>
       api_version_token api w' pid \<noteq> api_version_token api w pid"
    and stale_refused:
    "provider_playlist_resource (api_default_playlist api) pid = Ok puri \<Longrightarrow>
       api_version_token api w pid \<noteq> Some v \<Longrightarrow>
       \<not> is_ok (api_apply api (MutPlaylistRemove puri items (Some v)) w)"
begin

lemma add_undo_refused:
  assumes "good w" and "us \<noteq> []" and "provider_playlist_resource (api_default_playlist api) pid = Ok puri"
    and "api_version_token api w pid = Some v" and "api_apply api (add_mutation puri us (Some v)) w = Ok w'"
    and "op_reversal_plan op = Some (add_reversal pid uris (Some v))"
  shows "\<not> is_ok (undo_single api op u False force (t, w'))"
proof -
  have tok: "api_version_token api w' pid \<noteq> Some v"
    using add_moves_token [OF assms(1,5,2,3)] assms(4) by simp
  have "\<not> is_ok (apply_reversal api (add_reversal pid uris (Some v)) w')"
    using stale_refused [OF assms(3) tok]
    by (auto simp: apply_reversal_def add_reversal_def reversal_mutation_def assms(3) split: result.split)
  moreover have "\<not> force \<Longrightarrow> check_version_token (add_reversal pid uris (Some v)) (api_version_token api w') force \<noteq> Ok ()"
    using tok by (simp add: check_version_token_Ok version_token_check_target_def add_reversal_def)
  ultimately have "undo_single api op u False force (t, w') \<noteq> Ok (r, t', w'')" for r t' w''
    using assms(6) by (auto simp: undo_single_applied)
  then show ?thesis by (cases "undo_single api op u False force (t, w')") auto
qed

end

definition versions_below_max :: "fake_state \<Rightarrow> bool" where
  "versions_below_max w \<longleftrightarrow> (\<forall>k p. fs_playlists w k = Some p \<longrightarrow> fp_version p < 2 ^ 64 - 1)"

lemma appended_items:
  "insert_items (map (\<lambda>u. \<lparr>in_uri = u, in_position = None\<rparr>) us) xs = Ok (xs @ map as_uri us)"
proof -
  have "List.map_filter (\<lambda>(order, ins). map_option (\<lambda>p. (p, order, as_uri (in_uri ins))) (in_position ins))
      (enumerate n (map (\<lambda>u. \<lparr>in_uri = u, in_position = None\<rparr>) us)) = []" for n
    by (induction us arbitrary: n) (simp_all add: List.map_filter_simps)
  then show ?thesis by (simp add: insert_items_def positioned_insertions_def comp_def)
qed

lemma fake_add_result:
  assumes "apply_mutation provider w i (add_mutation puri us v) = Ok (w', r)"
  shows "\<exists>p. fs_playlists w (as_uri puri) = Some p \<and>
    w' = put_playlist puri (commit_items p (fp_items p @ map as_uri us)) w \<and>
    ensure_own_uri provider puri = Ok () \<and> (\<forall>u \<in> set us. ensure_own_uri provider u = Ok ()) \<and> length us \<le> 100"
  using assms
  by (auto simp: apply_mutation_def add_mutation_def mutate_outcome_def edit_playlist_Ok appended_items playlist_mut_Ok
      check_all_Ok check_batch_def batch_of_def split: if_splits)

interpretation fake: versioned_provider "fake_api sh provider" "\<lambda>w. fake_ok w \<and> versions_below_max w"
  for sh provider
proof unfold_locales
  fix w w' puri us expected pid
  assume good: "fake_ok w \<and> versions_below_max w" and us: "us \<noteq> []"
    and ap: "api_apply (fake_api sh provider) (add_mutation puri us expected) w = Ok w'"
    and res: "provider_playlist_resource (api_default_playlist (fake_api sh provider)) pid = Ok puri"
  from ap obtain r where "apply_mutation provider w [] (add_mutation puri us expected) = Ok (w', r)"
    by (auto simp: fake_api_def split: result.splits)
  from fake_add_result [OF this] obtain p where p: "fs_playlists w (as_uri puri) = Some p"
    "w' = put_playlist puri (commit_items p (fp_items p @ map as_uri us)) w" by blast
  have "playlist_ok p" "fp_version p < 2 ^ 64 - 1"
    using good p(1) unfolding fake_ok_def versions_below_max_def by blast+
  then have "pl_version_token (fp_metadata (commit_items p (fp_items p @ map as_uri us))) \<noteq>
      pl_version_token (fp_metadata p)" using us by (simp add: commit_items_token del: One_nat_def)
  then show "api_version_token (fake_api sh provider) w' pid \<noteq> api_version_token (fake_api sh provider) w pid"
    using res p by (simp add: fake_api_def put_playlist_def)
next
  fix pid puri w v items
  assume res: "provider_playlist_resource (api_default_playlist (fake_api sh provider)) pid = Ok puri"
    and tok: "api_version_token (fake_api sh provider) w pid \<noteq> Some v"
  have "playlist_mut w puri (Some v) \<noteq> Ok p" for p
    using tok res by (auto simp: playlist_mut_Ok fake_api_def)
  then have "apply_mutation provider w [] (MutPlaylistRemove puri items (Some v)) \<noteq> Ok x" for x
    by (cases x) (auto simp: apply_mutation_def mutate_outcome_def edit_playlist_Ok)
  then show "\<not> is_ok (api_apply (fake_api sh provider) (MutPlaylistRemove puri items (Some v)) w)"
    by (auto simp: fake_api_def split: result.split)
qed


definition sample_add_op :: operation where
  "sample_add_op = (sample_op ''a'' 1)\<lparr>op_kind := KPlaylistAdd,
     op_reversal_plan := Some (add_reversal ''fake:playlist:p'' [''fake:track:a''] (Some (version_label 7)))\<rparr>"


lemma remove_everywhere:
  "remove_items (map (\<lambda>r. \<lparr>ir_uri = r, ir_positions = []\<rparr>) us) xs = Ok (filter (\<lambda>x. x \<notin> as_uri ` set us) xs)"
proof -
  have "positioned_removals (map (\<lambda>r. \<lparr>ir_uri = r, ir_positions = []\<rparr>) us) = []"
    by (induction us) (simp_all add: positioned_removals_def)
  then show ?thesis by (simp add: remove_items_def comp_def)
qed

text \<open>
  Where there is no version token to object, undoing an addition removes every occurrence of the
  added tracks, not only the added ones: the playlist becomes what it was without any of them. So the
  undo restores it exactly when none of the added tracks was in it before.
\<close>

theorem addition_undo_removes_all_copies:
  assumes "resource_uri_parse pid = Ok puri" and "ru_kind puri = Playlist"
    and "\<forall>r \<in> set us. resource_uri_parse (as_uri r) = Ok r"
    and "fs_playlists w (as_uri puri) = Some p"
    and "apply_mutation provider w i (add_mutation puri us v) = Ok (w1, receipt)"
  shows "\<exists>w2 p2. apply_reversal (fake_api sh provider) (add_reversal pid (map as_uri us) None) w1 = Ok w2 \<and>
    fs_playlists w2 (as_uri puri) = Some p2 \<and>
    fp_items p2 = filter (\<lambda>x. x \<notin> as_uri ` set us) (fp_items p) \<and>
    (fp_items p2 = fp_items p \<longleftrightarrow> set (fp_items p) \<inter> as_uri ` set us = {})"
proof -
  let ?xs = "fp_items p @ map as_uri us"
  from fake_add_result [OF assms(5)] assms(4) have w1: "w1 = put_playlist puri (commit_items p ?xs) w"
    and own: "ensure_own_uri provider puri = Ok ()" "\<forall>u \<in> set us. ensure_own_uri provider u = Ok ()"
    and len: "length us \<le> 100" by auto
  have rest: "filter (\<lambda>x. x \<notin> as_uri ` set us) ?xs = filter (\<lambda>x. x \<notin> as_uri ` set us) (fp_items p)"
    by (auto simp: filter_empty_conv)
  let ?q = "commit_items (commit_items p ?xs) (filter (\<lambda>x. x \<notin> as_uri ` set us) (fp_items p))"
  let ?m = "MutPlaylistRemove puri (map (\<lambda>r. \<lparr>ir_uri = r, ir_positions = []\<rparr>) us) None"
  have "\<exists>r. apply_mutation provider w1 [] ?m = Ok (put_playlist puri ?q w1, r)"
    using own len rest
    by (simp add: apply_mutation_def check_batch_def batch_of_def mutate_outcome_def edit_playlist_def Let_def
        check_all_Ok [THEN iffD2] playlist_mut_def w1 put_playlist_def remove_everywhere)
  moreover have "reversal_mutation d (add_reversal pid (map as_uri us) None) = Ok ?m" for d
    using assms(1-3)
    by (simp add: reversal_mutation_def add_reversal_def provider_playlist_resource_def parse_uris_as_uri)
  ultimately have "apply_reversal (fake_api sh provider) (add_reversal pid (map as_uri us) None) w1 =
      Ok (put_playlist puri ?q w1)"
    by (auto simp: apply_reversal_def add_reversal_def fake_api_def)
  moreover have "filter (\<lambda>x. x \<notin> as_uri ` set us) (fp_items p) = fp_items p \<longleftrightarrow>
      set (fp_items p) \<inter> as_uri ` set us = {}"
    by (auto simp: filter_id_conv)
  ultimately show ?thesis by (simp add: put_playlist_def)
qed

theorem addition_undo_removes_all_copies_witness:
  "\<exists>w1 w2 p2. apply_reversal (fake_api (\<lambda>_. []) sample_provider) (add_reversal ''fake:playlist:p'' [''fake:track:a''] None) w1 = Ok w2 \<and>
     fs_playlists w2 (as_uri sample_playlist) = Some p2 \<and> fp_items p2 = [''fake:track:b'']"
proof -
  have parse: "resource_uri_parse ''fake:playlist:p'' = Ok sample_playlist" by code_simp
  have kind: "ru_kind sample_playlist = Playlist" by code_simp
  have parse_a: "resource_uri_parse (as_uri sample_track_a) = Ok sample_track_a" by code_simp
  have a: "as_uri sample_track_a = ''fake:track:a''" by code_simp
  obtain p where p: "fs_playlists (sample_fake sample_items) (as_uri sample_playlist) = Some p" "fp_items p = sample_items"
    by (simp add: sample_fake_def sample_playlist_def)
  obtain w1 r where w1: "apply_mutation sample_provider (sample_fake sample_items) [] (add_mutation sample_playlist [sample_track_a] None) = Ok (w1, r)"
    by (simp add: apply_mutation_def add_mutation_def check_batch_def batch_of_def mutate_outcome_def
        ensure_own_uri_def sample_provider_def sample_playlist_def sample_track_a_def sample_uri_def known_media_def
        edit_playlist_def playlist_mut_def sample_fake_def insert_items_def positioned_insertions_def
        List.map_filter_simps Let_def)
  show ?thesis
    using addition_undo_removes_all_copies [OF parse kind _ p(1) w1, of "\<lambda>_. []"] parse_a a
    by (auto simp: p(2) sample_items_def)
qed

end
