(* ===== verification/Keyed_Table.thy ===== *)
theory Keyed_Table
  imports Prelude
begin

text \<open>
  SQL tables with a primary key, as the store modules use them: rows in insertion order, the lookup by
  key, the guarded update \<open>UPDATE \<dots> WHERE key = k AND c\<close> with the number of rows it affects, and the
  guarded delete. The laws hold for any key column.
\<close>

definition row_at :: "('r \<Rightarrow> 'k) \<Rightarrow> 'k \<Rightarrow> 'r list \<Rightarrow> 'r option" where
  "row_at key k t = find (\<lambda>r. key r = k) t"

definition update_at :: "('r \<Rightarrow> 'k) \<Rightarrow> 'k \<Rightarrow> ('r \<Rightarrow> bool) \<Rightarrow> ('r \<Rightarrow> 'r) \<Rightarrow> 'r list \<Rightarrow> 'r list" where
  "update_at key k c f t = map (\<lambda>r. if key r = k \<and> c r then f r else r) t"

definition rows_hit :: "('r \<Rightarrow> 'k) \<Rightarrow> 'k \<Rightarrow> ('r \<Rightarrow> bool) \<Rightarrow> 'r list \<Rightarrow> nat" where
  "rows_hit key k c t = length (filter (\<lambda>r. key r = k \<and> c r) t)"

lemma row_at_SomeD: "row_at key k t = Some r \<Longrightarrow> key r = k \<and> r \<in> set t"
  by (auto simp: row_at_def find_Some_iff)

lemma row_at_None_iff: "row_at key k t = None \<longleftrightarrow> k \<notin> key ` set t"
  by (auto simp: row_at_def find_None_iff)

lemma row_at_Nil [simp]: "row_at key k [] = None"
  by (simp add: row_at_def)

lemma row_at_Cons: "row_at key k (r # t) = (if key r = k then Some r else row_at key k t)"
  by (simp add: row_at_def)

lemma row_at_append: "row_at key k (t @ u) = (case row_at key k t of None \<Rightarrow> row_at key k u | Some r \<Rightarrow> Some r)"
  by (induction t) (simp_all add: row_at_Cons)

lemma row_at_iff: "distinct (map key t) \<Longrightarrow> row_at key k t = Some r \<longleftrightarrow> r \<in> set t \<and> key r = k"
  by (induction t) (auto simp: row_at_Cons image_iff)

lemma ex_row_at: "distinct (map key t) \<Longrightarrow> (\<exists>r \<in> set t. key r = k \<and> P r) \<longleftrightarrow> (\<exists>r. row_at key k t = Some r \<and> P r)"
  by (auto simp: row_at_iff)

lemma all_rows: "distinct (map key t) \<Longrightarrow> (\<forall>r \<in> set t. P r) \<longleftrightarrow> (\<forall>k r. row_at key k t = Some r \<longrightarrow> P r)"
  by (auto simp: row_at_iff)

lemma row_at_map:
  assumes "\<And>r. key (g r) = key r"
  shows "row_at key k (map g t) = map_option g (row_at key k t)"
  by (induction t) (simp_all add: row_at_Cons assms)

lemma row_at_update:
  assumes "\<And>r. key (f r) = key r"
  shows "row_at key k (update_at key k' c f t) = map_option (\<lambda>r. if k = k' \<and> c r then f r else r) (row_at key k t)"
  unfolding update_at_def
  by (subst row_at_map) (auto simp: assms dest: row_at_SomeD intro!: map_option_cong)

lemma keys_update: "(\<And>r. key (f r) = key r) \<Longrightarrow> map key (update_at key k c f t) = map key t"
  by (simp add: update_at_def)

lemma update_at_id: "(\<And>r. r \<in> set t \<Longrightarrow> key r = k \<Longrightarrow> \<not> c r) \<Longrightarrow> update_at key k c f t = t"
  unfolding update_at_def by (rule map_idI) auto

lemma rows_hit_le: "distinct (map key t) \<Longrightarrow> rows_hit key k c t = (case row_at key k t of
    Some r \<Rightarrow> if c r then 1 else 0 | None \<Rightarrow> 0)"
proof (induction t)
  case (Cons x t)
  moreover have "rows_hit key k c t = 0" if "key x = k"
    using Cons.prems that by (auto simp: rows_hit_def filter_empty_conv) (metis imageI)
  ultimately show ?case by (auto simp: row_at_Cons rows_hit_def)
qed (simp add: rows_hit_def)

lemma row_at_filter:
  "distinct (map key t) \<Longrightarrow> row_at key k (filter P t) = (case row_at key k t of
     Some r \<Rightarrow> if P r then Some r else None | None \<Rightarrow> None)"
proof (induction t)
  case (Cons x t)
  then have "row_at key (key x) t = None" by (simp add: row_at_None_iff)
  with Cons show ?case by (auto simp: row_at_Cons split: option.split)
qed simp

lemma distinct_keys_filter: "distinct (map key t) \<Longrightarrow> distinct (map key (filter P t))"
  by (induction t) auto

end
