(* ===== verification/Reconciliation.thy ===== *)
theory Reconciliation
  imports Media Keyed_Table "HOL-Library.Char_ord" "HOL-Library.List_Lexorder"
begin

text \<open>
  \<open>spotuify-store/src/provider_reconciliations.rs\<close>: the durable follow-up of a mutation that a provider
  acknowledged only in part. A row is claimed by one worker at a time under a fresh token, counts its
  attempts, and is completed after as many successful passes as its stability entry asks for. The
  writes are guarded by status, attempt number and token, so that a worker whose write failed can find
  out from the row whether it took effect. An update is one SQL transaction: it happens completely or
  not at all, and the caller may be told of an error in either case (\<open>io_outcome\<close>).
\<close>

section \<open>Rows\<close>

datatype recon_scope = Targeted | FullDomain

primrec recon_scope_label :: "recon_scope \<Rightarrow> string" where
  "recon_scope_label Targeted = ''targeted''"
| "recon_scope_label FullDomain = ''full_domain''"

definition recon_scope_parse :: "string \<Rightarrow> (recon_scope, string) result" where
  "recon_scope_parse label =
     (if label = ''targeted'' then Ok Targeted
      else if label = ''full_domain'' then Ok FullDomain
      else Err (''unknown provider reconciliation scope `'' @ label @ ''`''))"

interpretation recon_scope_codec: strict_label_codec recon_scope_label "\<lambda>s. result_ok (recon_scope_parse s)"
proof unfold_locales
  show "result_ok (recon_scope_parse (recon_scope_label x)) = Some x" for x
    by (cases x) (simp_all add: recon_scope_parse_def)
qed (auto simp: recon_scope_parse_def split: if_splits)

datatype recon_status = ReconPending | ReconRunning | ReconCompleted

record provider_reconciliation =
  pr_id :: string
  pr_receipt_id :: string
  pr_operation_id :: string
  pr_provider :: string
  pr_target :: sync_target
  pr_scope :: recon_scope
  pr_resource_uris :: "string list"
  pr_attempts :: u32
  pr_claim_token :: "string option"
  pr_last_error :: "string option"
  pr_minimum_successful_passes :: u8

text \<open>\<open>ProviderReconciliation::targeted\<close>, \<open>full_domain\<close> and \<open>require_stability_pass\<close>.\<close>

definition recon_targeted ::
    "string \<Rightarrow> string \<Rightarrow> string \<Rightarrow> string \<Rightarrow> sync_target \<Rightarrow> string list \<Rightarrow> provider_reconciliation" where
  "recon_targeted i receipt operation provider target uris =
     \<lparr>pr_id = i, pr_receipt_id = receipt, pr_operation_id = operation, pr_provider = provider,
      pr_target = target, pr_scope = Targeted, pr_resource_uris = uris, pr_attempts = 0,
      pr_claim_token = None, pr_last_error = None, pr_minimum_successful_passes = 1\<rparr>"

definition recon_full_domain ::
    "string \<Rightarrow> string \<Rightarrow> string \<Rightarrow> string \<Rightarrow> sync_target \<Rightarrow> provider_reconciliation" where
  "recon_full_domain i receipt operation provider target =
     (recon_targeted i receipt operation provider target [])\<lparr>pr_scope := FullDomain\<rparr>"

definition require_stability_pass :: "provider_reconciliation \<Rightarrow> provider_reconciliation" where
  "require_stability_pass r = r\<lparr>pr_minimum_successful_passes := 2\<rparr>"

text \<open>A row of \<open>provider_reconciliations\<close> and an entry of \<open>provider_reconciliation_stability\<close>.\<close>

record recon_row =
  rn_id :: string
  rn_receipt_id :: string
  rn_operation_id :: string
  rn_provider :: string
  rn_target :: sync_target
  rn_scope :: recon_scope
  rn_resources :: "string list"
  rn_status :: recon_status
  rn_attempts :: nat
  rn_claim_token :: "string option"
  rn_last_claim_token :: "string option"
  rn_last_error :: "string option"
  rn_created_at_ms :: i64
  rn_finished_at_ms :: "i64 option"

record stability =
  sb_required :: nat
  sb_successful :: nat
  sb_next_pass_after_ms :: "i64 option"

record recon_tables =
  rt_rows :: "recon_row list"
  rt_stability :: "string \<rightharpoonup> stability"

definition row_to_reconciliation :: "recon_row \<Rightarrow> provider_reconciliation" where
  "row_to_reconciliation r =
     \<lparr>pr_id = rn_id r, pr_receipt_id = rn_receipt_id r, pr_operation_id = rn_operation_id r,
      pr_provider = rn_provider r, pr_target = rn_target r, pr_scope = rn_scope r,
      pr_resource_uris = rn_resources r, pr_attempts = rn_attempts r, pr_claim_token = rn_claim_token r,
      pr_last_error = rn_last_error r, pr_minimum_successful_passes = 1\<rparr>"

definition find_row :: "string \<Rightarrow> recon_tables \<Rightarrow> recon_row option" where
  "find_row i t = row_at rn_id i (rt_rows t)"

text \<open>\<open>UPDATE \<dots> WHERE reconciliation_id = i AND c\<close> and the number of rows it affects.\<close>

definition update_row :: "string \<Rightarrow> (recon_row \<Rightarrow> bool) \<Rightarrow> (recon_row \<Rightarrow> recon_row) \<Rightarrow> recon_tables \<Rightarrow> recon_tables" where
  "update_row i c f t = t\<lparr>rt_rows := update_at rn_id i c f (rt_rows t)\<rparr>"

section \<open>Inserting and merging\<close>

definition normalized_resources :: "recon_scope \<Rightarrow> string list \<Rightarrow> string list" where
  "normalized_resources scope resources =
     (if scope = FullDomain then [] else remdups_adj (sort resources))"

definition upsert_stability :: "string \<Rightarrow> u8 \<Rightarrow> recon_tables \<Rightarrow> recon_tables" where
  "upsert_stability i minimum t =
     (if minimum \<le> 1 then t
      else t\<lparr>rt_stability := (rt_stability t)(i \<mapsto> (case rt_stability t i of
          None \<Rightarrow> \<lparr>sb_required = minimum, sb_successful = 0, sb_next_pass_after_ms = None\<rparr>
        | Some s \<Rightarrow> s\<lparr>sb_required := max (sb_required s) minimum\<rparr>))\<rparr>)"

definition recon_key :: "recon_row \<Rightarrow> string \<times> string \<times> sync_target" where
  "recon_key r = (rn_receipt_id r, rn_provider r, rn_target r)"

definition merged_scope :: "recon_scope \<Rightarrow> recon_scope \<Rightarrow> recon_scope" where
  "merged_scope a b = (if a = FullDomain \<or> b = FullDomain then FullDomain else Targeted)"

definition new_row :: "provider_reconciliation \<Rightarrow> i64 \<Rightarrow> recon_row" where
  "new_row p created_at_ms =
     \<lparr>rn_id = pr_id p, rn_receipt_id = pr_receipt_id p, rn_operation_id = pr_operation_id p,
      rn_provider = pr_provider p, rn_target = pr_target p, rn_scope = pr_scope p,
      rn_resources = normalized_resources (pr_scope p) (pr_resource_uris p), rn_status = ReconPending,
      rn_attempts = 0, rn_claim_token = None, rn_last_claim_token = None, rn_last_error = None,
      rn_created_at_ms = created_at_ms, rn_finished_at_ms = None\<rparr>"

text \<open>
  An insert that the table's constraints refuse (a duplicate id, a target other than library and
  playlists) is an error of the statement.
\<close>

definition insert_reconciliation ::
    "provider_reconciliation \<Rightarrow> i64 \<Rightarrow> recon_tables \<Rightarrow> (recon_tables, string) result" where
  "insert_reconciliation p created_at_ms t =
     (case find (\<lambda>r. recon_key r = (pr_receipt_id p, pr_provider p, pr_target p)) (rt_rows t) of
        Some existing \<Rightarrow>
          if rn_operation_id existing \<noteq> pr_operation_id p
          then Err (''reconciliation key is already bound to operation '' @ rn_operation_id existing)
          else let scope = merged_scope (rn_scope existing) (pr_scope p)
               in Ok (upsert_stability (rn_id existing) (pr_minimum_successful_passes p)
                    (update_row (rn_id existing) (\<lambda>_. True) (\<lambda>r. r\<lparr>rn_scope := scope,
                       rn_resources := normalized_resources scope (rn_resources existing @ pr_resource_uris p)\<rparr>) t))
      | None \<Rightarrow>
          if find_row (pr_id p) t \<noteq> None \<or> pr_target p \<notin> {TargetLibrary, TargetPlaylists}
          then Err ''constraint failed''
          else Ok (upsert_stability (pr_id p) (pr_minimum_successful_passes p)
                 (t\<lparr>rt_rows := rt_rows t @ [new_row p created_at_ms]\<rparr>)))"

definition pending_reconciliations :: "recon_tables \<Rightarrow> provider_reconciliation list" where
  "pending_reconciliations t =
     map row_to_reconciliation (sort_key rn_created_at_ms (filter (\<lambda>r. rn_status r = ReconPending) (rt_rows t)))"

definition reconciliation_pending :: "string \<Rightarrow> recon_tables \<Rightarrow> bool" where
  "reconciliation_pending receipt t \<longleftrightarrow>
     (\<exists>r \<in> set (rt_rows t). rn_receipt_id r = receipt \<and> rn_status r \<in> {ReconPending, ReconRunning})"

definition reconciliation_exists :: "string \<Rightarrow> recon_tables \<Rightarrow> bool" where
  "reconciliation_exists receipt t \<longleftrightarrow> (\<exists>r \<in> set (rt_rows t). rn_receipt_id r = receipt)"

section \<open>Claiming\<close>

text \<open>
  How a write transaction ends: it commits; it fails and nothing happened; or the commit is reported
  as failed although it took effect.
\<close>

datatype io_outcome = Committed | NotApplied | AppliedButFailed

definition stability_due :: "string \<Rightarrow> i64 \<Rightarrow> recon_tables \<Rightarrow> bool" where
  "stability_due i now_ms t = (case Option.bind (rt_stability t i) sb_next_pass_after_ms of
       Some next \<Rightarrow> next \<le> now_ms | None \<Rightarrow> True)"

definition claimable :: "nat \<Rightarrow> recon_row \<Rightarrow> bool" where
  "claimable expected_attempts r \<longleftrightarrow> rn_status r = ReconPending \<and> rn_attempts r = expected_attempts"

definition claim_update :: "string \<Rightarrow> nat \<Rightarrow> string \<Rightarrow> i64 \<Rightarrow> recon_tables \<Rightarrow> recon_tables" where
  "claim_update i expected_attempts token now_ms t =
     (if stability_due i now_ms t
      then update_row i (claimable expected_attempts) (\<lambda>r. r\<lparr>rn_status := ReconRunning,
             rn_attempts := rn_attempts r + 1, rn_claim_token := Some token, rn_last_claim_token := None\<rparr>) t
      else t)"

definition claim_granted :: "string \<Rightarrow> nat \<Rightarrow> i64 \<Rightarrow> recon_tables \<Rightarrow> bool" where
  "claim_granted i expected_attempts now_ms t \<longleftrightarrow> stability_due i now_ms t \<and>
     (\<exists>r \<in> set (rt_rows t). rn_id r = i \<and> claimable expected_attempts r)"

definition find_running :: "string \<Rightarrow> recon_tables \<Rightarrow> provider_reconciliation option" where
  "find_running i t = map_option row_to_reconciliation
     (find (\<lambda>r. rn_id r = i \<and> rn_status r = ReconRunning) (rt_rows t))"

definition holds_claim :: "nat \<Rightarrow> string \<Rightarrow> provider_reconciliation \<Rightarrow> bool" where
  "holds_claim expected_attempts token p \<longleftrightarrow>
     pr_attempts p = expected_attempts + 1 \<and> pr_claim_token p = Some token"

text \<open>The result \<open>Err ()\<close> is the storage error passed on to the caller.\<close>

definition claim_reconciliation ::
    "string \<Rightarrow> nat \<Rightarrow> string \<Rightarrow> i64 \<Rightarrow> io_outcome \<Rightarrow> recon_tables
      \<Rightarrow> recon_tables \<times> (provider_reconciliation option, unit) result" where
  "claim_reconciliation i expected_attempts token now_ms io t =
     (let t' = (if io = NotApplied then t else claim_update i expected_attempts token now_ms t)
      in if io = Committed
         then (t', Ok (if claim_granted i expected_attempts now_ms t then find_running i t' else None))
         else (t', case find_running i t' of
                 Some p \<Rightarrow> if holds_claim expected_attempts token p then Ok (Some p) else Err ()
               | None \<Rightarrow> Err ()))"

definition recover_claim_after_error ::
    "string \<Rightarrow> nat \<Rightarrow> string \<Rightarrow> i64 \<Rightarrow> io_outcome \<Rightarrow> recon_tables
      \<Rightarrow> recon_tables \<times> (provider_reconciliation option, unit) result" where
  "recover_claim_after_error i expected_attempts token now_ms io t =
     (case find_running i t of
        Some p \<Rightarrow> if holds_claim expected_attempts token p then (t, Ok (Some p))
                  else claim_reconciliation i expected_attempts token now_ms io t
      | None \<Rightarrow> claim_reconciliation i expected_attempts token now_ms io t)"

definition reset_row :: "recon_row \<Rightarrow> recon_row" where
  "reset_row r = (if rn_status r = ReconRunning
     then r\<lparr>rn_status := ReconPending, rn_last_error := Some ''daemon stopped during reconciliation'',
            rn_claim_token := None, rn_last_claim_token := None\<rparr>
     else r)"

definition recover_running_reconciliations :: "recon_tables \<Rightarrow> recon_tables" where
  "recover_running_reconciliations t = t\<lparr>rt_rows := map reset_row (rt_rows t)\<rparr>"

definition not_before_ms :: "string \<Rightarrow> nat \<Rightarrow> i64 \<Rightarrow> recon_tables \<Rightarrow> i64 option" where
  "not_before_ms i expected_attempts now_ms t =
     (if \<exists>r \<in> set (rt_rows t). rn_id r = i \<and> claimable expected_attempts r
      then (case Option.bind (rt_stability t i) sb_next_pass_after_ms of
              Some next \<Rightarrow> if now_ms < next then Some next else None | None \<Rightarrow> None)
      else None)"

section \<open>Reporting the outcome of a pass\<close>

datatype completion = Completed | NeedsAnotherPass | Stale

definition held :: "nat \<Rightarrow> string \<Rightarrow> recon_row \<Rightarrow> bool" where
  "held expected_attempts token r \<longleftrightarrow>
     rn_status r = ReconRunning \<and> rn_attempts r = expected_attempts \<and> rn_claim_token r = Some token"

definition required_passes :: "string \<Rightarrow> recon_tables \<Rightarrow> nat" where
  "required_passes i t = (case rt_stability t i of Some s \<Rightarrow> sb_required s | None \<Rightarrow> 1)"

definition successful_passes :: "string \<Rightarrow> recon_tables \<Rightarrow> nat" where
  "successful_passes i t = (case rt_stability t i of Some s \<Rightarrow> sb_successful s | None \<Rightarrow> 0)"

definition count_pass :: "string \<Rightarrow> i64 option \<Rightarrow> recon_tables \<Rightarrow> recon_tables" where
  "count_pass i next_pass t = t\<lparr>rt_stability := (rt_stability t)(i := map_option (\<lambda>s.
     s\<lparr>sb_successful := sb_successful s + 1, sb_next_pass_after_ms := next_pass\<rparr>) (rt_stability t i))\<rparr>"

text \<open>The transaction of \<open>record_provider_reconciliation_success\<close> when it commits.\<close>

definition success_update ::
    "string \<Rightarrow> nat \<Rightarrow> string \<Rightarrow> i64 \<Rightarrow> recon_tables \<Rightarrow> recon_tables \<times> completion" where
  "success_update i expected_attempts token finished_at_ms t =
     (if \<not> (\<exists>r \<in> set (rt_rows t). rn_id r = i \<and> held expected_attempts token r) then (t, Stale)
      else if successful_passes i t + 1 < required_passes i t
      then (count_pass i (Some (sat_i64 (finished_at_ms + 2000)))
              (update_row i (held expected_attempts token) (\<lambda>r. r\<lparr>rn_status := ReconPending,
                 rn_last_error := None, rn_claim_token := None, rn_last_claim_token := Some token\<rparr>) t),
            NeedsAnotherPass)
      else (count_pass i None
              (update_row i (held expected_attempts token) (\<lambda>r. r\<lparr>rn_status := ReconCompleted,
                 rn_finished_at_ms := Some finished_at_ms, rn_last_error := None, rn_claim_token := None,
                 rn_last_claim_token := Some token\<rparr>) t),
            Completed))"

definition classify_success :: "string \<Rightarrow> nat \<Rightarrow> string \<Rightarrow> bool \<Rightarrow> recon_tables \<Rightarrow> (completion, unit) result" where
  "classify_success i expected_attempts token failed t = (case find_row i t of
       None \<Rightarrow> if failed then Err () else Ok Stale
     | Some r \<Rightarrow>
         if rn_attempts r \<noteq> expected_attempts then Ok Stale
         else if rn_status r = ReconCompleted \<and> rn_last_claim_token r = Some token then Ok Completed
         else if rn_status r = ReconPending \<and> rn_last_claim_token r = Some token then Ok NeedsAnotherPass
         else if rn_status r = ReconRunning \<and> rn_claim_token r = Some token then Err ()
         else Ok Stale)"

definition record_success ::
    "string \<Rightarrow> nat \<Rightarrow> string \<Rightarrow> i64 \<Rightarrow> io_outcome \<Rightarrow> recon_tables \<Rightarrow> recon_tables \<times> (completion, unit) result" where
  "record_success i expected_attempts token finished_at_ms io t =
     (case success_update i expected_attempts token finished_at_ms t of (t1, c) \<Rightarrow>
        (let t' = (if io = NotApplied then t else t1)
         in if io = Committed \<and> c \<noteq> Stale then (t', Ok c)
            else (t', classify_success i expected_attempts token (io \<noteq> Committed) t')))"

datatype guarded_write = GwApplied | GwStale | GwRetry

definition classify_guarded_write_after_error ::
    "recon_status \<Rightarrow> nat \<Rightarrow> nat \<Rightarrow> string option \<Rightarrow> string option \<Rightarrow> string \<Rightarrow> recon_status \<Rightarrow> guarded_write" where
  "classify_guarded_write_after_error status attempts expected_attempts current_token last_token token applied_status =
     (if attempts \<noteq> expected_attempts then GwStale
      else if status = applied_status \<and> last_token = Some token then GwApplied
      else if status = ReconRunning \<and> current_token = Some token then GwRetry
      else GwStale)"

text \<open>The error text is passed in as it is stored: redacted and cut to 512 characters.\<close>

definition fail_update :: "string \<Rightarrow> nat \<Rightarrow> string \<Rightarrow> string \<Rightarrow> recon_tables \<Rightarrow> recon_tables" where
  "fail_update i expected_attempts token error_text t =
     update_row i (held expected_attempts token) (\<lambda>r. r\<lparr>rn_status := ReconPending,
       rn_last_error := Some error_text, rn_claim_token := None, rn_last_claim_token := Some token\<rparr>) t"

definition fail_reconciliation ::
    "string \<Rightarrow> nat \<Rightarrow> string \<Rightarrow> string \<Rightarrow> io_outcome \<Rightarrow> recon_tables \<Rightarrow> recon_tables \<times> (bool, unit) result" where
  "fail_reconciliation i expected_attempts token error_text io t =
     (let t' = (if io = NotApplied then t else fail_update i expected_attempts token error_text t);
          matched = (\<exists>r \<in> set (rt_rows t). rn_id r = i \<and> held expected_attempts token r)
      in if io = Committed \<and> matched then (t', Ok True)
         else (t', case find_row i t' of
             Some r \<Rightarrow> (case classify_guarded_write_after_error (rn_status r) (rn_attempts r) expected_attempts
                             (rn_claim_token r) (rn_last_claim_token r) token ReconPending of
                 GwApplied \<Rightarrow> Ok True | GwStale \<Rightarrow> Ok False | GwRetry \<Rightarrow> Err ())
           | None \<Rightarrow> if io = Committed then Ok False else Err ()))"

section \<open>Rows by id\<close>

abbreviation ids :: "recon_tables \<Rightarrow> string list" where
  "ids t \<equiv> map rn_id (rt_rows t)"

lemma find_row_SomeD: "find_row i t = Some r \<Longrightarrow> rn_id r = i \<and> r \<in> set (rt_rows t)"
  by (auto simp: find_row_def dest: row_at_SomeD)

lemma find_row_iff: "distinct (ids t) \<Longrightarrow> find_row i t = Some r \<longleftrightarrow> r \<in> set (rt_rows t) \<and> rn_id r = i"
  by (simp add: find_row_def row_at_iff)

lemma ex_row: "distinct (ids t) \<Longrightarrow> (\<exists>r \<in> set (rt_rows t). rn_id r = i \<and> P r) \<longleftrightarrow> (\<exists>r. find_row i t = Some r \<and> P r)"
  by (simp add: find_row_def ex_row_at)

lemma find_row_update:
  assumes "\<And>r. rn_id (f r) = rn_id r"
  shows "find_row i (update_row j c f t) = map_option (\<lambda>r. if i = j \<and> c r then f r else r) (find_row i t)"
  by (simp add: find_row_def update_row_def row_at_update assms)

lemma ids_update: "(\<And>r. rn_id (f r) = rn_id r) \<Longrightarrow> ids (update_row j c f t) = ids t"
  by (simp add: update_row_def keys_update)

lemma update_row_id: "(\<And>r. r \<in> set (rt_rows t) \<Longrightarrow> rn_id r = i \<Longrightarrow> \<not> c r) \<Longrightarrow> update_row i c f t = t"
  by (simp add: update_row_def update_at_id)

section \<open>Runs\<close>

datatype recon_op =
    OpInsert provider_reconciliation i64
  | OpClaim string nat string i64 io_outcome
  | OpSuccess string nat string i64 io_outcome
  | OpFail string nat string string io_outcome
  | OpRestart

primrec recon_step :: "recon_op \<Rightarrow> recon_tables \<Rightarrow> recon_tables" where
  "recon_step (OpInsert p at) t = (case insert_reconciliation p at t of Ok t' \<Rightarrow> t' | Err _ \<Rightarrow> t)"
| "recon_step (OpClaim i n tok now io) t = fst (claim_reconciliation i n tok now io t)"
| "recon_step (OpSuccess i n tok fin io) t = fst (record_success i n tok fin io t)"
| "recon_step (OpFail i n tok e io) t = fst (fail_reconciliation i n tok e io t)"
| "recon_step OpRestart t = recover_running_reconciliations t"

text \<open>The claims a step grants: row, attempt number and token.\<close>

fun granted :: "recon_op \<Rightarrow> recon_tables \<Rightarrow> (string \<times> nat \<times> string) list" where
  "granted (OpClaim i n tok now io) t =
     (if io \<noteq> NotApplied \<and> claim_granted i n now t then [(i, n + 1, tok)] else [])"
| "granted _ t = []"

fun recon_run :: "recon_op list \<Rightarrow> recon_tables \<Rightarrow> recon_tables \<times> (string \<times> nat \<times> string) list" where
  "recon_run [] t = (t, [])"
| "recon_run (op # ops) t = (case recon_run ops (recon_step op t) of (t', gs) \<Rightarrow> (t', granted op t @ gs))"

definition attempt_key :: "string \<times> nat \<times> string \<Rightarrow> string \<times> nat" where
  "attempt_key g = (fst g, fst (snd g))"

definition grants_ok :: "(string \<times> nat \<times> string) list \<Rightarrow> recon_tables \<Rightarrow> bool" where
  "grants_ok gs t \<longleftrightarrow> distinct (ids t) \<and> distinct (map attempt_key gs) \<and>
     (\<forall>i n tok. (i, n, tok) \<in> set gs \<longrightarrow> (\<exists>r. find_row i t = Some r \<and> n \<le> rn_attempts r)) \<and>
     (\<forall>i r. find_row i t = Some r \<and> rn_status r = ReconRunning \<longrightarrow>
        (\<exists>tok. rn_claim_token r = Some tok \<and> (i, rn_attempts r, tok) \<in> set gs))"

text \<open>A step that grants nothing keeps every row, and whoever is running was running before.\<close>

definition quiet :: "recon_tables \<Rightarrow> recon_tables \<Rightarrow> bool" where
  "quiet t t' \<longleftrightarrow> (distinct (ids t) \<longrightarrow> distinct (ids t')) \<and> (\<forall>i. case find_row i t' of
       None \<Rightarrow> find_row i t = None
     | Some r' \<Rightarrow> (case find_row i t of
           None \<Rightarrow> rn_status r' \<noteq> ReconRunning
         | Some r \<Rightarrow> rn_attempts r' = rn_attempts r \<and>
             (rn_status r' = ReconRunning \<longrightarrow> rn_status r = ReconRunning \<and> rn_claim_token r' = rn_claim_token r)))"

lemma quiet_refl [simp]: "quiet t t"
  by (simp add: quiet_def split: option.split)

lemma quiet_update:
  assumes "\<And>r. rn_id (f r) = rn_id r" and "\<And>r. rn_attempts (f r) = rn_attempts r"
    and "\<And>r. rn_status (f r) = ReconRunning \<Longrightarrow> rn_status r = ReconRunning \<and> rn_claim_token (f r) = rn_claim_token r"
  shows "quiet t (update_row i c f t)"
  using assms by (auto simp: quiet_def find_row_update ids_update split: option.split)

lemma quiet_stability [simp]: "quiet t (t'\<lparr>rt_stability := s\<rparr>) = quiet t t'"
  by (simp add: quiet_def find_row_def cong: option.case_cong)

lemma quiet_append:
  assumes "find_row (rn_id r) t = None" and "rn_status r \<noteq> ReconRunning"
  shows "quiet t (t\<lparr>rt_rows := rt_rows t @ [r]\<rparr>)"
proof -
  have f: "find_row i (t\<lparr>rt_rows := rt_rows t @ [r]\<rparr>) =
      (case find_row i t of None \<Rightarrow> if rn_id r = i then Some r else None | Some x \<Rightarrow> Some x)" for i
    by (simp add: find_row_def row_at_append row_at_Cons split: option.split)
  have "rn_id r \<notin> set (ids t)" using assms(1) by (auto simp: find_row_def row_at_None_iff)
  with assms show ?thesis by (auto simp: quiet_def f split: option.split)
qed

lemma quiet_step:
  assumes "granted op t = []"
  shows "quiet t (recon_step op t)"
proof (cases op)
  case (OpInsert p at)
  have "quiet t t'" if "insert_reconciliation p at t = Ok t'" for t'
    using that
    by (auto simp: insert_reconciliation_def upsert_stability_def Let_def new_row_def
        split: option.splits if_splits intro!: quiet_update quiet_append)
  with OpInsert show ?thesis by (simp split: result.split)
next
  case (OpClaim i n tok now io)
  then have "io = NotApplied \<or> \<not> claim_granted i n now t" using assms by (simp split: if_splits)
  moreover have "claim_update i n tok now t = t" if "\<not> claim_granted i n now t"
    using that by (auto simp: claim_granted_def claim_update_def intro!: update_row_id)
  ultimately show ?thesis using OpClaim by (auto simp: claim_reconciliation_def Let_def)
next
  case (OpSuccess i n tok fin io)
  then show ?thesis
    by (auto simp: record_success_def success_update_def count_pass_def Let_def held_def intro!: quiet_update)
next
  case (OpFail i n tok e io)
  then show ?thesis
    by (auto simp: fail_reconciliation_def fail_update_def Let_def intro!: quiet_update)
next
  case OpRestart
  have i: "rn_id (reset_row r) = rn_id r" for r by (simp add: reset_row_def)
  then show ?thesis using OpRestart
    by (auto simp: quiet_def recover_running_reconciliations_def find_row_def row_at_map comp_def split: option.split)
      (auto simp: reset_row_def split: if_splits)
qed

lemma quiet_keeps: "quiet t t' \<Longrightarrow> find_row i t = Some r \<Longrightarrow> \<exists>r'. find_row i t' = Some r' \<and> rn_attempts r' = rn_attempts r"
  unfolding quiet_def by (drule conjunct2, drule spec [of _ i]) (simp split: option.splits)

lemma quiet_running:
  "quiet t t' \<Longrightarrow> find_row i t' = Some r' \<Longrightarrow> rn_status r' = ReconRunning \<Longrightarrow>
     \<exists>r. find_row i t = Some r \<and> rn_status r = ReconRunning \<and> rn_attempts r = rn_attempts r' \<and> rn_claim_token r = rn_claim_token r'"
  unfolding quiet_def by (drule conjunct2, drule spec [of _ i]) (simp split: option.splits)

lemma grants_ok_quiet:
  assumes "grants_ok gs t" and "quiet t t'"
  shows "grants_ok gs t'"
  unfolding grants_ok_def
proof (intro conjI allI impI)
  show "distinct (ids t')" "distinct (map attempt_key gs)" using assms by (simp_all add: grants_ok_def quiet_def)
next
  fix i n tok assume "(i, n, tok) \<in> set gs"
  with assms(1) obtain r where "find_row i t = Some r" "n \<le> rn_attempts r" unfolding grants_ok_def by blast
  with quiet_keeps [OF assms(2), of i r] show "\<exists>r. find_row i t' = Some r \<and> n \<le> rn_attempts r" by auto
next
  fix i r' assume "find_row i t' = Some r' \<and> rn_status r' = ReconRunning"
  with quiet_running [OF assms(2), of i r'] obtain r where "find_row i t = Some r" "rn_status r = ReconRunning"
    "rn_attempts r = rn_attempts r'" "rn_claim_token r = rn_claim_token r'" by auto
  with assms(1) show "\<exists>tok. rn_claim_token r' = Some tok \<and> (i, rn_attempts r', tok) \<in> set gs"
    unfolding grants_ok_def by metis
qed

lemma grants_ok_claim:
  assumes "grants_ok gs t" and "claim_granted i n now t"
  shows "grants_ok (gs @ [(i, n + 1, tok)]) (claim_update i n tok now t)"
proof -
  have d: "distinct (ids t)" using assms(1) by (simp add: grants_ok_def)
  obtain r where r: "find_row i t = Some r" "rn_status r = ReconPending" "rn_attempts r = n"
    using assms(2) d by (auto simp: claim_granted_def ex_row claimable_def)
  have "stability_due i now t" using assms(2) by (simp add: claim_granted_def)
  then have f: "find_row j (claim_update i n tok now t) = (if j = i then Some (r\<lparr>rn_status := ReconRunning,
      rn_attempts := n + 1, rn_claim_token := Some tok, rn_last_claim_token := None\<rparr>) else find_row j t)" for j
    using r by (cases "find_row j t") (auto simp: claim_update_def find_row_update claimable_def)
  show ?thesis
    unfolding grants_ok_def
  proof (intro conjI allI impI)
    show "distinct (ids (claim_update i n tok now t))" using d by (simp add: claim_update_def ids_update)
    have "m \<le> n" if "(i, m, x) \<in> set gs" for m x using assms(1) r that unfolding grants_ok_def by fastforce
    then show "distinct (map attempt_key (gs @ [(i, n + 1, tok)]))"
      using assms(1) by (fastforce simp: grants_ok_def attempt_key_def)
  next
    fix j m x assume "(j, m, x) \<in> set (gs @ [(i, n + 1, tok)])"
    then show "\<exists>r. find_row j (claim_update i n tok now t) = Some r \<and> m \<le> rn_attempts r"
      using assms(1) r unfolding grants_ok_def f by fastforce
  next
    fix j r' assume "find_row j (claim_update i n tok now t) = Some r' \<and> rn_status r' = ReconRunning"
    then show "\<exists>x. rn_claim_token r' = Some x \<and> (j, rn_attempts r', x) \<in> set (gs @ [(i, n + 1, tok)])"
      using assms(1) unfolding grants_ok_def f by (auto split: if_splits)
  qed
qed

lemma grants_ok_step: "grants_ok gs t \<Longrightarrow> grants_ok (gs @ granted op t) (recon_step op t)"
proof (cases "granted op t = []")
  case False
  moreover assume "grants_ok gs t"
  ultimately show ?thesis
    by (cases op) (auto simp: claim_reconciliation_def Let_def intro: grants_ok_claim [unfolded Suc_eq_plus1 [symmetric]] split: if_splits)
qed (simp add: grants_ok_quiet quiet_step)

lemma grants_ok_run: "grants_ok gs0 t \<Longrightarrow> recon_run ops t = (t', gs) \<Longrightarrow> grants_ok (gs0 @ gs) t'"
proof (induction ops arbitrary: gs0 t gs)
  case (Cons op ops)
  from Cons.prems(2) obtain gs' where "recon_run ops (recon_step op t) = (t', gs')" "gs = granted op t @ gs'"
    by (auto split: prod.splits)
  with Cons.IH [OF grants_ok_step [OF Cons.prems(1), of op]] show ?case by simp
qed simp

lemma not_held_no_effect:
  assumes "\<forall>r \<in> set (rt_rows t). rn_id r = i \<longrightarrow> \<not> held n tok r"
  shows "fst (record_success i n tok fin io t) = t" and "fst (fail_reconciliation i n tok e io t) = t"
  using assms
  by (auto simp: record_success_def success_update_def fail_reconciliation_def fail_update_def Let_def
      intro!: update_row_id split: prod.split)



definition sample_recon :: provider_reconciliation where
  "sample_recon = require_stability_pass (recon_targeted ''x'' ''r'' ''o'' ''fake'' TargetLibrary [''b'', ''a''])"

definition no_reconciliations :: recon_tables where
  "no_reconciliations = \<lparr>rt_rows = [], rt_stability = Map.empty\<rparr>"


section \<open>Stability passes\<close>

text \<open>
  A worker that tries again and again, at any times: it asks for the row under its current attempt
  number, and reports success at \<open>fin\<close> when it was granted the pass. The result names the passes that
  were granted.
\<close>

fun run_passes :: "string \<Rightarrow> nat \<Rightarrow> (string \<times> i64 \<times> i64) list \<Rightarrow> recon_tables
    \<Rightarrow> recon_tables \<times> (string \<times> i64 \<times> i64) list" where
  "run_passes i n [] t = (t, [])"
| "run_passes i n ((tok, now, fin) # ps) t = (case claim_reconciliation i n tok now Committed t of
     (t1, Ok (Some p)) \<Rightarrow> (case run_passes i (n + 1) ps (fst (record_success i (pr_attempts p) tok fin Committed t1)) of
        (t2, gs) \<Rightarrow> (t2, (tok, now, fin) # gs))
   | (t1, _) \<Rightarrow> run_passes i n ps t1)"

text \<open>The passes that are due: each at the earliest two seconds after the one before, and only \<open>k\<close> of them.\<close>

fun due_passes :: "i64 option \<Rightarrow> nat \<Rightarrow> (string \<times> i64 \<times> i64) list \<Rightarrow> (string \<times> i64 \<times> i64) list" where
  "due_passes earliest k [] = []"
| "due_passes earliest k ((tok, now, fin) # ps) =
     (if k > 0 \<and> (case earliest of Some e \<Rightarrow> e \<le> now | None \<Rightarrow> True)
      then (tok, now, fin) # due_passes (Some (sat_i64 (fin + 2000))) (k - 1) ps
      else due_passes earliest k ps)"

definition waiting :: "string \<Rightarrow> nat \<Rightarrow> stability \<Rightarrow> recon_tables \<Rightarrow> bool" where
  "waiting i n s t \<longleftrightarrow> distinct (ids t) \<and> rt_stability t i = Some s \<and>
     (\<exists>r. find_row i t = Some r \<and> rn_status r = ReconPending \<and> rn_attempts r = n)"

definition ended :: "string \<Rightarrow> nat \<Rightarrow> recon_tables \<Rightarrow> bool" where
  "ended i n t \<longleftrightarrow> distinct (ids t) \<and> (\<exists>r. find_row i t = Some r \<and> rn_status r = ReconCompleted \<and> rn_attempts r = n)"

lemma rt_stability_claim [simp]: "rt_stability (claim_update i n tok now t) = rt_stability t"
  by (simp add: claim_update_def update_row_def)

lemma find_row_count_pass [simp]: "find_row i (count_pass j x t) = find_row i t" "rt_rows (count_pass j x t) = rt_rows t"
  by (simp_all add: find_row_def count_pass_def)

text \<open>A claim before its time, or of a row that is not pending, is refused without a trace.\<close>

lemma claim_refused:
  assumes "\<not> claim_granted i n now t"
  shows "claim_reconciliation i n tok now Committed t = (t, Ok None)"
proof -
  have "claim_update i n tok now t = t"
    using assms by (auto simp: claim_granted_def claim_update_def intro!: update_row_id)
  with assms show ?thesis by (simp add: claim_reconciliation_def Let_def)
qed

lemma find_row_with:
  "find_row i t = Some r \<Longrightarrow> P r \<Longrightarrow> distinct (ids t) \<Longrightarrow> find (\<lambda>r. rn_id r = i \<and> P r) (rt_rows t) = Some r"
  unfolding find_row_def row_at_def
proof (induction "rt_rows t" arbitrary: t)
  case (Cons x xs)
  from Cons.hyps(1) [of "t\<lparr>rt_rows := xs\<rparr>"] Cons.prems Cons.hyps(2) [symmetric] show ?case by (auto split: if_splits)
qed simp

lemma pass_granted:
  assumes "waiting i n s t" and "stability_due i now t"
  obtains p where "claim_reconciliation i n tok now Committed t = (claim_update i n tok now t, Ok (Some p))"
    "pr_attempts p = n + 1"
    "if sb_successful s + 1 < sb_required s
     then waiting i (n + 1) (s\<lparr>sb_successful := sb_successful s + 1, sb_next_pass_after_ms := Some (sat_i64 (fin + 2000))\<rparr>)
            (fst (record_success i (pr_attempts p) tok fin Committed (claim_update i n tok now t)))
     else ended i (n + 1) (fst (record_success i (pr_attempts p) tok fin Committed (claim_update i n tok now t)))"
proof -
  obtain r where t: "distinct (ids t)" "rt_stability t i = Some s" and r: "find_row i t = Some r"
    "rn_status r = ReconPending" "rn_attempts r = n" using assms(1) by (auto simp: waiting_def)
  let ?t1 = "claim_update i n tok now t"
  let ?r1 = "r\<lparr>rn_status := ReconRunning, rn_attempts := n + 1, rn_claim_token := Some tok, rn_last_claim_token := None\<rparr>"
  have r1: "find_row i ?t1 = Some ?r1"
    using assms(2) r by (simp add: claim_update_def find_row_update claimable_def)
  have d1: "distinct (ids ?t1)" using t by (simp add: claim_update_def ids_update)
  have "find (\<lambda>r. rn_id r = i \<and> rn_status r = ReconRunning) (rt_rows ?t1) = Some ?r1"
    using d1 r1 by (intro find_row_with) simp_all
  then have run: "find_running i ?t1 = Some (row_to_reconciliation ?r1)" by (simp add: find_running_def)
  have granted: "claim_granted i n now t"
    using assms(2) r t by (auto simp: claim_granted_def ex_row claimable_def)
  have ex: "\<exists>r \<in> set (rt_rows ?t1). rn_id r = i \<and> held (n + 1) tok r"
    using r1 by (simp add: ex_row [OF d1] held_def)
  show ?thesis
  proof (rule that [of "row_to_reconciliation ?r1"])
    show "claim_reconciliation i n tok now Committed t = (?t1, Ok (Some (row_to_reconciliation ?r1)))"
      using granted run by (simp add: claim_reconciliation_def Let_def)
    show "pr_attempts (row_to_reconciliation ?r1) = n + 1" by (simp add: row_to_reconciliation_def)
    then show "if sb_successful s + 1 < sb_required s
      then waiting i (n + 1) (s\<lparr>sb_successful := sb_successful s + 1, sb_next_pass_after_ms := Some (sat_i64 (fin + 2000))\<rparr>)
            (fst (record_success i (pr_attempts (row_to_reconciliation ?r1)) tok fin Committed ?t1))
      else ended i (n + 1) (fst (record_success i (pr_attempts (row_to_reconciliation ?r1)) tok fin Committed ?t1))"
      using ex r1 d1 t
      by (simp add: record_success_def success_update_def successful_passes_def required_passes_def waiting_def ended_def
          find_row_update ids_update held_def Let_def) (simp add: count_pass_def update_row_def)
  qed
qed

lemma ended_passes: "ended i n t \<Longrightarrow> run_passes i n ps t = (t, [])"
proof (induction ps)
  case (Cons p ps)
  obtain tok now fin where p: "p = (tok, now, fin)" by (cases p)
  have "\<not> claim_granted i n now t" using Cons.prems by (auto simp: ended_def claim_granted_def ex_row claimable_def)
  from claim_refused [OF this, of tok] Cons show ?case by (simp add: p)
qed simp

lemma due_none [simp]: "due_passes e 0 ps = []"
  by (induction e "0::nat" ps rule: due_passes.induct) simp_all

abbreviation two_seconds_apart :: "(string \<times> i64 \<times> i64) list \<Rightarrow> bool" where
  "two_seconds_apart \<equiv> successively (\<lambda>p q. sat_i64 (snd (snd p) + 2000) \<le> fst (snd q))"

lemma due_passes_spaced:
  "two_seconds_apart (due_passes e k ps) \<and>
   (case due_passes e k ps of p # _ \<Rightarrow> (case e of Some x \<Rightarrow> x \<le> fst (snd p) | None \<Rightarrow> True) | [] \<Rightarrow> True)"
proof (induction e k ps rule: due_passes.induct)
  case (2 e k tok now fin ps)
  show ?case
  proof (cases "k > 0 \<and> (case e of Some e \<Rightarrow> e \<le> now | None \<Rightarrow> True)")
    case True
    with 2(1) show ?thesis
      by (cases "due_passes (Some (sat_i64 (fin + 2000))) (k - 1) ps"; cases e) (auto simp: successively_Cons)
  next
    case False
    with 2(2) show ?thesis by (simp del: due_passes.simps add: due_passes.simps(2) if_not_P)
  qed
qed simp

text \<open>
  C8: A reconciliation that asks for several clean passes gets them, spaced, and then ends. Whenever a
  worker tries, a pass is granted exactly when the two seconds after the previous successful pass are
  over and the row still needs one; a try before that is refused and changes nothing; and with every
  pass succeeding the row stays pending until it has had exactly the number of passes it requires, and
  the last of them completes it.
\<close>

theorem stability_passes_complete:
  assumes "waiting i n s t" and "sb_successful s < sb_required s"
    and "run_passes i n ps t = (t', gs)"
  shows "gs = due_passes (sb_next_pass_after_ms s) (sb_required s - sb_successful s) ps \<and>
    two_seconds_apart gs \<and>
    (\<exists>r. find_row i t' = Some r \<and> rn_attempts r = n + length gs \<and>
       rn_status r = (if sb_successful s + length gs = sb_required s then ReconCompleted else ReconPending))"
proof -
  have "gs = due_passes (sb_next_pass_after_ms s) (sb_required s - sb_successful s) ps \<and>
    (\<exists>r. find_row i t' = Some r \<and> rn_attempts r = n + length gs \<and>
       rn_status r = (if sb_successful s + length gs = sb_required s then ReconCompleted else ReconPending))"
    using assms
  proof (induction ps arbitrary: n s t gs)
    case Nil
    then show ?case by (auto simp: waiting_def)
  next
    case (Cons p ps)
    obtain tok now fin where p: "p = (tok, now, fin)" by (cases p)
    have stab: "rt_stability t i = Some s" using Cons.prems(1) by (simp add: waiting_def)
    let ?s = "s\<lparr>sb_successful := sb_successful s + 1, sb_next_pass_after_ms := Some (sat_i64 (fin + 2000))\<rparr>"
    show ?case
    proof (cases "stability_due i now t")
      case False
      then have no: "claim_reconciliation i n tok now Committed t = (t, Ok None)"
        by (intro claim_refused) (simp add: claim_granted_def)
      have "run_passes i n ps t = (t', gs)" using Cons.prems(3) by (simp add: p no)
      from Cons.IH [OF Cons.prems(1,2) this] False stab show ?thesis
        by (auto simp: p stability_due_def split: option.splits)
    next
      case True
      from pass_granted [OF Cons.prems(1) this, of tok fin] obtain q where
        q: "claim_reconciliation i n tok now Committed t = (claim_update i n tok now t, Ok (Some q))"
        and nxt: "if sb_successful s + 1 < sb_required s
          then waiting i (n + 1) ?s (fst (record_success i (pr_attempts q) tok fin Committed (claim_update i n tok now t)))
          else ended i (n + 1) (fst (record_success i (pr_attempts q) tok fin Committed (claim_update i n tok now t)))"
        by metis
      let ?t = "fst (record_success i (pr_attempts q) tok fin Committed (claim_update i n tok now t))"
      obtain gs' where gs': "run_passes i (n + 1) ps ?t = (t', gs')" "gs = (tok, now, fin) # gs'"
        using Cons.prems(3) by (auto simp: p q split: prod.splits)
      have due: "case sb_next_pass_after_ms s of Some e \<Rightarrow> e \<le> now | None \<Rightarrow> True"
        using True stab by (auto simp: stability_due_def split: option.splits)
      show ?thesis
      proof (cases "sb_successful s + 1 < sb_required s")
        case True
        with nxt have w: "waiting i (n + 1) ?s ?t" by simp
        from Cons.IH [OF w _ gs'(1)] True due gs'(2) show ?thesis by (auto simp: p)
      next
        case False
        with nxt have e: "ended i (n + 1) ?t" by simp
        then have "t' = ?t" "gs' = []" using gs'(1) ended_passes [OF e, of ps] by simp_all
        moreover have "sb_required s = sb_successful s + 1" using False Cons.prems(2) by simp
        ultimately show ?thesis using e due gs'(2) by (auto simp: p ended_def)
      qed
    qed
  qed
  with due_passes_spaced show ?thesis by blast
qed

theorem stability_passes_complete_witness:
  "snd (run_passes ''x'' 0 [(''t1'', 10, 20), (''t2'', 1500, 1510), (''t3'', 2020, 2030), (''t4'', 9000, 9010)]
       (recon_step (OpInsert sample_recon 0) no_reconciliations)) = [(''t1'', 10, 20), (''t3'', 2020, 2030)]"
proof -
  let ?t = "recon_step (OpInsert sample_recon 0) no_reconciliations"
  let ?s = "\<lparr>sb_required = 2, sb_successful = 0, sb_next_pass_after_ms = None\<rparr>"
  let ?ps = "[(''t1'', 10, 20), (''t2'', 1500, 1510), (''t3'', 2020, 2030), (''t4'', 9000, 9010)]"
  have w: "waiting ''x'' 0 ?s ?t"
    by (simp add: waiting_def insert_reconciliation_def no_reconciliations_def sample_recon_def
        require_stability_pass_def recon_targeted_def find_row_def row_at_def upsert_stability_def new_row_def)
  obtain t' gs where "run_passes ''x'' 0 ?ps ?t = (t', gs)" by (metis surj_pair)
  with stability_passes_complete [OF w _ this]
  show ?thesis by (simp add: sat_i64_def i64_min_def i64_max_def del: recon_step.simps run_passes.simps)
qed

section \<open>Ambiguous writes\<close>

lemma success_then_classify:
  assumes "distinct (ids t)" and "find_row i t = Some r" and "held n tok r"
    and "success_update i n tok fin t = (t1, c)"
  shows "c \<noteq> Stale" and "success_update i n tok fin' t1 = (t1, Stale)" and "classify_success i n tok b t1 = Ok c"
    and "distinct (ids t1)" and "classify_success i n tok b t = Err ()"
proof -
  have ex: "\<exists>r \<in> set (rt_rows t). rn_id r = i \<and> held n tok r" using assms by (auto simp: ex_row)
  show c: "c \<noteq> Stale" and d1: "distinct (ids t1)"
    using assms(1,4) ex by (auto simp: success_update_def ids_update split: if_splits)
  have r1: "\<exists>r1. find_row i t1 = Some r1 \<and> rn_attempts r1 = n \<and> rn_last_claim_token r1 = Some tok \<and>
      rn_status r1 = (if c = Completed then ReconCompleted else ReconPending)"
    using assms ex by (auto simp: success_update_def find_row_update held_def split: if_splits)
  then have "\<not> (\<exists>r \<in> set (rt_rows t1). rn_id r = i \<and> held n tok r)"
    by (auto simp: ex_row [OF d1] held_def split: if_splits)
  then show "success_update i n tok fin' t1 = (t1, Stale)" by (simp add: success_update_def)
  show "classify_success i n tok b t1 = Ok c" using r1 c by (cases c) (auto simp: classify_success_def)
  show "classify_success i n tok b t = Err ()"
    using assms(2,3) by (auto simp: classify_success_def held_def)
qed

fun report_until_committed :: "string \<Rightarrow> nat \<Rightarrow> string \<Rightarrow> i64 \<Rightarrow> io_outcome list \<Rightarrow> recon_tables
    \<Rightarrow> recon_tables \<times> (completion, unit) result" where
  "report_until_committed i n tok fin [] t = record_success i n tok fin Committed t"
| "report_until_committed i n tok fin (io # ios) t = (case record_success i n tok fin io t of
     (t', Ok c) \<Rightarrow> (t', Ok c) | (t', Err _) \<Rightarrow> report_until_committed i n tok fin ios t')"

text \<open>
  A storage failure never loses or repeats a report. A worker that holds its claim and repeats a
  success report until it gets an answer, through any sequence of failed writes whether or not they
  took effect, ends with the tables of one single successful write and with its true outcome.
\<close>

theorem ambiguous_reports_resolved:
  assumes "distinct (ids t)" and "find_row i t = Some r" and "held n tok r"
    and "success_update i n tok fin t = (t1, c)"
  shows "report_until_committed i n tok fin ios t = (t1, Ok c) \<and> c \<noteq> Stale"
proof (intro conjI)
  note S = success_then_classify [OF assms]
  show "c \<noteq> Stale" by (rule S(1))
  show "report_until_committed i n tok fin ios t = (t1, Ok c)"
  proof (induction ios)
    case Nil
    show ?case using S(1) by (simp add: record_success_def assms(4) Let_def)
  next
    case (Cons io ios)
    then show ?case using S by (cases io) (simp_all add: record_success_def assms(4) Let_def)
  qed
qed

theorem ambiguous_reports_resolved_witness:
  "snd (report_until_committed ''x'' 1 ''t1'' 20 [NotApplied, AppliedButFailed]
     (fst (recon_run [OpInsert sample_recon 0, OpClaim ''x'' 0 ''t1'' 5 Committed] no_reconciliations))) = Ok NeedsAnotherPass"
proof -
  let ?t = "fst (recon_run [OpInsert sample_recon 0, OpClaim ''x'' 0 ''t1'' 5 Committed] no_reconciliations)"
  have d: "distinct (ids ?t)" by code_simp
  have "case find_row ''x'' ?t of Some r \<Rightarrow> held 1 ''t1'' r | None \<Rightarrow> False" by code_simp
  then obtain r where r: "find_row ''x'' ?t = Some r" "held 1 ''t1'' r" by (auto split: option.splits)
  have c: "snd (success_update ''x'' 1 ''t1'' 20 ?t) = NeedsAnotherPass" by code_simp
  obtain t1 where "success_update ''x'' 1 ''t1'' 20 ?t = (t1, NeedsAnotherPass)" using c by (metis prod.collapse)
  from ambiguous_reports_resolved [OF d r this] show ?thesis by (simp del: recon_run.simps report_until_committed.simps)
qed

end
