(* ===== verification/Rate_Limit.thy ===== *)
theory Rate_Limit
  imports Rust_Float "HOL-Library.Sublist"
begin

text \<open>
  The request layer of the Spotify adapter. \<open>spotuify-spotify/src/error.rs\<close>: typed errors, the
  \<open>Retry-After\<close> parser and the classification of responses. \<open>spotuify-spotify/src/rate_limit.rs\<close>: the
  retry decision, jittered backoff, the per-scope cooldowns and the retry loop
  \<open>send_with_retry_in_bucket\<close>. Durations are milliseconds; every duration the code builds is a whole
  number of them. JSON bodies and HTTP dates are read by libraries, so their readers are parameters.
\<close>

section \<open>Errors\<close>

datatype auth_error_kind = NotLoggedIn | ExpiredRefresh | InvalidGrant | AuthForbidden | ScopeReauthRequired

datatype spotify_error =
    SpAuthRequired
  | SpRateLimited nat string
  | SpAuthExpired
  | SpAuthRevoked
  | SpForbidden string
  | SpNotFound
  | SpDeprecated string
  | SpNetwork string string
  | SpDecode string string
  | SpApi u16 string string string
  | SpInvalidInput string
  | SpClient string

definition DEFAULT_RETRY_AFTER_SECS :: u64 where "DEFAULT_RETRY_AFTER_SECS = 60"
definition MAX_RETRY_AFTER_SECS :: u64 where "MAX_RETRY_AFTER_SECS = 3600"

fun sp_is_retryable :: "spotify_error \<Rightarrow> bool" where
  "sp_is_retryable (SpRateLimited _ _) = True"
| "sp_is_retryable SpAuthExpired = True"
| "sp_is_retryable (SpNetwork _ _) = True"
| "sp_is_retryable (SpApi status _ _ _) = (500 \<le> status \<and> status \<le> 599)"
| "sp_is_retryable _ = False"

datatype ipc_error_kind =
  IpcAuth | IpcAuthRevoked | IpcInvalidRequest | IpcNetwork | IpcProvider | IpcRateLimited | IpcUnsupported |
  IpcTimeout | IpcInternal

primrec ipc_kind :: "spotify_error \<Rightarrow> ipc_error_kind" where
  "ipc_kind (SpRateLimited _ _) = IpcRateLimited"
| "ipc_kind SpAuthRequired = IpcAuth"
| "ipc_kind SpAuthRevoked = IpcAuthRevoked"
| "ipc_kind SpAuthExpired = IpcAuth"
| "ipc_kind (SpForbidden _) = IpcAuth"
| "ipc_kind (SpInvalidInput _) = IpcInvalidRequest"
| "ipc_kind SpNotFound = IpcProvider"
| "ipc_kind (SpDeprecated _) = IpcProvider"
| "ipc_kind (SpNetwork _ _) = IpcNetwork"
| "ipc_kind (SpDecode _ _) = IpcProvider"
| "ipc_kind (SpApi _ _ _ _) = IpcProvider"
| "ipc_kind (SpClient _) = IpcProvider"

text \<open>
  What the libraries contribute: the string at a path of keys in a JSON body, and the instant of an
  RFC 2822 date in nanoseconds.
\<close>

record http_lib =
  hl_json_str :: "string \<Rightarrow> string list \<Rightarrow> string option"
  hl_rfc2822 :: "string \<Rightarrow> int option"

definition parse_retry_after :: "http_lib \<Rightarrow> string option \<Rightarrow> int \<Rightarrow> nat" where
  "parse_retry_after lib header now_ns =
     1000 * (case header of
         None \<Rightarrow> DEFAULT_RETRY_AFTER_SECS
       | Some raw \<Rightarrow>
           (let raw = trim raw
            in case parse_uint u64_max raw of
                 Some seconds \<Rightarrow> min seconds MAX_RETRY_AFTER_SECS
               | None \<Rightarrow> (case hl_rfc2822 lib raw of
                     Some when \<Rightarrow> min (nat (max 0 ((when - now_ns) div 10 ^ 9))) MAX_RETRY_AFTER_SECS
                   | None \<Rightarrow> DEFAULT_RETRY_AFTER_SECS)))"

definition spotify_error_message :: "http_lib \<Rightarrow> string \<Rightarrow> string" where
  "spotify_error_message lib body = (case hl_json_str lib body [''error'', ''message''] of
       Some msg \<Rightarrow> msg | None \<Rightarrow> [])"

fun str_contains :: "string \<Rightarrow> string \<Rightarrow> bool" where
  "str_contains pat [] = (pat = [])"
| "str_contains pat (c # cs) = (prefix pat (c # cs) \<or> str_contains pat cs)"

text \<open>No character outside ASCII has a lower-case form that contributes to \<open>scope\<close>.\<close>

definition parse_required_scope :: "http_lib \<Rightarrow> string \<Rightarrow> string option" where
  "parse_required_scope lib body =
     (let msg = spotify_error_message lib body
      in if str_contains ''scope'' (to_ascii_lowercase msg) then Some msg else None)"

definition is_library_write_path :: "string \<Rightarrow> bool" where
  "is_library_write_path path \<longleftrightarrow>
     str_contains ''/playlists'' path \<or> str_contains ''/me/tracks'' path \<or>
     str_contains ''/me/albums'' path \<or> str_contains ''/me/episodes'' path \<or>
     str_contains ''/me/shows'' path \<or> str_contains ''/me/following'' path"

definition DEV_APP_HINT :: string where
  "DEV_APP_HINT = [CHR 0x0A] @ ''  Hint: Spotify Developer apps in Development Mode can block '' @
     ''playlist/library writes. Apply for Extended Quota Mode in the '' @
     ''Spotify dashboard, then re-run `spotuify login` if scopes or app settings changed.''"

definition dev_app_write_hint :: "string \<Rightarrow> string option" where
  "dev_app_write_hint endpoint =
     (let is_write_verb = (prefix ''POST'' endpoint \<or> prefix ''PUT'' endpoint \<or> prefix ''DELETE'' endpoint)
      in if \<not> (is_write_verb \<and> is_library_write_path endpoint) then None else Some DEV_APP_HINT)"

definition deprecated_label :: "string \<Rightarrow> string" where
  "deprecated_label endpoint =
     (if str_contains ''audio-features'' endpoint then ''audio-features''
      else if str_contains ''audio-analysis'' endpoint then ''audio-analysis''
      else if str_contains ''recommendations'' endpoint then ''recommendations''
      else if str_contains ''related-artists'' endpoint then ''related-artists''
      else if str_contains ''featured-playlists'' endpoint then ''featured-playlists''
      else ''unknown-deprecated'')"

definition classify_response ::
    "http_lib \<Rightarrow> u16 \<Rightarrow> string option \<Rightarrow> string \<Rightarrow> string \<Rightarrow> int \<Rightarrow> spotify_error" where
  "classify_response lib status retry_after endpoint body now_ns =
     (let message = spotify_error_message lib body
      in if status = 429 then SpRateLimited (parse_retry_after lib retry_after now_ns) endpoint
         else if status = 401 then SpAuthExpired
         else if status = 403 then (case parse_required_scope lib body of
             Some scope \<Rightarrow> SpForbidden scope
           | None \<Rightarrow> SpApi 403 endpoint
               ((if message = [] then ''Spotify refused the request (403)'' else message) @
                (case dev_app_write_hint endpoint of Some hint \<Rightarrow> hint | None \<Rightarrow> [])) body)
         else if status = 404 then
           (if message = [] \<or> eq_ignore_ascii_case message ''not found'' then SpNotFound
            else SpApi 404 endpoint message body)
         else if status = 410 then SpDeprecated (deprecated_label endpoint)
         else SpApi status endpoint message body)"

section \<open>The retry decision\<close>

datatype priority = PlaybackControl | Foreground | BackgroundSync

definition MAX_TRANSIENT_RETRIES :: u32 where "MAX_TRANSIENT_RETRIES = 3"
definition MAX_RATE_LIMIT_RETRIES :: u32 where "MAX_RATE_LIMIT_RETRIES = 3"
definition MAX_IN_REQUEST_RATE_LIMIT_SLEEP :: nat where "MAX_IN_REQUEST_RATE_LIMIT_SLEEP = 5000"
definition BACKOFF_BASE_MS :: u64 where "BACKOFF_BASE_MS = 250"
definition BACKOFF_CEILING_MS :: u64 where "BACKOFF_CEILING_MS = 30000"

lemmas limits = MAX_TRANSIENT_RETRIES_def MAX_RATE_LIMIT_RETRIES_def MAX_IN_REQUEST_RATE_LIMIT_SLEEP_def
  BACKOFF_BASE_MS_def BACKOFF_CEILING_MS_def DEFAULT_RETRY_AFTER_SECS_def MAX_RETRY_AFTER_SECS_def

datatype retry_action = Retry nat | GiveUp spotify_error | RetrySuccess

text \<open>\<open>gen_range(0.75..=1.25)\<close> is the argument \<open>jitter\<close>.\<close>

definition jittered_backoff :: "u32 \<Rightarrow> rfloat \<Rightarrow> nat" where
  "jittered_backoff attempt jitter =
     (let base = min (sat_u64 (BACKOFF_BASE_MS * 2 ^ min attempt 10)) BACKOFF_CEILING_MS;
          final_ms = fcast_uint u64_max (fround (fmul f64 (to_float f64 (of_nat base)) jitter))
      in max 1 (min final_ms BACKOFF_CEILING_MS))"

definition is_success :: "u16 \<Rightarrow> bool" where
  "is_success status \<longleftrightarrow> 200 \<le> status \<and> status < 300 \<or> status = 304"

definition decide_retry ::
    "http_lib \<Rightarrow> u32 \<Rightarrow> u16 \<Rightarrow> string option \<Rightarrow> string \<Rightarrow> string \<Rightarrow> int \<Rightarrow> rfloat \<Rightarrow> retry_action" where
  "decide_retry lib attempt status retry_after endpoint body now_ns jitter =
     (if is_success status then RetrySuccess
      else if status = 429 then Retry (parse_retry_after lib retry_after now_ns)
      else if status = 401 then GiveUp SpAuthExpired
      else if 500 \<le> status \<and> status < 600 then
        (if MAX_TRANSIENT_RETRIES \<le> attempt + 1
         then GiveUp (classify_response lib status retry_after endpoint body now_ns)
         else Retry (jittered_backoff attempt jitter))
      else GiveUp (classify_response lib status retry_after endpoint body now_ns))"

section \<open>Cooldowns\<close>

record scope_state =
  sc_next_eligible_at_ms :: "i64 option"
  sc_last_rate_limited_at_ms :: "i64 option"

type_synonym backoff_state = "string \<rightharpoonup> scope_state"

definition default_scope :: scope_state where
  "default_scope = \<lparr>sc_next_eligible_at_ms = None, sc_last_rate_limited_at_ms = None\<rparr>"

definition wait_ms :: "backoff_state \<Rightarrow> string \<Rightarrow> i64 \<Rightarrow> i64" where
  "wait_ms st scope now_ms = (case Option.bind (st scope) sc_next_eligible_at_ms of
       Some target \<Rightarrow> max (wrap_i64 (target - now_ms)) 0 | None \<Rightarrow> 0)"

definition record_rate_limit :: "string \<Rightarrow> i64 \<Rightarrow> nat \<Rightarrow> backoff_state \<Rightarrow> backoff_state" where
  "record_rate_limit scope now_ms retry_after st =
     (let s = (case st scope of Some s \<Rightarrow> s | None \<Rightarrow> default_scope)
      in st(scope \<mapsto> s\<lparr>sc_last_rate_limited_at_ms := Some now_ms,
                         sc_next_eligible_at_ms := Some (wrap_i64 (now_ms + int retry_after))\<rparr>))"

definition clear_scope :: "string \<Rightarrow> backoff_state \<Rightarrow> backoff_state" where
  "clear_scope scope st = (case st scope of
       Some s \<Rightarrow> st(scope \<mapsto> s\<lparr>sc_next_eligible_at_ms := None\<rparr>) | None \<Rightarrow> st)"

definition is_first_party :: "string \<Rightarrow> bool" where
  "is_first_party cooldown_scope = prefix ''first-party '' cooldown_scope"

definition clear_backoff :: "string \<Rightarrow> string \<Rightarrow> backoff_state \<Rightarrow> backoff_state" where
  "clear_backoff cooldown_scope endpoint_scope st =
     (let st' = clear_scope cooldown_scope st
      in if is_first_party cooldown_scope then clear_scope endpoint_scope st' else st')"

definition eligible_wait_ms :: "string \<Rightarrow> string \<Rightarrow> i64 \<Rightarrow> backoff_state \<Rightarrow> i64" where
  "eligible_wait_ms cooldown_scope endpoint_scope now_ms st =
     (let w = wait_ms st cooldown_scope now_ms
      in if is_first_party cooldown_scope then max w (wait_ms st endpoint_scope now_ms) else w)"

text \<open>The delay to sleep before sending, or the refusal.\<close>

definition sleep_until_eligible ::
    "string \<Rightarrow> string \<Rightarrow> i64 \<Rightarrow> backoff_state \<Rightarrow> (nat, spotify_error) result" where
  "sleep_until_eligible cooldown_scope endpoint_scope now_ms st =
     (let w = eligible_wait_ms cooldown_scope endpoint_scope now_ms st; delay = nat w
      in if 0 < w \<and> MAX_IN_REQUEST_RATE_LIMIT_SLEEP < delay then Err (SpRateLimited delay endpoint_scope)
         else Ok delay)"

section \<open>The retry loop\<close>

record http_response =
  hr_status :: u16
  hr_retry_after :: "string option"
  hr_body :: string

text \<open>
  What one pass of the loop meets: the clock at the cooldown check, the semaphore of the lane, the
  outcome of the send, the clock and the random factor after it.
\<close>

record pass_env =
  pe_now_ms :: i64
  pe_permit :: "(unit, string) result"
  pe_send :: "(http_response, string) result"
  pe_now_ns :: int
  pe_jitter :: rfloat

datatype io_event = Slept nat | Sent

definition slept :: "nat \<Rightarrow> io_event list" where
  "slept w = (if w = 0 then [] else [Slept w])"

datatype pass_end = Finished "(http_response, spotify_error) result" | Again u32 u32

definition permit :: "priority \<Rightarrow> pass_env \<Rightarrow> (unit, string) result" where
  "permit priority pe = (case priority of PlaybackControl \<Rightarrow> Ok () | _ \<Rightarrow> pe_permit pe)"

definition after_failure ::
    "http_lib \<Rightarrow> string \<Rightarrow> string \<Rightarrow> pass_env \<Rightarrow> u32 \<Rightarrow> u32 \<Rightarrow> http_response \<Rightarrow> backoff_state
      \<Rightarrow> pass_end \<times> backoff_state \<times> io_event list" where
  "after_failure lib cooldown_scope endpoint_scope pe attempt rate_limit_attempt response st =
     (let status = hr_status response
      in case decide_retry lib attempt status (hr_retry_after response) endpoint_scope (hr_body response)
             (pe_now_ns pe) (pe_jitter pe) of
           RetrySuccess \<Rightarrow> (Finished (Ok response), st, [])
         | GiveUp e \<Rightarrow> (Finished (Err e), st, [])
         | Retry delay \<Rightarrow>
             if status = 429
             then let st' = record_rate_limit cooldown_scope (pe_now_ns pe div 10 ^ 6) delay st;
                      rate_limit_attempt = rate_limit_attempt + 1
                  in if MAX_RATE_LIMIT_RETRIES \<le> rate_limit_attempt \<or> MAX_IN_REQUEST_RATE_LIMIT_SLEEP < delay
                     then (Finished (Err (classify_response lib status (hr_retry_after response) endpoint_scope
                             (hr_body response) (pe_now_ns pe))), st', [])
                     else (Again attempt rate_limit_attempt, st', [Slept delay])
             else (Again (attempt + 1) rate_limit_attempt, st, [Slept delay]))"

definition send_pass ::
    "http_lib \<Rightarrow> priority \<Rightarrow> string \<Rightarrow> string \<Rightarrow> pass_env \<Rightarrow> u32 \<Rightarrow> u32 \<Rightarrow> backoff_state
      \<Rightarrow> pass_end \<times> backoff_state \<times> io_event list" where
  "send_pass lib priority cooldown_scope endpoint_scope pe attempt rate_limit_attempt st =
     (case sleep_until_eligible cooldown_scope endpoint_scope (pe_now_ms pe) st of
        Err e \<Rightarrow> (Finished (Err e), st, [])
      | Ok w \<Rightarrow> (case permit priority pe of
          Err msg \<Rightarrow> (Finished (Err (SpNetwork endpoint_scope msg)), st, slept w)
        | Ok _ \<Rightarrow> (case pe_send pe of
            Err msg \<Rightarrow>
              if attempt + 1 < MAX_TRANSIENT_RETRIES
              then (Again (attempt + 1) rate_limit_attempt, st,
                    slept w @ [Sent, Slept (jittered_backoff attempt (pe_jitter pe))])
              else (Finished (Err (SpNetwork endpoint_scope msg)), st, slept w @ [Sent])
          | Ok response \<Rightarrow>
              if is_success (hr_status response)
              then (Finished (Ok response), clear_backoff cooldown_scope endpoint_scope st, slept w @ [Sent])
              else (case after_failure lib cooldown_scope endpoint_scope pe attempt rate_limit_attempt response st of
                      (e, st', evs) \<Rightarrow> (e, st', slept w @ [Sent] @ evs)))))"

lemma send_pass_Again:
  assumes "send_pass lib pr cs es pe a r st = (Again a' r', st', evs)"
  shows "(3 - a') + (3 - r') < (3 - a) + (3 - r)"
    and "a' = Suc a \<and> r' = r \<or> a' = a \<and> r' = Suc r"
    and "a \<le> 2 \<Longrightarrow> r \<le> 2 \<Longrightarrow> a' \<le> 2 \<and> r' \<le> 2"
  using assms
  by (auto simp: send_pass_def after_failure_def decide_retry_def limits Let_def
      split: result.splits if_splits prod.splits retry_action.splits)

function send_loop ::
    "http_lib \<Rightarrow> priority \<Rightarrow> string \<Rightarrow> string \<Rightarrow> (nat \<Rightarrow> pass_env) \<Rightarrow> nat \<Rightarrow> u32 \<Rightarrow> u32 \<Rightarrow> backoff_state
      \<Rightarrow> (http_response, spotify_error) result \<times> backoff_state \<times> io_event list" where
  "send_loop lib priority cs es env i attempt rate_limit_attempt st =
     (case send_pass lib priority cs es (env i) attempt rate_limit_attempt st of
        (Finished r, st', evs) \<Rightarrow> (r, st', evs)
      | (Again attempt' rate_limit_attempt', st', evs) \<Rightarrow>
          (case send_loop lib priority cs es env (i + 1) attempt' rate_limit_attempt' st' of
             (r, st'', evs') \<Rightarrow> (r, st'', evs @ evs')))"
  by pat_completeness auto
termination
  by (relation "measure (\<lambda>(lib, pr, cs, es, env, i, a, r, st). (3 - a) + (3 - r))")
    (auto dest!: send_pass_Again(1) [OF sym])

declare send_loop.simps [simp del]

definition send_with_retry_in_bucket ::
    "http_lib \<Rightarrow> priority \<Rightarrow> string \<Rightarrow> string \<Rightarrow> (nat \<Rightarrow> pass_env) \<Rightarrow> backoff_state
      \<Rightarrow> (http_response, spotify_error) result \<times> backoff_state \<times> io_event list" where
  "send_with_retry_in_bucket lib priority cooldown_scope endpoint_scope env st =
     send_loop lib priority cooldown_scope endpoint_scope env 0 0 0 st"

definition send_with_retry ::
    "http_lib \<Rightarrow> priority \<Rightarrow> string \<Rightarrow> (nat \<Rightarrow> pass_env) \<Rightarrow> backoff_state
      \<Rightarrow> (http_response, spotify_error) result \<times> backoff_state \<times> io_event list" where
  "send_with_retry lib priority scope env st = send_with_retry_in_bucket lib priority scope scope env st"

section \<open>Bounds\<close>

definition backoff_base :: "u32 \<Rightarrow> nat" where
  "backoff_base attempt = min (BACKOFF_BASE_MS * 2 ^ min attempt 10) BACKOFF_CEILING_MS"

lemma backoff_base_bounds: "250 \<le> backoff_base a" "backoff_base a \<le> 30000"
proof -
  have "250 * 1 \<le> 250 * (2 :: nat) ^ min a 10" by (intro mult_left_mono) simp_all
  then show "250 \<le> backoff_base a" "backoff_base a \<le> 30000" by (simp_all add: backoff_base_def limits)
qed

lemma backoff_base_sat: "min (sat_u64 (BACKOFF_BASE_MS * 2 ^ min a 10)) BACKOFF_CEILING_MS = backoff_base a"
proof -
  have "(2 :: nat) ^ min a 10 \<le> 2 ^ 10" by (rule power_increasing) simp_all
  then have "BACKOFF_BASE_MS * 2 ^ min a 10 \<le> u64_max" by (simp add: limits u64_max_def)
  then show ?thesis by (simp add: backoff_base_def rust_int)
qed

lemma jitter_product:
  assumes "3 / 4 \<le> j" and "j \<le> 5 / 4"
  shows "\<exists>x. fmul f64 (to_float f64 (of_nat (backoff_base a))) (Fin j) = Fin x \<and>
    \<bar>x - of_nat (backoff_base a) * j\<bar> \<le> 1 / 8"
proof -
  let ?b = "backoff_base a" and ?p = "of_nat (backoff_base a) * j :: rat"
  have b: "250 \<le> ?b" "?b \<le> 30000" by (rule backoff_base_bounds)+
  then have br: "(250 :: rat) \<le> of_nat ?b" "of_nat ?b \<le> (30000 :: rat)"
    by (metis of_nat_le_iff of_nat_numeral)+
  have p: "1 \<le> ?p" "?p \<le> 37500"
    using mult_mono [of 250 "of_nat ?b :: rat" "3 / 4" j] mult_mono [of "of_nat ?b :: rat" 30000 j "5 / 4"] br assms
    by simp_all
  have "rnd f64 (of_nat ?b) = of_nat ?b"
    by (rule rnd_of_nat_exact) (use b in simp_all)
  then have base: "to_float f64 (of_nat ?b) = Fin (of_nat ?b)"
    using to_float_Fin [of f64 "of_nat ?b"] br by (simp add: power_int_def)
  have "2 powi ff_emin f64 \<le> (2 :: rat) powi 0" by (rule two_powi_mono) simp
  then have "2 powi ff_emin f64 \<le> \<bar>?p\<bar>" using p by simp
  then have err: "\<bar>rnd f64 ?p - ?p\<bar> \<le> ?p / 2 ^ 53"
    using rnd_rel_error [of f64 ?p] p by simp
  also have "\<dots> \<le> 37500 / 2 ^ 53" using p(2) by (rule divide_right_mono) simp
  also have "\<dots> \<le> (1 / 8 :: rat)" by simp
  finally have near: "\<bar>rnd f64 ?p - ?p\<bar> \<le> 1 / 8" .
  have "\<bar>rnd f64 ?p\<bar> \<le> 40000" using near p by linarith
  also have "(40000 :: rat) < 2 powi (ff_emax f64 + 1)"
    by (rule less_le_trans [of _ "2 powi 16"]) (simp_all add: two_powi_mono)
  finally have "to_float f64 ?p = Fin (rnd f64 ?p)" by (rule to_float_Fin)
  with near base show ?thesis by auto
qed

lemma cast_round_near:
  assumes "\<bar>x - p\<bar> \<le> 1 / 8" and "1 \<le> p" and "p \<le> 40000"
  shows "\<bar>of_nat (fcast_uint u64_max (fround (Fin x))) - p\<bar> \<le> 5 / 8"
proof -
  define n where "n = round_away x"
  have x: "0 \<le> x" "x \<le> 40001" using assms by linarith+
  have n: "n = \<lfloor>x + 1 / 2\<rfloor>" using x by (simp add: n_def round_away_def)
  have "of_int n \<le> x + 1 / 2" "x + 1 / 2 < of_int n + 1" unfolding n using floor_correct [of "x + 1 / 2"] by auto
  then have near: "\<bar>of_int n - p\<bar> \<le> 5 / 8" using assms by linarith
  have n0: "0 < n" using near assms by linarith
  have "n \<le> 40001" using near assms by linarith
  then have "nat n \<le> u64_max" using n0 by (simp add: u64_max_def)
  then have "fcast_uint u64_max (fround (Fin x)) = nat n" using n0 by (simp add: n_def [symmetric])
  then show ?thesis using near n0 by simp
qed

lemma jittered_backoff_near:
  assumes "3 / 4 \<le> j" and "j \<le> 5 / 4"
  shows "of_nat (jittered_backoff a (Fin j)) \<le> (5 / 4 * of_nat (backoff_base a) + 5 / 8 :: rat)"
    and "min (3 / 4 * of_nat (backoff_base a)) 30000 - 5 / 8 \<le> (of_nat (jittered_backoff a (Fin j)) :: rat)"
proof -
  let ?b = "backoff_base a"
  obtain x where x: "fmul f64 (to_float f64 (of_nat ?b)) (Fin j) = Fin x" "\<bar>x - of_nat ?b * j\<bar> \<le> 1 / 8"
    using jitter_product [OF assms] by blast
  have br: "(250 :: rat) \<le> of_nat ?b" "of_nat ?b \<le> (30000 :: rat)"
    using backoff_base_bounds [of a] by (metis of_nat_le_iff of_nat_numeral)+
  have p: "3 / 4 * of_nat ?b \<le> of_nat ?b * j" "of_nat ?b * j \<le> 5 / 4 * of_nat ?b"
    using mult_left_mono [of "3 / 4" j "of_nat ?b :: rat"] mult_left_mono [of j "5 / 4" "of_nat ?b :: rat"] br assms
    by (simp_all add: mult.commute)
  define k where "k = fcast_uint u64_max (fround (Fin x))"
  have k: "\<bar>of_nat k - of_nat ?b * j\<bar> \<le> 5 / 8"
    unfolding k_def by (rule cast_round_near [OF x(2)]) (use p br in linarith)+
  have d: "jittered_backoff a (Fin j) = max 1 (min k 30000)"
    unfolding jittered_backoff_def backoff_base_sat x(1) Let_def k_def by (simp add: limits)
  have "of_nat (max 1 (min k 30000)) = max 1 (min (of_nat k :: rat) 30000)"
    by (simp add: of_nat_max of_nat_min)
  then show "of_nat (jittered_backoff a (Fin j)) \<le> (5 / 4 * of_nat ?b + 5 / 8 :: rat)"
    and "min (3 / 4 * of_nat ?b) 30000 - 5 / 8 \<le> (of_nat (jittered_backoff a (Fin j)) :: rat)"
    using k p br unfolding d by linarith+
qed

lemma jittered_backoff_range: "1 \<le> jittered_backoff a j" "jittered_backoff a j \<le> 30000"
  by (simp_all add: jittered_backoff_def limits Let_def)

lemma transient_delay:
  assumes "3 / 4 \<le> j" and "j \<le> 5 / 4"
  shows "jittered_backoff 0 (Fin j) \<le> 313" and "jittered_backoff 1 (Fin j) \<le> 625"
proof -
  have "of_nat (jittered_backoff 0 (Fin j)) < (314 :: rat)" "of_nat (jittered_backoff 1 (Fin j)) < (626 :: rat)"
    using jittered_backoff_near(1) [OF assms, of 0] jittered_backoff_near(1) [OF assms, of 1]
    by (simp_all add: backoff_base_def limits)
  then have "jittered_backoff 0 (Fin j) < 314" "jittered_backoff 1 (Fin j) < 626"
    by (metis of_nat_less_iff of_nat_numeral)+
  then show "jittered_backoff 0 (Fin j) \<le> 313" and "jittered_backoff 1 (Fin j) \<le> 625" by simp_all
qed

lemma backoff_base_exponential: "backoff_base a = min (250 * 2 ^ a) 30000"
proof (cases "a \<le> 10")
  case False
  then have "(2 :: nat) ^ 10 \<le> 2 ^ a" by (intro power_increasing) simp_all
  with False show ?thesis by (simp add: backoff_base_def limits)
qed (simp add: backoff_base_def limits)

text \<open>
  The backoff is exponential with a quarter of jitter and a ceiling: before retry \<open>a\<close> the client
  waits within a quarter of 250 ms doubled \<open>a\<close> times (cut at thirty seconds, up to rounding to a
  millisecond), and never less than one millisecond or more than thirty seconds, the random factor
  being multiplied in double precision.
\<close>

theorem backoff_jittered_exponential:
  assumes "3 / 4 \<le> j" and "j \<le> 5 / 4"
  shows "1 \<le> jittered_backoff a (Fin j) \<and> jittered_backoff a (Fin j) \<le> 30000 \<and>
    3 / 4 * min (250 * 2 ^ a) 30000 - 5 / 8 \<le> (of_nat (jittered_backoff a (Fin j)) :: rat) \<and>
    of_nat (jittered_backoff a (Fin j)) \<le> (5 / 4 * min (250 * 2 ^ a) 30000 + 5 / 8 :: rat)"
proof -
  have b: "of_nat (backoff_base a) = (min (250 * 2 ^ a) 30000 :: rat)"
    by (simp add: backoff_base_exponential of_nat_min)
  have "min (3 / 4 * of_nat (backoff_base a)) 30000 = (3 / 4 * of_nat (backoff_base a) :: rat)"
    unfolding b by (simp add: min_def)
  then show ?thesis
    using jittered_backoff_near [OF assms, of a] jittered_backoff_range [of a "Fin j"] by (simp add: b)
qed

theorem backoff_jittered_exponential_witness:
  "1 \<le> jittered_backoff 1 (Fin 1) \<and> (374 :: rat) \<le> of_nat (jittered_backoff 1 (Fin 1)) \<and>
   of_nat (jittered_backoff 1 (Fin 1)) \<le> (626 :: rat)"
  using backoff_jittered_exponential [of 1 1] by simp

section \<open>The retry budget\<close>

definition sends :: "io_event list \<Rightarrow> nat" where
  "sends evs = length (filter (\<lambda>e. e = Sent) evs)"

definition slept_ms :: "io_event \<Rightarrow> nat" where
  "slept_ms e = (case e of Slept n \<Rightarrow> n | Sent \<Rightarrow> 0)"

definition sleep_total :: "io_event list \<Rightarrow> nat" where
  "sleep_total evs = sum_list (map slept_ms evs)"

definition jitter_ok :: "pass_env \<Rightarrow> bool" where
  "jitter_ok pe = (case pe_jitter pe of Fin j \<Rightarrow> 3 / 4 \<le> j \<and> j \<le> 5 / 4 | _ \<Rightarrow> False)"

lemma io_simps [simp]:
  "sends [] = 0" "sends (Sent # evs) = Suc (sends evs)" "sends (Slept n # evs) = sends evs"
  "sends (evs @ evs') = sends evs + sends evs'" "sends (slept w) = 0"
  "sleep_total [] = 0" "sleep_total (e # evs) = slept_ms e + sleep_total evs"
  "sleep_total (evs @ evs') = sleep_total evs + sleep_total evs'" "sleep_total (slept w) = w"
  "slept_ms Sent = 0" "slept_ms (Slept n) = n"
  by (simp_all add: sends_def sleep_total_def slept_ms_def slept_def)

lemma slept_ms_slept [simp]: "e \<in> set (slept w) \<longleftrightarrow> e = Slept w \<and> w \<noteq> 0"
  by (auto simp: slept_def)

text \<open>What may still be slept after \<open>a\<close> transient and \<open>r\<close> rate-limit retries.\<close>

definition transient_cost :: "u32 \<Rightarrow> nat" where
  "transient_cost a = (if a = 0 then 313 else 625)"

definition budget :: "u32 \<Rightarrow> u32 \<Rightarrow> nat" where
  "budget a r = 5000 * (5 - a - r) + 5000 * (2 - r) + (if a = 0 then 938 else if a = 1 then 625 else 0)"

lemma eligible_delay: "sleep_until_eligible cs es n st = Ok w \<Longrightarrow> w \<le> 5000"
  by (auto simp: sleep_until_eligible_def limits Let_def split: if_splits)

lemma transient_cost_ok:
  assumes "jitter_ok pe" and "a < 2"
  shows "jittered_backoff a (pe_jitter pe) \<le> transient_cost a"
proof -
  obtain j where "pe_jitter pe = Fin j" "3 / 4 \<le> j" "j \<le> 5 / 4"
    using assms(1) by (auto simp: jitter_ok_def split: rfloat.splits)
  with transient_delay [of j] assms(2) show ?thesis
    by (auto simp: transient_cost_def less_2_cases_iff)
qed

lemma send_pass_cost:
  assumes "send_pass lib pr cs es pe a r st = (e, st', evs)" and "jitter_ok pe" and "a \<le> 2" and "r \<le> 2"
  shows "sends evs \<le> 1" and "\<forall>x \<in> set evs. slept_ms x \<le> 5000"
    and "sleep_total evs \<le> 5000 + (case e of Finished _ \<Rightarrow> 0
      | Again a' r' \<Rightarrow> if r' = r then transient_cost a else 5000)"
  using assms eligible_delay [of cs es "pe_now_ms pe" st] transient_cost_ok [of pe a]
  by (auto simp: send_pass_def after_failure_def decide_retry_def limits Let_def transient_cost_def
      split: result.splits if_splits prod.splits retry_action.splits)

lemma send_loop_budget:
  assumes "\<forall>i. jitter_ok (env i)" and "a \<le> 2" and "r \<le> 2"
    and "send_loop lib pr cs es env i a r st = (res, st', evs)"
  shows "sends evs + a + r \<le> 5 \<and> (\<forall>x \<in> set evs. slept_ms x \<le> 5000) \<and> sleep_total evs \<le> budget a r"
  using assms
proof (induction lib pr cs es env i a r st arbitrary: res st' evs rule: send_loop.induct)
  case (1 lib pr cs es env i a r st)
  obtain e st1 evs1 where p: "send_pass lib pr cs es (env i) a r st = (e, st1, evs1)" by (metis surj_pair)
  note c = send_pass_cost [OF p "1.prems"(1) [rule_format] "1.prems"(2,3)]
  show ?case
  proof (cases e)
    case (Finished x)
    with "1.prems" p c show ?thesis by (auto simp: send_loop.simps [of lib] budget_def)
  next
    case (Again a' r')
    obtain evs2 where rest: "send_loop lib pr cs es env (i + 1) a' r' st1 = (res, st', evs2)" and evs: "evs = evs1 @ evs2"
      using "1.prems"(4) p Again by (auto simp: send_loop.simps [of lib pr cs es env i] split: prod.splits)
    note A = send_pass_Again(2) [OF p [unfolded Again]] send_pass_Again(3) [OF p [unfolded Again] "1.prems"(2,3)]
    have IH: "sends evs2 + a' + r' \<le> 5 \<and> (\<forall>x \<in> set evs2. slept_ms x \<le> 5000) \<and> sleep_total evs2 \<le> budget a' r'"
      by (rule "1.IH" [OF p [symmetric] Again refl]) (use A rest "1.prems"(1) in auto)
    have "budget a' r' + (5000 + (if r' = r then transient_cost a else 5000)) \<le> budget a r"
      using A "1.prems"(2,3) by (auto simp: budget_def transient_cost_def)
    with IH c A evs Again show ?thesis by auto
  qed
qed

lemma send_loop_passes:
  assumes "a \<le> 2" and "r \<le> 2" and "\<forall>k. i \<le> k \<and> k + a + r < i + 5 \<longrightarrow> env' k = env k"
  shows "send_loop lib pr cs es env' i a r st = send_loop lib pr cs es env i a r st"
  using assms
proof (induction lib pr cs es env i a r st rule: send_loop.induct)
  case (1 lib pr cs es env i a r st)
  have i: "env' i = env i" using "1.prems" by simp
  obtain e st1 evs1 where p: "send_pass lib pr cs es (env i) a r st = (e, st1, evs1)" by (metis surj_pair)
  show ?case
  proof (cases e)
    case (Again a' r')
    note A = send_pass_Again(2) [OF p [unfolded Again]] send_pass_Again(3) [OF p [unfolded Again] "1.prems"(1,2)]
    have "send_loop lib pr cs es env' (i + 1) a' r' st1 = send_loop lib pr cs es env (i + 1) a' r' st1"
      by (rule "1.IH" [OF p [symmetric] Again refl]) (use A "1.prems"(3) in auto)
    then show ?thesis by (simp add: send_loop.simps [of lib pr cs es _ i] i p Again)
  qed (simp add: send_loop.simps [of lib pr cs es _ i] i p)
qed

text \<open>
  C11: A request always comes to an end. Whatever the server answers and however long it keeps
  refusing, one request passes through its loop at most five times: it depends on nothing after the
  fifth pass, sends at most five requests, never sleeps longer than five seconds at once, and sleeps
  less than thirty-six seconds in all.
\<close>

theorem request_is_bounded:
  assumes "\<forall>i. jitter_ok (env i)"
  shows "case send_with_retry_in_bucket lib pr cs es env st of (r, st', evs) \<Rightarrow>
    sends evs \<le> 5 \<and> (\<forall>x \<in> set evs. slept_ms x \<le> 5000) \<and> sleep_total evs \<le> 35938 \<and>
    (\<forall>env'. (\<forall>i < 5. env' i = env i) \<longrightarrow> send_with_retry_in_bucket lib pr cs es env' st = (r, st', evs))"
proof -
  obtain r st' evs where l: "send_loop lib pr cs es env 0 0 0 st = (r, st', evs)" by (metis surj_pair)
  have "send_loop lib pr cs es env' 0 0 0 st = (r, st', evs)" if "\<forall>i < 5. env' i = env i" for env'
    using send_loop_passes [of 0 0 0 env' env] that l by simp
  with send_loop_budget [OF assms _ _ l] show ?thesis
    by (simp add: send_with_retry_in_bucket_def l budget_def)
qed

definition sample_lib :: http_lib where
  "sample_lib = \<lparr>hl_json_str = (\<lambda>_ _. None), hl_rfc2822 = (\<lambda>_. None)\<rparr>"

definition sample_pass :: "u16 \<Rightarrow> pass_env" where
  "sample_pass status = \<lparr>pe_now_ms = 0, pe_permit = Ok (),
     pe_send = Ok \<lparr>hr_status = status, hr_retry_after = Some ''1'', hr_body = []\<rparr>,
     pe_now_ns = 0, pe_jitter = Fin 1\<rparr>"

theorem request_is_bounded_witness:
  "case send_with_retry_in_bucket sample_lib Foreground ''s'' ''s'' (\<lambda>_. sample_pass 429) Map.empty of
     (r, st', evs) \<Rightarrow> sends evs \<le> 5"
  using request_is_bounded [of "\<lambda>_. sample_pass 429" sample_lib Foreground "''s''" "''s''" Map.empty]
  by (auto simp: jitter_ok_def sample_pass_def split: prod.splits)

section \<open>Cooldowns\<close>

lemma scope_simps [simp]:
  "record_rate_limit s n d st s' = (if s' = s then Some ((case st s of Some x \<Rightarrow> x | None \<Rightarrow> default_scope)
     \<lparr>sc_last_rate_limited_at_ms := Some n, sc_next_eligible_at_ms := Some (wrap_i64 (n + int d))\<rparr>) else st s')"
  "clear_scope s st s' = (if s' = s then map_option (\<lambda>x. x\<lparr>sc_next_eligible_at_ms := None\<rparr>) (st s) else st s')"
  by (simp_all add: record_rate_limit_def clear_scope_def Let_def split: option.split)

lemma wait_after_record:
  assumes "in_i64 (n + int d)" and "in_i64 (n + int d - t)"
  shows "wait_ms (record_rate_limit s n d st) s t = max (n + int d - t) 0"
  using assms by (simp add: wait_ms_def rust_int)

lemma wait_after_clear [simp]: "wait_ms (clear_scope s st) s t = 0"
  by (cases "st s") (simp_all add: wait_ms_def)

definition touched :: "string \<Rightarrow> string \<Rightarrow> string set" where
  "touched cs es = (if is_first_party cs then {cs, es} else {cs})"

lemma send_pass_state:
  assumes "send_pass lib pr cs es pe a r st = (e, st', evs)"
  shows "\<forall>s. s \<notin> touched cs es \<longrightarrow> st' s = st s"
    and "(\<And>resp. e \<noteq> Finished (Ok resp)) \<Longrightarrow> \<forall>s. s \<noteq> cs \<longrightarrow> st' s = st s"
    and "e = Finished (Ok resp) \<Longrightarrow> is_success (hr_status resp) \<and> pe_send pe = Ok resp \<and> st' = clear_backoff cs es st"
  using assms
  by (auto simp: send_pass_def after_failure_def decide_retry_def clear_backoff_def touched_def Let_def
      split: result.splits if_splits prod.splits retry_action.splits)

lemma send_loop_state:
  assumes "send_loop lib pr cs es env i a r st = (res, st', evs)"
  shows "(\<forall>s. s \<notin> touched cs es \<longrightarrow> st' s = st s) \<and> (\<not> is_ok res \<longrightarrow> (\<forall>s. s \<noteq> cs \<longrightarrow> st' s = st s)) \<and>
    (\<forall>resp. res = Ok resp \<longrightarrow> is_success (hr_status resp) \<and> (\<exists>k. pe_send (env k) = Ok resp) \<and>
       (\<exists>st1. st' = clear_backoff cs es st1))"
  using assms
proof (induction lib pr cs es env i a r st arbitrary: res st' evs rule: send_loop.induct)
  case (1 lib pr cs es env i a r st)
  obtain e st1 evs1 where p: "send_pass lib pr cs es (env i) a r st = (e, st1, evs1)" by (metis surj_pair)
  note S = send_pass_state [OF p]
  show ?case
  proof (cases e)
    case (Finished x)
    with "1.prems" p S show ?thesis by (cases x) (auto simp: send_loop.simps [of lib pr cs es env i])
  next
    case (Again a' r')
    obtain evs2 where rest: "send_loop lib pr cs es env (i + 1) a' r' st1 = (res, st', evs2)"
      using "1.prems" p Again by (auto simp: send_loop.simps [of lib pr cs es env i] split: prod.splits)
    show ?thesis using "1.IH" [OF p [symmetric] Again refl rest] S Again by auto
  qed
qed

text \<open>The passes of a request: their number, the cooldowns each one sees, and what it does.\<close>

function request_passes ::
    "http_lib \<Rightarrow> priority \<Rightarrow> string \<Rightarrow> string \<Rightarrow> (nat \<Rightarrow> pass_env) \<Rightarrow> nat \<Rightarrow> u32 \<Rightarrow> u32 \<Rightarrow> backoff_state
      \<Rightarrow> (nat \<times> backoff_state \<times> io_event list) list" where
  "request_passes lib priority cs es env i attempt rate_limit_attempt st =
     (case send_pass lib priority cs es (env i) attempt rate_limit_attempt st of
        (Finished r, st', evs) \<Rightarrow> [(i, st, evs)]
      | (Again attempt' rate_limit_attempt', st', evs) \<Rightarrow>
          (i, st, evs) # request_passes lib priority cs es env (i + 1) attempt' rate_limit_attempt' st')"
  by pat_completeness auto
termination
  by (relation "measure (\<lambda>(lib, pr, cs, es, env, i, a, r, st). (3 - a) + (3 - r))")
    (auto dest!: send_pass_Again(1) [OF sym])

declare request_passes.simps [simp del]

definition cooldown_end :: "backoff_state \<Rightarrow> string \<Rightarrow> i64 option" where
  "cooldown_end st scope = Option.bind (st scope) sc_next_eligible_at_ms"

text \<open>
  A pass keeps the cooldowns it sees: it sends only after it has slept to the end of each that binds
  it, and not at all when that is more than five seconds away.
\<close>

definition keeps_cooldowns :: "string \<Rightarrow> string \<Rightarrow> pass_env \<Rightarrow> backoff_state \<Rightarrow> io_event list \<Rightarrow> bool" where
  "keeps_cooldowns cs es pe st evs \<longleftrightarrow> (\<forall>scope \<in> touched cs es. \<forall>ends.
     cooldown_end st scope = Some ends \<and> in_i64 (ends - pe_now_ms pe) \<longrightarrow>
       (\<forall>before after. evs = before @ Sent # after \<longrightarrow> ends \<le> pe_now_ms pe + int (sleep_total before)) \<and>
       (5000 < ends - pe_now_ms pe \<longrightarrow> evs = []))"

lemma wait_of_cooldown: "cooldown_end st scope = Some ends \<Longrightarrow> in_i64 (ends - now) \<Longrightarrow> wait_ms st scope now = max (ends - now) 0"
  by (simp add: wait_ms_def cooldown_end_def wrap_i64_id)

lemma eligible_wait_bounds:
  "scope \<in> touched cs es \<Longrightarrow> wait_ms st scope now \<le> eligible_wait_ms cs es now st"
  "0 \<le> eligible_wait_ms cs es now st"
  by (auto simp: touched_def eligible_wait_ms_def Let_def wait_ms_def split: if_splits option.split)

lemma pass_events:
  assumes "send_pass lib pr cs es pe a r st = (e, st', evs)"
  shows "(\<exists>w. sleep_until_eligible cs es (pe_now_ms pe) st = Err (SpRateLimited w es) \<and>
      e = Finished (Err (SpRateLimited w es)) \<and> evs = [] \<and> st' = st) \<or>
    (\<exists>w. sleep_until_eligible cs es (pe_now_ms pe) st = Ok w \<and>
      (evs = slept w \<or> (\<exists>rest. evs = slept w @ Sent # rest \<and> Sent \<notin> set rest)))"
proof (cases "sleep_until_eligible cs es (pe_now_ms pe) st")
  case (Err x)
  then obtain w where "x = SpRateLimited w es" by (auto simp: sleep_until_eligible_def Let_def split: if_splits)
  with Err assms show ?thesis by (simp add: send_pass_def)
next
  case (Ok w)
  with assms show ?thesis
    by (auto simp: send_pass_def after_failure_def Let_def split: result.splits if_splits prod.splits retry_action.splits)
qed

lemma first_send:
  assumes "slept w @ Sent # rest = before @ Sent # after" and "Sent \<notin> set rest"
  shows "before = slept w"
proof -
  have "Sent \<notin> set (slept w)" by (auto simp: slept_def)
  with assms show ?thesis by (metis append_Cons_eq_iff)
qed

lemma pass_keeps_cooldowns:
  assumes "send_pass lib pr cs es pe a r st = (e, st', evs)"
  shows "keeps_cooldowns cs es pe st evs"
  unfolding keeps_cooldowns_def
proof (intro ballI allI impI)
  fix scope ends
  assume scope: "scope \<in> touched cs es" and "cooldown_end st scope = Some ends \<and> in_i64 (ends - pe_now_ms pe)"
  then have wait: "max (ends - pe_now_ms pe) 0 \<le> eligible_wait_ms cs es (pe_now_ms pe) st"
    using eligible_wait_bounds(1) [OF scope, of st "pe_now_ms pe"] wait_of_cooldown by metis
  show "(\<forall>before after. evs = before @ Sent # after \<longrightarrow> ends \<le> pe_now_ms pe + int (sleep_total before)) \<and>
      (5000 < ends - pe_now_ms pe \<longrightarrow> evs = [])"
    using pass_events [OF assms]
  proof (elim disjE exE conjE)
    fix w assume "sleep_until_eligible cs es (pe_now_ms pe) st = Ok w"
    then have w: "int w = eligible_wait_ms cs es (pe_now_ms pe) st" "w \<le> 5000"
      using eligible_wait_bounds(2) [of cs es "pe_now_ms pe" st]
      by (auto simp: sleep_until_eligible_def limits Let_def split: if_splits)
    {
      assume "evs = slept w"
      then have "Sent \<notin> set evs" by (auto simp: slept_def)
      with w wait show ?thesis by auto
    next
      fix rest assume evs: "evs = slept w @ Sent # rest" "Sent \<notin> set rest"
      have "ends \<le> pe_now_ms pe + int (sleep_total before)" if "evs = before @ Sent # after" for before after
        using first_send [OF evs(1) [unfolded that, symmetric] evs(2)] w wait by simp
      with w wait show ?thesis by auto
    }
  qed simp
qed

lemma request_passes_events:
  assumes "send_loop lib pr cs es env i a r st = (res, st', evs)"
  shows "evs = concat (map (\<lambda>(i, s, x). x) (request_passes lib pr cs es env i a r st)) \<and>
    (\<forall>(i, s, x) \<in> set (request_passes lib pr cs es env i a r st). keeps_cooldowns cs es (env i) s x)"
  using assms
proof (induction lib pr cs es env i a r st arbitrary: res st' evs rule: send_loop.induct)
  case (1 lib pr cs es env i a r st)
  obtain e st1 evs1 where p: "send_pass lib pr cs es (env i) a r st = (e, st1, evs1)" by (metis surj_pair)
  note K = pass_keeps_cooldowns [OF p]
  show ?case
  proof (cases e)
    case (Finished x)
    with "1.prems" p K show ?thesis
      by (auto simp: send_loop.simps [of lib pr cs es env i] request_passes.simps [of lib pr cs es env i])
  next
    case (Again a' r')
    obtain evs2 where rest: "send_loop lib pr cs es env (i + 1) a' r' st1 = (res, st', evs2)" and evs: "evs = evs1 @ evs2"
      using "1.prems" p Again by (auto simp: send_loop.simps [of lib pr cs es env i] split: prod.splits)
    from "1.IH" [OF p [symmetric] Again refl rest] K evs p Again show ?thesis
      by (auto simp: request_passes.simps [of lib pr cs es env i])
  qed
qed



section \<open>Recovery\<close>

definition transient :: "pass_env \<Rightarrow> bool" where
  "transient pe = (case pe_send pe of Err _ \<Rightarrow> True
     | Ok resp \<Rightarrow> 500 \<le> hr_status resp \<and> hr_status resp < 600)"

definition may_send :: "priority \<Rightarrow> string \<Rightarrow> string \<Rightarrow> backoff_state \<Rightarrow> pass_env \<Rightarrow> bool" where
  "may_send pr cs es st pe \<longleftrightarrow> is_ok (sleep_until_eligible cs es (pe_now_ms pe) st) \<and> is_ok (permit pr pe)"

lemma transient_pass:
  assumes "transient pe" and "may_send pr cs es st pe"
  shows "\<exists>evs. sends evs = 1 \<and> (\<exists>e. sp_is_retryable e \<and>
    send_pass lib pr cs es pe a r st = (if a < 2 then Again (Suc a) r else Finished (Err e), st, evs))"
proof -
  obtain w where w: "sleep_until_eligible cs es (pe_now_ms pe) st = Ok w" and p: "permit pr pe = Ok ()"
    using assms(2) by (cases "sleep_until_eligible cs es (pe_now_ms pe) st"; cases "permit pr pe") (auto simp: may_send_def)
  show ?thesis
  proof (cases "pe_send pe")
    case (Err m)
    then show ?thesis using w p
      by (intro exI [of _ "slept w @ Sent # (if a < 2 then [Slept (jittered_backoff a (pe_jitter pe))] else [])"])
        (auto simp: send_pass_def limits intro!: exI [of _ "SpNetwork es m"])
  next
    case (Ok resp)
    with assms(1) have "500 \<le> hr_status resp" "hr_status resp < 600" by (simp_all add: transient_def)
    then show ?thesis using w p Ok
      by (intro exI [of _ "slept w @ Sent # (if a < 2 then [Slept (jittered_backoff a (pe_jitter pe))] else [])"])
        (auto simp: send_pass_def after_failure_def decide_retry_def is_success_def limits Let_def
          intro!: exI [of _ "classify_response lib (hr_status resp) (hr_retry_after resp) es (hr_body resp) (pe_now_ns pe)"],
         auto simp: classify_response_def Let_def)
  qed
qed

lemma transient_run:
  assumes "\<forall>m < k. transient (env (i + m)) \<and> may_send pr cs es st (env (i + m))" and "a + k \<le> 2"
  shows "\<exists>evs. sends evs = k \<and> send_loop lib pr cs es env i a r st =
    (case send_loop lib pr cs es env (i + k) (a + k) r st of (res, st', evs') \<Rightarrow> (res, st', evs @ evs'))"
  using assms
proof (induction k arbitrary: i a)
  case 0
  show ?case by (rule exI [of _ "[]"]) (simp split: prod.split)
next
  case (Suc k)
  obtain evs where "sends evs = 1" "send_pass lib pr cs es (env i) a r st = (Again (Suc a) r, st, evs)"
    using transient_pass [of "env i" pr cs es st lib a r] Suc.prems(1) [rule_format, of 0] Suc.prems(2) by auto
  moreover obtain evs2 where "sends evs2 = k" "send_loop lib pr cs es env (Suc i) (Suc a) r st =
      (case send_loop lib pr cs es env (Suc i + k) (Suc a + k) r st of (res, st', evs') \<Rightarrow> (res, st', evs2 @ evs'))"
    using Suc.IH [of "Suc i" "Suc a"] Suc.prems by (metis Suc_less_eq add_Suc_right add_Suc_shift)
  ultimately show ?case
    by (intro exI [of _ "evs @ evs2"]) (auto simp: send_loop.simps [of lib pr cs es env i] split: prod.splits)
qed

text \<open>
  Transient trouble is survived. While the scope is not cooling down, up to two network failures or
  server errors are retried and the next success is returned, after exactly one send per pass; three
  failures in a row end the request with an error that callers recognise as retryable.
\<close>

theorem transient_failures_survived:
  assumes "\<forall>i < k. transient (env i)" and "\<forall>i \<le> k. may_send pr cs es st (env i)" and "k \<le> 2"
  shows "(\<forall>resp. pe_send (env k) = Ok resp \<and> is_success (hr_status resp) \<longrightarrow>
      (\<exists>st' evs. send_with_retry_in_bucket lib pr cs es env st = (Ok resp, st', evs) \<and> sends evs = k + 1)) \<and>
    (k = 2 \<and> transient (env 2) \<longrightarrow>
      (\<exists>e st' evs. send_with_retry_in_bucket lib pr cs es env st = (Err e, st', evs) \<and> sp_is_retryable e \<and> sends evs = 3))"
proof (intro conjI)
  obtain evs where evs: "sends evs = k" and run: "send_loop lib pr cs es env 0 0 0 st =
      (case send_loop lib pr cs es env k k 0 st of (res, st', evs') \<Rightarrow> (res, st', evs @ evs'))"
    using transient_run [of k env 0 pr cs es st 0 lib 0] assms by auto
  have may: "may_send pr cs es st (env k)" using assms(2) by simp
  then obtain w where w: "sleep_until_eligible cs es (pe_now_ms (env k)) st = Ok w" and p: "permit pr (env k) = Ok ()"
    by (cases "sleep_until_eligible cs es (pe_now_ms (env k)) st"; cases "permit pr (env k)") (auto simp: may_send_def)
  show "\<forall>resp. pe_send (env k) = Ok resp \<and> is_success (hr_status resp) \<longrightarrow>
      (\<exists>st' evs. send_with_retry_in_bucket lib pr cs es env st = (Ok resp, st', evs) \<and> sends evs = k + 1)"
    using evs w p by (auto simp: send_with_retry_in_bucket_def run send_loop.simps [of lib pr cs es env k] send_pass_def)
  show "k = 2 \<and> transient (env 2) \<longrightarrow>
      (\<exists>e st' evs. send_with_retry_in_bucket lib pr cs es env st = (Err e, st', evs) \<and> sp_is_retryable e \<and> sends evs = 3)"
    using transient_pass [OF _ may, of lib k 0] evs
    by (auto simp: send_with_retry_in_bucket_def run send_loop.simps [of lib pr cs es env 2])
qed

theorem transient_failures_survived_witness:
  "\<exists>st' evs. send_with_retry_in_bucket sample_lib Foreground ''s'' ''s'' (\<lambda>i. sample_pass (if i < 2 then 503 else 200)) Map.empty =
     (Ok \<lparr>hr_status = 200, hr_retry_after = Some ''1'', hr_body = []\<rparr>, st', evs) \<and> sends evs = 3"
proof -
  let ?env = "\<lambda>i :: nat. sample_pass (if i < 2 then 503 else 200)"
  have "may_send Foreground ''s'' ''s'' Map.empty (?env i)" for i
    by (simp add: may_send_def sleep_until_eligible_def eligible_wait_ms_def wait_ms_def permit_def sample_pass_def
        is_first_party_def)
  moreover have "\<forall>i < 2. transient (?env i)" by (simp add: transient_def sample_pass_def)
  ultimately show ?thesis
    using transient_failures_survived [of 2 ?env Foreground "''s''" "''s''" Map.empty sample_lib]
    by (simp add: sample_pass_def is_success_def)
qed

end
