(* ===== verification/Mutation_Claims.thy ===== *)
theory Mutation_Claims
  imports Operation_Log Reconciliation Rate_Limit
begin

text \<open>
  \<open>spotuify-store/src/mutation_dedup.rs\<close>: durable idempotency claims for writes that leave the daemon. A
  client names a mutation by an id of its own; the first request with that id binds it to the request's
  fingerprint and inserts the linked receipt and operation rows, all in one transaction; every later
  request with the id sees the claim instead of running the mutation. Finishing a mutation settles the
  three rows together, and a restart settles what was left in flight as indeterminate. With it the
  post-write guard and the recovery plan of \<open>provider_reconciliations.rs\<close>, and the receipt rows of
  \<open>spotuify-store/src/lib.rs\<close>. Columns that hold JSON are modelled by the value that is serialised.
\<close>

section \<open>Rows\<close>

datatype receipt_status = ReceiptPending | ReceiptConfirmed | ReceiptFailed

record api_error_summary =
  ae_kind :: ipc_error_kind
  ae_message :: string
  ae_retry_after_secs :: "u64 option"
  ae_provider :: "string option"
  ae_detail :: "string option"

record receipt =
  rp_id :: string
  rp_action :: string
  rp_status :: receipt_status
  rp_message :: string
  rp_started_at_ms :: i64
  rp_finished_at_ms :: "i64 option"
  rp_error :: "api_error_summary option"

datatype 'd response =
    RespOk 'd
  | RespError string ipc_error_kind string bool "string option" "string option"

primrec ipc_as_code :: "ipc_error_kind \<Rightarrow> string" where
  "ipc_as_code IpcAuth = ''auth''"
| "ipc_as_code IpcAuthRevoked = ''auth_revoked''"
| "ipc_as_code IpcInvalidRequest = ''invalid_request''"
| "ipc_as_code IpcNetwork = ''network''"
| "ipc_as_code IpcProvider = ''provider''"
| "ipc_as_code IpcRateLimited = ''rate_limited''"
| "ipc_as_code IpcUnsupported = ''unsupported''"
| "ipc_as_code IpcTimeout = ''timeout''"
| "ipc_as_code IpcInternal = ''internal''"

definition ipc_is_retryable :: "ipc_error_kind \<Rightarrow> bool" where
  "ipc_is_retryable kind = (kind \<in> {IpcNetwork, IpcRateLimited, IpcTimeout})"

definition error_with_retryable :: "string \<Rightarrow> ipc_error_kind \<Rightarrow> bool \<Rightarrow> 'd response" where
  "error_with_retryable message kind retryable = RespError message kind (ipc_as_code kind) retryable None None"

definition error_with_kind :: "string \<Rightarrow> ipc_error_kind \<Rightarrow> 'd response" where
  "error_with_kind message kind = error_with_retryable message kind (ipc_is_retryable kind)"

datatype claim_state = ClaimProcessing | ClaimCompleted | ClaimFailed

record 'd claim_row =
  cm_mutation_id :: string
  cm_fingerprint :: string
  cm_request_json :: string
  cm_state :: claim_state
  cm_response :: "'d response option"
  cm_receipt_id :: "string option"
  cm_operation_id :: "operation_id option"
  cm_created_at_ms :: i64
  cm_updated_at_ms :: i64
  cm_expires_at_ms :: i64

record 'd store =
  st_claims :: "'d claim_row list"
  st_receipts :: "receipt list"
  st_ops :: op_table
  st_recons :: recon_tables

definition MUTATION_DEDUP_TTL_MS :: i64 where "MUTATION_DEDUP_TTL_MS = 24 * 60 * 60 * 1000"

definition INDETERMINATE_MESSAGE :: string where
  "INDETERMINATE_MESSAGE = ''remote outcome indeterminate; inspect state before retrying with a new mutation id''"

definition expiry :: "i64 \<Rightarrow> i64" where
  "expiry now_ms = wrap_i64 (now_ms + MUTATION_DEDUP_TTL_MS)"

section \<open>Receipts\<close>

definition insert_pending_receipt :: "receipt \<Rightarrow> receipt list \<Rightarrow> receipt list option" where
  "insert_pending_receipt r t =
     (if row_at rp_id (rp_id r) t \<noteq> None then None
      else Some (t @ [r\<lparr>rp_status := ReceiptPending, rp_finished_at_ms := None, rp_error := None\<rparr>]))"

abbreviation receipt_pending :: "receipt \<Rightarrow> bool" where
  "receipt_pending r \<equiv> rp_status r = ReceiptPending"

definition finalize_receipt ::
    "string \<Rightarrow> receipt_status \<Rightarrow> string \<Rightarrow> i64 \<Rightarrow> api_error_summary option \<Rightarrow> receipt list \<Rightarrow> receipt list" where
  "finalize_receipt i status message finished_at_ms error =
     update_at rp_id i receipt_pending (\<lambda>r. r\<lparr>rp_status := status, rp_message := message,
       rp_finished_at_ms := Some finished_at_ms, rp_error := error\<rparr>)"

definition get_receipt :: "string \<Rightarrow> receipt list \<Rightarrow> (receipt, string) result" where
  "get_receipt i t = (case row_at rp_id i t of Some r \<Rightarrow> Ok r | None \<Rightarrow> Err (''receipt '' @ i @ '' not found''))"

definition list_pending_receipts :: "receipt list \<Rightarrow> receipt list" where
  "list_pending_receipts t = sort_key rp_started_at_ms (filter receipt_pending t)"

section \<open>Claims\<close>

datatype 'd mutation_claim =
    Claimed
  | Existing "receipt option" "'d response option"
  | FingerprintMismatch

definition linked_receipt :: "'d claim_row \<Rightarrow> 'd store \<Rightarrow> receipt option" where
  "linked_receipt c st = Option.bind (cm_receipt_id c) (\<lambda>i. row_at rp_id i (st_receipts st))"

definition existing_claim :: "'d claim_row \<Rightarrow> string \<Rightarrow> 'd store \<Rightarrow> 'd mutation_claim" where
  "existing_claim c fingerprint st =
     (if cm_fingerprint c \<noteq> fingerprint then FingerprintMismatch
      else Existing (linked_receipt c st) (cm_response c))"

definition lookup_mutation_claim :: "string \<Rightarrow> string \<Rightarrow> 'd store \<Rightarrow> 'd mutation_claim option" where
  "lookup_mutation_claim mid fingerprint st =
     map_option (\<lambda>c. existing_claim c fingerprint st) (row_at cm_mutation_id mid (st_claims st))"

definition terminal_mutation_response :: "string \<Rightarrow> 'd store \<Rightarrow> 'd response option" where
  "terminal_mutation_response mid st = (case row_at cm_mutation_id mid (st_claims st) of
       Some c \<Rightarrow> if cm_state c \<noteq> ClaimProcessing then cm_response c else None | None \<Rightarrow> None)"

definition new_claim :: "string \<Rightarrow> string \<Rightarrow> string \<Rightarrow> receipt \<Rightarrow> operation \<Rightarrow> i64 \<Rightarrow> 'd claim_row" where
  "new_claim mid fingerprint request_json rcp op now_ms =
     \<lparr>cm_mutation_id = mid, cm_fingerprint = fingerprint, cm_request_json = request_json,
      cm_state = ClaimProcessing, cm_response = None, cm_receipt_id = Some (rp_id rcp),
      cm_operation_id = Some (op_id op), cm_created_at_ms = now_ms, cm_updated_at_ms = now_ms,
      cm_expires_at_ms = expiry now_ms\<rparr>"

text \<open>
  A constraint that refuses one of the inserts (a duplicate receipt or operation id, an operation whose
  receipt does not exist) is an error and rolls the transaction back.
\<close>

definition claim_mutation ::
    "string \<Rightarrow> string \<Rightarrow> string \<Rightarrow> receipt \<Rightarrow> operation \<Rightarrow> i64 \<Rightarrow> 'd store
      \<Rightarrow> 'd store \<times> ('d mutation_claim, string) result" where
  "claim_mutation mid fingerprint request_json rcp op now_ms st =
     (case row_at cm_mutation_id mid (st_claims st) of
        Some c \<Rightarrow> (st, Ok (existing_claim c fingerprint st))
      | None \<Rightarrow> (case insert_pending_receipt rcp (st_receipts st) of
          None \<Rightarrow> (st, Err ''constraint failed'')
        | Some receipts \<Rightarrow>
            if (case op_receipt_id op of Some i \<Rightarrow> row_at rp_id i receipts = None | None \<Rightarrow> False)
            then (st, Err ''constraint failed'')
            else (case insert_pending_operation op (st_ops st) of
                None \<Rightarrow> (st, Err ''constraint failed'')
              | Some ops \<Rightarrow>
                  (st\<lparr>st_claims := st_claims st @ [new_claim mid fingerprint request_json rcp op now_ms],
                      st_receipts := receipts, st_ops := ops\<rparr>, Ok Claimed))))"

section \<open>Settling a claim\<close>

record partial_recovery =
  po_pre_state :: pre_state
  po_reversal_plan :: reversal_plan
  po_subject_uris :: "string list"

definition retain_partial_recovery :: "operation_id \<Rightarrow> partial_recovery option \<Rightarrow> op_table \<Rightarrow> op_table" where
  "retain_partial_recovery i recovery t = (case recovery of
       None \<Rightarrow> t
     | Some po \<Rightarrow> update_where i is_pending (\<lambda>op. op\<lparr>op_reversible := True,
         op_pre_state := Some (po_pre_state po), op_reversal_plan := Some (po_reversal_plan po),
         op_subject_uris := po_subject_uris po\<rparr>) t)"

datatype post_write_guard = DisableUndo operation_id | MarkRedone operation_id

definition apply_post_write_guard ::
    "post_write_guard option \<Rightarrow> operation_id \<Rightarrow> op_table \<Rightarrow> (op_table, string) result" where
  "apply_post_write_guard guard outer t = (case guard of
       None \<Rightarrow> Ok t
     | Some (DisableUndo original) \<Rightarrow>
         if rows_affected original (\<lambda>_. True) t \<noteq> 1
         then Err (''partial undo original operation '' @ original @ '' was not found'')
         else Ok (disable_partial_undo original t)
     | Some (MarkRedone original) \<Rightarrow>
         if rows_affected original (\<lambda>op. op_status op = Undone) t = 1
         then Ok (mark_operation_redone original outer t)
         else if (\<exists>op \<in> set t. op_id op = original \<and> op_status op = Redone \<and> op_redone_by_op_id op = Some outer)
         then Ok t
         else Err (''redo original operation '' @ original @ '' is not undone''))"

fun insert_reconciliations ::
    "provider_reconciliation list \<Rightarrow> i64 \<Rightarrow> recon_tables \<Rightarrow> (recon_tables, string) result" where
  "insert_reconciliations [] at_ms t = Ok t"
| "insert_reconciliations (p # ps) at_ms t = result_bind (insert_reconciliation p at_ms t) (insert_reconciliations ps at_ms)"

record 'd settlement =
  sl_receipt_status :: receipt_status
  sl_receipt_message :: string
  sl_receipt_error :: "api_error_summary option"
  sl_operation_status :: operation_status
  sl_operation_error :: "string option"
  sl_response :: "'d response"
  sl_succeeded :: bool
  sl_reconciliations :: "provider_reconciliation list"
  sl_guard :: "post_write_guard option"
  sl_recovery :: "partial_recovery option"
  sl_finished_at_ms :: i64

definition settled_state :: "'d settlement \<Rightarrow> claim_state" where
  "settled_state sl = (if sl_succeeded sl then ClaimCompleted else ClaimFailed)"

definition owns_claim :: "string \<Rightarrow> operation_id \<Rightarrow> 'd claim_row \<Rightarrow> bool" where
  "owns_claim receipt_id operation_id c \<longleftrightarrow>
     cm_state c = ClaimProcessing \<and> cm_receipt_id c = Some receipt_id \<and> cm_operation_id c = Some operation_id"

definition settle_claim :: "claim_state \<Rightarrow> 'd response \<Rightarrow> i64 \<Rightarrow> 'd claim_row \<Rightarrow> 'd claim_row" where
  "settle_claim state response at_ms c = c\<lparr>cm_state := state, cm_response := Some response,
     cm_updated_at_ms := at_ms, cm_expires_at_ms := expiry at_ms\<rparr>"

text \<open>The terminal rows are exactly those this settlement would write.\<close>

definition is_exact_replay :: "string \<Rightarrow> string \<Rightarrow> operation_id \<Rightarrow> 'd settlement \<Rightarrow> 'd store \<Rightarrow> bool" where
  "is_exact_replay mid receipt_id operation_id sl st \<longleftrightarrow>
     (\<exists>c \<in> set (st_claims st). \<exists>r \<in> set (st_receipts st). \<exists>op \<in> set (st_ops st).
        cm_mutation_id c = mid \<and> cm_receipt_id c = Some (rp_id r) \<and> cm_operation_id c = Some (op_id op) \<and>
        cm_state c = settled_state sl \<and> cm_response c = Some (sl_response sl) \<and>
        rp_id r = receipt_id \<and> op_id op = operation_id \<and>
        rp_status r = sl_receipt_status sl \<and> op_status op = sl_operation_status sl)"

definition finalize_claimed_mutation ::
    "string \<Rightarrow> string \<Rightarrow> operation_id \<Rightarrow> 'd settlement \<Rightarrow> 'd store \<Rightarrow> 'd store \<times> (unit, string) result" where
  "finalize_claimed_mutation mid receipt_id operation_id sl st =
     (let at_ms = sl_finished_at_ms sl;
          receipt_rows = rows_hit rp_id receipt_id receipt_pending (st_receipts st);
          operation_rows = rows_affected operation_id is_pending (st_ops st);
          claim_rows = rows_hit cm_mutation_id mid (owns_claim receipt_id operation_id) (st_claims st);
          st' = st\<lparr>st_receipts := finalize_receipt receipt_id (sl_receipt_status sl) (sl_receipt_message sl) at_ms
                     (sl_receipt_error sl) (st_receipts st),
                   st_ops := finalize_operation operation_id (sl_operation_status sl) at_ms (sl_operation_error sl)
                     (retain_partial_recovery operation_id (sl_recovery sl) (st_ops st)),
                   st_claims := update_at cm_mutation_id mid (owns_claim receipt_id operation_id)
                     (settle_claim (settled_state sl) (sl_response sl) at_ms) (st_claims st)\<rparr>
      in if receipt_rows \<noteq> 1 \<or> operation_rows \<noteq> 1 \<or> claim_rows \<noteq> 1
         then if is_exact_replay mid receipt_id operation_id sl st' then (st', Ok ())
              else (st, Err ''mutation finalization lost ownership'')
         else case result_bind (apply_post_write_guard (sl_guard sl) operation_id (st_ops st')) (\<lambda>ops.
                    result_bind (insert_reconciliations (sl_reconciliations sl) at_ms (st_recons st')) (\<lambda>recons.
                      Ok (st'\<lparr>st_ops := ops, st_recons := recons\<rparr>))) of
                Ok st'' \<Rightarrow> (st'', Ok ())
              | Err e \<Rightarrow> (st, Err e))"

definition indeterminate_response :: "'d response" where
  "indeterminate_response = error_with_retryable INDETERMINATE_MESSAGE IpcInternal False"

definition indeterminate_error :: "string \<Rightarrow> api_error_summary" where
  "indeterminate_error message = \<lparr>ae_kind = IpcInternal, ae_message = message, ae_retry_after_secs = None,
     ae_provider = None, ae_detail = None\<rparr>"

definition finalize_processing_claim ::
    "string \<Rightarrow> string \<Rightarrow> 'd response \<Rightarrow> provider_reconciliation list \<Rightarrow> post_write_guard option \<Rightarrow> i64 \<Rightarrow> 'd store
      \<Rightarrow> ('d store, string) result" where
  "finalize_processing_claim mid message response reconciliations guard now_ms st =
     (case row_at cm_mutation_id mid (st_claims st) of
        None \<Rightarrow> Ok st
      | Some c \<Rightarrow>
          if cm_state c \<noteq> ClaimProcessing then Ok st
          else let receipts = (case cm_receipt_id c of
                     Some i \<Rightarrow> finalize_receipt i ReceiptFailed message now_ms (Some (indeterminate_error message)) (st_receipts st)
                   | None \<Rightarrow> st_receipts st);
                   ops = (case cm_operation_id c of
                     Some i \<Rightarrow> finalize_operation i OpFailed now_ms (Some message) (st_ops st) | None \<Rightarrow> st_ops st)
               in result_bind (case cm_operation_id c of
                      Some i \<Rightarrow> apply_post_write_guard guard i ops
                    | None \<Rightarrow> if guard \<noteq> None then Err ''processing mutation has no operation for post-write guard''
                              else Ok ops) (\<lambda>ops'.
                  result_bind (insert_reconciliations reconciliations now_ms (st_recons st)) (\<lambda>recons.
                    Ok (st\<lparr>st_receipts := receipts, st_ops := ops', st_recons := recons,
                           st_claims := update_at cm_mutation_id mid (\<lambda>_. True)
                             (settle_claim ClaimFailed response now_ms) (st_claims st)\<rparr>))))"

definition mark_mutation_indeterminate ::
    "string \<Rightarrow> provider_reconciliation list \<Rightarrow> post_write_guard option \<Rightarrow> i64 \<Rightarrow> 'd store
      \<Rightarrow> 'd store \<times> ('d response, string) result" where
  "mark_mutation_indeterminate mid reconciliations guard now_ms st =
     (case terminal_mutation_response mid st of
        Some response \<Rightarrow> (st, Ok response)
      | None \<Rightarrow> (case finalize_processing_claim mid INDETERMINATE_MESSAGE indeterminate_response
                       reconciliations guard now_ms st of
          Err e \<Rightarrow> (st, Err e)
        | Ok st' \<Rightarrow> (st', Ok (case Option.bind (row_at cm_mutation_id mid (st_claims st')) cm_response of
              Some response \<Rightarrow> response | None \<Rightarrow> indeterminate_response))))"

text \<open>\<open>ORDER BY created_at_ms, mutation_id\<close>.\<close>

definition processing_mutation_claims :: "'d store \<Rightarrow> 'd claim_row list" where
  "processing_mutation_claims st = sort_key cm_created_at_ms (sort_key cm_mutation_id
     (filter (\<lambda>c. cm_state c = ClaimProcessing) (st_claims st)))"

text \<open>\<open>Store::recover_processing_mutations\<close>, and below it the recovery that the daemon runs at its start.\<close>

definition recover_processing_mutations :: "i64 \<Rightarrow> 'd store \<Rightarrow> 'd store" where
  "recover_processing_mutations now_ms st =
     fold (\<lambda>c st. fst (mark_mutation_indeterminate (cm_mutation_id c) [] None now_ms st))
       (filter (\<lambda>c. cm_state c = ClaimProcessing) (st_claims st)) st"

text \<open>
  \<open>handler.rs\<close>: recovery at the start of the daemon. A claim is given up with the follow-up work its
  request asks for; what that is (decoding the stored request and asking the provider topology) is a
  parameter and may fail, the clock is read once per claim, and \<open>re_io\<close> says which of the three
  attempts to write meets a storage failure. A failed attempt is rolled back.
\<close>

record ('d, 'q) recovery_env =
  re_decode :: "string \<Rightarrow> ('q, string) result"
  re_follow_up :: "'q \<Rightarrow> operation \<Rightarrow> 'd store
    \<Rightarrow> (provider_reconciliation list \<times> post_write_guard option, string) result"
  re_now :: "string \<Rightarrow> i64"
  re_io :: "string \<Rightarrow> nat \<Rightarrow> string option"

definition recovery_reconciliation_intent :: "('d, 'q) recovery_env \<Rightarrow> 'd claim_row \<Rightarrow> 'd store
    \<Rightarrow> (provider_reconciliation list \<times> post_write_guard option, string) result" where
  "recovery_reconciliation_intent env c st =
     result_bind (re_decode env (cm_request_json c)) (\<lambda>request.
     result_bind (case cm_operation_id c of Some i \<Rightarrow> get_operation i (st_ops st) | None \<Rightarrow> Err ''claim has no operation'')
       (\<lambda>outer. re_follow_up env request outer st))"

definition MUTATION_FINALIZATION_RETRY_DELAYS :: "nat list" where
  "MUTATION_FINALIZATION_RETRY_DELAYS = [25, 75, 225]"

fun persist_attempts :: "nat list \<Rightarrow> (nat \<Rightarrow> string option) \<Rightarrow> string \<Rightarrow> string \<Rightarrow> provider_reconciliation list
    \<Rightarrow> post_write_guard option \<Rightarrow> i64 \<Rightarrow> 'd store \<Rightarrow> 'd store \<times> ('d response, string) result" where
  "persist_attempts [] io last_error mid reconciliations guard at_ms st = (st, Err last_error)"
| "persist_attempts (delay # delays) io last_error mid reconciliations guard at_ms st = (case io delay of
       Some e \<Rightarrow> persist_attempts delays io e mid reconciliations guard at_ms st
     | None \<Rightarrow> (case mark_mutation_indeterminate mid reconciliations guard at_ms st of
           (st', Ok response) \<Rightarrow> (st', Ok response)
         | (st', Err e) \<Rightarrow> persist_attempts delays io e mid reconciliations guard at_ms st'))"

definition persist_indeterminate_mutation :: "(nat \<Rightarrow> string option) \<Rightarrow> string \<Rightarrow> provider_reconciliation list
    \<Rightarrow> post_write_guard option \<Rightarrow> i64 \<Rightarrow> 'd store \<Rightarrow> 'd store \<times> ('d response, string) result" where
  "persist_indeterminate_mutation io =
     persist_attempts MUTATION_FINALIZATION_RETRY_DELAYS io ''indeterminate finalization failed''"

definition recover_processing_mutation_claim ::
    "('d, 'q) recovery_env \<Rightarrow> 'd claim_row \<Rightarrow> 'd store \<Rightarrow> 'd store \<times> ('d response, string) result" where
  "recover_processing_mutation_claim env c st = (case recovery_reconciliation_intent env c st of
       Err e \<Rightarrow> (st, Err e)
     | Ok (reconciliations, guard) \<Rightarrow>
         persist_indeterminate_mutation (re_io env (cm_mutation_id c)) (cm_mutation_id c)
           (map require_stability_pass reconciliations) guard (re_now env (cm_mutation_id c)) st)"

text \<open>One claim after the other, past those that fail; the numbers recovered and failed.\<close>

fun recover_claims :: "('d, 'q) recovery_env \<Rightarrow> 'd claim_row list \<Rightarrow> 'd store \<Rightarrow> 'd store \<times> nat \<times> nat" where
  "recover_claims env [] st = (st, 0, 0)"
| "recover_claims env (c # cs) st = (case recover_processing_mutation_claim env c st of
       (st1, Ok response) \<Rightarrow> (case recover_claims env cs st1 of (st2, recovered, failed) \<Rightarrow> (st2, recovered + 1, failed))
     | (st1, Err e) \<Rightarrow> (case recover_claims env cs st1 of (st2, recovered, failed) \<Rightarrow> (st2, recovered, failed + 1)))"

definition recover_in_flight :: "('d, 'q) recovery_env \<Rightarrow> 'd store \<Rightarrow> 'd store \<times> nat \<times> nat" where
  "recover_in_flight env st = recover_claims env (processing_mutation_claims st) st"

definition prune_expired_mutations :: "i64 \<Rightarrow> 'd store \<Rightarrow> 'd store" where
  "prune_expired_mutations now_ms st =
     st\<lparr>st_claims := filter (\<lambda>c. \<not> (cm_state c \<noteq> ClaimProcessing \<and> cm_expires_at_ms c \<le> now_ms)) (st_claims st)\<rparr>"

text \<open>
  The retention job on the whole store: the reconciliation rows of a removed operation, and their
  stability entries, go with it by cascade.
\<close>

definition cascade_operations :: "operation_id list \<Rightarrow> recon_tables \<Rightarrow> recon_tables" where
  "cascade_operations gone t =
     (let old = filter (\<lambda>r. rn_operation_id r \<in> set gone) (rt_rows t)
      in t\<lparr>rt_rows := filter (\<lambda>r. rn_operation_id r \<notin> set gone) (rt_rows t),
           rt_stability := (rt_stability t) |` (- set (map rn_id old))\<rparr>)"

definition retain_operations :: "i64 \<Rightarrow> 'd store \<Rightarrow> 'd store \<times> (nat, string) result" where
  "retain_operations cutoff_ms st = (case prune_operations_older_than cutoff_ms (st_ops st) of
       (ops, Err e) \<Rightarrow> (st, Err e)
     | (ops, Ok n) \<Rightarrow> (st\<lparr>st_ops := ops, st_recons := cascade_operations
           (map op_id (filter (\<lambda>op. op_occurred_at_ms op < cutoff_ms) (st_ops st))) (st_recons st)\<rparr>, Ok n))"

text \<open>\<open>finalize_partial_operation\<close>: the same settlement for a mutation without a client id.\<close>

definition finalize_partial_operation ::
    "string \<Rightarrow> operation_id \<Rightarrow> 'd settlement \<Rightarrow> 'd store \<Rightarrow> 'd store \<times> (unit, string) result" where
  "finalize_partial_operation receipt_id operation_id sl st =
     (let at_ms = sl_finished_at_ms sl;
          st' = st\<lparr>st_receipts := finalize_receipt receipt_id ReceiptFailed (sl_receipt_message sl) at_ms
                     (sl_receipt_error sl) (st_receipts st),
                   st_ops := finalize_operation operation_id (sl_operation_status sl) at_ms (sl_operation_error sl)
                     (retain_partial_recovery operation_id (sl_recovery sl) (st_ops st))\<rparr>
      in if rows_hit rp_id receipt_id receipt_pending (st_receipts st) \<noteq> 1 \<or>
            rows_affected operation_id is_pending (st_ops st) \<noteq> 1
         then (st, Err ''partial mutation finalization lost ownership'')
         else case result_bind (apply_post_write_guard (sl_guard sl) operation_id (st_ops st')) (\<lambda>ops.
                    result_bind (insert_reconciliations (sl_reconciliations sl) at_ms (st_recons st')) (\<lambda>recons.
                      Ok (st'\<lparr>st_ops := ops, st_recons := recons\<rparr>))) of
                Ok st'' \<Rightarrow> (st'', Ok ())
              | Err e \<Rightarrow> (st, Err e))"

end
