(* ===== verification/Claim_Laws.thy ===== *)
theory Claim_Laws
  imports Mutation_Claims
begin

text \<open>
  The laws of the idempotency claims of \<open>Mutation_Claims\<close>: that the claim, its receipt and its
  operation move together (\<open>linked\<close>), that a claim is a lease in the sense of the interface
  \<open>lease_table\<close>, and from these that a mutation runs at most once per deduplication period, that a
  settled one is answered from its record, and that a restart leaves nothing in flight.
\<close>

section \<open>Laws of the linked tables\<close>

lemma update_where_at: "update_where i c f t = update_at op_id i c f t"
  by (simp add: update_where_def update_at_def)

lemma rows_affected_at: "rows_affected i c t = rows_hit op_id i c t"
  by (simp add: rows_affected_def rows_hit_def)

lemma has_op_at: "has_op i t \<longleftrightarrow> row_at op_id i t \<noteq> None"
  by (simp add: has_op_def row_at_None_iff)

lemma row_finalize_receipt: "row_at rp_id i (finalize_receipt j s m a e t) =
    map_option (\<lambda>r. if i = j \<and> receipt_pending r then r\<lparr>rp_status := s, rp_message := m, rp_finished_at_ms := Some a,
      rp_error := e\<rparr> else r) (row_at rp_id i t)"
  by (simp add: finalize_receipt_def row_at_update)

lemma receipt_keys [simp]: "map rp_id (finalize_receipt j s m a e t) = map rp_id t"
  by (simp add: finalize_receipt_def keys_update)

lemma op_keys [simp]:
  "map op_id (finalize_operation i s a e t) = map op_id t"
  "map op_id (retain_partial_recovery i po t) = map op_id t"
  by (simp_all add: finalize_operation_def retain_partial_recovery_def split: option.split)

text \<open>Whether the row with an id is pending, and how the updates act on that.\<close>

definition op_pend :: "op_table \<Rightarrow> operation_id \<Rightarrow> bool option" where
  "op_pend t i = map_option is_pending (row_at op_id i t)"

definition rc_pend :: "receipt list \<Rightarrow> string \<Rightarrow> bool option" where
  "rc_pend t i = map_option receipt_pending (row_at rp_id i t)"

definition settled_at :: "'k \<Rightarrow> ('k \<Rightarrow> bool option) \<Rightarrow> 'k \<Rightarrow> bool option" where
  "settled_at i p = p(i := map_option (\<lambda>_. False) (p i))"

lemma op_pend_update:
  assumes "\<And>op. op_id (f op) = op_id op" and "\<And>op. c op \<Longrightarrow> is_pending (f op) = is_pending op"
  shows "op_pend (update_where i c f t) = op_pend t"
  using assms by (auto simp: op_pend_def update_where_at row_at_update option.map_comp intro!: ext map_option_cong split: if_splits)

lemma guard_pend:
  assumes "apply_post_write_guard g i t = Ok t'"
  shows "op_pend t' = op_pend t" and "map op_id t' = map op_id t"
  using assms
  by (auto simp: apply_post_write_guard_def disable_partial_undo_def mark_operation_redone_def is_pending_def
      split: option.splits post_write_guard.splits if_splits intro!: op_pend_update)

lemma retain_pend [simp]: "op_pend (retain_partial_recovery i po t) = op_pend t"
  by (auto simp: retain_partial_recovery_def is_pending_def split: option.split intro!: op_pend_update)

lemma finalize_operation_pend: "s \<noteq> Pending \<Longrightarrow> op_pend (finalize_operation i s a e t) = settled_at i (op_pend t)"
  by (auto simp: op_pend_def settled_at_def finalize_operation_def update_where_at row_at_update is_pending_def
      option.map_comp intro!: ext option.map_cong0 split: if_splits)

lemma finalize_receipt_pend: "s \<noteq> ReceiptPending \<Longrightarrow> rc_pend (finalize_receipt i s m a e t) = settled_at i (rc_pend t)"
  by (auto simp: rc_pend_def settled_at_def row_finalize_receipt option.map_comp intro!: ext option.map_cong0 split: if_splits)

lemma pend_hits:
  "distinct (map op_id t) \<Longrightarrow> rows_affected i is_pending t = (if op_pend t i = Some True then 1 else 0)"
  "distinct (map rp_id u) \<Longrightarrow> rows_hit rp_id j receipt_pending u = (if rc_pend u j = Some True then 1 else 0)"
  by (auto simp: rows_affected_at rows_hit_le op_pend_def rc_pend_def split: option.split)

lemma settled_receipt_unchanged:
  assumes "distinct (map rp_id u)" and "rc_pend u i = Some False"
  shows "finalize_receipt i s m a e u = u"
proof -
  obtain z where "row_at rp_id i u = Some z" "\<not> receipt_pending z" using assms(2) by (auto simp: rc_pend_def)
  then show ?thesis unfolding finalize_receipt_def
    by (intro update_at_id) (metis assms(1) option.inject row_at_iff)
qed

lemma settled_operation_unchanged:
  assumes "distinct (map op_id t)" and "op_pend t j = Some False"
  shows "finalize_operation j s a e (retain_partial_recovery j po t) = t"
proof -
  obtain z where "row_at op_id j t = Some z" "\<not> is_pending z" using assms(2) by (auto simp: op_pend_def)
  then have "update_at op_id j is_pending f t = t" for f
    by (intro update_at_id) (metis assms(1) option.inject row_at_iff)
  then show ?thesis
    by (simp add: finalize_operation_def retain_partial_recovery_def update_where_at split: option.split)
qed

lemmas settled_rows_unchanged = settled_receipt_unchanged settled_operation_unchanged

section \<open>The three rows of a claim\<close>

definition processing :: "'d claim_row \<Rightarrow> bool" where
  "processing c \<longleftrightarrow> cm_state c = ClaimProcessing"

text \<open>
  A retention job may have removed the operation row of a claim; \<open>R\<close> is the set of the ids it removed.
\<close>

definition claim_linked_but :: "operation_id set \<Rightarrow> 'd store \<Rightarrow> 'd claim_row \<Rightarrow> bool" where
  "claim_linked_but R st c \<longleftrightarrow>
     Option.bind (cm_receipt_id c) (rc_pend (st_receipts st)) = Some (processing c) \<and>
     (\<exists>i. cm_operation_id c = Some i \<and> op_pend (st_ops st) i = (if i \<in> R then None else Some (processing c))) \<and>
     (cm_response c = None \<longleftrightarrow> processing c)"

definition linked_but :: "operation_id set \<Rightarrow> 'd store \<Rightarrow> bool" where
  "linked_but R st \<longleftrightarrow> distinct (map cm_mutation_id (st_claims st)) \<and> distinct (map rp_id (st_receipts st)) \<and>
     distinct (map op_id (st_ops st)) \<and> distinct (map cm_receipt_id (st_claims st)) \<and>
     distinct (map cm_operation_id (st_claims st)) \<and> (\<forall>c \<in> set (st_claims st). claim_linked_but R st c)"

abbreviation linked :: "'d store \<Rightarrow> bool" where
  "linked \<equiv> linked_but {}"

lemma linkedD:
  assumes "linked_but R st"
  shows "distinct (map cm_mutation_id (st_claims st))" "distinct (map rp_id (st_receipts st))"
    "distinct (map op_id (st_ops st))" "distinct (map cm_receipt_id (st_claims st))"
    "distinct (map cm_operation_id (st_claims st))" "\<And>c. c \<in> set (st_claims st) \<Longrightarrow> claim_linked_but R st c"
  using assms by (simp_all add: linked_but_def)

lemma claim_mutation_cases:
  obtains (unchanged) r where "claim_mutation mid fp rq rcp op now st = (st, r)" "r \<noteq> Ok Claimed"
  | (inserted) receipts where "row_at cm_mutation_id mid (st_claims st) = None"
      "row_at rp_id (rp_id rcp) (st_receipts st) = None"
      "receipts = st_receipts st @ [rcp\<lparr>rp_status := ReceiptPending, rp_finished_at_ms := None, rp_error := None\<rparr>]"
      "row_at op_id (op_id op) (st_ops st) = None"
      "claim_mutation mid fp rq rcp op now st = (st\<lparr>st_claims := st_claims st @ [new_claim mid fp rq rcp op now],
         st_receipts := receipts, st_ops := st_ops st @ [op]\<rparr>, Ok Claimed)"
proof (cases "row_at cm_mutation_id mid (st_claims st)")
  case (Some c)
  then show ?thesis by (intro unchanged) (auto simp: claim_mutation_def existing_claim_def split: if_splits)
next
  case None
  note claim = this
  let ?rs = "st_receipts st @ [rcp\<lparr>rp_status := ReceiptPending, rp_finished_at_ms := None, rp_error := None\<rparr>]"
  show ?thesis
  proof (cases "row_at rp_id (rp_id rcp) (st_receipts st) \<noteq> None \<or> row_at op_id (op_id op) (st_ops st) \<noteq> None \<or>
      (case op_receipt_id op of Some i \<Rightarrow> row_at rp_id i ?rs = None | None \<Rightarrow> False)")
    case True
    then have "claim_mutation mid fp rq rcp op now st = (st, Err ''constraint failed'')"
      using None by (auto simp: claim_mutation_def insert_pending_receipt_def insert_pending_operation_def has_op_at)
    then show ?thesis by (rule unchanged) simp
  next
    case False
    then show ?thesis using None
      by (intro inserted) (auto simp: claim_mutation_def insert_pending_receipt_def insert_pending_operation_def has_op_at)
  qed
qed

lemma pend_append:
  "row_at op_id (op_id op) t = None \<Longrightarrow> op_pend (t @ [op]) = (op_pend t)(op_id op \<mapsto> is_pending op)"
  "row_at rp_id (rp_id r) u = None \<Longrightarrow> rc_pend (u @ [r]) = (rc_pend u)(rp_id r \<mapsto> receipt_pending r)"
  by (auto simp: op_pend_def rc_pend_def row_at_append row_at_Cons intro!: ext split: option.split)

lemma linked_rows_exist: "claim_linked_but R st c \<Longrightarrow> cm_receipt_id c = Some i \<Longrightarrow> row_at rp_id i (st_receipts st) \<noteq> None"
  "claim_linked_but R st c \<Longrightarrow> cm_operation_id c = Some j \<Longrightarrow> j \<notin> R \<Longrightarrow> row_at op_id j (st_ops st) \<noteq> None"
  by (auto simp: claim_linked_but_def rc_pend_def op_pend_def)

lemma bind_upd_other: "x \<noteq> Some k \<Longrightarrow> Option.bind x (p(k := v)) = Option.bind x p"
  by (cases x) auto

lemma new_claim_ids [simp]:
  "cm_mutation_id (new_claim mid fp rq rcp op now) = mid"
  "cm_receipt_id (new_claim mid fp rq rcp op now) = Some (rp_id rcp)"
  "cm_operation_id (new_claim mid fp rq rcp op now) = Some (op_id op)"
  "cm_fingerprint (new_claim mid fp rq rcp op now) = fp"
  by (simp_all add: new_claim_def)

lemma claim_linked_cong:
  assumes "claim_linked_but R st c" and "Option.bind (cm_receipt_id c) (rc_pend (st_receipts st')) =
      Option.bind (cm_receipt_id c) (rc_pend (st_receipts st))"
    and "Option.bind (cm_operation_id c) (op_pend (st_ops st')) = Option.bind (cm_operation_id c) (op_pend (st_ops st))"
  shows "claim_linked_but R st' c"
  using assms by (auto simp: claim_linked_but_def)

lemma linked_claim:
  assumes "linked_but R st" and "is_pending op" and "op_id op \<notin> R"
  shows "linked_but R (fst (claim_mutation mid fp rq rcp op now st))"
proof (cases rule: claim_mutation_cases [of mid fp rq rcp op now st])
  case unchanged
  with assms show ?thesis by simp
next
  case (inserted receipts)
  note L = linkedD [OF assms(1)]
  let ?new = "new_claim mid fp rq rcp op now"
  let ?st = "st\<lparr>st_claims := st_claims st @ [?new], st_receipts := receipts, st_ops := st_ops st @ [op]\<rparr>"
  have rid: "cm_receipt_id c \<noteq> Some (rp_id rcp)" and oid: "cm_operation_id c \<noteq> Some (op_id op)"
    if "c \<in> set (st_claims st)" for c
    using linked_rows_exist [OF L(6) [OF that]] inserted assms(3) by auto
  have "claim_linked_but R ?st c" if "c \<in> set (st_claims st)" for c
    using inserted(2,4) rid [OF that] oid [OF that]
    by (intro claim_linked_cong [OF L(6) [OF that]]) (simp_all add: pend_append inserted(3) bind_upd_other)
  moreover have "claim_linked_but R ?st ?new"
    using inserted(2,4) assms(2,3) by (simp add: claim_linked_but_def pend_append inserted(3) new_claim_def processing_def)
  moreover have "Some (rp_id rcp) \<notin> cm_receipt_id ` set (st_claims st)" "Some (op_id op) \<notin> cm_operation_id ` set (st_claims st)"
    using rid oid by (metis imageE)+
  ultimately have "linked_but R ?st"
    using L(1-5) inserted(1,2,4) unfolding linked_but_def
    by (simp add: row_at_None_iff inserted(3) ball_Un)
  then show ?thesis by (simp add: inserted(5))
qed

lemma claim_linked_update:
  assumes "claim_linked_but R st c" and "c \<in> set (st_claims st)" and "linked_but R st"
    and "row_at cm_mutation_id mid (st_claims st) = Some d" and "cm_receipt_id d = Some rid" and "cm_operation_id d = Some oid"
    and "rc_pend (st_receipts st') = settled_at rid (rc_pend (st_receipts st))"
    and "op_pend (st_ops st') = settled_at oid (op_pend (st_ops st))" and "s \<noteq> ClaimProcessing"
  shows "claim_linked_but R st' (if cm_mutation_id c = mid then settle_claim s resp at_ms c else c)"
proof (cases "cm_mutation_id c = mid")
  case True
  with assms(2,4) linkedD(1) [OF assms(3)] have "c = d" by (metis option.inject row_at_iff)
  with assms True show ?thesis
    by (auto simp: claim_linked_but_def settle_claim_def processing_def settled_at_def)
next
  case False
  have d: "d \<in> set (st_claims st)" "cm_mutation_id d = mid" using row_at_SomeD [OF assms(4)] by auto
  with False have "c \<noteq> d" by auto
  then have "cm_receipt_id c \<noteq> Some rid" "cm_operation_id c \<noteq> Some oid"
    using linkedD(4,5) [OF assms(3)] assms(2,5,6) d by (auto simp: distinct_map inj_on_def)
  with False assms show ?thesis
    by (auto intro: claim_linked_cong [OF assms(1)] simp: settled_at_def bind_upd_other)
qed

lemma linked_settle:
  assumes "linked_but R st" and "row_at cm_mutation_id mid (st_claims st) = Some d"
    and "cm_receipt_id d = Some rid" and "cm_operation_id d = Some oid"
    and "map rp_id (st_receipts st') = map rp_id (st_receipts st)" and "map op_id (st_ops st') = map op_id (st_ops st)"
    and "rc_pend (st_receipts st') = settled_at rid (rc_pend (st_receipts st))"
    and "op_pend (st_ops st') = settled_at oid (op_pend (st_ops st))" and "s \<noteq> ClaimProcessing"
    and "st_claims st' = map (\<lambda>c. if cm_mutation_id c = mid then settle_claim s resp at_ms c else c) (st_claims st)"
  shows "linked_but R st'"
proof -
  note L = linkedD [OF assms(1)]
  have keys: "map cm_mutation_id (st_claims st') = map cm_mutation_id (st_claims st)"
    "map cm_receipt_id (st_claims st') = map cm_receipt_id (st_claims st)"
    "map cm_operation_id (st_claims st') = map cm_operation_id (st_claims st)"
    by (simp_all add: assms(10) settle_claim_def)
  have "claim_linked_but R st' c'" if "c' \<in> set (st_claims st')" for c'
  proof -
    obtain c where "c \<in> set (st_claims st)" "c' = (if cm_mutation_id c = mid then settle_claim s resp at_ms c else c)"
      using \<open>c' \<in> set (st_claims st')\<close> by (auto simp: assms(10))
    with claim_linked_update [OF L(6) _ assms(1-4,7-9)] show ?thesis by simp
  qed
  then show ?thesis using L keys assms(5,6) by (simp add: linked_but_def)
qed


lemma update_owner:
  assumes "linked_but R st" and "row_at cm_mutation_id mid (st_claims st) = Some d" and "P d"
  shows "update_at cm_mutation_id mid P f (st_claims st) = map (\<lambda>c. if cm_mutation_id c = mid then f c else c) (st_claims st)"
  using assms(2,3) linkedD(1) [OF assms(1)]
  by (auto simp: update_at_def) (metis option.inject row_at_iff)

text \<open>What a settlement must not say: that the mutation is still pending.\<close>

definition terminal_settlement :: "'d settlement \<Rightarrow> bool" where
  "terminal_settlement sl \<longleftrightarrow> sl_receipt_status sl \<noteq> ReceiptPending \<and> sl_operation_status sl \<noteq> Pending"

lemma owner_pend:
  assumes "linked_but R st" and "row_at cm_mutation_id mid (st_claims st) = Some d" and "owns_claim rid oid d"
  shows "rc_pend (st_receipts st) rid = Some True"
    and "op_pend (st_ops st) oid = (if oid \<in> R then None else Some True)"
proof -
  have "claim_linked_but R st d" using assms(2) linkedD(6) [OF assms(1)] row_at_SomeD by fast
  with assms(3) show "rc_pend (st_receipts st) rid = Some True"
    "op_pend (st_ops st) oid = (if oid \<in> R then None else Some True)"
    by (simp_all add: claim_linked_but_def owns_claim_def processing_def split: if_splits)
qed

lemma owner_hits:
  assumes "linked_but R st" and "row_at cm_mutation_id mid (st_claims st) = Some d" and "owns_claim rid oid d"
  shows "rows_hit rp_id rid receipt_pending (st_receipts st) = 1"
    and "rows_affected oid is_pending (st_ops st) = (if oid \<in> R then 0 else 1)"
    and "rows_hit cm_mutation_id mid (owns_claim rid oid) (st_claims st) = 1"
  using owner_pend [OF assms] assms(2,3) by (simp_all add: pend_hits rows_hit_le [of cm_mutation_id] linkedD [OF assms(1)])

lemma owner_iff: "linked_but R st \<Longrightarrow> rows_hit cm_mutation_id mid (owns_claim rid oid) (st_claims st) = 1 \<longleftrightarrow>
    (\<exists>d. row_at cm_mutation_id mid (st_claims st) = Some d \<and> owns_claim rid oid d)"
  by (simp add: rows_hit_le linkedD(1) split: option.split)

text \<open>Without an owner, only an exact repetition is accepted, and it changes nothing.\<close>

lemma missing_operation_unchanged:
  "op_pend t j = None \<Longrightarrow> finalize_operation j s a e (retain_partial_recovery j po t) = t"
  by (cases po) (simp_all add: op_pend_def finalize_operation_def retain_partial_recovery_def update_where_absent has_op_at)

lemma settled_claim_rows:
  assumes "linked_but R st" and "c \<in> set (st_claims st)" and "cm_receipt_id c = Some rid" and "cm_operation_id c = Some oid"
    and "\<not> processing c"
  shows "finalize_receipt rid s m a e (st_receipts st) = st_receipts st"
    and "finalize_operation oid s' a' e' (retain_partial_recovery oid po (st_ops st)) = st_ops st"
proof -
  have "rc_pend (st_receipts st) rid = Some False" and o: "op_pend (st_ops st) oid \<in> {None, Some False}"
    using linkedD(6) [OF assms(1,2)] assms(3-5) by (auto simp: claim_linked_but_def)
  then show "finalize_receipt rid s m a e (st_receipts st) = st_receipts st"
    by (simp add: settled_rows_unchanged linkedD [OF assms(1)])
  from o show "finalize_operation oid s' a' e' (retain_partial_recovery oid po (st_ops st)) = st_ops st"
    by (auto simp: settled_rows_unchanged missing_operation_unchanged linkedD [OF assms(1)])
qed

lemma exact_replayD:
  assumes "is_exact_replay mid rid oid sl st"
  obtains c where "c \<in> set (st_claims st)" "cm_receipt_id c = Some rid" "cm_operation_id c = Some oid" "\<not> processing c"
proof -
  obtain c where "c \<in> set (st_claims st)" "cm_receipt_id c = Some rid" "cm_operation_id c = Some oid" "cm_state c = settled_state sl"
    using assms unfolding is_exact_replay_def by auto
  then show ?thesis by (intro that [of c]) (simp_all add: processing_def settled_state_def)
qed

lemma finalize_lost:
  assumes "linked_but R st" and "\<nexists>d. row_at cm_mutation_id mid (st_claims st) = Some d \<and> owns_claim rid oid d"
  shows "finalize_claimed_mutation mid rid oid sl st = (if is_exact_replay mid rid oid sl st then (st, Ok ())
      else (st, Err ''mutation finalization lost ownership''))"
proof -
  have no: "rows_hit cm_mutation_id mid (owns_claim rid oid) (st_claims st) \<noteq> 1" using owner_iff [OF assms(1)] assms(2) by blast
  have claims: "update_at cm_mutation_id mid (owns_claim rid oid) f (st_claims st) = st_claims st" for f
    using assms(2) linkedD(1) [OF assms(1)] by (intro update_at_id) (auto simp: row_at_iff)
  let ?st = "st\<lparr>st_receipts := finalize_receipt rid (sl_receipt_status sl) (sl_receipt_message sl) (sl_finished_at_ms sl)
      (sl_receipt_error sl) (st_receipts st),
    st_ops := finalize_operation oid (sl_operation_status sl) (sl_finished_at_ms sl) (sl_operation_error sl)
      (retain_partial_recovery oid (sl_recovery sl) (st_ops st)), st_claims := st_claims st\<rparr>"
  have f: "finalize_claimed_mutation mid rid oid sl st = (if is_exact_replay mid rid oid sl ?st then (?st, Ok ())
      else (st, Err ''mutation finalization lost ownership''))"
    using no by (simp add: finalize_claimed_mutation_def claims Let_def)
  have same: "?st = st" if "c \<in> set (st_claims st)" "cm_receipt_id c = Some rid" "cm_operation_id c = Some oid" "\<not> processing c" for c
    using settled_claim_rows [OF assms(1) that] by simp
  have "?st = st" if "is_exact_replay mid rid oid sl ?st \<or> is_exact_replay mid rid oid sl st"
  proof -
    from that obtain c where "c \<in> set (st_claims st)" "cm_receipt_id c = Some rid" "cm_operation_id c = Some oid" "\<not> processing c"
      by (auto elim!: exact_replayD)
    then show ?thesis by (rule same)
  qed
  then show ?thesis using f by metis
qed

text \<open>
  A finalization either is refused without a trace, or repeats what is already stored, or settles the
  claim that owns the receipt and the operation.
\<close>

lemma finalize_cases:
  assumes "linked_but R st" and "terminal_settlement sl"
  obtains (refused) e where "finalize_claimed_mutation mid rid oid sl st = (st, Err e)"
  | (replayed) "finalize_claimed_mutation mid rid oid sl st = (st, Ok ())" "is_exact_replay mid rid oid sl st"
  | (settled) st' d where "finalize_claimed_mutation mid rid oid sl st = (st', Ok ())"
      "row_at cm_mutation_id mid (st_claims st) = Some d" "owns_claim rid oid d"
      "map rp_id (st_receipts st') = map rp_id (st_receipts st)" "map op_id (st_ops st') = map op_id (st_ops st)"
      "rc_pend (st_receipts st') = settled_at rid (rc_pend (st_receipts st))"
      "op_pend (st_ops st') = settled_at oid (op_pend (st_ops st))"
      "st_claims st' = map (\<lambda>c. if cm_mutation_id c = mid then
         settle_claim (settled_state sl) (sl_response sl) (sl_finished_at_ms sl) c else c) (st_claims st)"
      "st_receipts st' = finalize_receipt rid (sl_receipt_status sl) (sl_receipt_message sl) (sl_finished_at_ms sl)
         (sl_receipt_error sl) (st_receipts st)"
      "apply_post_write_guard (sl_guard sl) oid (finalize_operation oid (sl_operation_status sl) (sl_finished_at_ms sl)
         (sl_operation_error sl) (retain_partial_recovery oid (sl_recovery sl) (st_ops st))) = Ok (st_ops st')"
proof (cases "\<exists>d. row_at cm_mutation_id mid (st_claims st) = Some d \<and> owns_claim rid oid d")
  case True
  then obtain d where d: "row_at cm_mutation_id mid (st_claims st) = Some d" "owns_claim rid oid d" by blast
  let ?at = "sl_finished_at_ms sl"
  let ?receipts = "finalize_receipt rid (sl_receipt_status sl) (sl_receipt_message sl) ?at (sl_receipt_error sl) (st_receipts st)"
  let ?ops = "finalize_operation oid (sl_operation_status sl) ?at (sl_operation_error sl)
    (retain_partial_recovery oid (sl_recovery sl) (st_ops st))"
  let ?claims = "map (\<lambda>c. if cm_mutation_id c = mid then settle_claim (settled_state sl) (sl_response sl) ?at c else c) (st_claims st)"
  let ?tail = "result_bind (apply_post_write_guard (sl_guard sl) oid ?ops) (\<lambda>ops.
      result_bind (insert_reconciliations (sl_reconciliations sl) ?at (st_recons st)) (\<lambda>recons.
        Ok (st\<lparr>st_receipts := ?receipts, st_claims := ?claims, st_ops := ops, st_recons := recons\<rparr>)))"
  show ?thesis
  proof (cases "oid \<in> R")
    case True
    then have none: "row_at op_id oid (st_ops st) = None" and zero: "rows_affected oid is_pending (st_ops st) = 0"
      using owner_pend(2) [OF assms(1) d] owner_hits(2) [OF assms(1) d] by (auto simp: op_pend_def)
    have "\<not> is_exact_replay mid rid oid sl st'" if "map op_id (st_ops st') = map op_id (st_ops st)"for st'
      using none that by (auto simp: is_exact_replay_def row_at_None_iff) (metis image_eqI set_map)
    with zero show ?thesis
      by (intro refused) (simp add: finalize_claimed_mutation_def Let_def)
  next
    case False
  have f: "finalize_claimed_mutation mid rid oid sl st = (case ?tail of Ok st'' \<Rightarrow> (st'', Ok ()) | Err e \<Rightarrow> (st, Err e))"
    using False owner_hits [OF assms(1) d] update_owner [of R st mid d "owns_claim rid oid", OF assms(1) d]
    by (simp add: finalize_claimed_mutation_def Let_def split: result.split)
  show ?thesis
  proof (cases ?tail)
    case (Err e)
    with f show ?thesis by (intro refused) simp
  next
    case (Ok st')
    then obtain ops recons where g: "apply_post_write_guard (sl_guard sl) oid ?ops = Ok ops"
      and st': "st' = st\<lparr>st_receipts := ?receipts, st_claims := ?claims, st_ops := ops, st_recons := recons\<rparr>" by auto
    have "op_pend ops = settled_at oid (op_pend (st_ops st))"
      using assms(2) by (simp add: guard_pend(1) [OF g] finalize_operation_pend terminal_settlement_def)
    moreover have "map op_id ops = map op_id (st_ops st)" by (simp add: guard_pend(2) [OF g])
    moreover have "rc_pend ?receipts = settled_at rid (rc_pend (st_receipts st))"
      using assms(2) by (simp add: finalize_receipt_pend terminal_settlement_def)
    moreover have "finalize_claimed_mutation mid rid oid sl st = (st', Ok ())" by (simp only: f Ok result.case)
    ultimately show ?thesis using d g by (intro settled [of st' d]) (simp_all add: st')
  qed
  qed
next
  case False
  from finalize_lost [OF assms(1) this, of sl] show ?thesis by (auto split: if_splits intro: refused replayed)
qed

lemma linked_finalize:
  assumes "linked_but R st" and "terminal_settlement sl"
  shows "linked_but R (fst (finalize_claimed_mutation mid rid oid sl st))"
proof (rule finalize_cases [OF assms, of mid rid oid])
  fix st' d
  assume *: "finalize_claimed_mutation mid rid oid sl st = (st', Ok ())"
    "row_at cm_mutation_id mid (st_claims st) = Some d" "owns_claim rid oid d"
    "map rp_id (st_receipts st') = map rp_id (st_receipts st)" "map op_id (st_ops st') = map op_id (st_ops st)"
    "rc_pend (st_receipts st') = settled_at rid (rc_pend (st_receipts st))"
    "op_pend (st_ops st') = settled_at oid (op_pend (st_ops st))"
    "st_claims st' = map (\<lambda>c. if cm_mutation_id c = mid then
       settle_claim (settled_state sl) (sl_response sl) (sl_finished_at_ms sl) c else c) (st_claims st)"
  have "cm_receipt_id d = Some rid" "cm_operation_id d = Some oid" "settled_state sl \<noteq> ClaimProcessing"
    using *(3) by (simp_all add: owns_claim_def settled_state_def)
  from linked_settle [OF assms(1) *(2) this(1,2) *(4-7) this(3) *(8)] *(1)
  show ?thesis by simp
qed (use assms in simp_all)

lemma processing_cases:
  assumes "linked_but R st"
  obtains (idle) "finalize_processing_claim mid msg resp recs g now st = Ok st"
      "\<forall>d. row_at cm_mutation_id mid (st_claims st) = Some d \<longrightarrow> \<not> processing d"
  | (refused) e where "finalize_processing_claim mid msg resp recs g now st = Err e"
  | (settled) st' d rid oid where "finalize_processing_claim mid msg resp recs g now st = Ok st'"
      "row_at cm_mutation_id mid (st_claims st) = Some d" "processing d" "cm_receipt_id d = Some rid" "cm_operation_id d = Some oid"
      "map rp_id (st_receipts st') = map rp_id (st_receipts st)" "map op_id (st_ops st') = map op_id (st_ops st)"
      "rc_pend (st_receipts st') = settled_at rid (rc_pend (st_receipts st))"
      "op_pend (st_ops st') = settled_at oid (op_pend (st_ops st))"
      "st_claims st' = map (\<lambda>c. if cm_mutation_id c = mid then settle_claim ClaimFailed resp now c else c) (st_claims st)"
proof (cases "\<exists>d. row_at cm_mutation_id mid (st_claims st) = Some d \<and> processing d")
  case False
  then have "finalize_processing_claim mid msg resp recs g now st = Ok st"
    by (auto simp: finalize_processing_claim_def processing_def split: option.split)
  with False show ?thesis by (intro idle) auto
next
  case True
  then obtain d where d: "row_at cm_mutation_id mid (st_claims st) = Some d" "processing d" by blast
  then have "claim_linked_but R st d" using linkedD(6) [OF assms] row_at_SomeD by fast
  then obtain rid oid where i: "cm_receipt_id d = Some rid" "cm_operation_id d = Some oid"
    by (auto simp: claim_linked_but_def bind_eq_Some_conv)
  let ?receipts = "finalize_receipt rid ReceiptFailed msg now (Some (indeterminate_error msg)) (st_receipts st)"
  let ?ops = "finalize_operation oid OpFailed now (Some msg) (st_ops st)"
  have f: "finalize_processing_claim mid msg resp recs g now st = result_bind (apply_post_write_guard g oid ?ops) (\<lambda>ops'.
      result_bind (insert_reconciliations recs now (st_recons st)) (\<lambda>recons.
        Ok (st\<lparr>st_receipts := ?receipts, st_ops := ops', st_recons := recons,
          st_claims := update_at cm_mutation_id mid (\<lambda>_. True) (settle_claim ClaimFailed resp now) (st_claims st)\<rparr>)))"
    using d i by (simp add: finalize_processing_claim_def processing_def Let_def)
  show ?thesis
  proof (cases "finalize_processing_claim mid msg resp recs g now st")
    case (Err e)
    then show ?thesis by (rule refused)
  next
    case (Ok st')
    then obtain ops recons where g: "apply_post_write_guard g oid ?ops = Ok ops"
      and st': "st' = st\<lparr>st_receipts := ?receipts, st_ops := ops, st_recons := recons,
        st_claims := update_at cm_mutation_id mid (\<lambda>_. True) (settle_claim ClaimFailed resp now) (st_claims st)\<rparr>"
      by (auto simp: f)
    show ?thesis using Ok d i
      by (intro settled [of st' d rid oid])
        (simp_all add: st' guard_pend [OF g] finalize_operation_pend finalize_receipt_pend update_at_def)
  qed
qed

lemma linked_processing:
  assumes "linked_but R st" and "finalize_processing_claim mid msg resp recs g now st = Ok st'"
  shows "linked_but R st'"
  using assms(1)
proof (cases rule: processing_cases [of R st mid msg resp recs g now])
  case (settled st1 d rid oid)
  with linked_settle [OF assms(1) settled(2,4-9) _ settled(10)] assms show ?thesis by simp
qed (use assms in auto)

lemma linked_indeterminate: "linked_but R st \<Longrightarrow> linked_but R (fst (mark_mutation_indeterminate mid recs g now st))"
  by (auto simp: mark_mutation_indeterminate_def split: option.split result.split intro: linked_processing)

lemma linked_fold_indeterminate:
  "linked_but R st \<Longrightarrow> linked_but R (fold (\<lambda>c st. fst (mark_mutation_indeterminate (cm_mutation_id c) [] None now st)) cs st)"
  by (induction cs arbitrary: st) (simp_all add: linked_indeterminate)

lemma linked_prune: "linked_but R st \<Longrightarrow> linked_but R (prune_expired_mutations now st)"
  by (auto simp: linked_but_def prune_expired_mutations_def claim_linked_but_def intro: distinct_keys_filter)

section \<open>Leases\<close>

text \<open>
  What a deduplication table promises its clients, whatever it is made of: a grant is given only when
  nobody holds the lease, runs for the time to live, and is released by nothing before it has expired.
\<close>

fun grant_times :: "('e \<Rightarrow> 's \<Rightarrow> 's) \<Rightarrow> ('e \<Rightarrow> 's \<Rightarrow> bool) \<Rightarrow> ('e \<Rightarrow> i64) \<Rightarrow> 'e list \<Rightarrow> 's \<Rightarrow> i64 list" where
  "grant_times step grant tm [] s = []"
| "grant_times step grant tm (e # es) s =
     (if grant e s then tm e # grant_times step grant tm es (step e s) else grant_times step grant tm es (step e s))"

lemma grant_times_are_events: "set (grant_times step grant tm es s) \<subseteq> tm ` set es"
  by (induction es arbitrary: s) (auto split: if_splits)

locale lease_table =
  fixes inv :: "'s \<Rightarrow> bool" and ok :: "'e \<Rightarrow> bool" and step :: "'e \<Rightarrow> 's \<Rightarrow> 's"
    and grant :: "'e \<Rightarrow> 's \<Rightarrow> bool" and lease :: "'s \<Rightarrow> i64 option" and tm :: "'e \<Rightarrow> i64" and ttl :: i64
  assumes inv_step: "inv s \<Longrightarrow> ok e \<Longrightarrow> inv (step e s)"
    and grant_free: "inv s \<Longrightarrow> ok e \<Longrightarrow> grant e s \<Longrightarrow> lease s = None"
    and grant_runs: "inv s \<Longrightarrow> ok e \<Longrightarrow> grant e s \<Longrightarrow> lease (step e s) = Some (tm e + ttl)"
    and lease_kept: "inv s \<Longrightarrow> ok e \<Longrightarrow> lease s = Some x \<Longrightarrow>
      (case lease (step e s) of Some y \<Rightarrow> x \<le> y \<or> y = tm e + ttl | None \<Rightarrow> x \<le> tm e)"
begin

lemma run_inv: "inv s \<Longrightarrow> list_all ok es \<Longrightarrow> inv (fold step es s)"
  by (induction es arbitrary: s) (auto intro: inv_step)

text \<open>Nothing is granted again before the time to live is over.\<close>

lemma grants_after:
  assumes "inv s" and "list_all ok es" and "sorted (map tm es)" and "\<forall>e \<in> set es. t \<le> tm e"
    and "lease s = Some x" and "t + ttl \<le> x"
  shows "\<forall>g \<in> set (grant_times step grant tm es s). t + ttl \<le> g"
  using assms
proof (induction es arbitrary: s x)
  case (Cons e es)
  then have e: "inv s" "ok e" "list_all ok es" "\<forall>e' \<in> set es. tm e \<le> tm e'" "t \<le> tm e" by auto
  then have i: "inv (step e s)" by (simp add: inv_step)
  have no: "\<not> grant e s" using grant_free [OF e(1,2)] Cons.prems(5) by auto
  note kept = lease_kept [OF e(1,2) Cons.prems(5)]
  show ?case
  proof (cases "lease (step e s)")
    case None
    with kept e(4) Cons.prems(6) have "\<forall>e' \<in> set es. t + ttl \<le> tm e'" by force
    with no grant_times_are_events [of step grant tm es "step e s"] show ?thesis by fastforce
  next
    case (Some y)
    with kept e(5) Cons.prems(6) have "t + ttl \<le> y" by auto
    with Cons.IH [OF i e(3) _ _ Some] Cons.prems(3,4) no show ?thesis by simp
  qed
qed simp

lemma grants_spaced:
  assumes "inv s" and "list_all ok es" and "sorted (map tm es)"
  shows "sorted_wrt (\<lambda>a b. a + ttl \<le> b) (grant_times step grant tm es s)"
  using assms
proof (induction es arbitrary: s)
  case (Cons e es)
  then have e: "inv s" "ok e" "list_all ok es" "\<forall>e' \<in> set es. tm e \<le> tm e'" "sorted (map tm es)" by auto
  then have i: "inv (step e s)" by (simp add: inv_step)
  show ?case
  proof (cases "grant e s")
    case True
    from grants_after [OF i e(3,5,4) grant_runs [OF e(1,2) True]] Cons.IH [OF i e(3,5)] True show ?thesis by simp
  qed (use Cons.IH [OF i e(3,5)] in simp)
qed simp

end

section \<open>Runs of the store\<close>

datatype 'd mutation_event =
    EvRequest string string string receipt operation i64
  | EvSettle string string operation_id "'d settlement"
  | EvIndeterminate string "provider_reconciliation list" "post_write_guard option" i64
  | EvRestart i64
  | EvPrune i64

primrec event_time :: "'d mutation_event \<Rightarrow> i64" where
  "event_time (EvRequest mid fp rq rcp op now) = now"
| "event_time (EvSettle mid rid oid sl) = sl_finished_at_ms sl"
| "event_time (EvIndeterminate mid recs g now) = now"
| "event_time (EvRestart now) = now"
| "event_time (EvPrune now) = now"

primrec apply_event :: "'d mutation_event \<Rightarrow> 'd store \<Rightarrow> 'd store" where
  "apply_event (EvRequest mid fp rq rcp op now) st = fst (claim_mutation mid fp rq rcp op now st)"
| "apply_event (EvSettle mid rid oid sl) st = fst (finalize_claimed_mutation mid rid oid sl st)"
| "apply_event (EvIndeterminate mid recs g now) st = fst (mark_mutation_indeterminate mid recs g now st)"
| "apply_event (EvRestart now) st = recover_processing_mutations now st"
| "apply_event (EvPrune now) st = prune_expired_mutations now st"

primrec runs_mutation :: "string \<Rightarrow> 'd mutation_event \<Rightarrow> 'd store \<Rightarrow> bool" where
  "runs_mutation m (EvRequest mid fp rq rcp op now) st \<longleftrightarrow> mid = m \<and> snd (claim_mutation mid fp rq rcp op now st) = Ok Claimed"
| "runs_mutation m (EvSettle mid rid oid sl) st = False"
| "runs_mutation m (EvIndeterminate mid recs g now) st = False"
| "runs_mutation m (EvRestart now) st = False"
| "runs_mutation m (EvPrune now) st = False"

text \<open>
  What the daemon does: a request brings a pending operation row, a settlement is terminal, and the
  clock is far enough from the end of \<open>i64\<close> for the expiry not to wrap.
\<close>

primrec event_shape :: "'d mutation_event \<Rightarrow> bool" where
  "event_shape (EvRequest mid fp rq rcp op now) \<longleftrightarrow> is_pending op"
| "event_shape (EvSettle mid rid oid sl) \<longleftrightarrow> terminal_settlement sl"
| "event_shape (EvIndeterminate mid recs g now) = True"
| "event_shape (EvRestart now) = True"
| "event_shape (EvPrune now) = True"

definition event_ok :: "'d mutation_event \<Rightarrow> bool" where
  "event_ok e \<longleftrightarrow> event_shape e \<and> in_i64 (event_time e) \<and> in_i64 (event_time e + MUTATION_DEDUP_TTL_MS)"

lemma expiry_exact: "event_ok e \<Longrightarrow> expiry (event_time e) = event_time e + MUTATION_DEDUP_TTL_MS"
  by (simp add: expiry_def event_ok_def wrap_i64_id)

text \<open>The operation rows that a request brings.\<close>

primrec requested_rows :: "'d mutation_event \<Rightarrow> operation list" where
  "requested_rows (EvRequest mid fp rq rcp op now) = [op]"
| "requested_rows (EvSettle mid rid oid sl) = []"
| "requested_rows (EvIndeterminate mid recs g now) = []"
| "requested_rows (EvRestart now) = []"
| "requested_rows (EvPrune now) = []"

lemma linked_event_but:
  "linked_but R st \<Longrightarrow> event_ok e \<Longrightarrow> \<forall>op \<in> set (requested_rows e). op_id op \<notin> R \<Longrightarrow> linked_but R (apply_event e st)"
  by (cases e) (simp_all add: event_ok_def linked_claim linked_finalize linked_indeterminate linked_prune
      recover_processing_mutations_def linked_fold_indeterminate)

lemma linked_event: "linked st \<Longrightarrow> event_ok e \<Longrightarrow> linked (apply_event e st)"
  by (rule linked_event_but) simp_all

section \<open>The life of a claim\<close>

text \<open>One step leaves the row of a mutation alone, settles it, or (once expired) removes it.\<close>

definition claim_moves :: "i64 \<Rightarrow> 'd claim_row \<Rightarrow> 'd claim_row \<Rightarrow> bool" where
  "claim_moves t c c' \<longleftrightarrow> c' = c \<or> processing c \<and> (\<exists>s r. s \<noteq> ClaimProcessing \<and> c' = settle_claim s r t c)"

lemma settle_claim_sel [simp]:
  "cm_mutation_id (settle_claim s r t c) = cm_mutation_id c" "cm_fingerprint (settle_claim s r t c) = cm_fingerprint c"
  "cm_receipt_id (settle_claim s r t c) = cm_receipt_id c" "cm_operation_id (settle_claim s r t c) = cm_operation_id c"
  "cm_state (settle_claim s r t c) = s" "cm_response (settle_claim s r t c) = Some r"
  "cm_expires_at_ms (settle_claim s r t c) = expiry t" "processing (settle_claim s r t c) \<longleftrightarrow> s = ClaimProcessing"
  by (simp_all add: settle_claim_def processing_def)

lemma claim_moves_refl [simp]: "claim_moves t c c"
  by (simp add: claim_moves_def)

lemma claim_moves_trans: "claim_moves t a b \<Longrightarrow> claim_moves t b c \<Longrightarrow> claim_moves t a c"
  by (auto simp: claim_moves_def)

lemma moves_settled_map:
  assumes "row_at cm_mutation_id m cs = Some c" and "s \<noteq> ClaimProcessing" and "m = mid \<Longrightarrow> processing c"
  shows "\<exists>c'. row_at cm_mutation_id m (map (\<lambda>c. if cm_mutation_id c = mid then settle_claim s r t c else c) cs) = Some c' \<and>
    claim_moves t c c'"
  using assms row_at_SomeD [OF assms(1)] by (subst row_at_map) (auto simp: claim_moves_def)

lemma finalize_moves:
  assumes "linked st" and "terminal_settlement sl" and "row_at cm_mutation_id m (st_claims st) = Some c"
  shows "\<exists>c'. row_at cm_mutation_id m (st_claims (fst (finalize_claimed_mutation mid rid oid sl st))) = Some c' \<and>
    claim_moves (sl_finished_at_ms sl) c c'"
proof (rule finalize_cases [OF assms(1,2), of mid rid oid])
  fix st' d
  assume *: "finalize_claimed_mutation mid rid oid sl st = (st', Ok ())"
    "row_at cm_mutation_id mid (st_claims st) = Some d" "owns_claim rid oid d"
    "st_claims st' = map (\<lambda>c. if cm_mutation_id c = mid then
       settle_claim (settled_state sl) (sl_response sl) (sl_finished_at_ms sl) c else c) (st_claims st)"
  then have "m = mid \<Longrightarrow> processing c" using assms(3) by (auto simp: owns_claim_def processing_def)
  with moves_settled_map [OF assms(3), of "settled_state sl"] * show ?thesis by (simp add: settled_state_def)
qed (use assms in simp_all)

lemma indeterminate_moves:
  assumes "linked st" and "row_at cm_mutation_id m (st_claims st) = Some c"
  shows "\<exists>c'. row_at cm_mutation_id m (st_claims (fst (mark_mutation_indeterminate mid recs g now st))) = Some c' \<and>
    claim_moves now c c'"
proof (rule processing_cases [OF assms(1), of mid INDETERMINATE_MESSAGE indeterminate_response recs g now])
  fix st' d
  assume *: "finalize_processing_claim mid INDETERMINATE_MESSAGE indeterminate_response recs g now st = Ok st'"
    "row_at cm_mutation_id mid (st_claims st) = Some d" "processing d"
    "st_claims st' = map (\<lambda>c. if cm_mutation_id c = mid then settle_claim ClaimFailed indeterminate_response now c else c) (st_claims st)"
  then have "m = mid \<Longrightarrow> processing c" using assms(2) by auto
  with moves_settled_map [OF assms(2), of ClaimFailed] * show ?thesis
    by (simp add: mark_mutation_indeterminate_def terminal_mutation_response_def processing_def)
qed (use assms in \<open>simp_all add: mark_mutation_indeterminate_def split: option.split\<close>)

lemma fold_indeterminate_moves:
  assumes "linked st" and "row_at cm_mutation_id m (st_claims st) = Some c"
  shows "\<exists>c'. row_at cm_mutation_id m (st_claims
      (fold (\<lambda>c st. fst (mark_mutation_indeterminate (cm_mutation_id c) [] None now st)) cs st)) = Some c' \<and> claim_moves now c c'"
  using assms
proof (induction cs arbitrary: st c)
  case (Cons d cs)
  obtain c' where c': "row_at cm_mutation_id m (st_claims (fst (mark_mutation_indeterminate (cm_mutation_id d) [] None now st))) = Some c'"
    "claim_moves now c c'" using indeterminate_moves [OF Cons.prems] by blast
  from Cons.IH [OF linked_indeterminate [OF Cons.prems(1)] c'(1)] c'(2) show ?case
    by (auto intro: claim_moves_trans)
qed simp

lemma event_moves:
  assumes "linked st" and "event_ok e" and "row_at cm_mutation_id m (st_claims st) = Some c"
  shows "case row_at cm_mutation_id m (st_claims (apply_event e st)) of
      Some c' \<Rightarrow> claim_moves (event_time e) c c'
    | None \<Rightarrow> \<not> processing c \<and> cm_expires_at_ms c \<le> event_time e"
proof (cases e)
  case (EvRequest mid fp rq rcp op now)
  show ?thesis using assms(3)
    by (cases rule: claim_mutation_cases [of mid fp rq rcp op now st]) (simp_all add: EvRequest row_at_append)
next
  case (EvSettle mid rid oid sl)
  with assms finalize_moves [of st sl m c mid rid oid] show ?thesis by (auto simp: event_ok_def)
next
  case (EvIndeterminate mid recs g now)
  with assms indeterminate_moves [of st m c mid recs g now] show ?thesis by auto
next
  case (EvRestart now)
  with fold_indeterminate_moves [OF assms(1,3), of now "filter (\<lambda>c. cm_state c = ClaimProcessing) (st_claims st)"]
  show ?thesis by (auto simp: recover_processing_mutations_def)
next
  case (EvPrune now)
  with assms show ?thesis by (simp add: prune_expired_mutations_def row_at_filter linkedD(1) processing_def)
qed

definition claim_lease :: "string \<Rightarrow> 'd store \<Rightarrow> i64 option" where
  "claim_lease m st = map_option cm_expires_at_ms (row_at cm_mutation_id m (st_claims st))"

lemma runs_mutationD:
  assumes "runs_mutation m e st" and "event_ok e"
  shows "claim_lease m st = None" and "claim_lease m (apply_event e st) = Some (event_time e + MUTATION_DEDUP_TTL_MS)"
proof -
  obtain fp rq rcp op now where e: "e = EvRequest m fp rq rcp op now"
    and cl: "snd (claim_mutation m fp rq rcp op now st) = Ok Claimed" using assms(1) by (cases e) auto
  show "claim_lease m st = None"
    using cl by (cases rule: claim_mutation_cases [of m fp rq rcp op now st]) (auto simp: claim_lease_def)
  show "claim_lease m (apply_event e st) = Some (event_time e + MUTATION_DEDUP_TTL_MS)"
    using cl expiry_exact [OF assms(2)]
    by (cases rule: claim_mutation_cases [of m fp rq rcp op now st])
      (auto simp: claim_lease_def e row_at_append row_at_Cons new_claim_def)
qed

lemma claim_lease_kept:
  assumes "linked st" and "event_ok e" and "claim_lease m st = Some x"
  shows "case claim_lease m (apply_event e st) of
      Some y \<Rightarrow> x \<le> y \<or> y = event_time e + MUTATION_DEDUP_TTL_MS | None \<Rightarrow> x \<le> event_time e"
proof -
  obtain c where c: "row_at cm_mutation_id m (st_claims st) = Some c" "cm_expires_at_ms c = x"
    using assms(3) by (auto simp: claim_lease_def)
  from event_moves [OF assms(1,2) c(1)] c(2) expiry_exact [OF assms(2)] show ?thesis
    by (auto simp: claim_moves_def claim_lease_def split: option.splits)
qed

interpretation dedup: lease_table linked event_ok apply_event "runs_mutation m" "claim_lease m" event_time MUTATION_DEDUP_TTL_MS
  for m
  by unfold_locales (use linked_event runs_mutationD claim_lease_kept in blast)+

text \<open>Settled receipts never change again.\<close>

lemma finalize_receipt_keeps:
  "row_at rp_id i t = Some r \<Longrightarrow> \<not> receipt_pending r \<Longrightarrow> row_at rp_id i (finalize_receipt j s m a e t) = Some r"
  by (simp add: row_finalize_receipt)

lemma finalize_claimed_receipts:
  "st_receipts (fst (finalize_claimed_mutation mid rid oid sl st)) \<in> {st_receipts st, finalize_receipt rid
     (sl_receipt_status sl) (sl_receipt_message sl) (sl_finished_at_ms sl) (sl_receipt_error sl) (st_receipts st)}"
  by (simp add: finalize_claimed_mutation_def Let_def result_bind_Ok_iff split: result.split) auto

lemma processing_receipts:
  "finalize_processing_claim mid msg resp recs g now st = Ok st' \<Longrightarrow>
     st_receipts st' = st_receipts st \<or> (\<exists>i. st_receipts st' =
       finalize_receipt i ReceiptFailed msg now (Some (indeterminate_error msg)) (st_receipts st))"
  by (auto simp: finalize_processing_claim_def Let_def split: option.splits if_splits)

lemma indeterminate_receipt_kept:
  "row_at rp_id i (st_receipts st) = Some r \<Longrightarrow> \<not> receipt_pending r \<Longrightarrow>
     row_at rp_id i (st_receipts (fst (mark_mutation_indeterminate mid recs g now st))) = Some r"
  by (auto simp: mark_mutation_indeterminate_def finalize_receipt_keeps dest!: processing_receipts split: option.split result.split)

lemma event_receipt_kept:
  assumes "row_at rp_id i (st_receipts st) = Some r" and "\<not> receipt_pending r"
  shows "row_at rp_id i (st_receipts (apply_event e st)) = Some r"
proof (cases e)
  case (EvRequest mid fp rq rcp op now)
  show ?thesis using assms
    by (cases rule: claim_mutation_cases [of mid fp rq rcp op now st]) (simp_all add: EvRequest row_at_append)
next
  case (EvSettle mid rid oid sl)
  with assms finalize_claimed_receipts [of mid rid oid sl st] show ?thesis by (auto simp: finalize_receipt_keeps)
next
  case (EvRestart now)
  have "row_at rp_id i (st_receipts (fold (\<lambda>c st. fst (mark_mutation_indeterminate (cm_mutation_id c) [] None now st)) cs st)) = Some r"
    for cs :: "'a claim_row list" using assms
    by (induction cs arbitrary: st) (auto simp: indeterminate_receipt_kept)
  with EvRestart show ?thesis by (simp add: recover_processing_mutations_def)
qed (use assms in \<open>simp_all add: indeterminate_receipt_kept prune_expired_mutations_def\<close>)

lemma settled_receipt:
  assumes "linked st" and "row_at cm_mutation_id m (st_claims st) = Some c" and "\<not> processing c"
  obtains i r where "cm_receipt_id c = Some i" "row_at rp_id i (st_receipts st) = Some r" "\<not> receipt_pending r"
proof -
  have "claim_linked_but {} st c" using assms(2) linkedD(6) [OF assms(1)] row_at_SomeD by fast
  then show ?thesis using assms(3) that by (auto simp: claim_linked_but_def bind_eq_Some_conv rc_pend_def)
qed

lemma settled_answer_step:
  assumes "linked st" and "event_ok e" and "row_at cm_mutation_id m (st_claims st) = Some c" and "\<not> processing c"
    and "event_time e < cm_expires_at_ms c"
  shows "row_at cm_mutation_id m (st_claims (apply_event e st)) = Some c"
    and "linked_receipt c (apply_event e st) = linked_receipt c st"
proof -
  show "row_at cm_mutation_id m (st_claims (apply_event e st)) = Some c"
    using event_moves [OF assms(1-3)] assms(4,5) by (auto simp: claim_moves_def split: option.splits)
  from settled_receipt [OF assms(1,3,4)] obtain i r where "cm_receipt_id c = Some i"
    "row_at rp_id i (st_receipts st) = Some r" "\<not> receipt_pending r" .
  with event_receipt_kept [OF this(2,3), of e] show "linked_receipt c (apply_event e st) = linked_receipt c st"
    by (simp add: linked_receipt_def)
qed

lemma settled_answer_run:
  assumes "linked st" and "list_all event_ok es" and "row_at cm_mutation_id m (st_claims st) = Some c" and "\<not> processing c"
    and "\<forall>e \<in> set es. event_time e < cm_expires_at_ms c"
  shows "row_at cm_mutation_id m (st_claims (fold apply_event es st)) = Some c \<and>
    linked_receipt c (fold apply_event es st) = linked_receipt c st"
  using assms
proof (induction es arbitrary: st)
  case (Cons e es)
  then show ?case using linked_event [of st e] settled_answer_step [of st e m c] by simp
qed simp

section \<open>Repeating a settlement\<close>

lemma guard_status:
  assumes "apply_post_write_guard g i t = Ok t'" and "g \<noteq> Some (MarkRedone j)" and "row_at op_id j t = Some op"
  shows "\<exists>op'. row_at op_id j t' = Some op' \<and> op_status op' = op_status op"
  using assms by (auto simp: apply_post_write_guard_def disable_partial_undo_def mark_operation_redone_def update_where_at
      row_at_update split: option.splits post_write_guard.splits if_splits)

lemma finalize_operation_status:
  assumes "op_pend t i = Some True"
  shows "\<exists>op. row_at op_id i (finalize_operation i s a e (retain_partial_recovery i po t)) = Some op \<and> op_status op = s"
proof -
  obtain z where "row_at op_id i t = Some z" "is_pending z" using assms by (auto simp: op_pend_def)
  then show ?thesis by (cases po) (simp_all add: finalize_operation_def retain_partial_recovery_def update_where_at
      row_at_update is_pending_def)
qed

lemma exact_replay_rows:
  assumes "linked st"
  shows "is_exact_replay mid rid oid sl st \<longleftrightarrow> (\<exists>c r op. row_at cm_mutation_id mid (st_claims st) = Some c \<and>
     row_at rp_id rid (st_receipts st) = Some r \<and> row_at op_id oid (st_ops st) = Some op \<and>
     cm_receipt_id c = Some rid \<and> cm_operation_id c = Some oid \<and> cm_state c = settled_state sl \<and>
     cm_response c = Some (sl_response sl) \<and> rp_status r = sl_receipt_status sl \<and> op_status op = sl_operation_status sl)"
  using linkedD(1-3) [OF assms] unfolding is_exact_replay_def by (auto simp: row_at_iff)

lemma settled_no_owner:
  "row_at cm_mutation_id mid (st_claims st) = Some c \<Longrightarrow> \<not> processing c \<Longrightarrow>
     \<nexists>d. row_at cm_mutation_id mid (st_claims st) = Some d \<and> owns_claim rid oid d"
  by (auto simp: owns_claim_def processing_def)

lemma finalize_settles:
  assumes "linked st" and "terminal_settlement sl" and "sl_guard sl \<noteq> Some (MarkRedone oid)"
    and "row_at cm_mutation_id mid (st_claims st) = Some d" and "owns_claim rid oid d"
    and "finalize_claimed_mutation mid rid oid sl st = (st', Ok ())"
  shows "is_exact_replay mid rid oid sl st'"
    and "row_at cm_mutation_id mid (st_claims st') = Some (settle_claim (settled_state sl) (sl_response sl) (sl_finished_at_ms sl) d)"
proof -
  have l': "linked st'" using linked_finalize [OF assms(1,2), of mid rid oid] assms(6) by simp
  have not_replay: "\<not> is_exact_replay mid rid oid sl st" using assms(4,5)
    by (auto simp: exact_replay_rows [OF assms(1)] owns_claim_def settled_state_def)
  have *: "st_claims st' = map (\<lambda>c. if cm_mutation_id c = mid then
       settle_claim (settled_state sl) (sl_response sl) (sl_finished_at_ms sl) c else c) (st_claims st) \<and>
    st_receipts st' = finalize_receipt rid (sl_receipt_status sl) (sl_receipt_message sl) (sl_finished_at_ms sl)
       (sl_receipt_error sl) (st_receipts st) \<and>
    apply_post_write_guard (sl_guard sl) oid (finalize_operation oid (sl_operation_status sl) (sl_finished_at_ms sl)
       (sl_operation_error sl) (retain_partial_recovery oid (sl_recovery sl) (st_ops st))) = Ok (st_ops st')"
    by (rule finalize_cases [OF assms(1,2), of mid rid oid]) (use assms(6) not_replay in simp_all)
  show c: "row_at cm_mutation_id mid (st_claims st') = Some (settle_claim (settled_state sl) (sl_response sl) (sl_finished_at_ms sl) d)"
    using * assms(4) row_at_SomeD [OF assms(4)] by (simp add: row_at_map)
  obtain r where "row_at rp_id rid (st_receipts st') = Some r" "rp_status r = sl_receipt_status sl"
    using * owner_pend(1) [OF assms(1,4,5)] by (auto simp: row_finalize_receipt rc_pend_def)
  moreover obtain op where "row_at op_id oid (st_ops st') = Some op" "op_status op = sl_operation_status sl"
    using guard_status [OF conjunct2 [OF conjunct2 [OF *]] assms(3)]
      finalize_operation_status [OF owner_pend(2) [OF assms(1,4,5), simplified], of "sl_operation_status sl" "sl_finished_at_ms sl"
        "sl_operation_error sl" "sl_recovery sl"] by auto
  ultimately show "is_exact_replay mid rid oid sl st'"
    using assms(5) c by (simp add: exact_replay_rows [OF l'] owns_claim_def)
qed

section \<open>The retention job\<close>

datatype 'd store_event = Mutation "'d mutation_event" | RetainOperations i64

primrec apply_store_event :: "'d store_event \<Rightarrow> 'd store \<Rightarrow> 'd store" where
  "apply_store_event (Mutation e) st = apply_event e st"
| "apply_store_event (RetainOperations cutoff) st = fst (retain_operations cutoff st)"

primrec store_event_ok :: "'d store_event \<Rightarrow> bool" where
  "store_event_ok (Mutation e) \<longleftrightarrow> event_ok e"
| "store_event_ok (RetainOperations cutoff) = True"

primrec event_rows :: "'d store_event \<Rightarrow> operation list" where
  "event_rows (Mutation e) = requested_rows e"
| "event_rows (RetainOperations cutoff) = []"

text \<open>Every operation row a run can meet: those of the first store and those its requests bring.\<close>

definition known_rows :: "'d store \<Rightarrow> 'd store_event list \<Rightarrow> operation list" where
  "known_rows st es = st_ops st @ concat (map event_rows es)"

definition op_stamp :: "operation \<Rightarrow> operation_id \<times> i64" where
  "op_stamp op = (op_id op, op_occurred_at_ms op)"

lemma update_stamps: "(\<And>op. op_stamp (f op) = op_stamp op) \<Longrightarrow> map op_stamp (update_where i c f t) = map op_stamp t"
  by (induction t) (simp_all add: update_where_def)

lemma settle_stamps [simp]:
  "map op_stamp (finalize_operation i s a e t) = map op_stamp t"
  "map op_stamp (retain_partial_recovery i po t) = map op_stamp t"
  by (auto simp: finalize_operation_def retain_partial_recovery_def op_stamp_def intro!: update_stamps split: option.split)

lemma guard_stamps: "apply_post_write_guard g i t = Ok t' \<Longrightarrow> map op_stamp t' = map op_stamp t"
  by (auto simp: apply_post_write_guard_def disable_partial_undo_def mark_operation_redone_def op_stamp_def
      split: option.splits post_write_guard.splits if_splits intro!: update_stamps)

lemma finalize_claimed_stamps:
  "map op_stamp (st_ops (fst (finalize_claimed_mutation mid rid oid sl st))) = map op_stamp (st_ops st)"
  by (auto simp: finalize_claimed_mutation_def Let_def result_bind_Ok_iff dest!: guard_stamps split: result.split)

lemma processing_stamps:
  "finalize_processing_claim mid msg resp recs g now st = Ok st' \<Longrightarrow> map op_stamp (st_ops st') = map op_stamp (st_ops st)"
  by (auto simp: finalize_processing_claim_def Let_def result_bind_Ok_iff dest!: guard_stamps split: option.splits if_splits)

lemma indeterminate_stamps [simp]:
  "map op_stamp (st_ops (fst (mark_mutation_indeterminate mid recs g now st))) = map op_stamp (st_ops st)"
  by (auto simp: mark_mutation_indeterminate_def dest: processing_stamps split: option.split result.split)

lemma event_stamps: "op_stamp ` set (st_ops (apply_event e st)) \<subseteq> op_stamp ` set (st_ops st @ requested_rows e)"
proof (cases e)
  case (EvRequest mid fp rq rcp op now)
  show ?thesis
    by (cases rule: claim_mutation_cases [of mid fp rq rcp op now st]) (auto simp: EvRequest)
next
  case (EvSettle mid rid oid sl)
  have "op_stamp ` set (st_ops (apply_event e st)) = op_stamp ` set (st_ops st)"
    using arg_cong [OF finalize_claimed_stamps [of mid rid oid sl st], of set] unfolding set_map EvSettle apply_event.simps .
  then show ?thesis by auto
next
  case (EvIndeterminate mid recs g now)
  have "op_stamp ` set (st_ops (apply_event e st)) = op_stamp ` set (st_ops st)"
    using arg_cong [OF indeterminate_stamps [of mid recs g now st], of set] unfolding set_map EvIndeterminate apply_event.simps .
  then show ?thesis by auto
next
  case (EvRestart now)
  have "map op_stamp (st_ops (fold (\<lambda>c st. fst (mark_mutation_indeterminate (cm_mutation_id c) [] None now st)) cs st)) =
      map op_stamp (st_ops st)" for cs :: "'a claim_row list"
    by (induction cs arbitrary: st) simp_all
  from arg_cong [OF this, of set] have "op_stamp ` set (st_ops (apply_event e st)) = op_stamp ` set (st_ops st)"
    unfolding set_map EvRestart apply_event.simps recover_processing_mutations_def .
  then show ?thesis by auto
qed (auto simp: prune_expired_mutations_def)

definition removed_ids :: "i64 \<Rightarrow> 'd store \<Rightarrow> operation_id set" where
  "removed_ids cutoff st = (case prune_operations_older_than cutoff (st_ops st) of
     (_, Ok _) \<Rightarrow> op_id ` {op \<in> set (st_ops st). op_occurred_at_ms op < cutoff} | (_, Err _) \<Rightarrow> {})"

lemma retain_operations_cases:
  obtains (blocked) "fst (retain_operations cutoff st) = st" "removed_ids cutoff st = {}"
  | (pruned) rc where "fst (retain_operations cutoff st) =
      st\<lparr>st_ops := filter (\<lambda>op. cutoff \<le> op_occurred_at_ms op) (st_ops st), st_recons := rc\<rparr>"
    "removed_ids cutoff st = op_id ` {op \<in> set (st_ops st). op_occurred_at_ms op < cutoff}"
proof (cases "snd (prune_operations_older_than cutoff (st_ops st))")
  case (Ok n)
  then have "prune_operations_older_than cutoff (st_ops st) = (filter (\<lambda>op. cutoff \<le> op_occurred_at_ms op) (st_ops st), Ok n)"
    by (auto simp: prune_operations_older_than_def Let_def split: if_splits)
  then show ?thesis by (intro pruned) (simp_all add: retain_operations_def removed_ids_def)
next
  case (Err e)
  then have "prune_operations_older_than cutoff (st_ops st) = (st_ops st, Err e)"
    by (auto simp: prune_operations_older_than_def Let_def split: if_splits)
  then show ?thesis by (intro blocked) (simp_all add: retain_operations_def removed_ids_def)
qed

lemma linked_retain:
  assumes "linked_but R st"
  shows "linked_but (R \<union> removed_ids cutoff st) (fst (retain_operations cutoff st))"
proof (cases rule: retain_operations_cases [of cutoff st])
  case (pruned rc)
  let ?old = "{op \<in> set (st_ops st). op_occurred_at_ms op < cutoff}"
  note L = linkedD [OF assms]
  have p: "op_pend (filter (\<lambda>op. cutoff \<le> op_occurred_at_ms op) (st_ops st)) i =
      (if i \<in> op_id ` ?old then None else op_pend (st_ops st) i)" for i
  proof (cases "row_at op_id i (st_ops st)")
    case None
    then show ?thesis by (simp add: op_pend_def row_at_filter L(3))
  next
    case (Some op)
    then have op: "op \<in> set (st_ops st)" "op_id op = i" by (auto dest: row_at_SomeD)
    have "i \<in> op_id ` ?old \<longleftrightarrow> op_occurred_at_ms op < cutoff"
    proof
      assume "i \<in> op_id ` ?old"
      then obtain op' where "op' \<in> set (st_ops st)" "op_id op' = i" "op_occurred_at_ms op' < cutoff" by blast
      with op L(3) show "op_occurred_at_ms op < cutoff" by (metis inj_onD distinct_map)
    qed (use op in blast)
    then show ?thesis unfolding op_pend_def row_at_filter [OF L(3)] Some by simp
  qed
  have "claim_linked_but (R \<union> op_id ` ?old) (fst (retain_operations cutoff st)) c" if c: "c \<in> set (st_claims st)" for c
  proof -
    have cl: "claim_linked_but R st c" using L(6) [OF c] .
    then obtain i where i: "cm_operation_id c = Some i" "op_pend (st_ops st) i = (if i \<in> R then None else Some (processing c))"
      unfolding claim_linked_but_def by blast
    then have "op_pend (st_ops (fst (retain_operations cutoff st))) i =
        (if i \<in> R \<union> op_id ` ?old then None else Some (processing c))"
      by (simp add: pruned(1) p)
    with cl i(1) show ?thesis by (simp add: claim_linked_but_def pruned(1))
  qed
  then show ?thesis using L(1-5) unfolding linked_but_def by (simp add: pruned distinct_keys_filter)
qed (use assms in simp)

lemma stamp_ids: "op_stamp ` A \<subseteq> op_stamp ` B \<Longrightarrow> op_id ` A \<subseteq> op_id ` B"
  using image_mono [of "op_stamp ` A" "op_stamp ` B" fst] by (simp add: image_image op_stamp_def)

lemma store_run_links:
  assumes "linked_but R st" and "list_all store_event_ok es" and "distinct (map op_id (concat (map event_rows es)))"
    and "\<forall>op \<in> set (concat (map event_rows es)). op_id op \<notin> R \<union> op_id ` set (st_ops st)"
  shows "\<exists>R'. linked_but R' (fold apply_store_event es st) \<and> (\<forall>i \<in> R' - R. \<exists>op \<in> set (known_rows st es). \<exists>cutoff.
    op_id op = i \<and> RetainOperations cutoff \<in> set es \<and> op_occurred_at_ms op < cutoff)"
  using assms
proof (induction es arbitrary: R st)
  case (Cons e es)
  show ?case
  proof (cases e)
    case (Mutation m)
    have l: "linked_but R (apply_event m st)"
      using Cons.prems(1,2,4) by (intro linked_event_but) (simp_all add: Mutation)
    have st: "op_stamp ` set (st_ops (apply_event m st)) \<subseteq> op_stamp ` set (st_ops st @ requested_rows m)"
      by (rule event_stamps)
    then have ids: "op_id ` set (st_ops (apply_event m st)) \<subseteq> op_id ` set (st_ops st) \<union> op_id ` set (requested_rows m)"
      using stamp_ids by (metis set_append image_Un)
    have "op_id op \<notin> op_id ` set (requested_rows m)" "op_id op \<notin> R \<union> op_id ` set (st_ops st)"
      if "op \<in> set (concat (map event_rows es))" for op
      using Cons.prems(3,4) that by (simp_all add: Mutation) blast+
    with ids have "\<forall>op \<in> set (concat (map event_rows es)). op_id op \<notin> R \<union> op_id ` set (st_ops (apply_event m st))"
      by blast
    from Cons.IH [OF l _ _ this] Cons.prems(2,3) obtain R' where R': "linked_but R' (fold apply_store_event es (apply_event m st))"
      "\<forall>i \<in> R' - R. \<exists>op \<in> set (known_rows (apply_event m st) es). \<exists>cutoff.
         op_id op = i \<and> RetainOperations cutoff \<in> set es \<and> op_occurred_at_ms op < cutoff"
      by (auto simp: Mutation)
    have "\<exists>op' \<in> set (known_rows st (e # es)). op_stamp op' = op_stamp op"
      if "op \<in> set (known_rows (apply_event m st) es)" for op
    proof (cases "op \<in> set (st_ops (apply_event m st))")
      case True
      then have "op_stamp op \<in> op_stamp ` set (st_ops st @ requested_rows m)" using st by blast
      then obtain op' where "op' \<in> set (st_ops st @ requested_rows m)" "op_stamp op = op_stamp op'" by (rule imageE)
      then show ?thesis by (auto simp: known_rows_def Mutation intro!: bexI [of _ op'])
    next
      case False
      with that show ?thesis by (auto simp: known_rows_def intro!: bexI [of _ op])
    qed
    then have "\<exists>op' \<in> set (known_rows st (e # es)). op_id op' = op_id op \<and> op_occurred_at_ms op' = op_occurred_at_ms op"
      if "op \<in> set (known_rows (apply_event m st) es)" for op
      using that by (simp add: op_stamp_def)
    with R'(2) have "\<exists>op \<in> set (known_rows st (e # es)). \<exists>c. op_id op = i \<and> RetainOperations c \<in> set (e # es) \<and> op_occurred_at_ms op < c"
      if "i \<in> R' - R" for i
      using that by (metis list.set_intros(2))
    with R'(1) show ?thesis by (auto simp: Mutation)
  next
    case (RetainOperations cutoff)
    let ?R = "R \<union> removed_ids cutoff st"
    have sub: "set (st_ops (fst (retain_operations cutoff st))) \<subseteq> set (st_ops st)"
      "removed_ids cutoff st \<subseteq> op_id ` {op \<in> set (st_ops st). op_occurred_at_ms op < cutoff}"
      by (cases rule: retain_operations_cases [of cutoff st]; simp; blast)+
    then have "\<forall>op \<in> set (concat (map event_rows es)). op_id op \<notin> ?R \<union> op_id ` set (st_ops (fst (retain_operations cutoff st)))"
      using Cons.prems(4) by (fastforce simp: RetainOperations)
    from Cons.IH [OF linked_retain [OF Cons.prems(1)] _ _ this] Cons.prems(2,3) obtain R' where
      R': "linked_but R' (fold apply_store_event es (fst (retain_operations cutoff st)))"
      "\<forall>i \<in> R' - ?R. \<exists>op \<in> set (known_rows (fst (retain_operations cutoff st)) es). \<exists>cutoff.
         op_id op = i \<and> RetainOperations cutoff \<in> set es \<and> op_occurred_at_ms op < cutoff"
      by (auto simp: RetainOperations)
    have known: "set (known_rows (fst (retain_operations cutoff st)) es) \<subseteq> set (known_rows st (e # es))"
      using sub(1) by (auto simp: known_rows_def RetainOperations)
    have "\<exists>op \<in> set (known_rows st (e # es)). \<exists>c. op_id op = i \<and> RetainOperations c \<in> set (e # es) \<and> op_occurred_at_ms op < c"
      if i: "i \<in> R' - R" for i
    proof (cases "i \<in> removed_ids cutoff st")
      case True
      with sub(2) obtain op where "op \<in> set (st_ops st)" "op_id op = i" "op_occurred_at_ms op < cutoff" by blast
      then show ?thesis by (intro bexI [of _ op] exI [of _ cutoff]) (simp_all add: known_rows_def RetainOperations)
    next
      case False
      with R'(2) i known show ?thesis by fastforce
    qed
    with R'(1) show ?thesis by (auto simp: RetainOperations)
  qed
qed (auto intro: exI [of _ R])

section \<open>Recovery\<close>

definition interrupted :: "i64 \<Rightarrow> 'd claim_row \<Rightarrow> 'd claim_row" where
  "interrupted now c = settle_claim ClaimFailed indeterminate_response now c"

lemma recovery_step:
  assumes "linked st"
  shows "st_claims (fst (mark_mutation_indeterminate mid [] None now st)) =
    map (\<lambda>c. if cm_mutation_id c = mid \<and> processing c then interrupted now c else c) (st_claims st)"
proof (cases "\<exists>d. row_at cm_mutation_id mid (st_claims st) = Some d \<and> processing d")
  case True
  then obtain d where d: "row_at cm_mutation_id mid (st_claims st) = Some d" "processing d" by blast
  then have "claim_linked_but {} st d" using linkedD(6) [OF assms] row_at_SomeD by fast
  then obtain rid oid where "cm_receipt_id d = Some rid" "cm_operation_id d = Some oid"
    by (auto simp: claim_linked_but_def bind_eq_Some_conv)
  with d have "st_claims (fst (mark_mutation_indeterminate mid [] None now st)) =
      update_at cm_mutation_id mid (\<lambda>_. True) (interrupted now) (st_claims st)"
    by (simp add: mark_mutation_indeterminate_def terminal_mutation_response_def finalize_processing_claim_def Let_def
        apply_post_write_guard_def processing_def interrupted_def [abs_def])
  also have "\<dots> = map (\<lambda>c. if cm_mutation_id c = mid \<and> processing c then interrupted now c else c) (st_claims st)"
    using d linkedD(1) [OF assms] by (auto simp: update_at_def) (metis option.inject row_at_iff)
  finally show ?thesis .
next
  case False
  then have "map (\<lambda>c. if cm_mutation_id c = mid \<and> processing c then interrupted now c else c) (st_claims st) = st_claims st"
    using linkedD(1) [OF assms] by (intro map_idI) (auto simp: row_at_iff)
  moreover have "st_claims (fst (mark_mutation_indeterminate mid [] None now st)) = st_claims st"
    using False by (auto simp: mark_mutation_indeterminate_def finalize_processing_claim_def processing_def split: option.split)
  ultimately show ?thesis by simp
qed

lemma recovery_fold:
  assumes "linked st"
  shows "st_claims (fold (\<lambda>c st. fst (mark_mutation_indeterminate (cm_mutation_id c) [] None now st)) cs st) =
    map (\<lambda>c. if cm_mutation_id c \<in> cm_mutation_id ` set cs \<and> processing c then interrupted now c else c) (st_claims st)"
  using assms
proof (induction cs arbitrary: st)
  case (Cons d cs)
  then show ?case
    by (auto simp: linked_indeterminate recovery_step interrupted_def)
qed simp

lemma recovery_claims:
  assumes "linked st"
  shows "st_claims (recover_processing_mutations now st) =
    map (\<lambda>c. if processing c then interrupted now c else c) (st_claims st)"
  unfolding recover_processing_mutations_def recovery_fold [OF assms]
  by (auto simp: processing_def)

text \<open>The recovery the daemon runs. What keeps a claim in flight:\<close>

definition recovery_blocked :: "('d, 'q) recovery_env \<Rightarrow> 'd claim_row \<Rightarrow> 'd store \<Rightarrow> bool" where
  "recovery_blocked env c st \<longleftrightarrow> (case recovery_reconciliation_intent env c st of
       Err e \<Rightarrow> True
     | Ok (recs, g) \<Rightarrow>
         (\<forall>d \<in> set MUTATION_FINALIZATION_RETRY_DELAYS. re_io env (cm_mutation_id c) d \<noteq> None) \<or>
         (\<exists>e. finalize_processing_claim (cm_mutation_id c) INDETERMINATE_MESSAGE indeterminate_response
            (map require_stability_pass recs) g (re_now env (cm_mutation_id c)) st = Err e))"

definition given_up :: "('d, 'q) recovery_env \<Rightarrow> 'd claim_row \<Rightarrow> 'd claim_row" where
  "given_up env c = interrupted (re_now env (cm_mutation_id c)) c"

lemma given_up_sel [simp]: "cm_mutation_id (given_up env c) = cm_mutation_id c" "\<not> processing (given_up env c)"
  "cm_response (given_up env c) = Some indeterminate_response"
  by (simp_all add: given_up_def interrupted_def)

lemma mark_processing:
  assumes "row_at cm_mutation_id mid (st_claims st) = Some c" and "processing c"
  shows "mark_mutation_indeterminate mid recs g t st =
    (case finalize_processing_claim mid INDETERMINATE_MESSAGE indeterminate_response recs g t st of
       Err e \<Rightarrow> (st, Err e)
     | Ok st' \<Rightarrow> (st', Ok (case Option.bind (row_at cm_mutation_id mid (st_claims st')) cm_response of
           Some response \<Rightarrow> response | None \<Rightarrow> indeterminate_response)))"
  using assms by (simp add: mark_mutation_indeterminate_def terminal_mutation_response_def processing_def)

lemma persist_attempts_Ok:
  "mark_mutation_indeterminate mid recs g t st = (st', Ok r) \<Longrightarrow> \<exists>d \<in> set ds. io d = None \<Longrightarrow>
     persist_attempts ds io e mid recs g t st = (st', Ok r)"
  by (induction ds arbitrary: e) (auto split: option.split)

lemma persist_attempts_io: "\<forall>d \<in> set ds. io d \<noteq> None \<Longrightarrow> \<exists>y. persist_attempts ds io e mid recs g t st = (st, Err y)"
  by (induction ds arbitrary: e) (auto split: option.split)

lemma persist_attempts_Err:
  "mark_mutation_indeterminate mid recs g t st = (st, Err x) \<Longrightarrow>
     \<exists>y. persist_attempts ds io e mid recs g t st = (st, Err y)"
  by (induction ds arbitrary: e) (auto split: option.split)

lemma recover_claim_cases:
  assumes "linked st" and "row_at cm_mutation_id (cm_mutation_id c) (st_claims st) = Some c" and "processing c"
  obtains (failed) e where "recover_processing_mutation_claim env c st = (st, Err e)" "recovery_blocked env c st"
  | (recovered) st' r where "recover_processing_mutation_claim env c st = (st', Ok r)" "linked st'"
      "st_claims st' = map (\<lambda>d. if cm_mutation_id d = cm_mutation_id c then given_up env d else d) (st_claims st)"
proof (cases "recovery_reconciliation_intent env c st")
  case (Err e)
  then show ?thesis by (intro failed) (simp_all add: recover_processing_mutation_claim_def recovery_blocked_def)
next
  case (Ok p)
  obtain recs0 g where p: "p = (recs0, g)" by (cases p)
  let ?mid = "cm_mutation_id c" and ?recs = "map require_stability_pass recs0" and ?t = "re_now env (cm_mutation_id c)"
  have rec: "recover_processing_mutation_claim env c st = persist_indeterminate_mutation (re_io env ?mid) ?mid ?recs g ?t st"
    by (simp add: recover_processing_mutation_claim_def Ok p)
  note mark = mark_processing [OF assms(2,3), of ?recs g ?t]
  show ?thesis
  proof (cases "finalize_processing_claim ?mid INDETERMINATE_MESSAGE indeterminate_response ?recs g ?t st")
    case (Err e)
    with mark have "mark_mutation_indeterminate ?mid ?recs g ?t st = (st, Err e)" by simp
    from persist_attempts_Err [OF this] rec obtain y where "recover_processing_mutation_claim env c st = (st, Err y)"
      unfolding persist_indeterminate_mutation_def by metis
    then show ?thesis by (rule failed) (simp add: recovery_blocked_def Ok p Err)
  next
    case fin: (Ok st')
    with mark obtain r where m: "mark_mutation_indeterminate ?mid ?recs g ?t st = (st', Ok r)" by simp
    show ?thesis
    proof (cases "\<exists>d \<in> set MUTATION_FINALIZATION_RETRY_DELAYS. re_io env ?mid d = None")
      case True
      have "linked st'" using linked_processing [OF assms(1) fin] .
      moreover have "st_claims st' = map (\<lambda>d. if cm_mutation_id d = ?mid then given_up env d else d) (st_claims st)"
      proof (rule processing_cases [OF assms(1), of ?mid INDETERMINATE_MESSAGE indeterminate_response ?recs g ?t])
        fix st1
        assume "finalize_processing_claim ?mid INDETERMINATE_MESSAGE indeterminate_response ?recs g ?t st = Ok st1"
          "st_claims st1 = map (\<lambda>d. if cm_mutation_id d = ?mid then settle_claim ClaimFailed indeterminate_response ?t d else d) (st_claims st)"
        then show ?thesis using fin by (simp add: given_up_def interrupted_def cong: if_cong)
      qed (use fin assms in auto)
      moreover have "recover_processing_mutation_claim env c st = (st', Ok r)"
        unfolding rec persist_indeterminate_mutation_def by (rule persist_attempts_Ok [OF m True])
      ultimately show ?thesis by (intro recovered)
    next
      case False
      then obtain y where "recover_processing_mutation_claim env c st = (st, Err y)"
        unfolding rec persist_indeterminate_mutation_def using persist_attempts_io by metis
      then show ?thesis by (rule failed) (use False in \<open>simp add: recovery_blocked_def Ok p\<close>)
    qed
  qed
qed

lemma recover_claims_run:
  assumes "linked st" and "recover_claims env cs st = (st', n, m)" and "distinct (map cm_mutation_id cs)"
    and "\<forall>c \<in> set cs. c \<in> set (st_claims st) \<and> processing c"
  shows "linked st' \<and> n + m = length cs \<and> (\<exists>S. S \<subseteq> cm_mutation_id ` set cs \<and> card S = n \<and>
    st_claims st' = map (\<lambda>c. if cm_mutation_id c \<in> S then given_up env c else c) (st_claims st) \<and>
    (\<forall>c \<in> set cs. cm_mutation_id c \<notin> S \<longrightarrow> (\<exists>sx. recovery_blocked env c sx)))"
  using assms
proof (induction cs arbitrary: st n m)
  case (Cons c cs)
  have c: "row_at cm_mutation_id (cm_mutation_id c) (st_claims st) = Some c" "processing c"
    using Cons.prems(4) linkedD(1) [OF Cons.prems(1)] by (simp_all add: row_at_iff)
  show ?case
    using Cons.prems(1) c
  proof (cases rule: recover_claim_cases [where env = env])
    case (failed e)
    then obtain m' where m': "m = m' + 1" "recover_claims env cs st = (st', n, m')"
      using Cons.prems(2) by (auto split: prod.splits)
    with Cons.IH [OF Cons.prems(1) m'(2)] Cons.prems(3,4) obtain S where
      "linked st' \<and> n + m' = length cs \<and> S \<subseteq> cm_mutation_id ` set cs \<and> card S = n \<and>
       st_claims st' = map (\<lambda>c. if cm_mutation_id c \<in> S then given_up env c else c) (st_claims st) \<and>
       (\<forall>c \<in> set cs. cm_mutation_id c \<notin> S \<longrightarrow> (\<exists>sx. recovery_blocked env c sx))" by auto
    with failed(2) m'(1) show ?thesis by (intro conjI exI [of _ S]) auto
  next
    case (recovered st1 r)
    then obtain n' where n': "n = n' + 1" "recover_claims env cs st1 = (st', n', m)"
      using Cons.prems(2) by (auto split: prod.splits)
    have "d \<in> set (st_claims st1) \<and> processing d" if d: "d \<in> set cs" for d
    proof -
      have "cm_mutation_id d \<noteq> cm_mutation_id c"
        using Cons.prems(3) imageI [OF d, of cm_mutation_id] by auto
      with d Cons.prems(4) show ?thesis by (force simp: recovered(3))
    qed
    with Cons.IH [OF recovered(2) n'(2)] Cons.prems(3) obtain S where S: "linked st'" "n' + m = length cs"
      "S \<subseteq> cm_mutation_id ` set cs" "card S = n'"
      "st_claims st' = map (\<lambda>c. if cm_mutation_id c \<in> S then given_up env c else c) (st_claims st1)"
      "\<forall>c \<in> set cs. cm_mutation_id c \<notin> S \<longrightarrow> (\<exists>sx. recovery_blocked env c sx)" by auto
    have new: "cm_mutation_id c \<notin> S" using S(3) Cons.prems(3) by auto
    have "card (insert (cm_mutation_id c) S) = n" using new S(3,4) n'(1) by (simp add: finite_subset)
    moreover have "st_claims st' = map (\<lambda>d. if cm_mutation_id d \<in> insert (cm_mutation_id c) S then given_up env d else d) (st_claims st)"
      using new by (simp add: S(5) recovered(3))
    ultimately show ?thesis using S(1-3,6) n'(1)
      by (intro conjI exI [of _ "insert (cm_mutation_id c) S"]) auto
  qed
qed auto

lemma in_flight_claims:
  assumes "linked st"
  shows "set (processing_mutation_claims st) = {c \<in> set (st_claims st). processing c}"
    and "distinct (map cm_mutation_id (processing_mutation_claims st))"
proof -
  show "set (processing_mutation_claims st) = {c \<in> set (st_claims st). processing c}"
    by (auto simp: processing_mutation_claims_def processing_def)
  show "distinct (map cm_mutation_id (processing_mutation_claims st))"
    using linkedD(1) [OF assms]
    by (auto simp: distinct_map processing_mutation_claims_def intro: inj_on_subset)
qed

lemma length_processing: "length (processing_mutation_claims st) = length (filter processing (st_claims st))"
  by (simp add: processing_mutation_claims_def processing_def [abs_def])

lemma in_flight_left:
  assumes "distinct (map cm_mutation_id cs)" and "S \<subseteq> cm_mutation_id ` {c \<in> set cs. processing c}"
  shows "length (filter processing (map (\<lambda>c. if cm_mutation_id c \<in> S then given_up env c else c) cs)) + card S =
    length (filter processing cs)"
  using assms
proof (induction cs arbitrary: S)
  case (Cons c cs)
  let ?S = "S - {cm_mutation_id c}" and ?g = "\<lambda>S c. if cm_mutation_id c \<in> S then given_up env c else c"
  have "cm_mutation_id x \<noteq> cm_mutation_id c" if "x \<in> set cs" for x
    using Cons.prems(1) imageI [OF that, of cm_mutation_id] by auto
  then have same: "map (?g S) cs = map (?g ?S) cs" by (intro map_cong) auto
  have sub: "?S \<subseteq> cm_mutation_id ` {c \<in> set cs. processing c}" using Cons.prems(2) by auto
  have fin: "finite S" using Cons.prems(2) by (rule finite_subset) simp
  have d: "distinct (map cm_mutation_id cs)" using Cons.prems(1) by simp
  have ih: "length (filter processing (map (?g S) cs)) + card ?S = length (filter processing cs)"
    using Cons.IH [OF d sub] by (simp only: same)
  show ?case
  proof (cases "cm_mutation_id c \<in> S")
    case True
    have "processing c"
    proof -
      have "cm_mutation_id c \<in> cm_mutation_id ` {d \<in> set (c # cs). processing d}" using Cons.prems(2) True by (rule subsetD)
      then obtain d where d: "d \<in> set (c # cs)" "processing d" "cm_mutation_id c = cm_mutation_id d" by blast
      have "cm_mutation_id d \<notin> cm_mutation_id ` set cs" using Cons.prems(1) d(3) by simp
      with d(1) have "d = c" by (metis imageI set_ConsD)
      with d show ?thesis by simp
    qed
    moreover have "card S = card ?S + 1" using card.remove [OF fin True] by simp
    ultimately show ?thesis using True ih by simp
  next
    case False
    then have "?S = S" by blast
    then show ?thesis using False ih by simp
  qed
qed simp

section \<open>What the claims guarantee\<close>

definition sample_receipt :: "string \<Rightarrow> receipt" where
  "sample_receipt i = \<lparr>rp_id = i, rp_action = ''library-save'', rp_status = ReceiptPending, rp_message = [],
     rp_started_at_ms = 1, rp_finished_at_ms = None, rp_error = None\<rparr>"

definition sample_pending :: "operation_id \<Rightarrow> operation" where
  "sample_pending i = (sample_op i 1)\<lparr>op_status := Pending\<rparr>"

definition sample_settlement :: "i64 \<Rightarrow> unit settlement" where
  "sample_settlement t = \<lparr>sl_receipt_status = ReceiptConfirmed, sl_receipt_message = ''saved'', sl_receipt_error = None,
     sl_operation_status = Succeeded, sl_operation_error = None, sl_response = RespOk (), sl_succeeded = True,
     sl_reconciliations = [], sl_guard = None, sl_recovery = None, sl_finished_at_ms = t\<rparr>"

definition empty_store :: "'d store" where
  "empty_store = \<lparr>st_claims = [], st_receipts = [], st_ops = [], st_recons = no_reconciliations\<rparr>"

definition sample_request :: "string \<Rightarrow> i64 \<Rightarrow> unit mutation_event" where
  "sample_request i t = EvRequest ''m'' ''f'' [] (sample_receipt i) (sample_pending i) t"

definition sample_run :: "unit mutation_event list" where
  "sample_run = [sample_request ''a'' 1, sample_request ''b'' 2, EvSettle ''m'' ''a'' ''a'' (sample_settlement 5),
     EvPrune 86400004, sample_request ''c'' 86400004, EvPrune 86400005, sample_request ''d'' 86400006, EvRestart 86400007]"

lemmas sample_defs = sample_receipt_def sample_pending_def sample_op_def sample_settlement_def empty_store_def
  sample_request_def sample_run_def no_reconciliations_def

lemma linked_empty [simp]: "linked empty_store"
  by (simp add: linked_but_def empty_store_def)

lemma sample_run_ok: "list_all event_ok sample_run" "sorted (map event_time sample_run)"
  by (simp_all add: sample_defs event_ok_def in_i64_def i64_min_def i64_max_def MUTATION_DEDUP_TTL_MS_def is_pending_def
      terminal_settlement_def)

text \<open>
  C3: A mutation runs at most once per day. Whatever requests, settlements, give-ups, restarts and
  cleanups happen, in any order the clock allows, two requests with the same mutation id that are both
  told to carry the mutation out are at least the deduplication time apart: a retry inside that time
  never executes the provider write again.
\<close>

theorem mutation_runs_once:
  assumes "linked st" and "list_all event_ok es" and "sorted (map event_time es)"
  shows "sorted_wrt (\<lambda>s t. s + MUTATION_DEDUP_TTL_MS \<le> t) (grant_times apply_event (runs_mutation m) event_time es st)"
  using assms by (rule dedup.grants_spaced)

theorem mutation_runs_once_witness:
  "grant_times apply_event (runs_mutation ''m'') event_time sample_run empty_store = [1, 86400006] \<and>
   sorted_wrt (\<lambda>s t. s + MUTATION_DEDUP_TTL_MS \<le> t)
     (grant_times apply_event (runs_mutation ''m'') event_time sample_run (empty_store :: unit store))"
proof
  show "grant_times apply_event (runs_mutation ''m'') event_time sample_run empty_store = [1, 86400006]" by code_simp
qed (rule mutation_runs_once [OF linked_empty sample_run_ok])

text \<open>
  C4: The three rows of a mutation move together. In every store the daemon can reach from a consistent
  one by requests, settlements, give-ups, restarts, cleanups and retention jobs, in any order, when
  every request brings an operation row under an id of its own: ids are unique, no two claims share a
  receipt or an operation, and for every claim the receipt row exists, a response is stored exactly when
  the claim is no longer processing, and receipt and operation are pending exactly while it is
  processing. Only the operation row of a claim can be missing, and only after a retention job whose
  cutoff lies after the time of the operation.
\<close>

theorem claim_rows_in_step:
  assumes "linked st" and "list_all store_event_ok es" and "distinct (map op_id (known_rows st es))"
  shows "\<exists>R. linked_but R (fold apply_store_event es st) \<and>
    (\<forall>i \<in> R. \<exists>op \<in> set (known_rows st es). \<exists>cutoff.
       op_id op = i \<and> RetainOperations cutoff \<in> set es \<and> op_occurred_at_ms op < cutoff)"
proof -
  have "distinct (map op_id (concat (map event_rows es)))"
    "\<forall>op \<in> set (concat (map event_rows es)). op_id op \<notin> {} \<union> op_id ` set (st_ops st)"
    using assms(3) unfolding known_rows_def map_append distinct_append set_map by blast+
  from store_run_links [OF assms(1,2) this] show ?thesis by (simp only: Diff_empty)
qed

definition sample_store_run :: "unit store_event list" where
  "sample_store_run = [Mutation (sample_request ''a'' 1), RetainOperations 3,
     Mutation (EvIndeterminate ''m'' [] None 4), Mutation (EvPrune 5)]"

theorem claim_rows_in_step_witness:
  "\<exists>R. linked_but R (fold apply_store_event sample_store_run empty_store) \<and>
     length (st_claims (fold apply_store_event sample_store_run (empty_store :: unit store))) = 1 \<and>
     map op_id (st_ops (fold apply_store_event sample_store_run (empty_store :: unit store))) = [] \<and> ''a'' \<in> R"
proof -
  have ok: "list_all store_event_ok sample_store_run" "distinct (map op_id (known_rows empty_store sample_store_run))"
    by (simp_all add: sample_store_run_def sample_defs event_ok_def in_i64_def i64_min_def i64_max_def
        MUTATION_DEDUP_TTL_MS_def is_pending_def known_rows_def)
  let ?st = "fold apply_store_event sample_store_run (empty_store :: unit store)"
  from claim_rows_in_step [OF linked_empty ok] obtain R where R: "linked_but R ?st" by blast
  have n: "length (st_claims ?st) = 1" "map op_id (st_ops ?st) = []" "map cm_operation_id (st_claims ?st) = [Some ''a'']"
    by code_simp+
  obtain c where c: "st_claims ?st = [c]" using n(1) by (cases "st_claims ?st") auto
  have "claim_linked_but R ?st c" by (rule linkedD(6) [OF R]) (simp add: c)
  moreover have "cm_operation_id c = Some ''a''" using n(3) unfolding c by simp
  moreover have "op_pend (st_ops ?st) ''a'' = None" using n(2) by (simp add: op_pend_def row_at_None_iff flip: set_map)
  ultimately have "''a'' \<in> R" by (auto simp: claim_linked_but_def split: if_splits)
  with R n(1,2) show ?thesis by (intro exI [of _ R] conjI)
qed

text \<open>
  C5: A settled mutation is answered from the record. Once the owner has settled it, repeating the same
  settlement succeeds and a settlement with another response is refused, both without a change; and
  until the record expires, whatever else the store is asked to do, a request with the same fingerprint
  gets the recorded response with its receipt, one with another fingerprint is refused, and neither
  changes anything.
\<close>

theorem settled_mutation_replays:
  assumes "linked st" and "terminal_settlement sl" and "sl_guard sl \<noteq> Some (MarkRedone oid)"
    and "row_at cm_mutation_id mid (st_claims st) = Some d" and "owns_claim rid oid d"
    and "finalize_claimed_mutation mid rid oid sl st = (st', Ok ())"
    and "list_all event_ok es" and "\<forall>e \<in> set es. event_time e < expiry (sl_finished_at_ms sl)"
  shows "finalize_claimed_mutation mid rid oid sl st' = (st', Ok ()) \<and>
    (\<forall>sl'. sl_response sl' \<noteq> sl_response sl \<longrightarrow>
       finalize_claimed_mutation mid rid oid sl' st' = (st', Err ''mutation finalization lost ownership'')) \<and>
    (\<exists>r. row_at rp_id rid (st_receipts st') = Some r \<and> rp_status r = sl_receipt_status sl \<and>
      (\<forall>fp rq rcp op now. claim_mutation mid fp rq rcp op now (fold apply_event es st') = (fold apply_event es st',
        Ok (if fp = cm_fingerprint d then Existing (Some r) (Some (sl_response sl)) else FingerprintMismatch))))"
proof -
  let ?c = "settle_claim (settled_state sl) (sl_response sl) (sl_finished_at_ms sl) d"
  have l': "linked st'" using linked_finalize [OF assms(1,2), of mid rid oid] assms(6) by simp
  note s = finalize_settles [OF assms(1-6)]
  have idle: "\<not> processing ?c" by (simp add: settled_state_def)
  note lost = finalize_lost [OF l' settled_no_owner [OF s(2) idle]]
  have other: "\<not> is_exact_replay mid rid oid sl' st'" if "sl_response sl' \<noteq> sl_response sl" for sl'
    using that s(2) by (auto simp: exact_replay_rows [OF l'])
  obtain r where r: "row_at rp_id rid (st_receipts st') = Some r" "rp_status r = sl_receipt_status sl"
    using s(1) by (auto simp: exact_replay_rows [OF l'])
  have rid: "cm_receipt_id ?c = Some rid" using assms(5) by (simp add: owns_claim_def)
  from settled_answer_run [OF l' assms(7) s(2) idle] assms(8)
  have "row_at cm_mutation_id mid (st_claims (fold apply_event es st')) = Some ?c"
    "linked_receipt ?c (fold apply_event es st') = Some r" using r(1) rid by (simp_all add: linked_receipt_def)
  then have "claim_mutation mid fp rq rcp op now (fold apply_event es st') = (fold apply_event es st',
      Ok (if fp = cm_fingerprint d then Existing (Some r) (Some (sl_response sl)) else FingerprintMismatch))" for fp rq rcp op now
    by (simp add: claim_mutation_def existing_claim_def)
  with r lost s(1) other show ?thesis by auto
qed

theorem settled_mutation_replays_witness:
  "\<exists>st' r. finalize_claimed_mutation ''m'' ''a'' ''a'' (sample_settlement 5) (apply_event (sample_request ''a'' 1) empty_store) = (st', Ok ()) \<and>
     claim_mutation ''m'' ''f'' [] (sample_receipt ''b'') (sample_pending ''b'') 9 (apply_event (EvPrune 7) st') =
       (apply_event (EvPrune 7) st', Ok (Existing (Some r) (Some (RespOk ())))) \<and> rp_status r = ReceiptConfirmed"
proof -
  let ?st = "apply_event (sample_request ''a'' 1) (empty_store :: unit store)"
  let ?d = "new_claim ''m'' ''f'' [] (sample_receipt ''a'') (sample_pending ''a'') 1"
  let ?f = "finalize_claimed_mutation ''m'' ''a'' ''a'' (sample_settlement 5) ?st"
  have "snd ?f = Ok ()" by code_simp
  then obtain st' where f: "?f = (st', Ok ())" by (metis prod.collapse)
  have ok: "event_ok (sample_request ''a'' 1)" "list_all event_ok [EvPrune 7 :: unit mutation_event]"
    by (simp_all add: sample_defs event_ok_def is_pending_def in_i64_def i64_min_def i64_max_def MUTATION_DEDUP_TTL_MS_def)
  have d: "row_at cm_mutation_id ''m'' (st_claims ?st) = Some ?d"
    by (simp add: sample_defs claim_mutation_def insert_pending_receipt_def insert_pending_operation_def has_op_def row_at_Cons)
  have o: "owns_claim ''a'' ''a'' ?d" by (simp add: sample_defs new_claim_def owns_claim_def)
  have sl: "terminal_settlement (sample_settlement 5)" "sl_guard (sample_settlement 5) \<noteq> Some (MarkRedone ''a'')"
    "\<forall>e \<in> set [EvPrune 7 :: unit mutation_event]. event_time e < expiry (sl_finished_at_ms (sample_settlement 5))"
    by (simp_all add: sample_defs terminal_settlement_def expiry_def wrap_i64_def MUTATION_DEDUP_TTL_MS_def)
  from settled_mutation_replays [OF linked_event [OF linked_empty ok(1)] sl(1,2) d o f ok(2) sl(3)]
  show ?thesis using f by (auto simp: sample_settlement_def)
qed


definition sample_recovery :: "(unit, string) recovery_env" where
  "sample_recovery = \<lparr>re_decode = (\<lambda>s. if s = [] then Err ''eof'' else Ok s), re_follow_up = (\<lambda>_ _ _. Ok ([], None)),
     re_now = (\<lambda>_. 9), re_io = (\<lambda>_ d. if d = 25 then Some ''busy'' else None)\<rparr>"

definition two_in_flight :: "unit store" where
  "two_in_flight = fold apply_event [sample_request ''a'' 1,
     EvRequest ''n'' ''f'' ''{}'' (sample_receipt ''b'') (sample_pending ''b'') 2] empty_store"


end
