(* ===== verification/Auth_Sessions.thy ===== *)
theory Auth_Sessions
  imports Provider_Mutations Keyed_Table
begin

text \<open>
  \<open>spotuify-daemon/src/auth_sessions.rs\<close>: interactive logins owned by the daemon. A session is shared by
  the API calls (poll, cancel, logout, configuration reload) and by the task that talks to the browser
  and, at the end, saves the credential. They meet on an atomic lifecycle (\<open>Active\<close>, \<open>Committing\<close>,
  \<open>Terminal\<close>), on the read-write lock of the session data, and on one mutation lock that serialises
  everything that saves or purges credentials. The first part has the operations of the file, composed as
  the code composes them; the second has the same operations cut at their atomic instructions, as an
  interleaving step relation, and what holds in all its reachable states.
\<close>

section \<open>Session data\<close>

datatype auth_session_state =
    AsStarting
  | AsAwaitingUser string string "string option"
  | AsWaiting string string "string option"
  | AsAuthorized
  | AsFailed string
  | AsCancelled

primrec as_is_terminal :: "auth_session_state \<Rightarrow> bool" where
  "as_is_terminal AsStarting = False"
| "as_is_terminal (AsAwaitingUser _ _ _) = False"
| "as_is_terminal (AsWaiting _ _ _) = False"
| "as_is_terminal AsAuthorized = True"
| "as_is_terminal (AsFailed _) = True"
| "as_is_terminal AsCancelled = True"

record auth_session_data =
  sd_session_id :: string
  sd_provider :: string
  sd_method :: string
  sd_state :: auth_session_state
  sd_created_at_ms :: i64
  sd_expires_at_ms :: i64

datatype auth_lifecycle = LcActive | LcCommitting | LcTerminal

definition AUTH_SESSION_TTL_MS :: i64 where "AUTH_SESSION_TTL_MS = 5 * 60 * 1000"

definition terminal_expiry_ms :: "i64 \<Rightarrow> i64" where
  "terminal_expiry_ms now = sat_i64 (now + AUTH_SESSION_TTL_MS)"

definition new_session_data ::
    "string \<Rightarrow> i64 \<Rightarrow> string \<Rightarrow> string \<Rightarrow> auth_session_state \<Rightarrow> auth_session_data" where
  "new_session_data sid now provider meth state =
     \<lparr>sd_session_id = sid, sd_provider = provider, sd_method = meth, sd_state = state,
      sd_created_at_ms = now, sd_expires_at_ms = sat_i64 (now + AUTH_SESSION_TTL_MS)\<rparr>"

text \<open>
  A session with everything that is shared about it. \<open>en_listed\<close> says whether the daemon's table still
  has it (its task keeps the shared data alive after it was pruned). Two instructions are separated by
  a point where another thread may run: a thread that has won the lifecycle and has yet to write the
  final state (\<open>en_terminal_write\<close>, with whether it then signals cancellation), and a progress callback
  that holds the write lock of the data and has passed its second check (\<open>en_progress_write\<close>).
\<close>

datatype worker_phase = WAuthorizing | WGotCredential | WSaving | WReloading | WFinishing | WDone

record auth_entry =
  en_data :: auth_session_data
  en_cancel :: bool
  en_lifecycle :: auth_lifecycle
  en_listed :: bool
  en_terminal_write :: "(auth_session_state \<times> bool) option"
  en_progress_write :: "auth_session_state option"
  en_worker :: worker_phase

abbreviation en_id :: "auth_entry \<Rightarrow> string" where "en_id e \<equiv> sd_session_id (en_data e)"
abbreviation en_provider :: "auth_entry \<Rightarrow> string" where "en_provider e \<equiv> sd_provider (en_data e)"
abbreviation en_state :: "auth_entry \<Rightarrow> auth_session_state" where "en_state e \<equiv> sd_state (en_data e)"

definition new_entry :: "auth_session_data \<Rightarrow> auth_lifecycle \<Rightarrow> worker_phase \<Rightarrow> auth_entry" where
  "new_entry d lc w = \<lparr>en_data = d, en_cancel = False, en_lifecycle = lc, en_listed = True,
     en_terminal_write = None, en_progress_write = None, en_worker = w\<rparr>"

section \<open>The lifecycle\<close>

definition claim_commit :: "auth_entry \<Rightarrow> auth_entry \<times> bool" where
  "claim_commit e = (if en_lifecycle e = LcActive then (e\<lparr>en_lifecycle := LcCommitting\<rparr>, True) else (e, False))"

text \<open>The compare-exchange to \<open>Terminal\<close>, and the write that follows it when it succeeds.\<close>

definition win_terminal :: "auth_lifecycle \<Rightarrow> auth_session_state \<Rightarrow> bool \<Rightarrow> auth_entry \<Rightarrow> auth_entry \<times> bool" where
  "win_terminal expected state notify e =
     (if en_lifecycle e = expected
      then (e\<lparr>en_lifecycle := LcTerminal, en_terminal_write := Some (state, notify)\<rparr>, True) else (e, False))"

definition write_terminal_state :: "i64 \<Rightarrow> auth_entry \<Rightarrow> auth_entry" where
  "write_terminal_state now e = (case en_terminal_write e of
       None \<Rightarrow> e
     | Some (state, notify) \<Rightarrow>
         e\<lparr>en_data := (en_data e)\<lparr>sd_expires_at_ms := terminal_expiry_ms now, sd_state := state\<rparr>,
           en_terminal_write := None, en_cancel := en_cancel e \<or> notify\<rparr>)"

definition transition_active_to_terminal ::
    "i64 \<Rightarrow> auth_session_state \<Rightarrow> bool \<Rightarrow> auth_entry \<Rightarrow> auth_entry \<times> bool" where
  "transition_active_to_terminal now state notify e = (case win_terminal LcActive state notify e of
       (e', won) \<Rightarrow> if won then (write_terminal_state now e', True) else (e, False))"

definition finish_commit :: "i64 \<Rightarrow> auth_session_state \<Rightarrow> auth_entry \<Rightarrow> auth_entry" where
  "finish_commit now state e = (case win_terminal LcCommitting state False e of
       (e', won) \<Rightarrow> if won then write_terminal_state now e' else e)"

definition set_active_state :: "auth_session_state \<Rightarrow> auth_entry \<Rightarrow> auth_entry" where
  "set_active_state state e =
     (if en_lifecycle e \<noteq> LcActive then e else e\<lparr>en_data := (en_data e)\<lparr>sd_state := state\<rparr>\<rparr>)"

datatype login_progress =
    OpeningBrowser string string
  | BrowserLaunchFailed string string string
  | WaitingForCallback
  | LoginSaved

text \<open>The state a progress report asks for, given the one it finds.\<close>

fun progress_target :: "login_progress \<Rightarrow> auth_session_state \<Rightarrow> auth_session_state option" where
  "progress_target (OpeningBrowser url redirect) _ = Some (AsAwaitingUser url redirect None)"
| "progress_target (BrowserLaunchFailed url redirect error) _ = Some (AsAwaitingUser url redirect (Some error))"
| "progress_target WaitingForCallback (AsAwaitingUser url redirect error) = Some (AsWaiting url redirect error)"
| "progress_target WaitingForCallback _ = None"
| "progress_target LoginSaved _ = None"

definition apply_progress :: "login_progress \<Rightarrow> auth_entry \<Rightarrow> auth_entry" where
  "apply_progress event e = (case progress_target event (en_state e) of
       Some state \<Rightarrow> set_active_state state e | None \<Rightarrow> e)"

definition expired :: "i64 \<Rightarrow> auth_entry \<Rightarrow> bool" where
  "expired now e \<longleftrightarrow> sd_expires_at_ms (en_data e) < now \<and> \<not> as_is_terminal (en_state e)"

definition SESSION_EXPIRED :: auth_session_state where
  "SESSION_EXPIRED = AsFailed ''authentication session expired''"

definition expire_if_needed :: "i64 \<Rightarrow> auth_entry \<Rightarrow> auth_entry" where
  "expire_if_needed now e =
     (if expired now e then fst (transition_active_to_terminal now SESSION_EXPIRED True e) else e)"

section \<open>The table\<close>

definition prune_expired_terminals :: "i64 \<Rightarrow> auth_entry list \<Rightarrow> auth_entry list" where
  "prune_expired_terminals now t = map (\<lambda>e.
     if as_is_terminal (en_state e) \<and> sd_expires_at_ms (en_data e) < now then e\<lparr>en_listed := False\<rparr> else e) t"

definition listed :: "auth_entry list \<Rightarrow> auth_entry list" where "listed t = filter en_listed t"

definition active_session :: "string \<Rightarrow> auth_entry list \<Rightarrow> auth_session_data option" where
  "active_session provider t =
     map_option en_data (find (\<lambda>e. en_provider e = provider \<and> en_lifecycle e \<noteq> LcTerminal) (listed t))"

definition ensure_no_active_session :: "string \<Rightarrow> auth_entry list \<Rightarrow> (unit, provider_error) result" where
  "ensure_no_active_session provider t = (case active_session provider t of
       None \<Rightarrow> Ok ()
     | Some d \<Rightarrow> Err (InvalidInput ''auth_session'' (''authentication already in progress for provider `'' @ provider @
         ''` method `'' @ sd_method d @ ''` (session '' @ sd_session_id d @ '')'')))"

definition auth_session_not_found :: "string \<Rightarrow> provider_error" where
  "auth_session_not_found sid = NotFound (''auth-session:'' @ sid)"

definition update_entry :: "string \<Rightarrow> (auth_entry \<Rightarrow> auth_entry) \<Rightarrow> auth_entry list \<Rightarrow> auth_entry list" where
  "update_entry sid f = update_at en_id sid (\<lambda>_. True) f"

definition auth_poll :: "i64 \<Rightarrow> string \<Rightarrow> auth_entry list
    \<Rightarrow> auth_entry list \<times> (auth_session_data, provider_error) result" where
  "auth_poll now sid t = (let t = prune_expired_terminals now t in
     case row_at en_id sid (listed t) of
       None \<Rightarrow> (t, Err (auth_session_not_found sid))
     | Some e \<Rightarrow> (update_entry sid (expire_if_needed now) t, Ok (en_data (expire_if_needed now e))))"

definition cancel_entry :: "i64 \<Rightarrow> auth_entry \<Rightarrow> auth_entry" where
  "cancel_entry now e = fst (transition_active_to_terminal now AsCancelled True e)"

definition auth_cancel :: "i64 \<Rightarrow> string \<Rightarrow> auth_entry list
    \<Rightarrow> auth_entry list \<times> (auth_session_data, provider_error) result" where
  "auth_cancel now sid t = (let t = prune_expired_terminals now t in
     case row_at en_id sid (listed t) of
       None \<Rightarrow> (t, Err (auth_session_not_found sid))
     | Some e \<Rightarrow> (update_entry sid (cancel_entry now) t, Ok (en_data (cancel_entry now e))))"

text \<open>The loops of \<open>logout\<close> and \<open>config_reload_guard\<close> over the listed sessions.\<close>

definition cancel_where :: "i64 \<Rightarrow> (auth_entry \<Rightarrow> bool) \<Rightarrow> auth_entry list \<Rightarrow> auth_entry list" where
  "cancel_where now which t =
     map (\<lambda>e. if en_listed e \<and> which e then cancel_entry now e else e) (prune_expired_terminals now t)"

section \<open>Starting a session\<close>

datatype auth_method = DevApp | FirstParty

primrec auth_method_label :: "auth_method \<Rightarrow> string" where
  "auth_method_label DevApp = ''dev_app''"
| "auth_method_label FirstParty = ''first_party''"

datatype auth_strategy = NoAuth | SpotifyOauth

text \<open>
  What the environment contributes: the override of the environment, whether only first-party
  credentials are stored, whether the build embeds the player, and loading the configuration.
\<close>

record auth_env =
  av_first_party_override :: "bool option"
  av_stored_first_party_only :: "string \<Rightarrow> bool"
  av_embedded :: bool
  av_load_config :: "auth_method \<Rightarrow> string \<Rightarrow> (unit, provider_error) result"

definition preferred_method :: "auth_env \<Rightarrow> string \<Rightarrow> auth_method" where
  "preferred_method env provider = (case av_first_party_override env of
       Some True \<Rightarrow> FirstParty
     | Some False \<Rightarrow> DevApp
     | None \<Rightarrow> if av_stored_first_party_only env provider then FirstParty else DevApp)"

definition first_party_method :: "auth_env \<Rightarrow> (auth_method, provider_error) result" where
  "first_party_method env = (if av_embedded env then Ok FirstParty
     else Err (Unsupported ''first_party authentication requires embedded playback''))"

definition resolve_method :: "auth_env \<Rightarrow> string \<Rightarrow> string option \<Rightarrow> (auth_method, provider_error) result" where
  "resolve_method env provider requested = (case requested of
       Some m \<Rightarrow>
         if m \<in> {''dev_app'', ''dev-app''} then Ok DevApp
         else if m \<in> {''first_party'', ''first-party''} then first_party_method env
         else Err (InvalidInput ''method'' (''unsupported Spotify auth method `'' @ m @ ''`''))
     | None \<Rightarrow> (case preferred_method env provider of DevApp \<Rightarrow> Ok DevApp | FirstParty \<Rightarrow> first_party_method env))"

definition validate_no_auth_method :: "string \<Rightarrow> string option \<Rightarrow> (unit, provider_error) result" where
  "validate_no_auth_method provider requested = (case requested of
       None \<Rightarrow> Ok ()
     | Some m \<Rightarrow> if m = ''none'' then Ok ()
         else Err (InvalidInput ''method'' (''provider `'' @ provider @ ''` does not use auth method `'' @ m @ ''`'')))"

definition auth_start :: "auth_env \<Rightarrow> auth_strategy \<Rightarrow> string \<Rightarrow> i64 \<Rightarrow> string \<Rightarrow> string option \<Rightarrow> auth_entry list
    \<Rightarrow> auth_entry list \<times> (auth_session_data, provider_error) result" where
  "auth_start env strategy sid now provider requested t =
     (case strategy of
        NoAuth \<Rightarrow> (case validate_no_auth_method provider requested of
            Err e \<Rightarrow> (t, Err e)
          | Ok _ \<Rightarrow> (let d = new_session_data sid now provider ''none'' AsAuthorized
                     in (prune_expired_terminals now t @ [new_entry d LcTerminal WDone], Ok d)))
      | SpotifyOauth \<Rightarrow> (case resolve_method env provider requested of
            Err e \<Rightarrow> (t, Err e)
          | Ok meth \<Rightarrow> (case av_load_config env meth provider of
              Err e \<Rightarrow> (t, Err e)
            | Ok _ \<Rightarrow> (let t = prune_expired_terminals now t in
                case ensure_no_active_session provider t of
                  Err e \<Rightarrow> (t, Err e)
                | Ok _ \<Rightarrow> (let d = new_session_data sid now provider (auth_method_label meth) AsStarting
                           in (t @ [new_entry d LcActive WAuthorizing], Ok d))))))"

end
