(* ===== verification/Auth_Laws.thy ===== *)
theory Auth_Laws
  imports Auth_Sessions
begin

text \<open>
  The concurrency of \<open>Auth_Sessions\<close>: browser task, pollers, cancellations, logouts and reloads as one
  interleaving step relation over the shared lifecycle, data lock and mutation lock, its invariant
  \<open>auth_ok\<close>, and what follows from it: outcomes are final and agree with what was stored, a logout
  beats every login under way, logins of a provider exclude each other, the lock is always released, and
  the API calls are runs of this relation.
\<close>

section \<open>Interleavings\<close>

text \<open>
  Who holds the mutation lock: the task of a session while it commits, a logout while it cancels and
  purges, or a configuration reload. \<open>sy_log\<close> records what happened to the stored credentials.
\<close>

datatype lock_holder = HeldByWorker string | HeldByLogout string | HeldByReload

datatype cred_event = CredSaved string | CredPurged string

record auth_system =
  sy_tasks :: "auth_entry list"
  sy_lock :: "lock_holder option"
  sy_log :: "cred_event list"

definition auth_init :: auth_system where
  "auth_init = \<lparr>sy_tasks = [], sy_lock = None, sy_log = []\<rparr>"

definition upd :: "string \<Rightarrow> (auth_entry \<Rightarrow> auth_entry) \<Rightarrow> auth_system \<Rightarrow> auth_system" where
  "upd sid f s = s\<lparr>sy_tasks := update_entry sid f (sy_tasks s)\<rparr>"

definition task :: "auth_system \<Rightarrow> string \<Rightarrow> auth_entry \<Rightarrow> bool" where
  "task s sid e \<longleftrightarrow> row_at en_id sid (sy_tasks s) = Some e"

abbreviation phase :: "worker_phase \<Rightarrow> auth_entry \<Rightarrow> auth_entry" where
  "phase w e \<equiv> e\<lparr>en_worker := w\<rparr>"

definition request_cancel :: "auth_entry \<Rightarrow> auth_entry" where
  "request_cancel e = fst (win_terminal LcActive AsCancelled True e)"

text \<open>
  One rule per instruction another thread can observe. The reads of the session data are not steps:
  they change nothing.
\<close>

inductive auth_step :: "auth_system \<Rightarrow> auth_system \<Rightarrow> bool" where
  start: "sy_lock s = None \<Longrightarrow> row_at en_id sid (sy_tasks s) = None \<Longrightarrow>
    auth_step s (s\<lparr>sy_tasks := fst (auth_start env strategy sid now provider requested (sy_tasks s))\<rparr>)"
| prune: "auth_step s (s\<lparr>sy_tasks := prune_expired_terminals now (sy_tasks s)\<rparr>)"
| cancel: "task s sid e \<Longrightarrow> en_listed e \<Longrightarrow> auth_step s (upd sid request_cancel s)"
| expire: "task s sid e \<Longrightarrow> en_listed e \<Longrightarrow> expired now e \<Longrightarrow>
    auth_step s (upd sid (\<lambda>e. fst (win_terminal LcActive SESSION_EXPIRED True e)) s)"
| terminal_write: "task s sid e \<Longrightarrow> en_progress_write e = None \<Longrightarrow>
    auth_step s (upd sid (write_terminal_state now) s)"
| progress_check: "task s sid e \<Longrightarrow> en_worker e = WAuthorizing \<Longrightarrow> en_progress_write e = None \<Longrightarrow>
    progress_target event (en_state e) = Some state \<Longrightarrow> en_lifecycle e = LcActive \<Longrightarrow>
    auth_step s (upd sid (\<lambda>e. e\<lparr>en_progress_write := Some state\<rparr>) s)"
| progress_write: "task s sid e \<Longrightarrow> en_progress_write e = Some state \<Longrightarrow>
    auth_step s (upd sid (\<lambda>e. e\<lparr>en_data := (en_data e)\<lparr>sd_state := state\<rparr>, en_progress_write := None\<rparr>) s)"
| authorize_failed: "task s sid e \<Longrightarrow> en_worker e = WAuthorizing \<Longrightarrow> en_progress_write e = None \<Longrightarrow>
    auth_step s (upd sid (\<lambda>e. phase WDone (fst (win_terminal LcActive (AsFailed message) False e))) s)"
| authorized: "task s sid e \<Longrightarrow> en_worker e = WAuthorizing \<Longrightarrow> en_progress_write e = None \<Longrightarrow>
    auth_step s (upd sid (phase WGotCredential) s)"
| commit: "task s sid e \<Longrightarrow> en_worker e = WGotCredential \<Longrightarrow> sy_lock s = None \<Longrightarrow> snd (claim_commit e) \<Longrightarrow>
    auth_step s (upd sid (\<lambda>e. phase WSaving (fst (claim_commit e))) (s\<lparr>sy_lock := Some (HeldByWorker sid)\<rparr>))"
| commit_refused: "task s sid e \<Longrightarrow> en_worker e = WGotCredential \<Longrightarrow> sy_lock s = None \<Longrightarrow> \<not> snd (claim_commit e) \<Longrightarrow>
    auth_step s (upd sid (phase WDone) s)"
| saved: "task s sid e \<Longrightarrow> en_worker e = WSaving \<Longrightarrow>
    auth_step s (upd sid (phase WReloading) (s\<lparr>sy_log := sy_log s @ [CredSaved sid]\<rparr>))"
| save_failed: "task s sid e \<Longrightarrow> en_worker e = WSaving \<Longrightarrow>
    auth_step s (upd sid (\<lambda>e. phase WFinishing (fst (win_terminal LcCommitting (AsFailed message) False e))) s)"
| reloaded: "task s sid e \<Longrightarrow> en_worker e = WReloading \<Longrightarrow> result \<in> {AsAuthorized, AsFailed message} \<Longrightarrow>
    auth_step s (upd sid (\<lambda>e. phase WFinishing (fst (win_terminal LcCommitting result False e))) s)"
| release: "task s sid e \<Longrightarrow> en_worker e = WFinishing \<Longrightarrow> en_terminal_write e = None \<Longrightarrow>
    auth_step s (upd sid (phase WDone) (s\<lparr>sy_lock := None\<rparr>))"
| logout: "sy_lock s = None \<Longrightarrow> auth_step s (s\<lparr>sy_lock := Some (HeldByLogout provider),
    sy_tasks := map (\<lambda>e. if en_listed e \<and> en_provider e = provider then request_cancel e else e)
      (prune_expired_terminals now (sy_tasks s))\<rparr>)"
| purge: "sy_lock s = Some (HeldByLogout provider) \<Longrightarrow> auth_step s (s\<lparr>sy_log := sy_log s @ [CredPurged provider]\<rparr>)"
| logged_out: "sy_lock s = Some (HeldByLogout provider) \<Longrightarrow> auth_step s (s\<lparr>sy_lock := None\<rparr>)"
| reload: "sy_lock s = None \<Longrightarrow> auth_step s (s\<lparr>sy_lock := Some HeldByReload,
    sy_tasks := map (\<lambda>e. if en_listed e then request_cancel e else e) (prune_expired_terminals now (sy_tasks s))\<rparr>)"
| reload_end: "sy_lock s = Some HeldByReload \<Longrightarrow> auth_step s (s\<lparr>sy_lock := None\<rparr>)"

inductive auth_reachable :: "auth_system \<Rightarrow> bool" where
  init: "auth_reachable auth_init"
| step: "auth_reachable s \<Longrightarrow> auth_step s s' \<Longrightarrow> auth_reachable s'"

section \<open>The invariant\<close>

definition outcome :: "auth_entry \<Rightarrow> auth_session_state option" where
  "outcome e = (if as_is_terminal (en_state e) then Some (en_state e) else map_option fst (en_terminal_write e))"

definition writes_ok :: "auth_entry \<Rightarrow> bool" where
  "writes_ok e \<longleftrightarrow>
     (en_lifecycle e = LcTerminal \<longleftrightarrow> outcome e \<noteq> None) \<and>
     (as_is_terminal (en_state e) \<longrightarrow> en_terminal_write e = None \<and> en_progress_write e = None) \<and>
     (\<forall>p. en_terminal_write e = Some p \<longrightarrow> as_is_terminal (fst p)) \<and>
     (\<forall>st. en_progress_write e = Some st \<longrightarrow> \<not> as_is_terminal st \<and> en_worker e = WAuthorizing) \<and>
     (\<not> en_listed e \<longrightarrow> as_is_terminal (en_state e))"

definition lock_ok :: "lock_holder option \<Rightarrow> auth_entry \<Rightarrow> bool" where
  "lock_ok lock e \<longleftrightarrow>
     (en_lifecycle e = LcCommitting \<longleftrightarrow> en_worker e \<in> {WSaving, WReloading}) \<and>
     (lock = Some (HeldByWorker (en_id e)) \<longleftrightarrow> en_worker e \<in> {WSaving, WReloading, WFinishing})"

definition cred_ok :: "bool \<Rightarrow> auth_entry \<Rightarrow> bool" where
  "cred_ok is_saved e \<longleftrightarrow>
     (en_worker e \<in> {WAuthorizing, WGotCredential, WSaving} \<longrightarrow> \<not> is_saved) \<and>
     (en_lifecycle e = LcActive \<longrightarrow> \<not> is_saved) \<and>
     (en_worker e = WReloading \<longrightarrow> is_saved) \<and>
     (outcome e = Some AsCancelled \<longrightarrow> \<not> is_saved) \<and>
     (outcome e = Some AsAuthorized \<longrightarrow> is_saved \<or> sd_method (en_data e) = ''none'')"

definition entry_ok :: "lock_holder option \<Rightarrow> cred_event list \<Rightarrow> auth_entry \<Rightarrow> bool" where
  "entry_ok lock lg e \<longleftrightarrow> writes_ok e \<and> lock_ok lock e \<and> cred_ok (CredSaved (en_id e) \<in> set lg) e"

definition live :: "auth_entry \<Rightarrow> bool" where "live e \<longleftrightarrow> en_lifecycle e \<noteq> LcTerminal"

definition auth_ok :: "auth_system \<Rightarrow> bool" where
  "auth_ok s \<longleftrightarrow> distinct (map en_id (sy_tasks s)) \<and>
     (\<forall>e \<in> set (sy_tasks s). entry_ok (sy_lock s) (sy_log s) e) \<and>
     distinct (map en_provider (filter live (sy_tasks s))) \<and>
     (\<forall>sid. CredSaved sid \<in> set (sy_log s) \<or> sy_lock s = Some (HeldByWorker sid) \<longrightarrow> sid \<in> en_id ` set (sy_tasks s)) \<and>
     (\<forall>p. sy_lock s = Some (HeldByLogout p) \<longrightarrow> (\<forall>e \<in> set (sy_tasks s). en_provider e = p \<longrightarrow> \<not> live e))"


lemma filter_live_map:
  assumes "\<And>e. e \<in> set t \<Longrightarrow> en_provider (g e) = en_provider e \<and> (live (g e) \<longrightarrow> live e)"
    and "distinct (map en_provider (filter live t))"
  shows "distinct (map en_provider (filter live (map g t)))"
  using assms
proof (induction t)
  case (Cons e t)
  have "set (map en_provider (filter live (map g t))) \<subseteq> set (map en_provider (filter live t))"
    using Cons.prems(1) by fastforce
  with Cons show ?case by (auto split: if_splits)
qed simp

text \<open>A step that rewrites sessions one by one.\<close>

lemma map_ok:
  assumes "auth_ok s" and "\<And>e. e \<in> set (sy_tasks s) \<Longrightarrow> en_id (g e) = en_id e \<and> en_provider (g e) = en_provider e \<and>
      (live (g e) \<longrightarrow> live e) \<and> entry_ok lock lg (g e)"
    and "\<And>sid. CredSaved sid \<in> set lg \<or> lock = Some (HeldByWorker sid) \<Longrightarrow> sid \<in> en_id ` set (sy_tasks s)"
    and "\<And>p. lock = Some (HeldByLogout p) \<Longrightarrow> \<forall>e \<in> set (sy_tasks s). en_provider e = p \<longrightarrow> \<not> live (g e)"
  shows "auth_ok \<lparr>sy_tasks = map g (sy_tasks s), sy_lock = lock, sy_log = lg\<rparr>"
proof -
  let ?t = "map g (sy_tasks s)"
  have "map en_id ?t = map en_id (sy_tasks s)" using assms(2) by simp
  then have ids: "distinct (map en_id ?t)" using assms(1) by (simp only: auth_ok_def)
  have live: "distinct (map en_provider (filter live ?t))"
    using assms(1,2) by (intro filter_live_map) (simp_all add: auth_ok_def)
  have image: "en_id ` set ?t = en_id ` set (sy_tasks s)"
    using \<open>map en_id ?t = map en_id (sy_tasks s)\<close> by (metis set_map)
  have ok: "\<forall>e \<in> set ?t. entry_ok lock lg e" using assms(2) by simp
  have out: "\<forall>e \<in> set ?t. en_provider e = p \<longrightarrow> \<not> live e" if "lock = Some (HeldByLogout p)" for p
    using assms(2) assms(4) [OF that] by simp
  show ?thesis unfolding auth_ok_def auth_system.simps image
  proof (intro conjI allI impI)
    fix sid
    show "CredSaved sid \<in> set lg \<or> lock = Some (HeldByWorker sid) \<Longrightarrow> sid \<in> en_id ` set (sy_tasks s)" by (rule assms(3))
  qed (use ids live ok out in auto)
qed

lemma entry_ok_other:
  assumes "en_id e \<noteq> sid" and "lock = lock' \<or> {lock, lock'} = {None, Some (HeldByWorker sid)}"
    and "lg' = lg \<or> lg' = lg @ [CredSaved sid]"
  shows "entry_ok lock' lg' e \<longleftrightarrow> entry_ok lock lg e"
proof -
  have "lock' = Some (HeldByWorker (en_id e)) \<longleftrightarrow> lock = Some (HeldByWorker (en_id e))"
    using assms(1,2) by (metis doubleton_eq_iff lock_holder.inject(1) option.distinct(1) option.inject)
  moreover have "CredSaved (en_id e) \<in> set lg' \<longleftrightarrow> CredSaved (en_id e) \<in> set lg" using assms(1,3) by auto
  ultimately show ?thesis by (simp add: entry_ok_def lock_ok_def)
qed

definition keeps :: "(auth_entry \<Rightarrow> auth_entry) \<Rightarrow> auth_entry \<Rightarrow> bool" where
  "keeps f e \<longleftrightarrow> en_id (f e) = en_id e \<and> en_provider (f e) = en_provider e \<and> (live (f e) \<longrightarrow> live e)"

lemma upd_ok:
  assumes "auth_ok s" and "task s sid e" and "keeps f e" and "entry_ok lock lg (f e)"
    and "sy_lock s = lock \<or> {sy_lock s, lock} = {None, Some (HeldByWorker sid)}"
    and "lg = sy_log s \<or> lg = sy_log s @ [CredSaved sid]"
  shows "auth_ok (upd sid f (s\<lparr>sy_lock := lock, sy_log := lg\<rparr>))"
proof -
  have d: "distinct (map en_id (sy_tasks s))" using assms(1) by (simp add: auth_ok_def)
  have e: "en_id e = sid" "e \<in> set (sy_tasks s)" using assms(2) by (auto simp: task_def dest: row_at_SomeD)
  let ?g = "\<lambda>x. if en_id x = sid then f x else x"
  have same: "x = e" if "x \<in> set (sy_tasks s)" "en_id x = sid" for x
    using d that e by (metis (no_types, lifting) distinct_map inj_onD)
  have "auth_ok \<lparr>sy_tasks = map ?g (sy_tasks s), sy_lock = lock, sy_log = lg\<rparr>"
  proof (rule map_ok [OF assms(1)])
    fix x
    assume x: "x \<in> set (sy_tasks s)"
    then have "entry_ok (sy_lock s) (sy_log s) x" using assms(1) by (simp add: auth_ok_def)
    then have "entry_ok lock lg x" if "en_id x \<noteq> sid" 
      using entry_ok_other [OF that assms(5,6)] by (simp only:)
    then show "en_id (?g x) = en_id x \<and> en_provider (?g x) = en_provider x \<and> (live (?g x) \<longrightarrow> live x) \<and> entry_ok lock lg (?g x)"
      using same [OF x] assms(3,4) by (auto simp: keeps_def)
  next
    fix sid'
    assume "CredSaved sid' \<in> set lg \<or> lock = Some (HeldByWorker sid')"
    then have "sid' = sid \<or> CredSaved sid' \<in> set (sy_log s) \<or> sy_lock s = Some (HeldByWorker sid')"
      using assms(5,6) by (auto simp: doubleton_eq_iff)
    then show "sid' \<in> en_id ` set (sy_tasks s)" using e assms(1) by (auto simp: auth_ok_def)
  next
    fix p
    assume p: "lock = Some (HeldByLogout p)"
    then have "sy_lock s = lock" using assms(5) by (auto simp: doubleton_eq_iff)
    then have "\<forall>x \<in> set (sy_tasks s). en_provider x = p \<longrightarrow> \<not> live x" using assms(1) p by (simp add: auth_ok_def)
    then show "\<forall>x \<in> set (sy_tasks s). en_provider x = p \<longrightarrow> \<not> live (?g x)"
      using same assms(3) by (auto simp: keeps_def)
  qed
  then show ?thesis by (cases s) (simp add: upd_def update_entry_def update_at_def)
qed

lemmas upd_ok_here = upd_ok [where lock = "sy_lock s" and lg = "sy_log s" and s = s for s, simplified]

lemma task_ok: "auth_ok s \<Longrightarrow> task s sid e \<Longrightarrow> en_id e = sid \<and> entry_ok (sy_lock s) (sy_log s) e"
  by (auto simp: auth_ok_def task_def dest!: row_at_SomeD)

lemma win_keeps [simp]: "keeps (\<lambda>e. fst (win_terminal x st n e)) e"
  by (auto simp: keeps_def live_def win_terminal_def)

lemma phase_keeps [simp]: "keeps (phase w) e" "keeps f e \<Longrightarrow> keeps (\<lambda>e. phase w (f e)) e" "keeps (\<lambda>e. fst (claim_commit e)) e"
  by (auto simp: keeps_def live_def claim_commit_def)

lemma activeD:
  assumes "entry_ok lock lg e" and "en_lifecycle e = LcActive"
  shows "outcome e = None" "en_terminal_write e = None" "\<not> as_is_terminal (en_state e)" "CredSaved (en_id e) \<notin> set lg"
    "en_worker e \<notin> {WSaving, WReloading}"
proof -
  show "outcome e = None" using assms by (simp add: entry_ok_def writes_ok_def)
  then show "en_terminal_write e = None" "\<not> as_is_terminal (en_state e)" by (simp_all add: outcome_def split: if_splits)
  show "CredSaved (en_id e) \<notin> set lg" "en_worker e \<notin> {WSaving, WReloading}"
    using assms by (simp_all add: entry_ok_def cred_ok_def lock_ok_def)
qed

lemma win_active_ok:
  assumes "entry_ok lock lg e" and "as_is_terminal st" and "st \<noteq> AsAuthorized"
  shows "entry_ok lock lg (fst (win_terminal LcActive st n e))"
proof (cases "en_lifecycle e = LcActive")
  case True
  note a = activeD [OF assms(1) True]
  have "writes_ok e" "lock_ok lock e" using assms(1) by (simp_all add: entry_ok_def)
  with a assms(2,3) True show ?thesis
    by (simp add: win_terminal_def entry_ok_def writes_ok_def lock_ok_def cred_ok_def outcome_def)
qed (use assms in \<open>simp add: win_terminal_def\<close>)


lemma unlist_ok:
  assumes "entry_ok lock lg e" and "as_is_terminal (en_state e)"
  shows "entry_ok lock lg (e\<lparr>en_listed := False\<rparr>)"
proof -
  have "outcome (e\<lparr>en_listed := False\<rparr>) = outcome e" by (simp add: outcome_def)
  then show ?thesis using assms by (simp add: entry_ok_def writes_ok_def lock_ok_def cred_ok_def)
qed

lemma terminal_worker: "entry_ok lock lg e \<Longrightarrow> en_lifecycle e = LcTerminal \<Longrightarrow> en_worker e \<noteq> WSaving \<and> en_worker e \<noteq> WReloading"
  by (auto simp: entry_ok_def lock_ok_def)

lemma progress_none: "entry_ok lock lg e \<Longrightarrow> en_worker e \<noteq> WAuthorizing \<Longrightarrow> en_progress_write e = None"
  unfolding entry_ok_def writes_ok_def by (cases "en_progress_write e") blast+

lemma write_terminal_ok:
  assumes "entry_ok lock lg e" and "en_progress_write e = None"
  shows "keeps (write_terminal_state now) e" and "entry_ok lock lg (write_terminal_state now e)"
proof -
  have w: "writes_ok e" using assms(1) by (simp add: entry_ok_def)
  show "keeps (write_terminal_state now) e" by (simp add: keeps_def live_def write_terminal_state_def split: option.split)
  show "entry_ok lock lg (write_terminal_state now e)"
  proof (cases "en_terminal_write e")
    case (Some p)
    obtain st n where p: "p = (st, n)" by fastforce
    have st: "as_is_terminal st" "\<not> as_is_terminal (en_state e)" using w Some p by (auto simp: writes_ok_def)
    then have "outcome (write_terminal_state now e) = Some st" "outcome e = Some st"
      using Some p by (simp_all add: outcome_def write_terminal_state_def)
    moreover have "en_lifecycle e = LcTerminal" using w \<open>outcome e = Some st\<close> by (simp add: writes_ok_def)
    ultimately show ?thesis using Some p st assms terminal_worker [OF assms(1)]
      by (simp add: entry_ok_def writes_ok_def lock_ok_def cred_ok_def write_terminal_state_def)
  qed (use assms in \<open>simp add: write_terminal_state_def\<close>)
qed

lemma progress_target_open: "progress_target ev st = Some st' \<Longrightarrow> \<not> as_is_terminal st'"
  by (cases "(ev, st)" rule: progress_target.cases) auto


lemma progress_check_ok:
  assumes "entry_ok lock lg e" and "en_worker e = WAuthorizing" and "en_lifecycle e = LcActive" and "\<not> as_is_terminal st"
  shows "entry_ok lock lg (e\<lparr>en_progress_write := Some st\<rparr>)"
proof -
  have "outcome (e\<lparr>en_progress_write := Some st\<rparr>) = outcome e" by (simp add: outcome_def)
  then show ?thesis using assms activeD [OF assms(1,3)] by (simp add: entry_ok_def writes_ok_def lock_ok_def cred_ok_def)
qed

lemma progress_write_ok:
  assumes "entry_ok lock lg e" and "en_progress_write e = Some st"
  shows "entry_ok lock lg (e\<lparr>en_data := (en_data e)\<lparr>sd_state := st\<rparr>, en_progress_write := None\<rparr>)"
    and "keeps (\<lambda>e. e\<lparr>en_data := (en_data e)\<lparr>sd_state := st\<rparr>, en_progress_write := None\<rparr>) e"
proof -
  let ?e = "e\<lparr>en_data := (en_data e)\<lparr>sd_state := st\<rparr>, en_progress_write := None\<rparr>"
  have w: "\<not> as_is_terminal st" "\<not> as_is_terminal (en_state e)" "en_listed e" "en_worker e = WAuthorizing"
    using assms by (auto simp: entry_ok_def writes_ok_def)
  then have "outcome ?e = outcome e" by (simp add: outcome_def)
  moreover have "CredSaved (en_id e) \<notin> set lg" using assms(1) w(4) by (simp add: entry_ok_def cred_ok_def)
  ultimately show "entry_ok lock lg ?e" using assms w by (simp add: entry_ok_def writes_ok_def lock_ok_def cred_ok_def)
qed (simp add: keeps_def live_def)

lemma phase_ok:
  assumes "entry_ok lock lg e" and "en_progress_write e = None" and "en_worker e \<in> {WAuthorizing, WGotCredential}"
    and "w \<in> {WGotCredential, WDone}"
  shows "entry_ok lock lg (phase w e)"
proof -
  have "outcome (phase w e) = outcome e" by (simp add: outcome_def)
  moreover have "en_lifecycle e \<noteq> LcCommitting" "CredSaved (en_id e) \<notin> set lg" "lock \<noteq> Some (HeldByWorker (en_id e))"
    using assms(1,3) unfolding entry_ok_def lock_ok_def cred_ok_def by (elim insertE emptyE; simp)+
  moreover have "w \<noteq> WSaving" "w \<noteq> WReloading" "w \<noteq> WFinishing" using assms(4) by auto
  ultimately show ?thesis using assms(1,2) by (simp add: entry_ok_def writes_ok_def lock_ok_def cred_ok_def)
qed

lemma win_worker [simp]: "en_worker (fst (win_terminal x st n e)) = en_worker e"
  "en_progress_write (fst (win_terminal x st n e)) = en_progress_write e"
  by (simp_all add: win_terminal_def)

lemma finish_ok:
  assumes "entry_ok lock lg e" and "en_worker e \<in> {WSaving, WReloading}"
    and "st = AsAuthorized \<and> en_worker e = WReloading \<or> (\<exists>m. st = AsFailed m)"
  shows "entry_ok lock lg (phase WFinishing (fst (win_terminal LcCommitting st False e)))"
proof -
  have c: "en_lifecycle e = LcCommitting" using assms(1,2) by (simp add: entry_ok_def lock_ok_def)
  have o: "outcome e = None" using assms(1) c by (simp add: entry_ok_def writes_ok_def)
  then have n: "en_terminal_write e = None" "\<not> as_is_terminal (en_state e)" by (simp_all add: outcome_def split: if_splits)
  let ?e = "phase WFinishing (fst (win_terminal LcCommitting st False e))"
  have "outcome ?e = Some st" using n c by (simp add: outcome_def win_terminal_def)
  moreover have "as_is_terminal st" using assms(3) by auto
  moreover have "en_progress_write e = None" using progress_none [OF assms(1)] assms(2) by auto
  moreover have "lock = Some (HeldByWorker (en_id e))" using assms(1,2) unfolding entry_ok_def lock_ok_def by blast
  moreover have "en_listed e" using assms(1) n unfolding entry_ok_def writes_ok_def by blast
  moreover have "st = AsAuthorized \<Longrightarrow> CredSaved (en_id e) \<in> set lg" using assms(1,3) by (auto simp: entry_ok_def cred_ok_def)
  moreover have "st \<noteq> AsCancelled" using assms(3) by auto
  ultimately show ?thesis using n c
    by (simp add: entry_ok_def writes_ok_def lock_ok_def cred_ok_def win_terminal_def)
qed

lemma commit_ok:
  assumes "entry_ok None lg e" and "en_worker e = WGotCredential" and "en_lifecycle e = LcActive"
  shows "entry_ok (Some (HeldByWorker (en_id e))) lg (phase WSaving (fst (claim_commit e)))"
proof -
  note a = activeD [OF assms(1,3)]
  have "outcome (phase WSaving (fst (claim_commit e))) = None" using a by (simp add: outcome_def claim_commit_def assms(3))
  then show ?thesis using assms a by (simp add: entry_ok_def writes_ok_def lock_ok_def cred_ok_def claim_commit_def)
qed

lemma saved_ok:
  assumes "entry_ok lock lg e" and "en_worker e = WSaving"
  shows "entry_ok lock (lg @ [CredSaved (en_id e)]) (phase WReloading e)"
proof -
  have c: "en_lifecycle e = LcCommitting" using assms by (simp add: entry_ok_def lock_ok_def)
  then have "outcome e = None" using assms(1) by (simp add: entry_ok_def writes_ok_def)
  moreover have "outcome (phase WReloading e) = outcome e" by (simp add: outcome_def)
  ultimately show ?thesis using assms c by (simp add: entry_ok_def writes_ok_def lock_ok_def cred_ok_def)
qed

lemma release_ok:
  assumes "entry_ok lock lg e" and "en_worker e = WFinishing" and "en_terminal_write e = None"
  shows "entry_ok None lg (phase WDone e)"
proof -
  have "outcome (phase WDone e) = outcome e" by (simp add: outcome_def)
  then show ?thesis using assms by (simp add: entry_ok_def writes_ok_def lock_ok_def cred_ok_def)
qed


lemma request_cancel_ok: "entry_ok lock lg e \<Longrightarrow> entry_ok lock lg (request_cancel e)"
  by (simp add: request_cancel_def win_active_ok)

lemma request_cancel_keeps [simp]: "keeps request_cancel e"
  using win_keeps [of LcActive AsCancelled True e] by (simp add: request_cancel_def [abs_def])

lemma not_listed_dead: "entry_ok lock lg e \<Longrightarrow> \<not> en_listed e \<Longrightarrow> \<not> live e"
  unfolding entry_ok_def writes_ok_def live_def outcome_def by auto

definition pruned :: "i64 \<Rightarrow> auth_entry \<Rightarrow> auth_entry" where
  "pruned now e = (if as_is_terminal (en_state e) \<and> sd_expires_at_ms (en_data e) < now then e\<lparr>en_listed := False\<rparr> else e)"

lemma prune_map: "prune_expired_terminals now t = map (pruned now) t"
  by (simp add: prune_expired_terminals_def pruned_def)

lemma pruned_ok: "entry_ok lock lg e \<Longrightarrow> entry_ok lock lg (pruned now e) \<and> keeps (pruned now) e"
  by (simp add: pruned_def unlist_ok keeps_def live_def)

lemma lock_change_ok:
  assumes "entry_ok None lg e" and "lock = Some (HeldByLogout p) \<or> lock = Some HeldByReload"
  shows "entry_ok lock lg e"
  using assms by (auto simp: entry_ok_def lock_ok_def)

text \<open>The loops of logout and reload.\<close>

lemma cancel_loop_ok:
  assumes "auth_ok s" and "sy_lock s = None"
    and "lock = Some (HeldByLogout p) \<and> which = (\<lambda>e. en_provider e = p) \<or> lock = Some HeldByReload"
  shows "auth_ok (s\<lparr>sy_lock := lock, sy_tasks := map (\<lambda>e. if en_listed e \<and> which e then request_cancel e else e)
      (prune_expired_terminals now (sy_tasks s))\<rparr>)"
proof -
  let ?c = "\<lambda>e. if en_listed e \<and> which e then request_cancel e else e"
  let ?g = "\<lambda>e. ?c (pruned now e)"
  have "auth_ok \<lparr>sy_tasks = map ?g (sy_tasks s), sy_lock = lock, sy_log = sy_log s\<rparr>"
  proof (rule map_ok [OF assms(1)])
    fix e
    assume "e \<in> set (sy_tasks s)"
    then have e: "entry_ok None (sy_log s) e" using assms(1,2) by (simp add: auth_ok_def)
    with pruned_ok have p: "entry_ok None (sy_log s) (pruned now e)" "keeps (pruned now) e" by blast+
    then have "entry_ok lock (sy_log s) (pruned now e)" using assms(3) lock_change_ok by blast
    with p show "en_id (?g e) = en_id e \<and> en_provider (?g e) = en_provider e \<and> (live (?g e) \<longrightarrow> live e) \<and>
        entry_ok lock (sy_log s) (?g e)"
      using request_cancel_keeps [of "pruned now e"] request_cancel_ok [of lock "sy_log s" "pruned now e"] by (simp add: keeps_def)
  next
    fix q
    assume "lock = Some (HeldByLogout q)"
    then have w: "which = (\<lambda>e. en_provider e = q)" using assms(3) by auto
    show "\<forall>e \<in> set (sy_tasks s). en_provider e = q \<longrightarrow> \<not> live (?g e)"
    proof (intro ballI impI)
      fix e
      assume e: "e \<in> set (sy_tasks s)" "en_provider e = q"
      then have ok: "entry_ok None (sy_log s) e" using assms(1,2) by (simp add: auth_ok_def)
      then have p: "entry_ok None (sy_log s) (pruned now e)" "en_provider (pruned now e) = q"
        using pruned_ok e(2) by (auto simp: keeps_def)
      have "\<not> live (request_cancel (pruned now e))"
        using p(1) by (auto simp: live_def request_cancel_def win_terminal_def entry_ok_def lock_ok_def)
          (metis auth_lifecycle.exhaust lock_ok_def)
      then show "\<not> live (?g e)" using not_listed_dead [OF p(1)] p(2) by (simp add: w)
    qed
  qed (use assms in \<open>auto simp: auth_ok_def\<close>)
  then show ?thesis by (cases s) (simp add: prune_map o_def)
qed


lemma prune_ok:
  assumes "auth_ok s"
  shows "auth_ok (s\<lparr>sy_tasks := prune_expired_terminals now (sy_tasks s)\<rparr>)"
proof -
  have "auth_ok \<lparr>sy_tasks = map (pruned now) (sy_tasks s), sy_lock = sy_lock s, sy_log = sy_log s\<rparr>"
  proof (rule map_ok [OF assms])
    fix e
    assume "e \<in> set (sy_tasks s)"
    then have "entry_ok (sy_lock s) (sy_log s) e" using assms by (simp add: auth_ok_def)
    from pruned_ok [OF this] show "en_id (pruned now e) = en_id e \<and> en_provider (pruned now e) = en_provider e \<and>
        (live (pruned now e) \<longrightarrow> live e) \<and> entry_ok (sy_lock s) (sy_log s) (pruned now e)" by (simp add: keeps_def)
  next
    fix p
    assume "sy_lock s = Some (HeldByLogout p)"
    then have "\<forall>e \<in> set (sy_tasks s). en_provider e = p \<longrightarrow> \<not> live e" using assms by (simp add: auth_ok_def)
    then show "\<forall>e \<in> set (sy_tasks s). en_provider e = p \<longrightarrow> \<not> live (pruned now e)" by (simp add: live_def pruned_def)
  qed (use assms in \<open>auto simp: auth_ok_def\<close>)
  then show ?thesis by (cases s) (simp add: prune_map)
qed

lemma append_ok:
  assumes "auth_ok s" and "sy_lock s = None" and "en_id e \<notin> en_id ` set (sy_tasks s)"
    and "entry_ok None (sy_log s) e" and "live e \<longrightarrow> (\<forall>x \<in> set (sy_tasks s). live x \<longrightarrow> en_provider x \<noteq> en_provider e)"
  shows "auth_ok (s\<lparr>sy_tasks := sy_tasks s @ [e]\<rparr>)"
  using assms by (auto simp: auth_ok_def)

lemma no_active_iff:
  assumes "auth_ok s" and "ensure_no_active_session p (sy_tasks s) = Ok u"
  shows "\<forall>x \<in> set (sy_tasks s). live x \<longrightarrow> en_provider x \<noteq> p"
proof (intro ballI impI)
  fix x
  assume x: "x \<in> set (sy_tasks s)" "live x"
  then have "en_listed x" using assms(1) not_listed_dead by (auto simp: auth_ok_def)
  with x assms(2) show "en_provider x \<noteq> p"
    by (auto simp: ensure_no_active_session_def active_session_def listed_def find_None_iff live_def split: option.splits)
qed

lemma new_entry_ok:
  assumes "CredSaved sid \<notin> set lg" and "lock = None"
  shows "entry_ok lock lg (new_entry (new_session_data sid now p m AsStarting) LcActive WAuthorizing)"
    and "entry_ok lock lg (new_entry (new_session_data sid now p ''none'' AsAuthorized) LcTerminal WDone)"
  using assms by (simp_all add: new_entry_def new_session_data_def entry_ok_def writes_ok_def lock_ok_def cred_ok_def outcome_def)

lemma start_ok:
  assumes "auth_ok s" and "sy_lock s = None" and "row_at en_id sid (sy_tasks s) = None"
  shows "auth_ok (s\<lparr>sy_tasks := fst (auth_start env strategy sid now p rq (sy_tasks s))\<rparr>)"
proof -
  let ?s = "s\<lparr>sy_tasks := prune_expired_terminals now (sy_tasks s)\<rparr>"
  have ok: "auth_ok ?s" by (rule prune_ok [OF assms(1)])
  have "map en_id (sy_tasks ?s) = map en_id (sy_tasks s)" by (simp add: prune_map pruned_def)
  then have ids: "en_id ` set (sy_tasks ?s) = en_id ` set (sy_tasks s)" by (metis set_map)
  have new: "sid \<notin> en_id ` set (sy_tasks s)" using assms(3) by (simp add: row_at_None_iff)
  then have unsaved: "CredSaved sid \<notin> set (sy_log s)" using assms(1) by (auto simp: auth_ok_def)
  have id: "en_id (new_entry (new_session_data sid now p m st) lc w) = sid"
    "en_provider (new_entry (new_session_data sid now p m st) lc w) = p" for m st lc w
    by (simp_all add: new_entry_def new_session_data_def)
  have add: "auth_ok (s\<lparr>sy_tasks := prune_expired_terminals now (sy_tasks s) @ [e]\<rparr>)"
    if "en_id e = sid" "entry_ok None (sy_log s) e"
      "live e \<longrightarrow> (\<forall>x \<in> set (prune_expired_terminals now (sy_tasks s)). live x \<longrightarrow> en_provider x \<noteq> en_provider e)" for e
    using append_ok [OF ok, of e] that ids new assms(2) by simp
  show ?thesis
  proof (cases strategy)
    case NoAuth
    have "\<not> live (new_entry (new_session_data sid now p ''none'' AsAuthorized) LcTerminal WDone)"
      by (simp add: live_def new_entry_def)
    with add [OF id(1) new_entry_ok(2) [OF unsaved refl]] NoAuth assms(1) show ?thesis
      by (simp add: auth_start_def Let_def split: result.split)
  next
    case SpotifyOauth
    have "auth_ok (s\<lparr>sy_tasks := prune_expired_terminals now (sy_tasks s) @
        [new_entry (new_session_data sid now p m AsStarting) LcActive WAuthorizing]\<rparr>)"
      if "ensure_no_active_session p (prune_expired_terminals now (sy_tasks s)) = Ok u" for m u
      using add [OF id(1) new_entry_ok(1) [OF unsaved refl]] no_active_iff [OF ok] that id(2) by simp
    with SpotifyOauth ok assms(1) show ?thesis by (simp add: auth_start_def Let_def split: result.split)
  qed
qed

lemma auth_ok_step:
  assumes "auth_step s s'" and "auth_ok s"
  shows "auth_ok s'"
  using assms(1)
proof (cases rule: auth_step.cases)
  case start
  then show ?thesis using assms(2) start_ok by simp
next
  case prune
  then show ?thesis using assms(2) prune_ok by simp
next
  case (cancel sid e)
  then show ?thesis using upd_ok_here [OF assms(2)] task_ok [OF assms(2)] request_cancel_ok by auto
next
  case (expire sid e now)
  then show ?thesis using upd_ok_here [OF assms(2), of sid e] task_ok [OF assms(2)] win_active_ok by (auto simp: SESSION_EXPIRED_def)
next
  case (terminal_write sid e now)
  then have "entry_ok (sy_lock s) (sy_log s) e" using task_ok [OF assms(2)] by blast
  from write_terminal_ok [OF this] terminal_write show ?thesis using upd_ok_here [OF assms(2), of sid e] by simp
next
  case (progress_check sid e event state)
  then show ?thesis using upd_ok_here [OF assms(2), of sid e] task_ok [OF assms(2)] progress_check_ok progress_target_open
    by (auto simp: keeps_def live_def)
next
  case (progress_write sid e state)
  then have "entry_ok (sy_lock s) (sy_log s) e" using task_ok [OF assms(2)] by blast
  from progress_write_ok [OF this] progress_write show ?thesis using upd_ok_here [OF assms(2), of sid e] by simp
next
  case (authorize_failed sid e message)
  then have "entry_ok (sy_lock s) (sy_log s) (phase WDone (fst (win_terminal LcActive (AsFailed message) False e)))"
    using task_ok [OF assms(2)] by (intro phase_ok win_active_ok) auto
  with authorize_failed show ?thesis using upd_ok_here [OF assms(2), of sid e]
    by simp
next
  case (authorized sid e)
  then have "entry_ok (sy_lock s) (sy_log s) (phase WGotCredential e)"
    using task_ok [OF assms(2)] by (intro phase_ok) auto
  with authorized show ?thesis using upd_ok_here [OF assms(2), of sid e] by simp
next
  case (commit sid e)
  then have "entry_ok (Some (HeldByWorker sid)) (sy_log s) (phase WSaving (fst (claim_commit e)))"
    using task_ok [OF assms(2), of sid e] commit_ok [of "sy_log s" e] by (auto simp: claim_commit_def split: if_splits)
  with commit show ?thesis using upd_ok [OF assms(2), of sid e _ "Some (HeldByWorker sid)" "sy_log s"]
    by auto
next
  case (commit_refused sid e)
  then have e: "entry_ok (sy_lock s) (sy_log s) e" using task_ok [OF assms(2)] by blast
  with progress_none [OF e] commit_refused have "entry_ok (sy_lock s) (sy_log s) (phase WDone e)"
    by (intro phase_ok) simp_all
  with commit_refused show ?thesis using upd_ok_here [OF assms(2), of sid e] by simp
next
  case (saved sid e)
  then have "entry_ok (sy_lock s) (sy_log s @ [CredSaved sid]) (phase WReloading e)"
    using task_ok [OF assms(2), of sid e] saved_ok [of "sy_lock s" "sy_log s" e] by auto
  with saved show ?thesis using upd_ok [OF assms(2), of sid e _ "sy_lock s" "sy_log s @ [CredSaved sid]"]
    by simp
next
  case (save_failed sid e message)
  then show ?thesis using upd_ok_here [OF assms(2), of sid e] task_ok [OF assms(2)]
      finish_ok [of "sy_lock s" "sy_log s" e "AsFailed message"]
    by simp
next
  case (reloaded sid e result message)
  then show ?thesis using upd_ok_here [OF assms(2), of sid e] task_ok [OF assms(2)]
      finish_ok [of "sy_lock s" "sy_log s" e result]
    by auto
next
  case (release sid e)
  then have "entry_ok None (sy_log s) (phase WDone e)" and "sy_lock s = Some (HeldByWorker sid)"
    using task_ok [OF assms(2), of sid e] release_ok [of "sy_lock s" "sy_log s" e] by (auto simp: entry_ok_def lock_ok_def)
  with release show ?thesis using upd_ok [OF assms(2), of sid e _ None "sy_log s"]
    by (simp add: insert_commute)
next
  case (logout provider now)
  then show ?thesis using cancel_loop_ok [OF assms(2), of "Some (HeldByLogout provider)" provider] by simp
next
  case (purge provider)
  then show ?thesis using assms(2) by (simp add: auth_ok_def entry_ok_def)
next
  case (logged_out provider)
  then show ?thesis using assms(2) by (simp add: auth_ok_def entry_ok_def lock_ok_def)
next
  case (reload now)
  then show ?thesis using cancel_loop_ok [OF assms(2), of "Some HeldByReload" "[]" "\<lambda>_. True"] by simp
next
  case reload_end
  then show ?thesis using assms(2) by (simp add: auth_ok_def entry_ok_def lock_ok_def)
qed

lemma reachable_ok: "auth_reachable s \<Longrightarrow> auth_ok s"
proof (induction rule: auth_reachable.induct)
  case init
  show ?case by (simp add: auth_init_def auth_ok_def)
qed (rule auth_ok_step)


section \<open>What the interleavings cannot break\<close>

text \<open>Once the lifecycle is terminal the outcome stands; once it is written the data stands.\<close>

definition later :: "auth_entry \<Rightarrow> auth_entry \<Rightarrow> bool" where
  "later e e' \<longleftrightarrow> en_id e' = en_id e \<and> en_provider e' = en_provider e \<and>
     (en_lifecycle e = LcTerminal \<longrightarrow> en_lifecycle e' = LcTerminal \<and> outcome e' = outcome e) \<and>
     (as_is_terminal (en_state e) \<longrightarrow> en_data e' = en_data e)"

lemma later_refl [simp]: "later e e"
  by (simp add: later_def)

lemma later_trans: "later a b \<Longrightarrow> later b c \<Longrightarrow> later a c"
  by (auto simp: later_def)

lemma outcome_phase [simp]: "outcome (phase w e) = outcome e"
  by (simp add: outcome_def)

lemma later_phase [simp]: "later e e' \<Longrightarrow> later e (phase w e')"
  by (simp add: later_def)

lemma later_win [simp]: "x \<noteq> LcTerminal \<Longrightarrow> later e (fst (win_terminal x st n e))"
  by (auto simp: later_def win_terminal_def)

lemma later_claim [simp]: "later e (fst (claim_commit e))"
  by (auto simp: later_def claim_commit_def)

lemma later_prune [simp]: "later e (pruned now e)"
  by (simp add: later_def pruned_def outcome_def)

lemma later_write: "entry_ok lock lg e \<Longrightarrow> later e (write_terminal_state now e)"
proof -
  assume ok: "entry_ok lock lg e"
  show ?thesis
  proof (cases "en_terminal_write e")
    case (Some p)
    moreover obtain st n where "p = (st, n)" by fastforce
    moreover from calculation have "as_is_terminal st" "\<not> as_is_terminal (en_state e)"
      using ok by (auto simp: entry_ok_def writes_ok_def)
    ultimately show ?thesis by (simp add: later_def write_terminal_state_def outcome_def)
  qed (simp add: write_terminal_state_def)
qed

lemma later_progress:
  assumes "entry_ok lock lg e" and "en_progress_write e = Some st"
  shows "later e (e\<lparr>en_data := (en_data e)\<lparr>sd_state := st\<rparr>, en_progress_write := None\<rparr>)"
proof -
  have "\<not> as_is_terminal st" "\<not> as_is_terminal (en_state e)" using assms by (auto simp: entry_ok_def writes_ok_def)
  then show ?thesis by (simp add: later_def outcome_def)
qed

lemma later_upd:
  assumes "task s sid x" and "auth_ok s" and "later x (f x)" and "e \<in> set (sy_tasks s)"
  shows "\<exists>e' \<in> set (sy_tasks (upd sid f (s\<lparr>sy_lock := l, sy_log := g\<rparr>))). later e e'"
proof (cases "en_id e = sid")
  case True
  have "distinct (map en_id (sy_tasks s))" using assms(2) by (simp add: auth_ok_def)
  moreover have "en_id x = sid" "x \<in> set (sy_tasks s)" using assms(1) by (auto simp: task_def dest: row_at_SomeD)
  ultimately have "e = x" using assms(4) True by (metis (no_types, lifting) distinct_map inj_onD)
  then have "f e \<in> set (sy_tasks (upd sid f (s\<lparr>sy_lock := l, sy_log := g\<rparr>)))"
    using True assms(4) by (auto simp: upd_def update_entry_def update_at_def image_iff)
  with assms(3) \<open>e = x\<close> show ?thesis by blast
next
  case False
  then have "e \<in> set (sy_tasks (upd sid f (s\<lparr>sy_lock := l, sy_log := g\<rparr>)))"
    using assms(4) by (auto simp: upd_def update_entry_def update_at_def image_iff)
  then show ?thesis by (rule bexI [rotated]) simp
qed

lemmas later_upd_here = later_upd [where l = "sy_lock s" and g = "sy_log s" and s = s for s, simplified]

lemma later_cancel [simp]: "later e (request_cancel e)"
  by (simp add: request_cancel_def)

lemma later_map:
  assumes "e \<in> set t" and "later e (g e)"
  shows "\<exists>e' \<in> set (map g t). later e e'"
  using assms by auto

lemma later_start:
  assumes "e \<in> set t"
  shows "\<exists>e' \<in> set (fst (auth_start env strategy sid now p rq t)). later e e'"
proof -
  have "\<exists>e' \<in> set (prune_expired_terminals now t). later e e'"
    using assms later_map [of e t "pruned now"] by (simp add: prune_map)
  moreover have "\<exists>e' \<in> set t. later e e'" using assms later_refl by blast
  ultimately show ?thesis by (auto simp: auth_start_def Let_def split: auth_strategy.split result.split)
qed

lemma step_later:
  assumes "auth_step s s'" and "auth_ok s" and "e \<in> set (sy_tasks s)"
  shows "\<exists>e' \<in> set (sy_tasks s'). later e e'"
proof -
  note at = later_upd [OF _ assms(2) _ assms(3)] and here = later_upd_here [OF _ assms(2) _ assms(3)]
  have loop: "\<exists>e' \<in> set (map (\<lambda>e. if h e then request_cancel e else e) (prune_expired_terminals now (sy_tasks s))). later e e'"
    for h now
  proof -
    have "later e (if h (pruned now e) then request_cancel (pruned now e) else pruned now e)"
      using later_trans [OF later_prune later_cancel] by simp
    with later_map [OF assms(3), of "\<lambda>e. if h (pruned now e) then request_cancel (pruned now e) else pruned now e"]
    show ?thesis by (simp add: prune_map o_def)
  qed
  from assms(1) show ?thesis
  proof (cases rule: auth_step.cases)
    case start
    then show ?thesis using later_start [OF assms(3)] by simp
  next
    case prune
    then show ?thesis using later_map [OF assms(3), of "pruned _"] by (simp add: prune_map)
  next
    case (terminal_write sid x now)
    then have "later x (write_terminal_state now x)" using later_write task_ok [OF assms(2)] by blast
    with terminal_write show ?thesis using here [of sid x "write_terminal_state now"] by simp
  next
    case (progress_write sid x state)
    let ?f = "\<lambda>e. e\<lparr>en_data := (en_data e)\<lparr>sd_state := state\<rparr>, en_progress_write := None\<rparr>"
    have "later x (?f x)" using progress_write later_progress task_ok [OF assms(2)] by blast
    with progress_write show ?thesis using here [of sid x ?f] by simp
  next
    case (progress_check sid x event state)
    have "later x (x\<lparr>en_progress_write := Some state\<rparr>)" by (simp add: later_def outcome_def)
    with progress_check show ?thesis using here [of sid x "en_progress_write_update (\<lambda>_. Some state)"] by simp
  next
    case (logout provider now)
    then show ?thesis using loop [of "\<lambda>e. en_listed e \<and> en_provider e = provider" now] by simp
  next
    case (reload now)
    then show ?thesis using loop [of en_listed now] by simp
  next
    case (cancel sid x)
    then show ?thesis using here [of sid x request_cancel] by simp
  next
    case (expire sid x now)
    then show ?thesis using here [of sid x "\<lambda>e. fst (win_terminal LcActive SESSION_EXPIRED True e)"] by simp
  next
    case (authorize_failed sid x m)
    then show ?thesis using here [of sid x "\<lambda>e. phase WDone (fst (win_terminal LcActive (AsFailed m) False e))"] by simp
  next
    case (authorized sid x)
    then show ?thesis using here [of sid x "phase WGotCredential"] by simp
  next
    case (commit sid x)
    then show ?thesis
      using at [of sid x "\<lambda>e. phase WSaving (fst (claim_commit e))" "sy_log s" "Some (HeldByWorker sid)"] by simp
  next
    case (commit_refused sid x)
    then show ?thesis using here [of sid x "phase WDone"] by simp
  next
    case (saved sid x)
    then show ?thesis using at [of sid x "phase WReloading" "sy_log s @ [CredSaved sid]" "sy_lock s"] by simp
  next
    case (save_failed sid x m)
    then show ?thesis using here [of sid x "\<lambda>e. phase WFinishing (fst (win_terminal LcCommitting (AsFailed m) False e))"] by simp
  next
    case (reloaded sid x result m)
    then show ?thesis using here [of sid x "\<lambda>e. phase WFinishing (fst (win_terminal LcCommitting result False e))"] by simp
  next
    case (release sid x)
    then show ?thesis using at [of sid x "phase WDone" "sy_log s" None] by simp
  qed (use assms(3) in \<open>auto intro!: bexI [of _ e]\<close>)
qed

lemma step_saves:
  assumes "auth_step s s'" and "auth_ok s" and "e \<in> set (sy_tasks s)" and "en_lifecycle e = LcTerminal"
  shows "count_list (sy_log s') (CredSaved (en_id e)) = count_list (sy_log s) (CredSaved (en_id e))"
  using assms(1)
proof (cases rule: auth_step.cases)
  case (saved sid x)
  have "en_lifecycle x = LcCommitting" "en_id x = sid" using saved task_ok [OF assms(2), of sid x] by (auto simp: entry_ok_def lock_ok_def)
  moreover have "x \<in> set (sy_tasks s)" "distinct (map en_id (sy_tasks s))"
    using saved assms(2) by (auto simp: task_def auth_ok_def dest: row_at_SomeD)
  ultimately have "en_id e \<noteq> sid" using assms(3,4) by (metis (no_types, lifting) auth_lifecycle.distinct(5) distinct_map inj_onD)
  with saved show ?thesis by (simp add: upd_def)
qed (simp_all add: upd_def)


lemma run_ok: "auth_step\<^sup>*\<^sup>* s s' \<Longrightarrow> auth_ok s \<Longrightarrow> auth_ok s'"
  by (induction rule: rtranclp_induct) (auto intro: auth_ok_step)

lemma run_later:
  assumes "auth_step\<^sup>*\<^sup>* s s'" and "auth_ok s" and "e \<in> set (sy_tasks s)"
  shows "\<exists>e' \<in> set (sy_tasks s'). later e e' \<and> (en_lifecycle e = LcTerminal \<longrightarrow>
    count_list (sy_log s') (CredSaved (en_id e)) = count_list (sy_log s) (CredSaved (en_id e)))"
  using assms
proof (induction rule: rtranclp_induct)
  case base
  then show ?case using later_refl by blast
next
  case (step s1 s2)
  then obtain e1 where e1: "e1 \<in> set (sy_tasks s1)" "later e e1"
    "en_lifecycle e = LcTerminal \<longrightarrow> count_list (sy_log s1) (CredSaved (en_id e)) = count_list (sy_log s) (CredSaved (en_id e))"
    by blast
  have ok: "auth_ok s1" using step run_ok by blast
  obtain e2 where "e2 \<in> set (sy_tasks s2)" "later e1 e2" using step_later [OF step.hyps(2) ok e1(1)] by blast
  moreover have "count_list (sy_log s2) (CredSaved (en_id e)) = count_list (sy_log s1) (CredSaved (en_id e))"
    if "en_lifecycle e = LcTerminal"
    using step_saves [OF step.hyps(2) ok e1(1)] e1(2) that by (simp add: later_def)
  ultimately show ?case using e1 later_trans by auto
qed

lemma terminal_lifecycle: "entry_ok lock lg e \<Longrightarrow> as_is_terminal (en_state e) \<Longrightarrow> en_lifecycle e = LcTerminal"
  by (simp add: entry_ok_def writes_ok_def outcome_def)

lemma task_upd: "task s sid e \<Longrightarrow> en_id (f e) = sid \<Longrightarrow> task (upd sid f s) sid (f e)"
  unfolding task_def upd_def update_entry_def update_at_def row_at_def
  by (induction "sy_tasks s" arbitrary: s) (auto simp: find_Some_iff)

definition sample_env :: auth_env where
  "sample_env = \<lparr>av_first_party_override = None, av_stored_first_party_only = (\<lambda>_. False), av_embedded = True,
     av_load_config = (\<lambda>_ _. Ok ())\<rparr>"

definition sample_login :: auth_system where
  "sample_login = auth_init\<lparr>sy_tasks := fst (auth_start sample_env SpotifyOauth ''s'' 0 ''p'' None (sy_tasks auth_init))\<rparr>"

definition sample_entry :: auth_entry where
  "sample_entry = new_entry (new_session_data ''s'' 0 ''p'' ''dev_app'' AsStarting) LcActive WAuthorizing"

definition sample_cancelled :: auth_system where
  "sample_cancelled = upd ''s'' (write_terminal_state 5) (upd ''s'' request_cancel sample_login)"

lemma sample_login_eq: "sample_login = \<lparr>sy_tasks = [sample_entry], sy_lock = None, sy_log = []\<rparr>"
  by (simp add: sample_login_def auth_init_def auth_start_def resolve_method_def preferred_method_def sample_env_def
      prune_expired_terminals_def ensure_no_active_session_def active_session_def listed_def sample_entry_def Let_def)

lemma sample_id [simp]: "en_id sample_entry = ''s''" "en_lifecycle sample_entry = LcActive" "en_listed sample_entry"
  "en_progress_write sample_entry = None" "en_worker sample_entry = WAuthorizing"
  by (simp_all add: sample_entry_def new_entry_def new_session_data_def)

lemma sample_login_reachable: "auth_reachable sample_login"
  unfolding sample_login_def
  by (rule auth_reachable.step [OF auth_reachable.init auth_step.start]) (simp_all add: auth_init_def)

lemma sample_login_task: "task sample_login ''s'' sample_entry"
  by (simp add: task_def sample_login_eq row_at_Cons)

lemma sample_cancelled_reachable: "auth_reachable sample_cancelled"
proof -
  have "auth_reachable (upd ''s'' request_cancel sample_login)"
    by (rule auth_reachable.step [OF sample_login_reachable auth_step.cancel [OF sample_login_task]]) simp
  moreover have "task (upd ''s'' request_cancel sample_login) ''s'' (request_cancel sample_entry)"
    by (rule task_upd [OF sample_login_task]) (simp add: request_cancel_def win_terminal_def)
  then have "auth_step (upd ''s'' request_cancel sample_login) sample_cancelled"
    unfolding sample_cancelled_def by (rule auth_step.terminal_write) (simp add: request_cancel_def)
  ultimately show ?thesis by (rule auth_reachable.step)
qed

text \<open>
  C9: A login that was reported as cancelled never stores a credential, and one reported as authorized
  has stored it. Whatever the browser task, pollers, cancellations, logouts and reloads do in whatever
  order, the data of a session whose state is final never changes again; if that state is
  \<open>Cancelled\<close>, no credential of this session has been or will be saved; if it is \<open>Authorized\<close> in a session
  that needs a credential, it has been.
\<close>

theorem login_outcome_is_final:
  assumes "auth_reachable s" and "e \<in> set (sy_tasks s)" and "as_is_terminal (en_state e)" and "auth_step\<^sup>*\<^sup>* s s'"
  shows "(\<exists>e' \<in> set (sy_tasks s'). en_data e' = en_data e) \<and>
    (en_state e = AsCancelled \<longrightarrow> CredSaved (en_id e) \<notin> set (sy_log s')) \<and>
    (en_state e = AsAuthorized \<longrightarrow> sd_method (en_data e) \<noteq> ''none'' \<longrightarrow> CredSaved (en_id e) \<in> set (sy_log s'))"
proof -
  note ok = reachable_ok [OF assms(1)]
  then have e: "entry_ok (sy_lock s) (sy_log s) e" using assms(2) by (simp add: auth_ok_def)
  have o: "outcome e = Some (en_state e)" using assms(3) by (simp add: outcome_def)
  obtain e' where e': "e' \<in> set (sy_tasks s')" "later e e'"
    "count_list (sy_log s') (CredSaved (en_id e)) = count_list (sy_log s) (CredSaved (en_id e))"
    using run_later [OF assms(4) ok assms(2)] terminal_lifecycle [OF e assms(3)] by blast
  then have "en_data e' = en_data e" using assms(3) by (simp add: later_def)
  moreover have "CredSaved (en_id e) \<in> set (sy_log s') \<longleftrightarrow> CredSaved (en_id e) \<in> set (sy_log s)"
    using e'(3) by (metis count_list_0_iff)
  ultimately show ?thesis using e'(1) e o by (auto simp: entry_ok_def cred_ok_def)
qed

theorem login_outcome_is_final_witness:
  "\<exists>e \<in> set (sy_tasks sample_cancelled). en_state e = AsCancelled \<and>
     CredSaved ''s'' \<notin> set (sy_log (sample_cancelled\<lparr>sy_lock := Some HeldByReload\<rparr>))"
proof -
  let ?e = "write_terminal_state 5 (request_cancel sample_entry)"
  have e: "?e \<in> set (sy_tasks sample_cancelled)" "en_state ?e = AsCancelled" "en_id ?e = ''s''"
    by (simp_all add: sample_cancelled_def sample_login_eq upd_def update_entry_def update_at_def request_cancel_def
        win_terminal_def write_terminal_state_def)
  from login_outcome_is_final [OF sample_cancelled_reachable e(1) _ rtranclp.rtrancl_refl] e show ?thesis by auto
qed

text \<open>
  C10: A logout is not undone by a login that was already under way. From the moment a logout has the
  mutation lock, no session of its provider that exists then saves a credential any more, so nothing
  but a login started afterwards can bring credentials back.
\<close>

theorem logout_beats_pending_logins:
  assumes "auth_reachable s" and "sy_lock s = Some (HeldByLogout p)" and "auth_step\<^sup>*\<^sup>* s s'"
    and "e \<in> set (sy_tasks s)" and "en_provider e = p"
  shows "count_list (sy_log s') (CredSaved (en_id e)) = count_list (sy_log s) (CredSaved (en_id e))"
proof -
  note ok = reachable_ok [OF assms(1)]
  have "en_lifecycle e = LcTerminal" using ok assms(2,4,5) by (auto simp: auth_ok_def live_def)
  with run_later [OF assms(3) ok assms(4)] show ?thesis by blast
qed

definition sample_logout :: auth_system where
  "sample_logout = sample_login\<lparr>sy_lock := Some (HeldByLogout ''p''),
     sy_tasks := map (\<lambda>e. if en_listed e \<and> en_provider e = ''p'' then request_cancel e else e)
       (prune_expired_terminals 7 (sy_tasks sample_login))\<rparr>"

theorem logout_beats_pending_logins_witness:
  "\<exists>e \<in> set (sy_tasks sample_logout). count_list (sy_log (sample_logout\<lparr>sy_log := [CredPurged ''p'']\<rparr>)) (CredSaved (en_id e)) = 0"
proof -
  have "auth_step sample_login sample_logout"
    unfolding sample_logout_def by (rule auth_step.logout) (simp add: sample_login_eq)
  then have r: "auth_reachable sample_logout" by (rule auth_reachable.step [OF sample_login_reachable])
  have l: "sy_lock sample_logout = Some (HeldByLogout ''p'')" "sy_log sample_logout = []"
    by (simp_all add: sample_logout_def sample_login_eq)
  have p: "auth_step\<^sup>*\<^sup>* sample_logout (sample_logout\<lparr>sy_log := [CredPurged ''p'']\<rparr>)"
    using auth_step.purge [OF l(1)] l(2) by (intro r_into_rtranclp) simp
  have e: "request_cancel sample_entry \<in> set (sy_tasks sample_logout)" "en_provider (request_cancel sample_entry) = ''p''"
    by (simp_all add: sample_logout_def sample_login_eq prune_expired_terminals_def request_cancel_def win_terminal_def
        sample_entry_def new_entry_def new_session_data_def)
  from logout_beats_pending_logins [OF r l(1) p e] e(1) l(2) show ?thesis by (intro bexI [OF _ e(1)]) simp
qed

definition sample_committing :: auth_system where
  "sample_committing = upd ''s'' (\<lambda>e. phase WSaving (fst (claim_commit e)))
     ((upd ''s'' (phase WGotCredential) sample_login)\<lparr>sy_lock := Some (HeldByWorker ''s'')\<rparr>)"

lemma sample_committing_reachable: "auth_reachable sample_committing"
proof -
  have "auth_reachable (upd ''s'' (phase WGotCredential) sample_login)"
    by (rule auth_reachable.step [OF sample_login_reachable auth_step.authorized [OF sample_login_task]])
      (simp_all add: sample_entry_def new_entry_def)
  moreover have t: "task (upd ''s'' (phase WGotCredential) sample_login) ''s'' (phase WGotCredential sample_entry)"
    by (rule task_upd [OF sample_login_task]) simp
  have "auth_step (upd ''s'' (phase WGotCredential) sample_login) sample_committing"
    unfolding sample_committing_def
    by (rule auth_step.commit [OF t]) (simp_all add: sample_login_eq upd_def claim_commit_def)
  ultimately show ?thesis by (rule auth_reachable.step)
qed

text \<open>
  Logins of a provider are exclusive: in every reachable state at most one session of a provider is
  unfinished, session ids are unique, and at most one session is between claiming its commit and
  finishing it, and then it holds the mutation lock.
\<close>

theorem one_login_per_provider:
  assumes "auth_reachable s" and "e \<in> set (sy_tasks s)" and "e' \<in> set (sy_tasks s)"
  shows "(en_id e = en_id e' \<longrightarrow> e = e') \<and>
    (en_lifecycle e \<noteq> LcTerminal \<longrightarrow> en_lifecycle e' \<noteq> LcTerminal \<longrightarrow> en_provider e = en_provider e' \<longrightarrow> e = e') \<and>
    (en_lifecycle e = LcCommitting \<longrightarrow> sy_lock s = Some (HeldByWorker (en_id e)) \<and>
       (en_lifecycle e' = LcCommitting \<longrightarrow> e = e'))"
proof -
  note ok = reachable_ok [OF assms(1)]
  then have d: "distinct (map en_id (sy_tasks s))" "distinct (map en_provider (filter live (sy_tasks s)))"
    "entry_ok (sy_lock s) (sy_log s) e" "entry_ok (sy_lock s) (sy_log s) e'" using assms(2,3) by (simp_all add: auth_ok_def)
  have id: "e = e'" if "en_id e = en_id e'" using inj_onD [OF _ that assms(2,3)] d(1) by (simp add: distinct_map)
  have "e = e'" if "live e" "live e'" "en_provider e = en_provider e'"
  proof -
    have "inj_on en_provider (set (filter live (sy_tasks s)))" using d(2) by (simp only: distinct_map)
    from inj_onD [OF this that(3)] assms(2,3) that(1,2) show ?thesis by simp
  qed
  moreover have "sy_lock s = Some (HeldByWorker (en_id e))" if "en_lifecycle e = LcCommitting"
    using d(3) that unfolding entry_ok_def lock_ok_def by blast
  moreover have "sy_lock s = Some (HeldByWorker (en_id e'))" if "en_lifecycle e' = LcCommitting"
    using d(4) that unfolding entry_ok_def lock_ok_def by blast
  ultimately show ?thesis using id by (auto simp: live_def)
qed


theorem one_login_per_provider_witness: "sy_lock sample_committing = Some (HeldByWorker ''s'')"
proof -
  have e: "phase WSaving (fst (claim_commit (phase WGotCredential sample_entry))) \<in> set (sy_tasks sample_committing)"
    by (simp add: sample_committing_def upd_def sample_login_eq update_entry_def update_at_def)
  from one_login_per_provider [OF sample_committing_reachable e e] show ?thesis
    by (simp add: claim_commit_def)
qed

lemma finishing_releases:
  assumes "auth_ok s" and "task s sid e" and "en_worker e = WFinishing"
  shows "\<exists>s'. auth_step\<^sup>*\<^sup>* s s' \<and> sy_lock s' = None"
proof -
  have e: "entry_ok (sy_lock s) (sy_log s) e" "en_id e = sid" using task_ok [OF assms(1,2)] by auto
  let ?s = "upd sid (write_terminal_state 0) s"
  let ?e = "write_terminal_state 0 e"
  have "auth_step s ?s" using terminal_write [OF assms(2)] progress_none [OF e(1)] assms(3) by simp
  moreover have "en_id ?e = sid" "en_worker ?e = WFinishing" "en_terminal_write ?e = None"
    using e(2) assms(3) by (simp_all add: write_terminal_state_def split: option.split)
  moreover from this have "task ?s sid ?e" using task_upd [OF assms(2), of "write_terminal_state 0"] by simp
  ultimately have "auth_step\<^sup>*\<^sup>* s (upd sid (phase WDone) (?s\<lparr>sy_lock := None\<rparr>))"
    using release by (meson converse_rtranclp_into_rtranclp r_into_rtranclp)
  then show ?thesis by (auto simp: upd_def)
qed

lemma committing_releases:
  assumes "auth_ok s" and "task s sid e" and "en_worker e \<in> {WSaving, WReloading}"
  shows "\<exists>s'. auth_step\<^sup>*\<^sup>* s s' \<and> sy_lock s' = None"
proof -
  let ?f = "\<lambda>e. phase WFinishing (fst (win_terminal LcCommitting (AsFailed []) False e))"
  have step: "auth_step s (upd sid ?f s)" using assms(2,3) save_failed reloaded by blast
  have "en_id (?f e) = sid" using task_ok [OF assms(1,2)] by (simp add: win_terminal_def)
  from task_upd [OF assms(2), of ?f, OF this] have "task (upd sid ?f s) sid (?f e)" .
  from finishing_releases [OF auth_ok_step [OF step assms(1)] this] step show ?thesis
    by (auto intro: converse_rtranclp_into_rtranclp)
qed

text \<open>
  The mutation lock is never lost: from every reachable state the system can get to one where the
  lock is free, by finishing the commit, the logout or the reload that has it, so no later login,
  logout or reload is blocked for good.
\<close>

theorem auth_lock_released:
  assumes "auth_reachable s"
  shows "\<exists>s'. auth_step\<^sup>*\<^sup>* s s' \<and> sy_lock s' = None"
proof -
  note ok = reachable_ok [OF assms]
  show ?thesis
  proof (cases "sy_lock s")
    case (Some h)
    show ?thesis
    proof (cases h)
      case (HeldByWorker sid)
      with Some ok obtain e where e: "e \<in> set (sy_tasks s)" "en_id e = sid" by (auto simp: auth_ok_def)
      then have "task s sid e" using ok by (simp add: task_def row_at_iff auth_ok_def)
      moreover have "entry_ok (sy_lock s) (sy_log s) e" using ok e by (simp add: auth_ok_def)
      then have "en_worker e \<in> {WSaving, WReloading, WFinishing}"
        using Some HeldByWorker e(2) unfolding entry_ok_def lock_ok_def by blast
      ultimately show ?thesis using finishing_releases [OF ok] committing_releases [OF ok] by blast
    next
      case (HeldByLogout p)
      then have "auth_step s (s\<lparr>sy_lock := None\<rparr>)" using Some logged_out by simp
      then show ?thesis by (intro exI [of _ "s\<lparr>sy_lock := None\<rparr>"]) auto
    next
      case HeldByReload
      then have "auth_step s (s\<lparr>sy_lock := None\<rparr>)" using Some reload_end by simp
      then show ?thesis by (intro exI [of _ "s\<lparr>sy_lock := None\<rparr>"]) auto
    qed
  qed auto
qed

theorem auth_lock_released_witness: "\<exists>s'. auth_step\<^sup>*\<^sup>* sample_login s' \<and> sy_lock s' = None"
  by (rule auth_lock_released [OF sample_login_reachable])

section \<open>The API calls are runs of the machine\<close>

definition settle_entry :: "i64 \<Rightarrow> auth_session_state \<Rightarrow> auth_entry \<Rightarrow> auth_entry" where
  "settle_entry now st e = fst (transition_active_to_terminal now st True e)"

lemma update_entry_cong:
  assumes "distinct (map en_id t)" and "e \<in> set t" and "en_id e = sid" and "f e = g e"
  shows "update_entry sid f t = update_entry sid g t"
proof -
  have "x = e" if "x \<in> set t" "en_id x = sid" for x
    using assms(1-3) that by (metis (no_types, lifting) distinct_map inj_onD)
  then show ?thesis using assms(4) by (auto simp: update_entry_def update_at_def)
qed

lemma settle_entry_run:
  assumes "auth_ok s" and "e \<in> set (sy_tasks s)" and "en_id e = sid" and "en_progress_write e = None"
    and "en_lifecycle e = LcActive \<Longrightarrow> auth_step s (upd sid (\<lambda>e. fst (win_terminal LcActive st True e)) s)"
  shows "auth_step\<^sup>*\<^sup>* s (s\<lparr>sy_tasks := update_entry sid (settle_entry now st) (sy_tasks s)\<rparr>)"
proof -
  have d: "distinct (map en_id (sy_tasks s))" using assms(1) by (simp add: auth_ok_def)
  let ?w = "\<lambda>e. fst (win_terminal LcActive st True e)"
  show ?thesis
  proof (cases "en_lifecycle e = LcActive")
    case True
    have t: "task s sid e" using d assms(2,3) by (simp add: task_def row_at_iff)
    have "task (upd sid ?w s) sid (?w e)" using task_upd [OF t, of ?w] assms(3) by (simp add: win_terminal_def)
    then have "auth_step (upd sid ?w s) (upd sid (write_terminal_state now) (upd sid ?w s))"
      by (rule auth_step.terminal_write) (simp add: assms(4))
    with assms(5) [OF True] have "auth_step\<^sup>*\<^sup>* s (upd sid (write_terminal_state now) (upd sid ?w s))" by auto
    moreover have "update_entry sid (write_terminal_state now) (update_entry sid ?w (sy_tasks s)) =
        update_entry sid (\<lambda>e. write_terminal_state now (?w e)) (sy_tasks s)"
      by (simp add: update_entry_def update_at_def win_terminal_def)
    moreover have "\<dots> = update_entry sid (settle_entry now st) (sy_tasks s)"
      using True by (intro update_entry_cong [OF d assms(2,3)])
        (simp add: settle_entry_def transition_active_to_terminal_def win_terminal_def)
    ultimately show ?thesis by (simp add: upd_def)
  next
    case False
    then have "update_entry sid (settle_entry now st) (sy_tasks s) = update_entry sid (\<lambda>e. e) (sy_tasks s)"
      by (intro update_entry_cong [OF d assms(2,3)])
        (simp add: settle_entry_def transition_active_to_terminal_def win_terminal_def)
    then show ?thesis by (simp add: update_entry_def update_at_def)
  qed
qed

text \<open>
  The calls of the API are runs of the interleaving machine: cancelling or polling a session, when
  no progress report is being written, changes the table exactly as some sequence of its steps does, so
  that what holds of all interleavings holds of the calls.
\<close>

theorem auth_calls_are_runs:
  assumes "auth_reachable s" and "\<forall>e \<in> set (sy_tasks s). en_id e = sid \<longrightarrow> en_progress_write e = None"
  shows "auth_step\<^sup>*\<^sup>* s (s\<lparr>sy_tasks := fst (auth_cancel now sid (sy_tasks s))\<rparr>) \<and>
    auth_step\<^sup>*\<^sup>* s (s\<lparr>sy_tasks := fst (auth_poll now sid (sy_tasks s))\<rparr>)"
proof -
  let ?s = "s\<lparr>sy_tasks := prune_expired_terminals now (sy_tasks s)\<rparr>"
  have p: "auth_step s ?s" by (rule auth_step.prune)
  have ok: "auth_ok ?s" by (rule auth_ok_step [OF p reachable_ok [OF assms(1)]])
  show ?thesis
  proof (cases "row_at en_id sid (listed (sy_tasks ?s))")
    case None
    then show ?thesis using p by (simp add: auth_cancel_def auth_poll_def Let_def)
  next
    case (Some e)
    then have e: "e \<in> set (sy_tasks ?s)" "en_listed e" "en_id e = sid" by (auto simp: listed_def dest!: row_at_SomeD)
    then have pw: "en_progress_write e = None" using assms(2) by (auto simp: prune_map pruned_def split: if_splits)
    have t: "task ?s sid e" using e ok by (simp add: task_def row_at_iff auth_ok_def)
    have "auth_step\<^sup>*\<^sup>* ?s (?s\<lparr>sy_tasks := update_entry sid (settle_entry now AsCancelled) (sy_tasks ?s)\<rparr>)"
      using auth_step.cancel [OF t e(2)] by (intro settle_entry_run [OF ok e(1,3) pw]) (simp add: request_cancel_def [abs_def])
    moreover have "auth_step\<^sup>*\<^sup>* ?s (?s\<lparr>sy_tasks := update_entry sid (expire_if_needed now) (sy_tasks ?s)\<rparr>)"
    proof (cases "expired now e")
      case True
      have "update_entry sid (expire_if_needed now) (sy_tasks ?s) = update_entry sid (settle_entry now SESSION_EXPIRED) (sy_tasks ?s)"
        using ok True by (intro update_entry_cong [OF _ e(1,3)]) (simp_all add: auth_ok_def expire_if_needed_def settle_entry_def)
      with settle_entry_run [OF ok e(1,3) pw, of SESSION_EXPIRED now] auth_step.expire [OF t e(2) True] show ?thesis by simp
    next
      case False
      have "update_entry sid (expire_if_needed now) (sy_tasks ?s) = update_entry sid (\<lambda>e. e) (sy_tasks ?s)"
        using ok False by (intro update_entry_cong [OF _ e(1,3)]) (simp_all add: auth_ok_def expire_if_needed_def)
      then show ?thesis by (simp add: update_entry_def update_at_def)
    qed
    ultimately show ?thesis using p Some
      by (auto simp: auth_cancel_def auth_poll_def Let_def cancel_entry_def [abs_def] settle_entry_def [abs_def]
          intro: converse_rtranclp_into_rtranclp)
  qed
qed

theorem auth_calls_are_runs_witness:
  "snd (auth_cancel 5 ''s'' (sy_tasks sample_login)) = Ok (new_session_data ''s'' 0 ''p'' ''dev_app'' AsCancelled\<lparr>sd_expires_at_ms := 300005\<rparr>) \<and>
   auth_step\<^sup>*\<^sup>* sample_login (sample_login\<lparr>sy_tasks := fst (auth_cancel 5 ''s'' (sy_tasks sample_login))\<rparr>)"
proof
  show "snd (auth_cancel 5 ''s'' (sy_tasks sample_login)) =
      Ok (new_session_data ''s'' 0 ''p'' ''dev_app'' AsCancelled\<lparr>sd_expires_at_ms := 300005\<rparr>)" by code_simp
  show "auth_step\<^sup>*\<^sup>* sample_login (sample_login\<lparr>sy_tasks := fst (auth_cancel 5 ''s'' (sy_tasks sample_login))\<rparr>)"
    using auth_calls_are_runs [OF sample_login_reachable, of "''s''" 5] by (simp add: sample_login_eq)
qed

end
