(* ===== verification/Reminders.thy ===== *)
theory Reminders
  imports Media Keyed_Table
begin

text \<open>
  Listening reminders: the schedule and inbox tables (\<open>spotuify-store/src/lib.rs\<close>), the scheduler that
  wakes at the nearest due time, fires what is due and moves recurring reminders on
  (\<open>spotuify-daemon/src/reminders.rs\<close>), and the requests that create, cancel and act on them
  (\<open>handlers/reminders.rs\<close>). Time is an argument; the calendar arithmetic of the date library is a
  parameter; a storage call that may fail is a flag of the environment.
\<close>

section \<open>Rows\<close>

datatype reminder_state = RemActive | RemCompleted | RemCancelled

primrec reminder_state_label :: "reminder_state \<Rightarrow> string" where
  "reminder_state_label RemActive = ''active''"
| "reminder_state_label RemCompleted = ''completed''"
| "reminder_state_label RemCancelled = ''cancelled''"

definition reminder_state_from_label :: "string \<Rightarrow> reminder_state" where
  "reminder_state_from_label label =
     (if label = ''completed'' then RemCompleted else if label = ''cancelled'' then RemCancelled else RemActive)"

datatype notification_state = NsUnseen | NsSeen | NsSnoozed | NsDismissed | NsDone

primrec notification_state_label :: "notification_state \<Rightarrow> string" where
  "notification_state_label NsUnseen = ''unseen''"
| "notification_state_label NsSeen = ''seen''"
| "notification_state_label NsSnoozed = ''snoozed''"
| "notification_state_label NsDismissed = ''dismissed''"
| "notification_state_label NsDone = ''done''"

definition notification_state_from_label :: "string \<Rightarrow> notification_state" where
  "notification_state_from_label label =
     (if label = ''seen'' then NsSeen else if label = ''snoozed'' then NsSnoozed
      else if label = ''dismissed'' then NsDismissed else if label = ''done'' then NsDone else NsUnseen)"

interpretation reminder_state_codec: label_codec reminder_state_label "\<lambda>s. Some (reminder_state_from_label s)"
proof
  fix x
  show "Some (reminder_state_from_label (reminder_state_label x)) = Some x"
    by (cases x) (simp_all add: reminder_state_from_label_def)
qed

interpretation notification_state_codec: label_codec notification_state_label "\<lambda>s. Some (notification_state_from_label s)"
proof
  fix x
  show "Some (notification_state_from_label (notification_state_label x)) = Some x"
    by (cases x) (simp_all add: notification_state_from_label_def)
qed

record reminder =
  rm_id :: string
  rm_media_uri :: string
  rm_media_kind :: media_kind
  rm_name :: string
  rm_subtitle :: string
  rm_image_url :: "string option"
  rm_anchor_at_ms :: i64
  rm_recurrence :: recurrence
  rm_tz :: string
  rm_next_due_at_ms :: i64
  rm_state :: reminder_state
  rm_message :: "string option"
  rm_created_at_ms :: i64

record notification =
  nt_id :: string
  nt_reminder_id :: string
  nt_media_uri :: string
  nt_media_kind :: media_kind
  nt_name :: string
  nt_subtitle :: string
  nt_image_url :: "string option"
  nt_due_at_ms :: i64
  nt_fired_at_ms :: i64
  nt_state :: notification_state
  nt_snoozed_until_ms :: "i64 option"
  nt_acted :: "string option"
  nt_message :: "string option"

section \<open>Recurrence\<close>

definition DAY_MS :: i64 where "DAY_MS = 86400000"

text \<open>The parameter adds one calendar month to a timestamp, when the date library can.\<close>

definition recurrence_step :: "(i64 \<Rightarrow> i64 option) \<Rightarrow> i64 \<Rightarrow> recurrence \<Rightarrow> i64" where
  "recurrence_step add_month from_ms r = (case r of
       Daily \<Rightarrow> wrap_i64 (from_ms + DAY_MS)
     | Weekly \<Rightarrow> wrap_i64 (from_ms + 7 * DAY_MS)
     | Monthly \<Rightarrow> (case add_month from_ms of Some t \<Rightarrow> t | None \<Rightarrow> wrap_i64 (from_ms + 30 * DAY_MS))
     | RecurNone \<Rightarrow> wrap_i64 (from_ms + DAY_MS))"

fun skip_missed :: "(i64 \<Rightarrow> i64) \<Rightarrow> nat \<Rightarrow> i64 \<Rightarrow> i64 \<Rightarrow> i64" where
  "skip_missed st 0 now next_ms = next_ms"
| "skip_missed st (Suc n) now next_ms = (if now < next_ms then next_ms else skip_missed st n now (st next_ms))"

definition MAX_SKIPPED :: nat where "MAX_SKIPPED = 10000"

definition next_occurrence :: "(i64 \<Rightarrow> i64 option) \<Rightarrow> i64 \<Rightarrow> i64 \<Rightarrow> recurrence \<Rightarrow> i64" where
  "next_occurrence add_month now from_ms r =
     skip_missed (\<lambda>t. recurrence_step add_month t r) MAX_SKIPPED now (recurrence_step add_month from_ms r)"

definition initial_next_due :: "(i64 \<Rightarrow> i64 option) \<Rightarrow> i64 \<Rightarrow> i64 \<Rightarrow> recurrence \<Rightarrow> i64" where
  "initial_next_due add_month now anchor_at_ms r =
     (if now < anchor_at_ms \<or> \<not> is_recurring r then anchor_at_ms else next_occurrence add_month now anchor_at_ms r)"

section \<open>The tables\<close>

datatype reminder_event = ReminderDue notification | RemindersChanged string

record rem_store =
  rs_reminders :: "reminder list"
  rs_notifications :: "notification list"

definition create_reminder :: "reminder \<Rightarrow> rem_store \<Rightarrow> (rem_store, string) result" where
  "create_reminder r st =
     (if row_at rm_id (rm_id r) (rs_reminders st) \<noteq> None then Err ''UNIQUE constraint failed''
      else Ok (st\<lparr>rs_reminders := rs_reminders st @ [r]\<rparr>))"

definition list_reminders :: "bool \<Rightarrow> rem_store \<Rightarrow> reminder list" where
  "list_reminders include_inactive st = sort_key rm_next_due_at_ms
     (filter (\<lambda>r. include_inactive \<or> rm_state r = RemActive) (rs_reminders st))"

definition get_reminder :: "string \<Rightarrow> rem_store \<Rightarrow> reminder option" where
  "get_reminder i st = row_at rm_id i (rs_reminders st)"

definition set_reminder :: "string \<Rightarrow> (reminder \<Rightarrow> reminder) \<Rightarrow> rem_store \<Rightarrow> rem_store" where
  "set_reminder i f st = st\<lparr>rs_reminders := update_at rm_id i (\<lambda>_. True) f (rs_reminders st)\<rparr>"

definition cancel_reminder :: "string \<Rightarrow> rem_store \<Rightarrow> rem_store" where
  "cancel_reminder i = set_reminder i (\<lambda>r. r\<lparr>rm_state := RemCancelled\<rparr>)"

definition is_due :: "i64 \<Rightarrow> reminder \<Rightarrow> bool" where
  "is_due now r \<longleftrightarrow> rm_state r = RemActive \<and> rm_next_due_at_ms r \<le> now"

definition due_reminders :: "i64 \<Rightarrow> rem_store \<Rightarrow> reminder list" where
  "due_reminders now st = sort_key rm_next_due_at_ms (filter (is_due now) (rs_reminders st))"

definition advance_reminder :: "string \<Rightarrow> i64 \<Rightarrow> rem_store \<Rightarrow> rem_store" where
  "advance_reminder i next_due = set_reminder i (\<lambda>r. r\<lparr>rm_next_due_at_ms := next_due\<rparr>)"

definition complete_reminder :: "string \<Rightarrow> rem_store \<Rightarrow> rem_store" where
  "complete_reminder i = set_reminder i (\<lambda>r. r\<lparr>rm_state := RemCompleted\<rparr>)"

definition insert_notification :: "notification \<Rightarrow> rem_store \<Rightarrow> rem_store option" where
  "insert_notification n st =
     (if row_at nt_id (nt_id n) (rs_notifications st) \<noteq> None then None
      else Some (st\<lparr>rs_notifications := rs_notifications st @ [n]\<rparr>))"

definition list_notifications :: "bool \<Rightarrow> rem_store \<Rightarrow> notification list" where
  "list_notifications include_archived st = rev (sort_key nt_due_at_ms
     (rev (filter (\<lambda>n. include_archived \<or> nt_state n \<notin> {NsDismissed, NsDone}) (rs_notifications st))))"

definition get_notification :: "string \<Rightarrow> rem_store \<Rightarrow> notification option" where
  "get_notification i st = row_at nt_id i (rs_notifications st)"

definition set_notification_state ::
    "string \<Rightarrow> notification_state \<Rightarrow> i64 option \<Rightarrow> string option \<Rightarrow> rem_store \<Rightarrow> rem_store" where
  "set_notification_state i state snoozed_until acted st =
     st\<lparr>rs_notifications := update_at nt_id i (\<lambda>_. True) (\<lambda>n. n\<lparr>nt_state := state, nt_snoozed_until_ms := snoozed_until,
       nt_acted := (case acted of Some a \<Rightarrow> Some a | None \<Rightarrow> nt_acted n)\<rparr>) (rs_notifications st)\<rparr>"

definition snooze_over :: "i64 \<Rightarrow> notification \<Rightarrow> bool" where
  "snooze_over now n \<longleftrightarrow> nt_state n = NsSnoozed \<and>
     (case nt_snoozed_until_ms n of Some t \<Rightarrow> t \<le> now | None \<Rightarrow> False)"

definition due_snoozed_notifications :: "i64 \<Rightarrow> rem_store \<Rightarrow> notification list" where
  "due_snoozed_notifications now st =
     sort_key (\<lambda>n. the (nt_snoozed_until_ms n)) (filter (snooze_over now) (rs_notifications st))"

definition wake_times :: "rem_store \<Rightarrow> i64 list" where
  "wake_times st = map rm_next_due_at_ms (filter (\<lambda>r. rm_state r = RemActive) (rs_reminders st)) @
     List.map_filter (\<lambda>n. if nt_state n = NsSnoozed then nt_snoozed_until_ms n else None) (rs_notifications st)"

definition next_reminder_wake_ms :: "rem_store \<Rightarrow> i64 option" where
  "next_reminder_wake_ms st = (if wake_times st = [] then None else Some (Min (set (wake_times st))))"

section \<open>The scheduler\<close>

text \<open>What one pass meets: the storage calls that succeed, the fresh ids and the clock it reads on the way.\<close>

record fire_env =
  fe_add_month :: "i64 \<Rightarrow> i64 option"
  fe_new_id :: "string \<Rightarrow> string"
  fe_clock :: "string \<Rightarrow> i64"
  fe_insert_ok :: "string \<Rightarrow> bool"
  fe_update_ok :: "string \<Rightarrow> bool"
  fe_refire_ok :: "string \<Rightarrow> bool"
  fe_due_query_ok :: bool
  fe_snoozed_query_ok :: bool

definition next_sleep :: "i64 \<Rightarrow> (i64 option, unit) result \<Rightarrow> nat" where
  "next_sleep now wake = (case wake of
       Ok (Some t) \<Rightarrow> if t \<le> now then 0 else nat (t - now)
     | Ok None \<Rightarrow> 3600 * 1000
     | Err _ \<Rightarrow> 60 * 1000)"

definition notification_of :: "fire_env \<Rightarrow> i64 \<Rightarrow> reminder \<Rightarrow> notification" where
  "notification_of env now r = \<lparr>nt_id = fe_new_id env (rm_id r), nt_reminder_id = rm_id r,
     nt_media_uri = rm_media_uri r, nt_media_kind = rm_media_kind r, nt_name = rm_name r,
     nt_subtitle = rm_subtitle r, nt_image_url = rm_image_url r, nt_due_at_ms = rm_next_due_at_ms r,
     nt_fired_at_ms = now, nt_state = NsUnseen, nt_snoozed_until_ms = None, nt_acted = None,
     nt_message = rm_message r\<rparr>"

definition following_due :: "fire_env \<Rightarrow> reminder \<Rightarrow> i64" where
  "following_due env r =
     next_occurrence (fe_add_month env) (fe_clock env (rm_id r)) (rm_next_due_at_ms r) (rm_recurrence r)"

definition fire_reminder ::
    "fire_env \<Rightarrow> i64 \<Rightarrow> reminder \<Rightarrow> rem_store \<times> reminder_event list \<Rightarrow> rem_store \<times> reminder_event list" where
  "fire_reminder env now r acc = (case acc of (st, evs) \<Rightarrow>
     (case (if fe_insert_ok env (rm_id r) then insert_notification (notification_of env now r) st else None) of
        None \<Rightarrow> (st, evs)
      | Some st' \<Rightarrow>
          (if \<not> fe_update_ok env (rm_id r) then st'
           else if is_recurring (rm_recurrence r) then advance_reminder (rm_id r) (following_due env r) st'
           else complete_reminder (rm_id r) st', evs @ [ReminderDue (notification_of env now r)])))"

definition refire_snoozed ::
    "fire_env \<Rightarrow> notification \<Rightarrow> rem_store \<times> reminder_event list \<Rightarrow> rem_store \<times> reminder_event list" where
  "refire_snoozed env n acc = (case acc of (st, evs) \<Rightarrow>
     (if fe_refire_ok env (nt_id n) then set_notification_state (nt_id n) NsUnseen None None st else st,
      evs @ [ReminderDue (n\<lparr>nt_state := NsUnseen, nt_snoozed_until_ms := None\<rparr>)]))"

definition fire_due :: "fire_env \<Rightarrow> i64 \<Rightarrow> rem_store \<Rightarrow> rem_store \<times> reminder_event list" where
  "fire_due env now st =
     (let due = if fe_due_query_ok env then due_reminders now st else [];
          (st1, evs1) = fold (fire_reminder env now) due (st, []);
          snoozed = if fe_snoozed_query_ok env then due_snoozed_notifications now st1 else []
      in fold (refire_snoozed env) snoozed (st1, evs1))"

section \<open>Requests\<close>

text \<open>
  Creating a reminder (the media snapshot is resolved by the caller), cancelling one, and the inbox
  actions that only change the tables; playing and queueing end in the same update once the player has
  taken the item.
\<close>

definition reminder_create ::
    "(i64 \<Rightarrow> i64 option) \<Rightarrow> string \<Rightarrow> i64 \<Rightarrow> string \<Rightarrow> media_kind \<times> string \<times> string \<times> string option \<Rightarrow> i64 \<Rightarrow> recurrence
      \<Rightarrow> string \<Rightarrow> string option \<Rightarrow> rem_store \<Rightarrow> (reminder \<times> rem_store \<times> reminder_event list, string) result" where
  "reminder_create add_month new_id now media_uri snapshot anchor_at_ms recur tz message st =
     (case snapshot of (kind, name, subtitle, image_url) \<Rightarrow>
        let r = \<lparr>rm_id = new_id, rm_media_uri = media_uri, rm_media_kind = kind, rm_name = name,
               rm_subtitle = subtitle, rm_image_url = image_url, rm_anchor_at_ms = anchor_at_ms,
               rm_recurrence = recur, rm_tz = tz,
               rm_next_due_at_ms = initial_next_due add_month now anchor_at_ms recur,
               rm_state = RemActive, rm_message = message, rm_created_at_ms = now\<rparr>
        in result_bind (create_reminder r st) (\<lambda>st'. Ok (r, st', [RemindersChanged ''created''])))"

definition reminder_cancel :: "string \<Rightarrow> rem_store \<Rightarrow> rem_store \<times> reminder_event list" where
  "reminder_cancel i st = (cancel_reminder i st, [RemindersChanged ''cancelled''])"

datatype notification_action = ActSeen | ActDismiss | ActSnooze | ActPlay | ActQueue

definition notification_update :: "i64 \<Rightarrow> notification_action \<Rightarrow> i64 option
    \<Rightarrow> notification_state \<times> i64 option \<times> string option" where
  "notification_update now action snooze_until = (case action of
       ActSeen \<Rightarrow> (NsSeen, None, None)
     | ActDismiss \<Rightarrow> (NsDismissed, None, None)
     | ActSnooze \<Rightarrow> (NsSnoozed, Some (case snooze_until of Some t \<Rightarrow> t | None \<Rightarrow> wrap_i64 (now + 3600000)), None)
     | ActPlay \<Rightarrow> (NsDone, None, Some ''played'')
     | ActQueue \<Rightarrow> (NsDone, None, Some ''queued''))"

text \<open>The player's part of an action may fail before the row is touched.\<close>

definition notification_act :: "i64 \<Rightarrow> string \<Rightarrow> notification_action \<Rightarrow> i64 option \<Rightarrow> (notification \<Rightarrow> (unit, string) result)
    \<Rightarrow> rem_store \<Rightarrow> (rem_store \<times> reminder_event list, string) result" where
  "notification_act now i action snooze_until perform st = (case get_notification i st of
       None \<Rightarrow> Err (''notification '' @ i @ '' not found'')
     | Some n \<Rightarrow> result_bind (if action \<in> {ActPlay, ActQueue} then perform n else Ok ()) (\<lambda>_.
         case notification_update now action snooze_until of (state, until, acted) \<Rightarrow>
           Ok (set_notification_state i state until acted st, [RemindersChanged ''notification-acted''])))"

end
