(* ===== verification/Reminder_Laws.thy ===== *)
theory Reminder_Laws
  imports Reminders
begin

text \<open>
  Laws of the reminder scheduler: the next occurrence of a recurring reminder, what one pass stores and
  announces, that it leaves nothing due, when it wakes, and what failed storage calls cost.
\<close>

section \<open>Occurrences\<close>

lemma skip_missed_iterates:
  "\<exists>k \<le> n. skip_missed g n now x = (g ^^ k) x \<and> (\<forall>j < k. (g ^^ j) x \<le> now) \<and> (k < n \<longrightarrow> now < (g ^^ k) x)"
proof (induction n arbitrary: x)
  case (Suc n)
  show ?case
  proof (cases "now < x")
    case True
    then show ?thesis by (intro exI [of _ 0]) simp
  next
    case False
    obtain k where k: "k \<le> n" "skip_missed g n now (g x) = (g ^^ k) (g x)"
      "\<forall>j < k. (g ^^ j) (g x) \<le> now" "k < n \<longrightarrow> now < (g ^^ k) (g x)"
      using Suc.IH by blast
    have "(g ^^ j) x \<le> now" if "j < Suc k" for j
      using that False k(3) by (cases j) (simp_all add: funpow_swap1)
    then show ?thesis
      using False k by (intro exI [of _ "Suc k"]) (simp add: funpow_swap1)
  qed
qed simp

text \<open>When every step advances by at least a day inside the range of the clock, the result is in the future.\<close>

lemma funpow_advances:
  assumes step: "\<And>t. from \<le> t \<Longrightarrow> t \<le> cap \<Longrightarrow> t + d \<le> g t" and "0 \<le> d"
    and low: "\<And>j. j < k \<Longrightarrow> (g ^^ j) from \<le> cap"
  shows "from + int k * d \<le> (g ^^ k) from"
  using low
proof (induction k)
  case (Suc k)
  have le: "from + int k * d \<le> (g ^^ k) from" using Suc by simp
  have "from \<le> (g ^^ k) from" using le \<open>0 \<le> d\<close> by (smt (verit) mult_nonneg_nonneg of_nat_0_le_iff)
  then have "(g ^^ k) from + d \<le> g ((g ^^ k) from)" using Suc.prems by (intro step) auto
  with le show ?case by (simp add: algebra_simps)
qed simp

lemma next_occurrence_iterates:
  assumes step: "\<And>t. from_ms \<le> t \<Longrightarrow> t \<le> max now from_ms \<Longrightarrow> t + DAY_MS \<le> recurrence_step am t r"
    and near: "now < from_ms + 10001 * DAY_MS"
  obtains k where "1 \<le> k" "next_occurrence am now from_ms r = ((\<lambda>t. recurrence_step am t r) ^^ k) from_ms"
    "now < next_occurrence am now from_ms r"
    "\<And>j. 1 \<le> j \<Longrightarrow> j < k \<Longrightarrow> ((\<lambda>t. recurrence_step am t r) ^^ j) from_ms \<le> now"
    "from_ms < next_occurrence am now from_ms r"
proof -
  define g where "g = (\<lambda>t. recurrence_step am t r)"
  obtain k where k: "k \<le> MAX_SKIPPED" "next_occurrence am now from_ms r = (g ^^ k) (g from_ms)"
    "\<forall>j < k. (g ^^ j) (g from_ms) \<le> now" "k < MAX_SKIPPED \<longrightarrow> now < (g ^^ k) (g from_ms)"
    using skip_missed_iterates [of MAX_SKIPPED g now "g from_ms"] by (auto simp: next_occurrence_def g_def)
  have below: "(g ^^ j) from_ms \<le> max now from_ms" if "j < Suc k" for j
    using that k(3) by (cases j) (auto simp: funpow_swap1 max_def)
  have far: "from_ms + int (Suc k) * DAY_MS \<le> (g ^^ Suc k) from_ms"
    by (rule funpow_advances [where cap = "max now from_ms"]) (use below step in \<open>auto simp: g_def DAY_MS_def\<close>)
  have "now < (g ^^ Suc k) from_ms"
  proof (cases "k < MAX_SKIPPED")
    case True
    then show ?thesis using k(4) by (simp add: funpow_swap1)
  next
    case False
    then have "k = 10000" using k(1) by (simp add: MAX_SKIPPED_def)
    then show ?thesis using far near by simp
  qed
  moreover have "from_ms < (g ^^ Suc k) from_ms" using far by (simp add: DAY_MS_def algebra_simps)
  moreover have "(g ^^ j) from_ms \<le> now" if "1 \<le> j" "j < Suc k" for j
    using that k(3) by (cases j) (auto simp: funpow_swap1)
  moreover have "next_occurrence am now from_ms r = (g ^^ Suc k) from_ms" using k(2) by (simp add: funpow_swap1)
  ultimately show thesis using that [of "Suc k"] by (simp add: g_def)
qed

definition fixed_period :: "recurrence \<Rightarrow> i64 option" where
  "fixed_period r = (case r of Daily \<Rightarrow> Some DAY_MS | Weekly \<Rightarrow> Some (7 * DAY_MS) | _ \<Rightarrow> None)"

lemma fixed_periodD:
  assumes "fixed_period r = Some p"
  shows "DAY_MS \<le> p" "p \<le> 7 * DAY_MS" "recurrence_step am t r = wrap_i64 (t + p)" "is_recurring r"
  using assms by (auto simp: fixed_period_def recurrence_step_def is_recurring_def DAY_MS_def split: recurrence.splits)

text \<open>
  A daily or weekly reminder moves to the first slot of its own grid that is still in the future, so a
  daemon that was down skips what it missed, provided fewer than 10,002 days have passed.
\<close>

theorem next_occurrence_correct:
  assumes "fixed_period r = Some p" "in_i64 from_ms" "in_i64 now" "now < from_ms + 10001 * DAY_MS"
    "max now from_ms + p \<le> i64_max"
  shows "\<exists>k \<ge> 1. next_occurrence am now from_ms r = from_ms + int k * p \<and> now < from_ms + int k * p
    \<and> (\<forall>j \<ge> 1. now < from_ms + int j * p \<longrightarrow> k \<le> j)"
proof -
  note p = fixed_periodD [OF assms(1)]
  have adv: "recurrence_step am t r = t + p" if "from_ms \<le> t" "t \<le> max now from_ms" for t
    using that assms(2,5) p(1) by (simp add: p(3) DAY_MS_def in_i64_def wrap_i64_id)
  have step: "t + DAY_MS \<le> recurrence_step am t r" if "from_ms \<le> t" "t \<le> max now from_ms" for t
    using adv [OF that] p(1) by simp
  obtain k where k: "1 \<le> k" "next_occurrence am now from_ms r = ((\<lambda>t. recurrence_step am t r) ^^ k) from_ms"
    "now < next_occurrence am now from_ms r"
    "\<And>j. 1 \<le> j \<Longrightarrow> j < k \<Longrightarrow> ((\<lambda>t. recurrence_step am t r) ^^ j) from_ms \<le> now"
    using next_occurrence_iterates [OF step assms(4)] by metis
  have grid: "((\<lambda>t. recurrence_step am t r) ^^ j) from_ms = from_ms + int j * p" if "j \<le> k" for j
    using that
  proof (induction j)
    case (Suc j)
    have "0 \<le> int j * p" using p(1) by (simp add: DAY_MS_def)
    then have "recurrence_step am (from_ms + int j * p) r = from_ms + int j * p + p"
      using Suc k(4) [of j] by (intro adv) (cases "j = 0"; simp)+
    with Suc show ?case by (simp add: algebra_simps)
  qed simp
  have "k \<le> j" if "1 \<le> j" "now < from_ms + int j * p" for j
    using that k(4) [of j] grid [of j] by force
  then show ?thesis using k(1-3) grid [of k] by auto
qed

theorem next_occurrence_correct_witness:
  "next_occurrence (\<lambda>_. None) (20 * DAY_MS) 5 Weekly = 5 + 21 * DAY_MS"
proof -
  obtain k where k: "1 \<le> k" "next_occurrence (\<lambda>_. None) (20 * DAY_MS) 5 Weekly = 5 + int k * (7 * DAY_MS)"
    "20 * DAY_MS < 5 + int k * (7 * DAY_MS)" "\<forall>j \<ge> 1. 20 * DAY_MS < 5 + int j * (7 * DAY_MS) \<longrightarrow> k \<le> j"
    using next_occurrence_correct [of Weekly "7 * DAY_MS" 5 "20 * DAY_MS" "\<lambda>_. None"]
    by (auto simp: fixed_period_def in_i64_def i64_min_def i64_max_def DAY_MS_def)
  have "k \<le> 3" using k(4) [rule_format, of 3] by (simp add: DAY_MS_def)
  moreover have "3 \<le> k" using k(3) by (simp add: DAY_MS_def)
  ultimately show ?thesis using k(2) by simp
qed

section \<open>One pass of the scheduler\<close>

definition fires :: "fire_env \<Rightarrow> reminder \<Rightarrow> bool" where
  "fires env r \<longleftrightarrow> fe_insert_ok env (rm_id r)"

definition after_fire :: "fire_env \<Rightarrow> reminder \<Rightarrow> reminder" where
  "after_fire env r =
     (if \<not> fires env r \<or> \<not> fe_update_ok env (rm_id r) then r
      else if is_recurring (rm_recurrence r) then r\<lparr>rm_next_due_at_ms := following_due env r\<rparr>
      else r\<lparr>rm_state := RemCompleted\<rparr>)"

definition fresh_ids :: "fire_env \<Rightarrow> reminder list \<Rightarrow> rem_store \<Rightarrow> bool" where
  "fresh_ids env rs st \<longleftrightarrow> distinct (map (fe_new_id env \<circ> rm_id) rs) \<and>
     (\<forall>r \<in> set rs. fe_new_id env (rm_id r) \<notin> nt_id ` set (rs_notifications st))"

lemma rm_id_after_fire [simp]: "rm_id (after_fire env r) = rm_id r"
  by (simp add: after_fire_def)

lemma nt_id_notification_of [simp]: "nt_id (notification_of env now r) = fe_new_id env (rm_id r)"
  by (simp add: notification_of_def)

lemma set_reminder_rows:
  "rs_reminders (set_reminder i f st) = map (\<lambda>r. if rm_id r = i then f r else r) (rs_reminders st)"
  "rs_notifications (set_reminder i f st) = rs_notifications st"
  by (simp_all add: set_reminder_def update_at_def)

lemma fire_reminder_eq:
  assumes "distinct (map rm_id (rs_reminders st))" "r \<in> set (rs_reminders st)"
    "fe_new_id env (rm_id r) \<notin> nt_id ` set (rs_notifications st)"
  shows "fire_reminder env now r (st, evs) =
    (\<lparr>rs_reminders = map (\<lambda>x. if rm_id x = rm_id r then after_fire env x else x) (rs_reminders st),
      rs_notifications = rs_notifications st @ (if fires env r then [notification_of env now r] else [])\<rparr>,
     evs @ (if fires env r then [ReminderDue (notification_of env now r)] else []))"
proof -
  have same: "x = r" if "x \<in> set (rs_reminders st)" "rm_id x = rm_id r" for x
    using that assms(1,2) by (auto simp: distinct_map dest: inj_onD)
  have upd: "map (\<lambda>x. if rm_id x = rm_id r then f x else x) (rs_reminders st) =
      map (\<lambda>x. if rm_id x = rm_id r then after_fire env x else x) (rs_reminders st)" if "f r = after_fire env r" for f
    using same that by auto
  have ok: "row_at nt_id (fe_new_id env (rm_id r)) (rs_notifications st) = None"
    using assms(3) by (simp add: row_at_None_iff)
  have stay: "rs_reminders st = map (\<lambda>x. if rm_id x = rm_id r then after_fire env x else x) (rs_reminders st)"
    if "after_fire env r = r"
    using upd [of "\<lambda>x. x"] that by simp
  show ?thesis
  proof (cases "fires env r")
    case False
    then have "after_fire env r = r" by (simp add: after_fire_def)
    with False stay show ?thesis by (simp add: fire_reminder_def fires_def)
  next
    case True
    note True [unfolded fires_def, simp]
    show ?thesis
    proof (cases "fe_update_ok env (rm_id r)")
      case False
      then have "after_fire env r = r" by (simp add: after_fire_def)
      with False stay True show ?thesis by (simp add: fire_reminder_def insert_notification_def ok)
    next
      case upd_ok: True
      show ?thesis
      proof (cases "is_recurring (rm_recurrence r)")
        case True
        then show ?thesis using upd [of "\<lambda>x. x\<lparr>rm_next_due_at_ms := following_due env r\<rparr>"] upd_ok
          by (auto simp: fire_reminder_def insert_notification_def ok advance_reminder_def set_reminder_rows
              after_fire_def fires_def intro!: rem_store.equality)
      next
        case False
        then show ?thesis using upd [of "\<lambda>x. x\<lparr>rm_state := RemCompleted\<rparr>"] upd_ok
          by (auto simp: fire_reminder_def insert_notification_def ok complete_reminder_def set_reminder_rows
              after_fire_def fires_def intro!: rem_store.equality)
      qed
    qed
  qed
qed

lemma fire_fold_eq:
  assumes "distinct (map rm_id (rs_reminders st))" "set rs \<subseteq> set (rs_reminders st)" "distinct (map rm_id rs)"
    "fresh_ids env rs st"
  shows "fold (fire_reminder env now) rs (st, evs) =
    (\<lparr>rs_reminders = map (\<lambda>x. if rm_id x \<in> rm_id ` set rs then after_fire env x else x) (rs_reminders st),
      rs_notifications = rs_notifications st @ map (notification_of env now) (filter (fires env) rs)\<rparr>,
     evs @ map (\<lambda>r. ReminderDue (notification_of env now r)) (filter (fires env) rs))"
  using assms
proof (induction rs arbitrary: st evs)
  case (Cons r rs)
  define st' where "st' = fst (fire_reminder env now r (st, evs))"
  have r: "r \<in> set (rs_reminders st)" using Cons.prems(2) by simp
  have new: "fe_new_id env (rm_id r) \<notin> nt_id ` set (rs_notifications st)" using Cons.prems(4) by (simp add: fresh_ids_def)
  note one = fire_reminder_eq [OF Cons.prems(1) r new, of now evs]
  have st': "rs_reminders st' = map (\<lambda>x. if rm_id x = rm_id r then after_fire env x else x) (rs_reminders st)"
    "rs_notifications st' = rs_notifications st @ (if fires env r then [notification_of env now r] else [])"
    by (simp_all add: st'_def one)
  have ids: "map rm_id (rs_reminders st') = map rm_id (rs_reminders st)" by (simp add: st')
  have sub: "set rs \<subseteq> set (rs_reminders st')"
  proof
    fix x assume x: "x \<in> set rs"
    then have "rm_id x \<noteq> rm_id r" using Cons.prems(3) by (metis distinct.simps(2) imageI list.simps(9) set_map)
    then show "x \<in> set (rs_reminders st')" using x Cons.prems(2) by (auto simp: st' image_iff intro!: bexI [of _ x])
  qed
  have fresh: "fresh_ids env rs st'"
    using Cons.prems(4) by (auto simp: fresh_ids_def st' image_iff)
  have "fold (fire_reminder env now) (r # rs) (st, evs) =
      fold (fire_reminder env now) rs (st', evs @ (if fires env r then [ReminderDue (notification_of env now r)] else []))"
    by (simp add: one st'_def)
  also have "\<dots> = (\<lparr>rs_reminders = map (\<lambda>x. if rm_id x \<in> rm_id ` set rs then after_fire env x else x) (rs_reminders st'),
      rs_notifications = rs_notifications st' @ map (notification_of env now) (filter (fires env) rs)\<rparr>,
     (evs @ (if fires env r then [ReminderDue (notification_of env now r)] else [])) @
       map (\<lambda>r. ReminderDue (notification_of env now r)) (filter (fires env) rs))"
    using Cons.prems(3) by (intro Cons.IH) (simp_all add: ids Cons.prems(1) sub fresh)
  also have "map (\<lambda>x. if rm_id x \<in> rm_id ` set rs then after_fire env x else x) (rs_reminders st') =
      map (\<lambda>x. if rm_id x \<in> rm_id ` set (r # rs) then after_fire env x else x) (rs_reminders st)"
    using Cons.prems(3) by (auto simp: st')
  finally show ?case by (simp add: st')
qed simp

definition after_refire :: "fire_env \<Rightarrow> i64 \<Rightarrow> notification \<Rightarrow> notification" where
  "after_refire env now n = (if snooze_over now n \<and> fe_refire_ok env (nt_id n)
     then n\<lparr>nt_state := NsUnseen, nt_snoozed_until_ms := None\<rparr> else n)"

lemma refire_step:
  "refire_snoozed env n (st, evs) =
    (st\<lparr>rs_notifications := map (\<lambda>x. if nt_id x = nt_id n \<and> fe_refire_ok env (nt_id x)
        then x\<lparr>nt_state := NsUnseen, nt_snoozed_until_ms := None\<rparr> else x) (rs_notifications st)\<rparr>,
     evs @ [ReminderDue (n\<lparr>nt_state := NsUnseen, nt_snoozed_until_ms := None\<rparr>)])"
proof (cases "fe_refire_ok env (nt_id n)")
  case True
  then have "set_notification_state (nt_id n) NsUnseen None None st =
     st\<lparr>rs_notifications := map (\<lambda>x. if nt_id x = nt_id n \<and> fe_refire_ok env (nt_id x)
        then x\<lparr>nt_state := NsUnseen, nt_snoozed_until_ms := None\<rparr> else x) (rs_notifications st)\<rparr>"
    by (auto simp: set_notification_state_def update_at_def intro!: rem_store.equality)
  with True show ?thesis by (simp add: refire_snoozed_def)
next
  case False
  then have "map (\<lambda>x. if nt_id x = nt_id n \<and> fe_refire_ok env (nt_id x)
        then x\<lparr>nt_state := NsUnseen, nt_snoozed_until_ms := None\<rparr> else x) (rs_notifications st) = rs_notifications st"
    by (intro map_idI) auto
  with False show ?thesis by (simp add: refire_snoozed_def)
qed

lemma refire_fold_rows:
  "fold (refire_snoozed env) ns (st, evs) =
    (st\<lparr>rs_notifications := map (\<lambda>n. if nt_id n \<in> nt_id ` set ns \<and> fe_refire_ok env (nt_id n)
        then n\<lparr>nt_state := NsUnseen, nt_snoozed_until_ms := None\<rparr> else n) (rs_notifications st)\<rparr>,
     evs @ map (\<lambda>n. ReminderDue (n\<lparr>nt_state := NsUnseen, nt_snoozed_until_ms := None\<rparr>)) ns)"
proof (induction ns arbitrary: st evs)
  case Nil
  show ?case by (simp add: map_idI)
next
  case (Cons n ns)
  show ?case
    by (simp add: refire_step Cons.IH, intro rem_store.equality) auto
qed

lemma due_reminders_props:
  assumes "distinct (map rm_id (rs_reminders st))"
  shows "set (due_reminders now st) = {r \<in> set (rs_reminders st). is_due now r}"
    "distinct (map rm_id (due_reminders now st))"
proof -
  show "set (due_reminders now st) = {r \<in> set (rs_reminders st). is_due now r}"
    by (auto simp: due_reminders_def)
  show "distinct (map rm_id (due_reminders now st))"
    using distinct_keys_filter [OF assms, of "is_due now"] by (simp add: due_reminders_def distinct_map)
qed

lemma new_notification_not_snoozed: "\<not> snooze_over t (notification_of env now r)"
  by (simp add: snooze_over_def notification_of_def)

definition healthy_pass :: "fire_env \<Rightarrow> i64 \<Rightarrow> rem_store \<Rightarrow> bool" where
  "healthy_pass env now st \<longleftrightarrow> distinct (map rm_id (rs_reminders st)) \<and> distinct (map nt_id (rs_notifications st)) \<and>
     fresh_ids env (due_reminders now st) st \<and> fe_due_query_ok env \<and> fe_snoozed_query_ok env"

lemma due_snoozed_same_id:
  assumes "distinct (map nt_id ns)" "n \<in> set ns"
  shows "nt_id n \<in> nt_id ` {x \<in> set ns. snooze_over now x} \<longleftrightarrow> snooze_over now n"
  using assms by (auto simp: distinct_map dest: inj_onD)

text \<open>
  C33: One pass of the scheduler with readable tables stores and announces one notification for every due
  reminder whose insert succeeds, moves exactly the reminders that fired and whose update succeeded, returns
  the snoozed notifications whose time is over to the inbox, and changes nothing else.
\<close>

theorem due_reminders_fire_once:
  assumes "healthy_pass env now st"
  shows "fire_due env now st =
    (\<lparr>rs_reminders = map (\<lambda>r. if is_due now r then after_fire env r else r) (rs_reminders st),
      rs_notifications = map (after_refire env now) (rs_notifications st) @
        map (notification_of env now) (filter (fires env) (due_reminders now st))\<rparr>,
     map (\<lambda>r. ReminderDue (notification_of env now r)) (filter (fires env) (due_reminders now st)) @
     map (\<lambda>n. ReminderDue (n\<lparr>nt_state := NsUnseen, nt_snoozed_until_ms := None\<rparr>)) (due_snoozed_notifications now st))"
proof -
  have h: "distinct (map rm_id (rs_reminders st))" "distinct (map nt_id (rs_notifications st))"
    "fresh_ids env (due_reminders now st) st" "fe_due_query_ok env" "fe_snoozed_query_ok env"
    using assms by (auto simp: healthy_pass_def)
  note due = due_reminders_props [OF h(1), of now]
  define fired where "fired = map (notification_of env now) (filter (fires env) (due_reminders now st))"
  define evs where "evs = map (\<lambda>r. ReminderDue (notification_of env now r)) (filter (fires env) (due_reminders now st))"
  define st1 where "st1 = \<lparr>rs_reminders = map (\<lambda>r. if is_due now r then after_fire env r else r) (rs_reminders st),
     rs_notifications = rs_notifications st @ fired\<rparr>"
  have same: "rm_id r \<in> rm_id ` {x \<in> set (rs_reminders st). is_due now x} \<longleftrightarrow> is_due now r" if "r \<in> set (rs_reminders st)" for r
    using that h(1) by (auto simp: distinct_map dest: inj_onD)
  have first: "fold (fire_reminder env now) (due_reminders now st) (st, []) = (st1, evs)"
    by (subst fire_fold_eq) (auto simp: h due st1_def evs_def fired_def same)
  have none: "filter (snooze_over now) fired = []"
    by (auto simp: fired_def filter_empty_conv new_notification_not_snoozed)
  have snoozed: "due_snoozed_notifications now st1 = due_snoozed_notifications now st"
    by (simp add: due_snoozed_notifications_def st1_def none)
  have sset: "set (due_snoozed_notifications now st) = {n \<in> set (rs_notifications st). snooze_over now n}"
    by (auto simp: due_snoozed_notifications_def)
  have ids: "nt_id n \<notin> nt_id ` set (due_snoozed_notifications now st)" if "n \<in> set fired" for n
    using that h(3) due(1) by (auto simp: fired_def fresh_ids_def sset)
  have rows: "map (\<lambda>n. if nt_id n \<in> nt_id ` set (due_snoozed_notifications now st) \<and> fe_refire_ok env (nt_id n)
        then n\<lparr>nt_state := NsUnseen, nt_snoozed_until_ms := None\<rparr> else n) (rs_notifications st @ fired) =
      map (after_refire env now) (rs_notifications st) @ fired"
    using ids due_snoozed_same_id [OF h(2)] by (auto simp: after_refire_def sset intro!: map_idI)
  have "fire_due env now st = fold (refire_snoozed env) (due_snoozed_notifications now st) (st1, evs)"
    by (simp add: fire_due_def h first snoozed)
  also have "\<dots> = (st1\<lparr>rs_notifications := map (after_refire env now) (rs_notifications st) @ fired\<rparr>, evs @
      map (\<lambda>n. ReminderDue (n\<lparr>nt_state := NsUnseen, nt_snoozed_until_ms := None\<rparr>)) (due_snoozed_notifications now st))"
    using rows by (simp only: refire_fold_rows st1_def rem_store.simps)
  finally show ?thesis by (simp add: st1_def evs_def fired_def)
qed

text \<open>What the storage must do for the pass to leave nothing behind.\<close>

definition storage_works :: "fire_env \<Rightarrow> bool" where
  "storage_works env \<longleftrightarrow> fe_due_query_ok env \<and> fe_snoozed_query_ok env \<and>
     (\<forall>i. fe_insert_ok env i \<and> fe_update_ok env i \<and> fe_refire_ok env i)"

lemma nothing_due_iff:
  "due_reminders now st = [] \<longleftrightarrow> (\<forall>r \<in> set (rs_reminders st). \<not> is_due now r)"
  "due_snoozed_notifications now st = [] \<longleftrightarrow> (\<forall>n \<in> set (rs_notifications st). \<not> snooze_over now n)"
proof -
  have sort_Nil: "sort_key f xs = [] \<longleftrightarrow> xs = []" for f :: "'x \<Rightarrow> 'y::linorder" and xs
    by (metis set_empty2 set_sort)
  show "due_reminders now st = [] \<longleftrightarrow> (\<forall>r \<in> set (rs_reminders st). \<not> is_due now r)"
    "due_snoozed_notifications now st = [] \<longleftrightarrow> (\<forall>n \<in> set (rs_notifications st). \<not> snooze_over now n)"
    by (simp_all add: due_reminders_def due_snoozed_notifications_def sort_Nil filter_empty_conv)
qed

lemma set_map_filter_iff: "y \<in> set (List.map_filter f xs) \<longleftrightarrow> (\<exists>x \<in> set xs. f x = Some y)"
  by (force simp: List.map_filter_def)

lemma in_wake_times: "t \<in> set (wake_times st) \<longleftrightarrow>
   (\<exists>r \<in> set (rs_reminders st). rm_state r = RemActive \<and> rm_next_due_at_ms r = t) \<or>
   (\<exists>n \<in> set (rs_notifications st). nt_state n = NsSnoozed \<and> nt_snoozed_until_ms n = Some t)"
  by (auto simp: wake_times_def set_map_filter_iff split: if_splits)

lemma wake_times_due:
  "(\<exists>t \<in> set (wake_times st). t \<le> now) \<longleftrightarrow> due_reminders now st \<noteq> [] \<or> due_snoozed_notifications now st \<noteq> []"
  unfolding nothing_due_iff by (auto simp: in_wake_times Bex_def is_due_def snooze_over_def split: option.splits)

lemma next_sleep_wake:
  assumes "t \<in> set (wake_times st)"
  shows "now + int (next_sleep now (Ok (next_reminder_wake_ms st))) \<le> max now t"
proof -
  have "Min (set (wake_times st)) \<le> t" using assms by simp
  then show ?thesis using assms by (auto simp: next_reminder_wake_ms_def next_sleep_def)
qed

lemma next_sleep_zero_iff:
  "next_sleep now (Ok (next_reminder_wake_ms st)) = 0 \<longleftrightarrow>
     due_reminders now st \<noteq> [] \<or> due_snoozed_notifications now st \<noteq> []"
  unfolding wake_times_due [symmetric]
  by (auto simp: next_reminder_wake_ms_def next_sleep_def Min_le_iff)


definition calendar_advances :: "(i64 \<Rightarrow> i64 option) \<Rightarrow> bool" where
  "calendar_advances am \<longleftrightarrow> (\<forall>t u. am t = Some u \<longrightarrow> t + 28 * DAY_MS \<le> u)"

definition clock_of_pass :: "fire_env \<Rightarrow> i64 \<Rightarrow> reminder \<Rightarrow> bool" where
  "clock_of_pass env now r \<longleftrightarrow> now \<le> fe_clock env (rm_id r) \<and>
     fe_clock env (rm_id r) < rm_next_due_at_ms r + 10001 * DAY_MS \<and>
     in_i64 (rm_next_due_at_ms r) \<and> fe_clock env (rm_id r) + 30 * DAY_MS \<le> i64_max"

lemma recurrence_step_advances:
  assumes "calendar_advances am" "is_recurring r" "i64_min \<le> t" "t + 30 * DAY_MS \<le> i64_max"
  shows "t + DAY_MS \<le> recurrence_step am t r"
proof -
  have "in_i64 (t + d)" if "0 \<le> d" "d \<le> 30 * DAY_MS" for d
    using that assms(3,4) by (simp add: in_i64_def)
  then have w: "wrap_i64 (t + d) = t + d" if "0 \<le> d" "d \<le> 30 * DAY_MS" for d
    using that wrap_i64_id by blast
  have m: "t + DAY_MS \<le> u" if "am t = Some u" for u
    using that assms(1) by (force simp: calendar_advances_def DAY_MS_def)
  show ?thesis
    using assms(2) w [of DAY_MS] w [of "7 * DAY_MS"] w [of "30 * DAY_MS"] m
    by (cases r; cases "am t") (auto simp: recurrence_step_def is_recurring_def DAY_MS_def)
qed

lemma following_due_future:
  assumes "calendar_advances (fe_add_month env)" "clock_of_pass env now r" "is_recurring (rm_recurrence r)" "is_due now r"
  shows "fe_clock env (rm_id r) < following_due env r"
proof -
  have c: "rm_next_due_at_ms r \<le> fe_clock env (rm_id r)" "i64_min \<le> rm_next_due_at_ms r"
    using assms(2,4) by (auto simp: clock_of_pass_def is_due_def in_i64_def)
  have step: "t + DAY_MS \<le> recurrence_step (fe_add_month env) t (rm_recurrence r)"
    if "rm_next_due_at_ms r \<le> t" "t \<le> max (fe_clock env (rm_id r)) (rm_next_due_at_ms r)" for t
    using that assms(1-3) c by (intro recurrence_step_advances) (auto simp: clock_of_pass_def)
  show ?thesis
    unfolding following_due_def
    by (rule next_occurrence_iterates [OF step]) (use assms(2) in \<open>auto simp: clock_of_pass_def\<close>)
qed

lemma after_fire_not_due:
  assumes "storage_works env" "calendar_advances (fe_add_month env)" "clock_of_pass env now r" "is_due now r"
  shows "\<not> is_due now (after_fire env r)"
  using following_due_future [of env now r] assms
  by (auto simp: after_fire_def fires_def storage_works_def is_due_def clock_of_pass_def)

text \<open>
  C34: A pass with working storage leaves nothing due at its own time: every due reminder is completed or moved
  past the clock, every snooze that is over is cleared, and the scheduler then really sleeps.
\<close>

theorem scheduler_pass_progresses:
  assumes "healthy_pass env now st" "storage_works env" "calendar_advances (fe_add_month env)"
    "\<forall>r \<in> set (due_reminders now st). clock_of_pass env now r"
  shows "due_reminders now (fst (fire_due env now st)) = [] \<and>
    due_snoozed_notifications now (fst (fire_due env now st)) = [] \<and>
    0 < next_sleep now (Ok (next_reminder_wake_ms (fst (fire_due env now st))))"
proof -
  have dist: "distinct (map rm_id (rs_reminders st))" using assms(1) by (simp add: healthy_pass_def)
  have clocks: "clock_of_pass env now r" if "r \<in> set (rs_reminders st)" "is_due now r" for r
    using that assms(4) due_reminders_props(1) [OF dist, of now] by blast
  note st' = due_reminders_fire_once [OF assms(1)]
  have 1: "due_reminders now (fst (fire_due env now st)) = []"
    unfolding nothing_due_iff using after_fire_not_due [OF assms(2,3)] clocks by (auto simp: st')
  have "\<not> snooze_over now (after_refire env now n)" for n
    using assms(2) by (simp add: after_refire_def storage_works_def snooze_over_def)
  then have 2: "due_snoozed_notifications now (fst (fire_due env now st)) = []"
    unfolding nothing_due_iff by (auto simp: st' new_notification_not_snoozed)
  show ?thesis
    using next_sleep_zero_iff [of now "fst (fire_due env now st)"] 1 2 by auto
qed

text \<open>
  The scheduler never sleeps past a due time: it wakes no later than the earliest active reminder and the
  earliest end of a snooze, and immediately exactly when something is due already.
\<close>

theorem scheduler_wakes_in_time:
  "(\<forall>r \<in> set (rs_reminders st). rm_state r = RemActive \<longrightarrow>
      now + int (next_sleep now (Ok (next_reminder_wake_ms st))) \<le> max now (rm_next_due_at_ms r)) \<and>
   (\<forall>n \<in> set (rs_notifications st). \<forall>t. nt_state n = NsSnoozed \<and> nt_snoozed_until_ms n = Some t \<longrightarrow>
      now + int (next_sleep now (Ok (next_reminder_wake_ms st))) \<le> max now t) \<and>
   (next_sleep now (Ok (next_reminder_wake_ms st)) = 0 \<longleftrightarrow>
      due_reminders now st \<noteq> [] \<or> due_snoozed_notifications now st \<noteq> [])"
proof (intro conjI ballI allI impI)
  fix r assume "r \<in> set (rs_reminders st)" "rm_state r = RemActive"
  then have "rm_next_due_at_ms r \<in> set (wake_times st)" by (auto simp: in_wake_times)
  then show "now + int (next_sleep now (Ok (next_reminder_wake_ms st))) \<le> max now (rm_next_due_at_ms r)"
    by (rule next_sleep_wake)
next
  fix n t assume "n \<in> set (rs_notifications st)" "nt_state n = NsSnoozed \<and> nt_snoozed_until_ms n = Some t"
  then have "t \<in> set (wake_times st)" by (auto simp: in_wake_times)
  then show "now + int (next_sleep now (Ok (next_reminder_wake_ms st))) \<le> max now t"
    by (rule next_sleep_wake)
qed (rule next_sleep_zero_iff)

text \<open>
  No due reminder is lost: after a pass its notification is stored and announced or it is still due. When
  one of its two storage calls failed it is still due unchanged and the scheduler comes back at once, so a
  reminder whose update failed is announced again.
\<close>

theorem failed_fire_is_retried:
  assumes "healthy_pass env now st" "r \<in> set (due_reminders now st)"
  shows "(r \<in> set (due_reminders now (fst (fire_due env now st))) \<or>
      notification_of env now r \<in> set (rs_notifications (fst (fire_due env now st))) \<and>
      ReminderDue (notification_of env now r) \<in> set (snd (fire_due env now st))) \<and>
    (fe_insert_ok env (rm_id r) \<and> fe_update_ok env (rm_id r) \<or>
      r \<in> set (due_reminders now (fst (fire_due env now st))) \<and>
      next_sleep now (Ok (next_reminder_wake_ms (fst (fire_due env now st)))) = 0)"
proof (rule conjI)
  have dist: "distinct (map rm_id (rs_reminders st))" using assms(1) by (simp add: healthy_pass_def)
  note st' = due_reminders_fire_once [OF assms(1)]
  have r: "r \<in> set (rs_reminders st)" "is_due now r"
    using assms(2) by (auto simp: due_reminders_props(1) [OF dist])
  have still: "r \<in> set (due_reminders now (fst (fire_due env now st)))" if "after_fire env r = r"
    using that r by (force simp: due_reminders_def st')
  show "r \<in> set (due_reminders now (fst (fire_due env now st))) \<or>
      notification_of env now r \<in> set (rs_notifications (fst (fire_due env now st))) \<and>
      ReminderDue (notification_of env now r) \<in> set (snd (fire_due env now st))"
    using still assms(2) by (cases "fires env r") (auto simp: st' after_fire_def)
  show "fe_insert_ok env (rm_id r) \<and> fe_update_ok env (rm_id r) \<or>
      r \<in> set (due_reminders now (fst (fire_due env now st))) \<and>
      next_sleep now (Ok (next_reminder_wake_ms (fst (fire_due env now st)))) = 0"
  proof (cases "fe_insert_ok env (rm_id r) \<and> fe_update_ok env (rm_id r)")
    case False
    then have "after_fire env r = r" by (auto simp: after_fire_def fires_def)
    from still [OF this] show ?thesis
      using next_sleep_zero_iff [of now "fst (fire_due env now st)"] by (metis empty_iff set_empty2)
  qed simp
qed

section \<open>Witnesses\<close>

definition demo_reminder :: "string \<Rightarrow> recurrence \<Rightarrow> i64 \<Rightarrow> reminder" where
  "demo_reminder i r due = \<lparr>rm_id = i, rm_media_uri = ''spotify:album:a'', rm_media_kind = Album, rm_name = ''A'',
     rm_subtitle = [], rm_image_url = None, rm_anchor_at_ms = due, rm_recurrence = r, rm_tz = ''UTC'',
     rm_next_due_at_ms = due, rm_state = RemActive, rm_message = None, rm_created_at_ms = 0\<rparr>"

definition demo_store :: rem_store where
  "demo_store = \<lparr>rs_reminders = [demo_reminder ''d'' Daily 5, demo_reminder ''o'' RecurNone 7, demo_reminder ''f'' Weekly 900],
     rs_notifications = []\<rparr>"

definition demo_env :: "bool \<Rightarrow> fire_env" where
  "demo_env update_ok = \<lparr>fe_add_month = (\<lambda>_. None), fe_new_id = (\<lambda>i. CHR ''n'' # i), fe_clock = (\<lambda>_. 11),
     fe_insert_ok = (\<lambda>_. True), fe_update_ok = (\<lambda>_. update_ok), fe_refire_ok = (\<lambda>_. True),
     fe_due_query_ok = True, fe_snoozed_query_ok = True\<rparr>"

lemma demo_update_ok [simp]: "fe_update_ok (demo_env u) i = u"
  by (simp add: demo_env_def)

lemma demo_due: "due_reminders 10 demo_store = [demo_reminder ''d'' Daily 5, demo_reminder ''o'' RecurNone 7]"
  by (simp add: due_reminders_def demo_store_def demo_reminder_def is_due_def)

lemma demo_healthy: "healthy_pass (demo_env u) 10 demo_store"
  unfolding healthy_pass_def fresh_ids_def demo_due
  by (simp add: demo_env_def demo_store_def demo_reminder_def)

theorem due_reminders_fire_once_witness:
  "map nt_id (rs_notifications (fst (fire_due (demo_env True) 10 demo_store))) = [''nd'', ''no'']"
  unfolding due_reminders_fire_once [OF demo_healthy] demo_due
  by (simp add: fires_def demo_env_def demo_reminder_def notification_of_def demo_store_def)

theorem scheduler_pass_progresses_witness:
  "due_reminders 10 (fst (fire_due (demo_env True) 10 demo_store)) = [] \<and>
   0 < next_sleep 10 (Ok (next_reminder_wake_ms (fst (fire_due (demo_env True) 10 demo_store))))"
proof -
  have s: "storage_works (demo_env True)" by (simp add: storage_works_def demo_env_def)
  have c: "calendar_advances (fe_add_month (demo_env True))" by (simp add: calendar_advances_def demo_env_def)
  have k: "\<forall>r \<in> set (due_reminders 10 demo_store). clock_of_pass (demo_env True) 10 r"
    unfolding demo_due by (simp add: clock_of_pass_def demo_env_def demo_reminder_def in_i64_def i64_min_def i64_max_def DAY_MS_def)
  show ?thesis
    using scheduler_pass_progresses [OF demo_healthy s c k] by simp
qed

theorem scheduler_wakes_in_time_witness:
  "10 + int (next_sleep 10 (Ok (next_reminder_wake_ms demo_store))) \<le> (900::int)"
proof -
  have "demo_reminder ''f'' Weekly 900 \<in> set (rs_reminders demo_store)" by (simp add: demo_store_def)
  then show ?thesis
    using scheduler_wakes_in_time [of demo_store 10] by (auto simp: demo_reminder_def)
qed

theorem failed_fire_is_retried_witness:
  "next_sleep 10 (Ok (next_reminder_wake_ms (fst (fire_due (demo_env False) 10 demo_store)))) = 0"
proof -
  have "demo_reminder ''d'' Daily 5 \<in> set (due_reminders 10 demo_store)" by (simp add: demo_due)
  from failed_fire_is_retried [OF demo_healthy [of False] this] show ?thesis by simp
qed

end
