(* ===== verification/Sync_Paging.thy ===== *)
theory Sync_Paging
  imports Provider_Mutations
begin

text \<open>
  Pagination: the page vocabulary of the provider contract (\<open>spotuify-core/src/provider.rs\<close>), the fetch
  loops of the sync engine (\<open>spotuify-sync/src/sync_loop.rs\<close>) and the page server of the in-memory
  provider (\<open>spotuify-provider-fake/src/lib.rs\<close>). The provider is an argument that may answer every call
  differently: it sees the number of the call and the request.
\<close>

section \<open>Pages\<close>

record page_request =
  pr_limit :: u32
  pr_offset :: u64
  pr_cursor :: "string option"

definition page_request_new :: "u32 \<Rightarrow> u64 \<Rightarrow> page_request" where
  "page_request_new limit offset = \<lparr>pr_limit = limit, pr_offset = offset, pr_cursor = None\<rparr>"

definition page_request_with_cursor :: "u32 \<Rightarrow> u64 \<Rightarrow> string \<Rightarrow> page_request" where
  "page_request_with_cursor limit offset cursor = \<lparr>pr_limit = limit, pr_offset = offset, pr_cursor = Some cursor\<rparr>"

datatype page_continuation = ContOffset u64 | ContCursor string

record 'a provider_page =
  pp_items :: "'a list"
  pp_requested_offset :: u64
  pp_total :: "u64 option"
  pp_next :: "page_continuation option"

datatype access_unavailable = AccPrivate | RegionRestricted | SubscriptionRequired | TemporarilyUnavailable

datatype 'a access_outcome = Available 'a | Unavailable access_unavailable

section \<open>The fetch loops\<close>

definition page_limit :: "nat option \<Rightarrow> u32" where
  "page_limit largest = (let n = (case largest of Some m \<Rightarrow> m | None \<Rightarrow> 50) in if n < 1 then 1 else if 4294967295 < n then 4294967295 else n)"

definition validate_provider_page_offset ::
    "page_request \<Rightarrow> 'a provider_page \<Rightarrow> string \<Rightarrow> (unit, provider_error) result" where
  "validate_provider_page_offset request page operation =
     (if pp_requested_offset page \<noteq> pr_offset request
      then Err (InvalidInput (operation @ ''.requested_offset'')
             (''provider echoed offset '' @ show_nat (pp_requested_offset page) @
              '' for request offset '' @ show_nat (pr_offset request)))
      else Ok ())"

text \<open>\<open>HashSet::insert\<close> extends the set even though the request built from it may still fail.\<close>

definition continuation_request ::
    "u32 \<Rightarrow> u64 \<Rightarrow> u64 \<Rightarrow> page_continuation \<Rightarrow> string set \<Rightarrow> (page_request \<times> string set, provider_error) result" where
  "continuation_request limit requested_offset logical_offset cont seen = (case cont of
       ContOffset offset \<Rightarrow>
         (if requested_offset < offset then Ok (page_request_new limit offset, seen)
          else Err (ProviderFailure (''provider pagination did not advance: '' @ show_nat offset @ '' <= '' @
                 show_nat requested_offset)))
     | ContCursor cursor \<Rightarrow>
         (if cursor \<notin> seen then Ok (page_request_with_cursor limit logical_offset cursor, insert cursor seen)
          else Err (ProviderFailure (''provider pagination repeated cursor `'' @ cursor @ ''`''))))"

text \<open>
  The loop that the three fetchers share. \<open>lift\<close> embeds a provider error into the caller's way to stop:
  the playlist item loop can also stop because the collection is not available.
\<close>

type_synonym ('a, 'x) fetcher = "nat \<Rightarrow> page_request \<Rightarrow> ('a provider_page, 'x) result"

definition checked_page :: "(provider_error \<Rightarrow> 'x) \<Rightarrow> string \<Rightarrow> ('a, 'x) fetcher \<Rightarrow> nat \<Rightarrow> page_request
    \<Rightarrow> ('a provider_page, 'x) result" where
  "checked_page lift operation fetch k request = result_bind (fetch k request) (\<lambda>page.
     result_bind (map_err lift (validate_provider_page_offset request page operation)) (\<lambda>_. Ok page))"

fun page_loop :: "(provider_error \<Rightarrow> 'x) \<Rightarrow> string \<Rightarrow> string \<Rightarrow> ('a, 'x) fetcher \<Rightarrow> u32 \<Rightarrow> nat \<Rightarrow> nat
    \<Rightarrow> u64 \<Rightarrow> u64 \<Rightarrow> string set \<Rightarrow> 'a list \<Rightarrow> page_continuation option \<Rightarrow> ('a list, 'x) result" where
  "page_loop lift operation message fetch limit 0 k requested logical seen items nxt = Err (lift (ProviderFailure message))"
| "page_loop lift operation message fetch limit (Suc n) k requested logical seen items nxt = (case nxt of
       None \<Rightarrow> Ok items
     | Some cont \<Rightarrow>
         result_bind (map_err lift (continuation_request limit requested logical cont seen)) (\<lambda>(request, seen').
           result_bind (checked_page lift operation fetch k request) (\<lambda>page.
             page_loop lift operation message fetch limit n (Suc k) (pr_offset request)
               (sat_u64 (logical + length (pp_items page))) seen' (items @ pp_items page) (pp_next page))))"

definition MAX_PAGES :: nat where "MAX_PAGES = 1000"

definition fetch_pages :: "(provider_error \<Rightarrow> 'x) \<Rightarrow> string \<Rightarrow> string \<Rightarrow> ('a, 'x) fetcher \<Rightarrow> u32 \<Rightarrow> ('a list, 'x) result" where
  "fetch_pages lift operation message fetch limit =
     result_bind (checked_page lift operation fetch 0 (page_request_new limit 0)) (\<lambda>first.
       page_loop lift operation message fetch limit MAX_PAGES 1 0 (length (pp_items first)) {} (pp_items first) (pp_next first))"

definition fetch_all_playlists :: "(playlist, provider_error) fetcher \<Rightarrow> u32 \<Rightarrow> (playlist list, provider_error) result" where
  "fetch_all_playlists = fetch_pages (\<lambda>e. e) ''playlists'' ''playlist pagination exceeded 1000 pages''"

definition fetch_all_recent :: "(media_item, provider_error) fetcher \<Rightarrow> u32 \<Rightarrow> (media_item list, provider_error) result" where
  "fetch_all_recent = fetch_pages (\<lambda>e. e) ''recently_played'' ''media pagination exceeded 1000 pages''"

definition fetch_all_library :: "(media_kind \<Rightarrow> (media_item, provider_error) fetcher) \<Rightarrow> media_kind \<Rightarrow> u32
    \<Rightarrow> (media_item list, provider_error) result" where
  "fetch_all_library fetch kind = fetch_pages (\<lambda>e. e) ''library_items'' ''media pagination exceeded 1000 pages'' (fetch kind)"

text \<open>The reason to stop is a provider error or an unavailable collection.\<close>

datatype stop_reason = StopError provider_error | StopUnavailable access_unavailable

definition access_fetcher :: "(nat \<Rightarrow> page_request \<Rightarrow> ('a provider_page access_outcome, provider_error) result)
    \<Rightarrow> ('a, stop_reason) fetcher" where
  "access_fetcher fetch k request = (case fetch k request of
       Err e \<Rightarrow> Err (StopError e)
     | Ok (Unavailable reason) \<Rightarrow> Err (StopUnavailable reason)
     | Ok (Available page) \<Rightarrow> Ok page)"

definition fetch_all_playlist_items ::
    "(nat \<Rightarrow> page_request \<Rightarrow> (media_item provider_page access_outcome, provider_error) result) \<Rightarrow> u32
      \<Rightarrow> (media_item list access_outcome, provider_error) result" where
  "fetch_all_playlist_items fetch limit =
     (case fetch_pages StopError ''playlist_items'' ''playlist item pagination exceeded 1000 pages''
             (access_fetcher fetch) limit of
        Ok items \<Rightarrow> Ok (Available items)
      | Err (StopUnavailable reason) \<Rightarrow> Ok (Unavailable reason)
      | Err (StopError e) \<Rightarrow> Err e)"

section \<open>The page server of the in-memory provider\<close>

definition fake_page :: "'a list \<Rightarrow> page_request \<Rightarrow> nat \<Rightarrow> ('a provider_page, provider_error) result" where
  "fake_page xs request max_page_size =
     (if pr_limit request = 0
      then Err (InvalidInput ''limit'' ''page size must be greater than zero'')
      else if max_page_size < pr_limit request
      then Err (InvalidInput ''limit'' (''requested page size '' @ show_nat (pr_limit request) @
             '' exceeds provider maximum '' @ show_nat max_page_size))
      else if pr_cursor request \<noteq> None
      then Err (InvalidInput ''cursor'' ''fake provider uses offset continuations'')
      else let items = take (pr_limit request) (drop (pr_offset request) xs);
               consumed = sat_u64 (pr_offset request + length items)
           in Ok \<lparr>pp_items = items, pp_requested_offset = pr_offset request, pp_total = Some (length xs),
                  pp_next = (if items \<noteq> [] \<and> consumed < length xs then Some (ContOffset consumed) else None)\<rparr>)"

section \<open>Soundness\<close>

text \<open>
  A run of the loop is a chain of pages: each is the provider's answer to the continuation of the one
  before, echoes its offset, and only the last has no continuation.
\<close>

inductive page_chain :: "('a, 'x) fetcher \<Rightarrow> u32 \<Rightarrow> nat \<Rightarrow> u64 \<Rightarrow> u64 \<Rightarrow> string set \<Rightarrow> page_continuation option
    \<Rightarrow> (page_request \<times> 'a provider_page) list \<Rightarrow> bool" for fetch limit where
  chain_end: "page_chain fetch limit k requested logical seen None []"
| chain_step: "continuation_request limit requested logical cont seen = Ok (request, seen') \<Longrightarrow>
    fetch k request = Ok page \<Longrightarrow> pp_requested_offset page = pr_offset request \<Longrightarrow>
    page_chain fetch limit (Suc k) (pr_offset request) (sat_u64 (logical + length (pp_items page))) seen' (pp_next page) ps \<Longrightarrow>
    page_chain fetch limit k requested logical seen (Some cont) ((request, page) # ps)"

definition chain_items :: "(page_request \<times> 'a provider_page) list \<Rightarrow> 'a list" where
  "chain_items ps = concat (map (pp_items \<circ> snd) ps)"

lemma checked_page_Ok_iff:
  "checked_page lift op fetch k request = Ok page \<longleftrightarrow> fetch k request = Ok page \<and> pp_requested_offset page = pr_offset request"
  by (cases "fetch k request") (auto simp: checked_page_def validate_provider_page_offset_def)

lemma checked_page_served:
  "fetch k request = Ok page \<Longrightarrow> pp_requested_offset page = pr_offset request \<Longrightarrow>
    checked_page lift op fetch k request = Ok page"
  by (simp add: checked_page_Ok_iff)

lemma page_request_new_simps [simp]:
  "pr_limit (page_request_new l off) = l" "pr_offset (page_request_new l off) = off"
  "pr_cursor (page_request_new l off) = None"
  by (simp_all add: page_request_new_def)

lemma page_loop_Ok_iff:
  "page_loop lift op msg fetch limit n k requested logical seen items nxt = Ok xs \<longleftrightarrow>
     (\<exists>ps. page_chain fetch limit k requested logical seen nxt ps \<and> length ps < n \<and> xs = items @ chain_items ps)"
proof (induction n arbitrary: k requested logical seen items nxt)
  case (Suc n)
  show ?case
  proof (cases nxt)
    case None
    then show ?thesis by (auto simp: chain_items_def elim: page_chain.cases intro: chain_end)
  next
    case (Some cont)
    show ?thesis
    proof (intro iffI)
      assume "page_loop lift op msg fetch limit (Suc n) k requested logical seen items nxt = Ok xs"
      then obtain request seen' page where step: "continuation_request limit requested logical cont seen = Ok (request, seen')"
        "fetch k request = Ok page" "pp_requested_offset page = pr_offset request"
        "page_loop lift op msg fetch limit n (Suc k) (pr_offset request)
           (sat_u64 (logical + length (pp_items page))) seen' (items @ pp_items page) (pp_next page) = Ok xs"
        by (auto simp: Some checked_page_Ok_iff)
      obtain ps where "page_chain fetch limit (Suc k) (pr_offset request)
          (sat_u64 (logical + length (pp_items page))) seen' (pp_next page) ps" "length ps < n"
        "xs = items @ pp_items page @ chain_items ps"
        using step(4) unfolding Suc.IH by auto
      then show "\<exists>ps. page_chain fetch limit k requested logical seen nxt ps \<and> length ps < Suc n \<and> xs = items @ chain_items ps"
        unfolding Some by (intro exI [of _ "(request, page) # ps"]) (auto simp: chain_items_def intro: chain_step step)
    next
      assume "\<exists>ps. page_chain fetch limit k requested logical seen nxt ps \<and> length ps < Suc n \<and> xs = items @ chain_items ps"
      then obtain ps where ps: "page_chain fetch limit k requested logical seen nxt ps" "length ps < Suc n"
        "xs = items @ chain_items ps" by blast
      from ps(1) show "page_loop lift op msg fetch limit (Suc n) k requested logical seen items nxt = Ok xs"
      proof cases
        case (chain_step cont' request seen' page ps')
        then have "page_loop lift op msg fetch limit n (Suc k) (pr_offset request)
           (sat_u64 (logical + length (pp_items page))) seen' (items @ pp_items page) (pp_next page) = Ok xs"
          using ps(2,3) unfolding Suc.IH by (auto simp: chain_items_def)
        with chain_step show ?thesis by (auto simp: checked_page_Ok_iff)
      qed (simp add: Some)
    qed
  qed
qed simp

lemma fetch_pages_Ok_iff:
  "fetch_pages lift op msg fetch limit = Ok xs \<longleftrightarrow>
     (\<exists>first ps. fetch 0 (page_request_new limit 0) = Ok first \<and> pp_requested_offset first = 0 \<and>
        page_chain fetch limit 1 0 (length (pp_items first)) {} (pp_next first) ps \<and> length ps < MAX_PAGES \<and>
        xs = pp_items first @ chain_items ps)"
  by (auto simp: fetch_pages_def checked_page_Ok_iff page_loop_Ok_iff page_request_new_def)

lemma continuation_cursor:
  assumes "continuation_request limit requested logical cont seen = Ok (request, seen')"
  shows "pr_limit request = limit"
    "pr_cursor request = None \<and> seen' = seen \<and> requested < pr_offset request \<or>
     (\<exists>c. pr_cursor request = Some c \<and> c \<notin> seen \<and> seen' = insert c seen \<and> pr_offset request = logical)"
  using assms by (auto simp: continuation_request_def page_request_new_def page_request_with_cursor_def
      split: page_continuation.splits if_splits)

lemma chain_cursors:
  assumes "page_chain fetch limit k requested logical seen nxt ps"
  shows "distinct (List.map_filter (pr_cursor \<circ> fst) ps)" "set (List.map_filter (pr_cursor \<circ> fst) ps) \<inter> seen = {}"
  using assms
proof (induction rule: page_chain.induct)
  case (chain_step requested logical cont seen request seen' k page ps)
  { case 1 show ?case using continuation_cursor(2) [OF chain_step.hyps(1)] chain_step.IH by auto }
  { case 2 show ?case using continuation_cursor(2) [OF chain_step.hyps(1)] chain_step.IH by auto }
qed simp_all

lemma chain_answers:
  assumes "page_chain fetch limit k requested logical seen nxt ps"
  shows "\<forall>i < length ps. fetch (k + i) (fst (ps ! i)) = Ok (snd (ps ! i)) \<and> pr_limit (fst (ps ! i)) = limit \<and>
      pp_requested_offset (snd (ps ! i)) = pr_offset (fst (ps ! i))"
    and "ps \<noteq> [] \<Longrightarrow> pp_next (snd (last ps)) = None"
  using assms
proof (induction rule: page_chain.induct)
  case (chain_step requested logical cont seen request seen' k page ps)
  { case 1 show ?case
      using chain_step.IH(1) chain_step.hyps(2,3) continuation_cursor(1) [OF chain_step.hyps(1)]
      by (auto simp: nth_Cons' less_Suc_eq_0_disj) }
  { case 2 show ?case using chain_step.IH(2) chain_step.hyps(4) by (auto elim: page_chain.cases) }
qed simp_all


section \<open>Completeness\<close>

text \<open>A server that answers offset requests with the slices of a fixed list.\<close>

locale page_server =
  fixes serve :: "nat \<Rightarrow> page_request \<Rightarrow> ('a provider_page, 'x) result"
    and content :: "'a list" and cap :: nat
  assumes slice: "length content \<le> u64_max \<Longrightarrow> 0 < l \<Longrightarrow> l \<le> cap \<Longrightarrow> off \<le> length content \<Longrightarrow>
    \<exists>t. serve k (page_request_new l off) = Ok \<lparr>pp_items = take l (drop off content), pp_requested_offset = off,
      pp_total = t, pp_next = (if off + l < length content then Some (ContOffset (off + l)) else None)\<rparr>"
begin

lemma loop_reads_rest:
  assumes "length content \<le> u64_max" "0 < limit" "limit \<le> cap"
  shows "off \<le> length content \<Longrightarrow> requested < off \<or> off = length content \<Longrightarrow>
    page_loop lift op msg serve limit n k requested logical seen (take off content)
      (if off < length content then Some (ContOffset off) else None) =
    (if length content - off \<le> (n - 1) * limit \<and> 0 < n then Ok content else Err (lift (ProviderFailure msg)))"
proof (induction n arbitrary: k requested logical off)
  case (Suc n)
  show ?case
  proof (cases "off < length content")
    case True
    obtain t where t: "serve k (page_request_new limit off) = Ok \<lparr>pp_items = take limit (drop off content),
        pp_requested_offset = off, pp_total = t,
        pp_next = (if off + limit < length content then Some (ContOffset (off + limit)) else None)\<rparr>"
      using slice [of limit off k] assms True by auto
    define off' where "off' = min (off + limit) (length content)"
    have items: "take off content @ take limit (drop off content) = take off' content"
      by (simp add: off'_def take_add [symmetric] min_def)
    have nxt: "(if off + limit < length content then Some (ContOffset (off + limit)) else None) =
        (if off' < length content then Some (ContOffset off') else None)"
      by (auto simp: off'_def)
    have ih: "page_loop lift op msg serve limit n (Suc k) off
        (sat_u64 (logical + length (take limit (drop off content)))) seen (take off' content)
          (if off' < length content then Some (ContOffset off') else None) =
        (if length content - off' \<le> (n - 1) * limit \<and> 0 < n then Ok content else Err (lift (ProviderFailure msg)))"
      by (rule Suc.IH) (use assms(2) True in \<open>auto simp: off'_def\<close>)
    have "length content - off' \<le> (n - 1) * limit \<and> 0 < n \<longleftrightarrow> length content - off \<le> n * limit"
      using True assms(2) by (cases n) (auto simp: off'_def)
    then show ?thesis
      using True Suc.prems ih
      by (simp add: continuation_request_def checked_page_served [where fetch = serve, OF t] items nxt)
  next
    case False
    then show ?thesis using Suc.prems by simp
  qed
qed simp

theorem fetch_reads_all:
  assumes "length content \<le> u64_max" "0 < limit" "limit \<le> cap"
  shows "fetch_pages lift op msg serve limit =
    (if length content \<le> MAX_PAGES * limit then Ok content else Err (lift (ProviderFailure msg)))"
proof -
  obtain t where t: "serve 0 (page_request_new limit 0) = Ok \<lparr>pp_items = take limit content,
      pp_requested_offset = 0, pp_total = t, pp_next = (if limit < length content then Some (ContOffset limit) else None)\<rparr>"
    using slice [of limit 0 0] assms by auto
  define off where "off = min limit (length content)"
  have "page_loop lift op msg serve limit MAX_PAGES 1 0 (length (take limit content)) {} (take off content)
      (if off < length content then Some (ContOffset off) else None) =
    (if length content - off \<le> (MAX_PAGES - 1) * limit \<and> 0 < MAX_PAGES then Ok content else Err (lift (ProviderFailure msg)))"
    using assms by (intro loop_reads_rest) (auto simp: off_def)
  moreover have "take off content = take limit content"
      "(if off < length content then Some (ContOffset off) else None) =
       (if limit < length content then Some (ContOffset limit) else None)"
    by (auto simp: off_def min_def)
  moreover have "length content - off \<le> (MAX_PAGES - 1) * limit \<and> 0 < MAX_PAGES \<longleftrightarrow> length content \<le> MAX_PAGES * limit"
    by (auto simp: off_def MAX_PAGES_def)
  ultimately show ?thesis
    by (simp add: fetch_pages_def checked_page_served [where fetch = serve, OF t])
qed

end

lemma fake_page_slice:
  assumes "length xs \<le> u64_max" "0 < l" "l \<le> cap" "off \<le> length xs"
  shows "\<exists>t. fake_page xs (page_request_new l off) cap = Ok \<lparr>pp_items = take l (drop off xs), pp_requested_offset = off,
      pp_total = t, pp_next = (if off + l < length xs then Some (ContOffset (off + l)) else None)\<rparr>"
proof -
  have "sat_u64 (off + min (length xs - off) l) = min (length xs) (off + l)"
    using assms by (simp add: sat_u64_def)
  then show ?thesis using assms by (auto simp: fake_page_def page_request_new_def Let_def)
qed

interpretation fake_pages: page_server "\<lambda>k request. fake_page xs request cap" xs cap for xs :: "'a list" and cap
  by unfold_locales (rule fake_page_slice)

interpretation fake_access_pages: page_server
    "access_fetcher (\<lambda>k request. case fake_page xs request cap of Ok p \<Rightarrow> Ok (Available p) | Err e \<Rightarrow> Err e)" xs cap
    for xs :: "'a list" and cap
proof unfold_locales
  fix l off k :: nat
  assume "length xs \<le> u64_max" "0 < l" "l \<le> cap" "off \<le> length xs"
  then show "\<exists>t. access_fetcher (\<lambda>k request. case fake_page xs request cap of Ok p \<Rightarrow> Ok (Available p) | Err e \<Rightarrow> Err e)
      k (page_request_new l off) = Ok \<lparr>pp_items = take l (drop off xs), pp_requested_offset = off, pp_total = t,
      pp_next = (if off + l < length xs then Some (ContOffset (off + l)) else None)\<rparr>"
    using fake_page_slice [of xs l cap off] by (auto simp: access_fetcher_def)
qed

text \<open>
  Reading a playlist of the in-memory provider returns its items, complete and in order, for every
  accepted page size, up to a thousand pages; a longer one is refused, never cut short.
\<close>

theorem playlist_read_exactly:
  assumes "length xs \<le> u64_max" "0 < limit" "limit \<le> cap"
  shows "fetch_all_playlist_items
      (\<lambda>k request. case fake_page xs request cap of Ok p \<Rightarrow> Ok (Available p) | Err e \<Rightarrow> Err e) limit =
    (if length xs \<le> 1000 * limit then Ok (Available xs)
     else Err (ProviderFailure ''playlist item pagination exceeded 1000 pages''))"
  using fake_access_pages.fetch_reads_all [OF assms, of StopError]
  by (simp add: fetch_all_playlist_items_def MAX_PAGES_def)

definition demo_pages :: "nat \<Rightarrow> page_request \<Rightarrow> (media_item provider_page access_outcome, provider_error) result" where
  "demo_pages k request = (case fake_page [media_stub ''a'', media_stub ''b'', media_stub ''c''] request 100 of
     Ok p \<Rightarrow> Ok (Available p) | Err e \<Rightarrow> Err e)"

lemma demo_length: "length [media_stub ''a'', media_stub ''b'', media_stub ''c''] \<le> u64_max"
proof -
  have "(3::nat) \<le> u64_max" by (simp add: u64_max_def)
  then show ?thesis by simp
qed


theorem playlist_read_exactly_witness:
  "fetch_all_playlist_items demo_pages 2 = Ok (Available [media_stub ''a'', media_stub ''b'', media_stub ''c''])"
  unfolding demo_pages_def [abs_def]
  by (subst playlist_read_exactly [OF demo_length]) simp_all

end
