(* ===== verification/Sync_Store.thy ===== *)
theory Sync_Store
  imports Provider_Mutations Keyed_Table "HOL-Library.Char_ord" "HOL-Library.List_Lexorder"
begin

text \<open>
  The cache tables the sync engine maintains (\<open>spotuify-store/src/lib.rs\<close>): media, playlists and their
  items, the library, recent plays, sync events and cursors. One definition per store call; a call runs in
  one transaction, so it either returns the new tables or leaves the old ones. The clock reading of a call
  is its argument.
\<close>

section \<open>Rows\<close>

record media_row =
  mw_uri :: string
  mw_provider :: string
  mw_kind :: string
  mw_name :: string
  mw_subtitle :: string
  mw_context :: string
  mw_duration_ms :: i64
  mw_image_url :: "string option"
  mw_search_origin :: string
  mw_fetched_at_ms :: i64
  mw_saved :: bool
  mw_liked :: bool
  mw_release_date :: "string option"
  mw_album_uri :: "string option"
  mw_artists :: "artist_ref list option"

record playlist_row =
  py_id :: string
  py_uri :: string
  py_name :: string
  py_owner :: string
  py_tracks_total :: i64
  py_image_url :: "string option"
  py_fetched_at_ms :: i64
  py_snapshot_id :: "string option"
  py_tracks_accessible :: bool

text \<open>The items of a playlist in position order, each with the version it was fetched at.\<close>

type_synonym item_rows = "(string \<times> string option) list"

record library_row =
  lb_uri :: string
  lb_kind :: string
  lb_saved :: bool
  lb_followed :: bool
  lb_fetched_at_ms :: i64
  lb_position :: nat

record recent_row =
  rt_uri :: string
  rt_played_at_ms :: i64
  rt_fetched_at_ms :: i64
  rt_position :: nat

record sync_event =
  sv_provider :: string
  sv_domain :: string
  sv_started_at_ms :: i64
  sv_finished_at_ms :: i64
  sv_status :: string
  sv_row_count :: u32
  sv_error :: "string option"
  sv_retry_after_secs :: "nat option"

record cursor_row =
  sc_key :: "string \<times> string"
  sc_cursor :: "string option"
  sc_last_success_at_ms :: "i64 option"
  sc_last_error :: "string option"

record cache =
  cs_media :: "media_row list"
  cs_playlists :: "playlist_row list"
  cs_items :: "string \<Rightarrow> item_rows"
  cs_library :: "library_row list"
  cs_recent :: "recent_row list"
  cs_events :: "sync_event list"
  cs_cursors :: "cursor_row list"

text \<open>\<open>COALESCE(new, old)\<close>.\<close>

definition coalesce :: "'a option \<Rightarrow> 'a option \<Rightarrow> 'a option" where
  "coalesce a b = (case a of Some _ \<Rightarrow> a | None \<Rightarrow> b)"

section \<open>Media\<close>

definition media_row_of :: "string \<Rightarrow> string \<Rightarrow> i64 \<Rightarrow> media_item \<Rightarrow> media_row" where
  "media_row_of provider origin now item = \<lparr>mw_uri = mi_uri item, mw_provider = provider,
     mw_kind = media_kind_label (mi_kind item), mw_name = mi_name item, mw_subtitle = mi_subtitle item,
     mw_context = mi_context item, mw_duration_ms = u64_as_i64 (mi_duration_ms item),
     mw_image_url = mi_image_url item,
     mw_search_origin = (case mi_source item of Some s \<Rightarrow> item_source_as_str s | None \<Rightarrow> origin),
     mw_fetched_at_ms = now, mw_saved = False, mw_liked = False,
     mw_release_date = map_option release_date_display (mi_release_date item),
     mw_album_uri = mi_album_uri item,
     mw_artists = (if mi_artists item = [] then None else Some (mi_artists item))\<rparr>"

definition merge_media_row :: "media_row \<Rightarrow> media_row \<Rightarrow> media_row" where
  "merge_media_row old new = new\<lparr>mw_saved := mw_saved old, mw_liked := mw_liked old,
     mw_release_date := coalesce (mw_release_date new) (mw_release_date old),
     mw_album_uri := coalesce (mw_album_uri new) (mw_album_uri old),
     mw_artists := coalesce (mw_artists new) (mw_artists old)\<rparr>"

definition upsert :: "('r \<Rightarrow> 'k) \<Rightarrow> ('r \<Rightarrow> 'r \<Rightarrow> 'r) \<Rightarrow> 'r \<Rightarrow> 'r list \<Rightarrow> 'r list" where
  "upsert key merge new t = (if row_at key (key new) t = None then t @ [new]
     else update_at key (key new) (\<lambda>_. True) (\<lambda>old. merge old new) t)"

definition check_media_item :: "media_item \<Rightarrow> (resource_uri, string) result" where
  "check_media_item item = (case resource_uri_parse (mi_uri item) of
       Err _ \<Rightarrow> Err (''cannot persist non-canonical media URI `'' @ mi_uri item @ ''`'')
     | Ok resource \<Rightarrow>
         (if ru_kind resource \<noteq> mi_kind item
          then Err (''media URI kind `'' @ media_kind_label (ru_kind resource) @
                 ''` does not match item kind `'' @ media_kind_label (mi_kind item) @ ''`'')
          else Ok resource))"

fun upsert_media_items :: "media_item list \<Rightarrow> string option \<Rightarrow> string \<Rightarrow> i64 \<Rightarrow> media_row list
    \<Rightarrow> (media_row list, string) result" where
  "upsert_media_items [] provider origin now t = Ok t"
| "upsert_media_items (item # items) provider origin now t =
     result_bind (check_media_item item) (\<lambda>resource.
       upsert_media_items items provider origin now
         (upsert mw_uri merge_media_row
            (media_row_of (case provider of Some p \<Rightarrow> p | None \<Rightarrow> ru_scheme resource) origin now item) t))"

definition media_provider :: "cache \<Rightarrow> string \<Rightarrow> string option" where
  "media_provider st uri = map_option mw_provider (row_at mw_uri uri (cs_media st))"

text \<open>\<open>DELETE FROM media_items\<close> cascades to every table that references the URI.\<close>

definition delete_media :: "string \<Rightarrow> cache \<Rightarrow> cache" where
  "delete_media uri st = st\<lparr>cs_media := filter (\<lambda>r. mw_uri r \<noteq> uri) (cs_media st),
     cs_items := (\<lambda>i. filter (\<lambda>r. fst r \<noteq> uri) (cs_items st i)),
     cs_library := filter (\<lambda>r. lb_uri r \<noteq> uri) (cs_library st),
     cs_recent := filter (\<lambda>r. rt_uri r \<noteq> uri) (cs_recent st)\<rparr>"

section \<open>Playlists\<close>

definition playlist_uri :: "string \<Rightarrow> (string, string) result" where
  "playlist_uri playlist_id =
     result_bind (case resource_uri_parse playlist_id of
         Ok resource \<Rightarrow> Ok resource
       | Err _ \<Rightarrow> map_err uri_error_display (spotify_from_uri_or_id Playlist playlist_id))
     (\<lambda>resource. if ru_kind resource \<noteq> Playlist
        then Err (''playlist URI kind `'' @ media_kind_label (ru_kind resource) @ ''` does not match playlist'')
        else Ok (as_uri resource))"

definition playlist_media_item :: "string \<Rightarrow> playlist \<Rightarrow> (media_item, string) result" where
  "playlist_media_item provider_id p = result_bind (playlist_uri (pl_id p)) (\<lambda>uri.
     Ok (default_media_item\<lparr>mi_id := Some (pl_id p), mi_uri := uri, mi_name := pl_name p, mi_subtitle := pl_owner p,
       mi_context := show_nat (pl_tracks_total p) @ '' tracks'', mi_duration_ms := 0,
       mi_image_url := pl_image_url p, mi_kind := Playlist, mi_source := Some (SrcProvider provider_id),
       mi_freshness := None, mi_explicit := None, mi_is_playable := None\<rparr>))"

fun map_result :: "('a \<Rightarrow> ('b, 'e) result) \<Rightarrow> 'a list \<Rightarrow> ('b list, 'e) result" where
  "map_result f [] = Ok []"
| "map_result f (x # xs) = result_bind (f x) (\<lambda>y. result_bind (map_result f xs) (\<lambda>ys. Ok (y # ys)))"

definition playlist_row_of :: "i64 \<Rightarrow> playlist \<Rightarrow> string \<Rightarrow> playlist_row" where
  "playlist_row_of now p uri = \<lparr>py_id = pl_id p, py_uri = uri, py_name = pl_name p, py_owner = pl_owner p,
     py_tracks_total = u64_as_i64 (pl_tracks_total p), py_image_url = pl_image_url p, py_fetched_at_ms = now,
     py_snapshot_id = None, py_tracks_accessible = True\<rparr>"

definition merge_playlist_row :: "playlist_row \<Rightarrow> playlist_row \<Rightarrow> playlist_row" where
  "merge_playlist_row old new =
     new\<lparr>py_snapshot_id := py_snapshot_id old, py_tracks_accessible := py_tracks_accessible old\<rparr>"

text \<open>Deleting playlists cascades to their item rows.\<close>

definition delete_playlists :: "(playlist_row \<Rightarrow> bool) \<Rightarrow> cache \<Rightarrow> cache" where
  "delete_playlists P st = st\<lparr>cs_playlists := filter (\<lambda>r. \<not> P r) (cs_playlists st),
     cs_items := (\<lambda>i. if \<exists>r \<in> set (cs_playlists st). py_id r = i \<and> P r then [] else cs_items st i)\<rparr>"

fun write_playlists :: "i64 \<Rightarrow> playlist list \<Rightarrow> cache \<Rightarrow> (cache, string) result" where
  "write_playlists now [] st = Ok st"
| "write_playlists now (p # ps) st =
     result_bind (playlist_uri (pl_id p)) (\<lambda>uri.
       let st1 = delete_playlists (\<lambda>r. py_uri r = uri \<and> py_id r \<noteq> pl_id p) st
       in write_playlists now ps
            (st1\<lparr>cs_playlists := upsert py_id merge_playlist_row (playlist_row_of now p uri) (cs_playlists st1)\<rparr>))"

definition cached_playlist_uris :: "string \<Rightarrow> cache \<Rightarrow> string list" where
  "cached_playlist_uris provider st = remdups (map py_uri (sort_key py_id
     (filter (\<lambda>r. media_provider st (py_uri r) = Some provider) (cs_playlists st))))"

definition remove_playlist :: "string \<Rightarrow> cache \<Rightarrow> cache" where
  "remove_playlist uri st = delete_media uri (delete_playlists (\<lambda>r. py_uri r = uri) st)"

definition replace_provider_playlists ::
    "string \<Rightarrow> string \<Rightarrow> playlist list \<Rightarrow> i64 \<Rightarrow> cache \<Rightarrow> (cache \<times> nat \<times> string list, string) result" where
  "replace_provider_playlists namespace search_origin playlists now st =
     result_bind (map_result (playlist_media_item search_origin) playlists) (\<lambda>items.
     result_bind (map_result (\<lambda>p. playlist_uri (pl_id p)) playlists) (\<lambda>incoming.
     result_bind (upsert_media_items items (Some namespace) search_origin now (cs_media st)) (\<lambda>media.
       let st1 = st\<lparr>cs_media := media\<rparr>;
           removed = filter (\<lambda>uri. uri \<notin> set incoming) (cached_playlist_uris namespace st1)
       in result_bind (write_playlists now playlists st1) (\<lambda>st2.
            Ok (fold remove_playlist removed st2, length playlists, removed)))))"

definition playlist_version_token :: "string \<Rightarrow> cache \<Rightarrow> string option" where
  "playlist_version_token i st = Option.bind (row_at py_id i (cs_playlists st)) py_snapshot_id"

definition playlist_tracks_accessible :: "string \<Rightarrow> cache \<Rightarrow> bool" where
  "playlist_tracks_accessible i st = (case row_at py_id i (cs_playlists st) of Some r \<Rightarrow> py_tracks_accessible r | None \<Rightarrow> True)"

definition mark_playlist_tracks_inaccessible_at_version :: "string \<Rightarrow> string option \<Rightarrow> i64 \<Rightarrow> cache \<Rightarrow> cache" where
  "mark_playlist_tracks_inaccessible_at_version i token now st =
     st\<lparr>cs_playlists := update_at py_id i (\<lambda>_. True)
       (\<lambda>r. r\<lparr>py_snapshot_id := coalesce token (py_snapshot_id r), py_tracks_accessible := False, py_fetched_at_ms := now\<rparr>)
       (cs_playlists st)\<rparr>"

definition playlist_items_count :: "string \<Rightarrow> cache \<Rightarrow> nat" where
  "playlist_items_count i st = length (cs_items st i)"

definition persist_playlist_items :: "string \<Rightarrow> string \<Rightarrow> media_item list \<Rightarrow> string option \<Rightarrow> i64 \<Rightarrow> cache
    \<Rightarrow> (cache \<times> nat, string) result" where
  "persist_playlist_items provider i items token now st =
     (if case row_at py_id i (cs_playlists st) of None \<Rightarrow> True | Some r \<Rightarrow> media_provider st (py_uri r) \<noteq> Some provider
      then Err (''playlist `'' @ i @ ''` is not cached for provider `'' @ provider @ ''`'')
      else result_bind (upsert_media_items items (Some provider) provider now (cs_media st)) (\<lambda>media.
        Ok (st\<lparr>cs_media := media,
             cs_items := (cs_items st)(i := map (\<lambda>item. (mi_uri item, token)) items),
             cs_playlists := update_at py_id i (\<lambda>_. True)
               (\<lambda>r. r\<lparr>py_snapshot_id := coalesce token (py_snapshot_id r), py_tracks_accessible := True, py_fetched_at_ms := now\<rparr>)
               (cs_playlists st)\<rparr>, length items)))"


section \<open>Library and recent plays\<close>

definition set_saved :: "bool \<Rightarrow> string \<Rightarrow> media_row list \<Rightarrow> media_row list" where
  "set_saved saved uri = update_at mw_uri uri (\<lambda>_. True) (\<lambda>r. r\<lparr>mw_saved := saved, mw_liked := saved\<rparr>)"

definition library_row_of :: "media_kind \<Rightarrow> i64 \<Rightarrow> nat \<Rightarrow> string \<Rightarrow> library_row" where
  "library_row_of kind now pos uri = \<lparr>lb_uri = uri, lb_kind = media_kind_label kind,
     lb_saved = (kind \<noteq> Artist), lb_followed = (kind = Artist), lb_fetched_at_ms = now, lb_position = pos\<rparr>"

fun write_library :: "media_kind \<Rightarrow> i64 \<Rightarrow> nat \<Rightarrow> media_item list \<Rightarrow> cache \<Rightarrow> cache" where
  "write_library kind now pos [] st = st"
| "write_library kind now pos (item # items) st = write_library kind now (Suc pos) items
     (st\<lparr>cs_library := upsert lb_uri (\<lambda>_ new. new) (library_row_of kind now pos (mi_uri item)) (cs_library st),
        cs_media := (if kind = Artist then cs_media st else set_saved True (mi_uri item) (cs_media st))\<rparr>)"

definition cached_library_uris :: "string \<Rightarrow> media_kind \<Rightarrow> cache \<Rightarrow> string list" where
  "cached_library_uris provider kind st = sort (map lb_uri
     (filter (\<lambda>r. media_provider st (lb_uri r) = Some provider \<and> lb_kind r = media_kind_label kind) (cs_library st)))"

definition remove_library :: "media_kind \<Rightarrow> string \<Rightarrow> cache \<Rightarrow> cache" where
  "remove_library kind uri st = st\<lparr>cs_library := filter (\<lambda>r. lb_uri r \<noteq> uri) (cs_library st),
     cs_media := (if kind = Artist then cs_media st else set_saved False uri (cs_media st))\<rparr>"

definition replace_provider_library_kind :: "string \<Rightarrow> media_kind \<Rightarrow> media_item list \<Rightarrow> i64 \<Rightarrow> cache
    \<Rightarrow> (cache \<times> nat \<times> string list, string) result" where
  "replace_provider_library_kind provider kind items now st =
     (if \<exists>item \<in> set items. mi_kind item \<noteq> kind then Err ''authoritative library snapshot mixed media kinds''
      else result_bind (upsert_media_items items (Some provider) provider now (cs_media st)) (\<lambda>media.
        let st1 = st\<lparr>cs_media := media\<rparr>;
            removed = filter (\<lambda>uri. uri \<notin> mi_uri ` set items) (cached_library_uris provider kind st1)
        in Ok (fold (remove_library kind) removed (write_library kind now 0 items st1), length items, removed)))"

text \<open>\<open>INSERT OR REPLACE\<close>: the key of a recent play is the item and the time.\<close>

definition recent_key :: "recent_row \<Rightarrow> string \<times> i64" where
  "recent_key r = (rt_uri r, rt_played_at_ms r)"

fun write_recent :: "i64 \<Rightarrow> nat \<Rightarrow> media_item list \<Rightarrow> recent_row list \<Rightarrow> recent_row list" where
  "write_recent now pos [] t = t"
| "write_recent now pos (item # items) t = write_recent now (Suc pos) items
     (let new = \<lparr>rt_uri = mi_uri item, rt_played_at_ms = sat_i64 (now - int pos), rt_fetched_at_ms = now, rt_position = pos\<rparr>
      in filter (\<lambda>r. recent_key r \<noteq> recent_key new) t @ [new])"

definition persist_recent_items :: "string \<Rightarrow> media_item list \<Rightarrow> i64 \<Rightarrow> cache \<Rightarrow> (cache \<times> nat, string) result" where
  "persist_recent_items provider items now st =
     (if items = [] then Ok (st, 0)
      else result_bind (upsert_media_items items (Some provider) provider now (cs_media st)) (\<lambda>media.
        Ok (st\<lparr>cs_media := media, cs_recent := write_recent now 0 items (cs_recent st)\<rparr>, length items)))"

section \<open>Sync events, cursors and cooldowns\<close>

definition events_of :: "string \<Rightarrow> string \<Rightarrow> cache \<Rightarrow> sync_event list" where
  "events_of provider domain st = filter (\<lambda>e. sv_provider e = provider \<and> sv_domain e = domain) (cs_events st)"

definition is_latest :: "sync_event \<Rightarrow> cache \<Rightarrow> bool" where
  "is_latest e st \<longleftrightarrow> (\<forall>x \<in> set (events_of (sv_provider e) (sv_domain e) st). sv_started_at_ms x \<le> sv_started_at_ms e)"

definition merge_cursor :: "bool \<Rightarrow> bool \<Rightarrow> bool \<Rightarrow> cursor_row \<Rightarrow> cursor_row \<Rightarrow> cursor_row" where
  "merge_cursor latest has_cursor ok old new = old\<lparr>
     sc_cursor := (if latest \<and> has_cursor then sc_cursor new else sc_cursor old),
     sc_last_success_at_ms := (if latest \<and> ok then sc_last_success_at_ms new else sc_last_success_at_ms old),
     sc_last_error := (if latest then sc_last_error new else sc_last_error old)\<rparr>"

definition record_sync_event :: "sync_event \<Rightarrow> string option \<Rightarrow> cache \<Rightarrow> cache" where
  "record_sync_event e cursor st =
     (let ok = (sv_status e = ''ok'');
          new = \<lparr>sc_key = (sv_provider e, sv_domain e), sc_cursor = cursor,
            sc_last_success_at_ms = (if ok then Some (sv_finished_at_ms e) else None), sc_last_error = sv_error e\<rparr>
      in st\<lparr>cs_events := cs_events st @ [e],
           cs_cursors := upsert sc_key (merge_cursor (is_latest e st) (cursor \<noteq> None) ok) new (cs_cursors st)\<rparr>)"

definition sync_cursor :: "string \<Rightarrow> string \<Rightarrow> cache \<Rightarrow> string option" where
  "sync_cursor provider domain st = Option.bind (row_at sc_key (provider, domain) (cs_cursors st)) sc_cursor"

definition clear_sync_cursor :: "string \<Rightarrow> string \<Rightarrow> cache \<Rightarrow> cache" where
  "clear_sync_cursor provider domain st =
     st\<lparr>cs_cursors := update_at sc_key (provider, domain) (\<lambda>_. True) (\<lambda>r. r\<lparr>sc_cursor := None\<rparr>) (cs_cursors st)\<rparr>"

definition clear_sync_cursors_with_prefix :: "string \<Rightarrow> string \<Rightarrow> cache \<Rightarrow> cache" where
  "clear_sync_cursors_with_prefix provider prefix_text st = st\<lparr>cs_cursors := map (\<lambda>r.
     if fst (sc_key r) = provider \<and> take (length prefix_text) (snd (sc_key r)) = prefix_text then r\<lparr>sc_cursor := None\<rparr> else r)
     (cs_cursors st)\<rparr>"

text \<open>The text after the first occurrence of a marker, for \<open>str::contains\<close> and \<open>split_once\<close>.\<close>

fun after_marker :: "string \<Rightarrow> string \<Rightarrow> string option" where
  "after_marker marker text = (if take (length marker) text = marker then Some (drop (length marker) text)
     else case text of [] \<Rightarrow> None | c # cs \<Rightarrow> after_marker marker cs)"

declare after_marker.simps [simp del]

definition legacy_retry_after_seconds :: "string \<Rightarrow> nat option" where
  "legacy_retry_after_seconds message =
     (let text = to_ascii_lowercase message
      in if after_marker ''rate limit'' text = None \<and> after_marker ''rate limited'' text = None then None
         else Option.bind (after_marker ''retry after '' text)
                (\<lambda>rest. parse_uint (2 ^ 63 - 1) (takeWhile is_ascii_digit rest)))"

text \<open>The newest event with an error or a retry hint; the first recorded one among equal times.\<close>

definition cooldown_event :: "string \<Rightarrow> string \<Rightarrow> cache \<Rightarrow> sync_event option" where
  "cooldown_event provider domain st =
     (let candidates = filter (\<lambda>e. sv_retry_after_secs e \<noteq> None \<or> sv_error e \<noteq> None) (events_of provider domain st)
      in find (\<lambda>e. \<forall>x \<in> set candidates. sv_finished_at_ms x \<le> sv_finished_at_ms e) candidates)"

definition event_retry_secs :: "sync_event \<Rightarrow> nat option" where
  "event_retry_secs e = (case sv_retry_after_secs e of
       Some s \<Rightarrow> Some s
     | None \<Rightarrow> Option.bind (sv_error e) legacy_retry_after_seconds)"

definition retry_until_ms :: "sync_event \<Rightarrow> nat \<Rightarrow> i64" where
  "retry_until_ms e secs = sat_i64 (sv_finished_at_ms e + sat_i64 (int secs * 1000))"

definition cooldown_remaining_ms :: "string \<Rightarrow> string \<Rightarrow> i64 \<Rightarrow> cache \<Rightarrow> i64 option" where
  "cooldown_remaining_ms provider domain now st =
     Option.bind (cooldown_event provider domain st) (\<lambda>e. Option.bind (event_retry_secs e) (\<lambda>secs.
       let remaining = sat_i64 (retry_until_ms e secs - now) in if 0 < remaining then Some remaining else None))"

definition MAX_PERSISTED_COOLDOWN_LOOKBACK_MS :: i64 where
  "MAX_PERSISTED_COOLDOWN_LOOKBACK_MS = 48 * 60 * 60 * 1000"

definition max_cooldown_remaining_ms :: "string \<Rightarrow> i64 \<Rightarrow> cache \<Rightarrow> i64 option" where
  "max_cooldown_remaining_ms provider now st =
     (let rows = filter (\<lambda>e. sv_provider e = provider \<and> sat_i64 (now - MAX_PERSISTED_COOLDOWN_LOOKBACK_MS) < sv_finished_at_ms e \<and>
               (sv_retry_after_secs e \<noteq> None \<or> sv_error e \<noteq> None)) (cs_events st);
          left = List.map_filter (\<lambda>e. Option.bind (event_retry_secs e) (\<lambda>secs.
               let until = retry_until_ms e secs in if now < until then Some (sat_i64 (until - now)) else None)) rows
      in if left = [] then None else Some (Max (set left)))"

end
