(* ===== verification/Sync_Engine.thy ===== *)
theory Sync_Engine
  imports Sync_Paging Sync_Store
begin

text \<open>
  The sync engine (\<open>spotuify-sync/src/sync_loop.rs\<close>): one pass over a provider's playlists, recent plays or
  library into the cache, the retry after an expired sync token, the pass over all domains, the aggregate
  over all providers, and the backoffs of the scheduler. A provider's answers, the clock and the gates of
  the host are arguments. The polls of playback, queue and devices end in the playback clock and the queue
  merge, which have theories of their own; here they are one argument.
\<close>

section \<open>Vocabulary\<close>

datatype sync_status = SyncSucceeded | SyncPartial | SyncFailed

record provider_outcome =
  po_provider :: string
  po_status :: sync_status
  po_error :: "string option"

record sync_counts =
  sm_playback_snapshots :: nat
  sm_queue_snapshots :: nat
  sm_queue_items :: nat
  sm_devices :: nat
  sm_playlists :: nat
  sm_playlist_items :: nat
  sm_recent_items :: nat
  sm_library_items :: nat
  sm_media_items :: nat

record sync_summary = sync_counts +
  sm_target :: sync_target
  sm_provider :: "string option"
  sm_status :: sync_status
  sm_error :: "string option"
  sm_outcomes :: "provider_outcome list"

definition empty_summary :: "sync_target \<Rightarrow> string option \<Rightarrow> sync_summary" where
  "empty_summary target provider = \<lparr>sm_playback_snapshots = 0, sm_queue_snapshots = 0, sm_queue_items = 0,
     sm_devices = 0, sm_playlists = 0, sm_playlist_items = 0, sm_recent_items = 0, sm_library_items = 0,
     sm_media_items = 0, sm_target = target, sm_provider = provider, sm_status = SyncSucceeded, sm_error = None,
     sm_outcomes = []\<rparr>"

definition merge_summary :: "sync_summary \<Rightarrow> sync_summary \<Rightarrow> sync_summary" where
  "merge_summary acc nxt = acc\<lparr>
     sm_playback_snapshots := sm_playback_snapshots acc + sm_playback_snapshots nxt,
     sm_queue_snapshots := sm_queue_snapshots acc + sm_queue_snapshots nxt,
     sm_queue_items := sm_queue_items acc + sm_queue_items nxt,
     sm_devices := sm_devices acc + sm_devices nxt,
     sm_playlists := sm_playlists acc + sm_playlists nxt,
     sm_playlist_items := sm_playlist_items acc + sm_playlist_items nxt,
     sm_recent_items := sm_recent_items acc + sm_recent_items nxt,
     sm_library_items := sm_library_items acc + sm_library_items nxt,
     sm_media_items := sm_media_items acc + sm_media_items nxt\<rparr>"

text \<open>Failures of a pass: the provider's errors, which the callers inspect, and everything else as text.\<close>

datatype sync_error = ProviderErr provider_error | HostErr string

record sync_provider =
  sp_id :: string
  sp_scheme :: uri_scheme
  sp_playlists_list :: bool
  sp_playlists_item_read :: bool
  sp_playlists_list_max :: "nat option"
  sp_playlists_items_max :: "nat option"
  sp_recently_played :: bool
  sp_recent_max :: "nat option"
  sp_read_kinds :: "media_kind list"
  sp_library_max :: "nat option"
  sp_freshness_probe :: bool
  sp_playback_state :: bool
  sp_queue_read :: bool
  sp_device_list :: bool
  sp_has_transport :: bool
  sp_playlists :: "nat \<Rightarrow> page_request \<Rightarrow> (playlist provider_page, provider_error) result"
  sp_playlist_items :: "string \<Rightarrow> nat \<Rightarrow> page_request \<Rightarrow> (media_item provider_page access_outcome, provider_error) result"
  sp_recent :: "nat \<Rightarrow> page_request \<Rightarrow> (media_item provider_page, provider_error) result"
  sp_library :: "media_kind \<Rightarrow> nat \<Rightarrow> page_request \<Rightarrow> (media_item provider_page, provider_error) result"
  sp_probe :: "media_kind \<Rightarrow> (string, provider_error) result"
  sp_freshness_changed :: "string \<Rightarrow> string \<Rightarrow> bool"
  sp_version_changed :: "string option \<Rightarrow> string option \<Rightarrow> bool"

text \<open>Calls of the host: broadcast events and updates of the search index.\<close>

datatype host_call =
    EvSyncStarted sync_target string
  | EvSyncFinished sync_summary
  | EvTracksInaccessible string string
  | IndexItems string "string list" bool
  | RemoveIndexed "string list"

record pass_state =
  ps_cache :: cache
  ps_calls :: "host_call list"

text \<open>One reading of the clock per pass and per store call, error texts, and the index calls that may fail.\<close>

record sync_env =
  se_started_ms :: i64
  se_now_ms :: i64
  se_show :: "provider_error \<Rightarrow> string"
  se_unindex_ok :: bool
  se_index_ok :: bool
  se_live :: "sync_target \<Rightarrow> sync_summary \<Rightarrow> pass_state \<Rightarrow> pass_state \<times> (sync_summary, sync_error) result"

type_synonym 'a pass = "pass_state \<Rightarrow> pass_state \<times> ('a, sync_error) result"

section \<open>A monad for passes\<close>

text \<open>The \<open>?\<close> of the source: effects so far are kept, the first error ends the pass.\<close>

definition pass_return :: "'a \<Rightarrow> 'a pass" where
  "pass_return x ps = (ps, Ok x)"

definition pass_fail :: "sync_error \<Rightarrow> 'a pass" where
  "pass_fail e ps = (ps, Err e)"

definition pass_bind :: "'a pass \<Rightarrow> ('a \<Rightarrow> 'b pass) \<Rightarrow> 'b pass" where
  "pass_bind c f ps = (case c ps of (ps', Ok x) \<Rightarrow> f x ps' | (ps', Err e) \<Rightarrow> (ps', Err e))"

definition pass_lift :: "('e \<Rightarrow> sync_error) \<Rightarrow> ('a, 'e) result \<Rightarrow> 'a pass" where
  "pass_lift f r ps = (ps, map_err f r)"

definition on_cache :: "(cache \<Rightarrow> cache) \<Rightarrow> unit pass" where
  "on_cache f ps = (ps\<lparr>ps_cache := f (ps_cache ps)\<rparr>, Ok ())"

definition tx :: "(cache \<Rightarrow> (cache \<times> 'a, string) result) \<Rightarrow> 'a pass" where
  "tx f ps = (case f (ps_cache ps) of
       Ok (c, x) \<Rightarrow> (ps\<lparr>ps_cache := c\<rparr>, Ok x)
     | Err msg \<Rightarrow> (ps, Err (HostErr msg)))"

definition host :: "host_call \<Rightarrow> unit pass" where
  "host c ps = (ps\<lparr>ps_calls := ps_calls ps @ [c]\<rparr>, Ok ())"

definition from_cache :: "(cache \<Rightarrow> 'a) \<Rightarrow> 'a pass" where
  "from_cache f ps = (ps, Ok (f (ps_cache ps)))"

section \<open>Checks on what a provider returned\<close>

definition validate_provider_media_item :: "sync_provider \<Rightarrow> media_item \<Rightarrow> (unit, provider_error) result" where
  "validate_provider_media_item p item = (case resource_uri_parse (mi_uri item) of
       Err e \<Rightarrow> Err (InvalidInput ''media_item.uri'' (''provider '' @ sp_id p @ '' returned `'' @ mi_uri item @ ''`: '' @ uri_error_display e))
     | Ok uri \<Rightarrow>
         (if ru_scheme uri \<noteq> sp_scheme p \<or> ru_kind uri \<noteq> mi_kind item
          then Err (InvalidInput ''media_item.uri'' (''provider '' @ sp_id p @ '' returned foreign or mismatched media item `'' @
                 mi_uri item @ ''` ('' @ media_kind_label (mi_kind item) @ '')''))
          else Ok ()))"

definition validate_provider_media_items :: "sync_provider \<Rightarrow> media_item list \<Rightarrow> (unit, provider_error) result" where
  "validate_provider_media_items p = check_all (validate_provider_media_item p)"

definition validate_provider_collection_items ::
    "sync_provider \<Rightarrow> string \<Rightarrow> media_kind list \<Rightarrow> media_item list \<Rightarrow> (unit, provider_error) result" where
  "validate_provider_collection_items p operation allowed items =
     result_bind (validate_provider_media_items p items) (\<lambda>_.
       case find (\<lambda>item. mi_kind item \<notin> set allowed) items of
         None \<Rightarrow> Ok ()
       | Some item \<Rightarrow> Err (InvalidInput (operation @ ''.kind'') (''provider '' @ sp_id p @ '' returned '' @
           media_kind_label (mi_kind item) @ '' item `'' @ mi_uri item @ ''` for '' @ operation @ ''; expected '' @
           join_with '' or '' (map media_kind_label allowed))))"

definition normalize_provider_playlist :: "sync_provider \<Rightarrow> playlist \<Rightarrow> (playlist, sync_error) result" where
  "normalize_provider_playlist p pl =
     result_bind (case resource_uri_parse (pl_id pl) of
         Ok uri \<Rightarrow> Ok uri
       | Err _ \<Rightarrow> map_err (\<lambda>e. HostErr (uri_error_display e)) (resource_uri_new (sp_scheme p) Playlist (pl_id pl)))
     (\<lambda>uri. if ru_kind uri \<noteq> Playlist \<or> ru_scheme uri \<noteq> sp_scheme p
        then Err (ProviderErr (InvalidInput ''playlist''
               (''provider '' @ sp_id p @ '' returned foreign playlist `'' @ pl_id pl @ ''`'')))
        else Ok (pl\<lparr>pl_id := as_uri uri\<rparr>))"

definition normalize_provider_playlists :: "sync_provider \<Rightarrow> playlist list \<Rightarrow> (playlist list, sync_error) result" where
  "normalize_provider_playlists p = map_result (normalize_provider_playlist p)"

definition playlist_as_media_item :: "string \<Rightarrow> playlist \<Rightarrow> (media_item, uri_error) result" where
  "playlist_as_media_item provider_id pl = result_bind (resource_uri_parse (pl_id pl)) (\<lambda>uri.
     Ok (default_media_item\<lparr>mi_id := Some (pl_id pl), mi_uri := as_uri uri, mi_name := pl_name pl,
       mi_subtitle := pl_owner pl, mi_context := show_nat (pl_tracks_total pl) @ '' tracks'', mi_duration_ms := 0,
       mi_image_url := pl_image_url pl, mi_kind := Playlist, mi_source := Some (SrcProvider provider_id),
       mi_freshness := Some ''fresh'', mi_explicit := None, mi_is_playable := None\<rparr>))"

definition should_refetch_playlist_tracks :: "string option \<Rightarrow> string option \<Rightarrow> bool" where
  "should_refetch_playlist_tracks local remote = (case (local, remote) of
       (None, _) \<Rightarrow> True
     | (_, None) \<Rightarrow> True
     | (Some l, Some r) \<Rightarrow> l \<noteq> r)"

definition should_refetch_for_provider :: "sync_provider \<Rightarrow> string option \<Rightarrow> string option \<Rightarrow> bool" where
  "should_refetch_for_provider p local remote = (case (local, remote) of
       (Some l, Some r) \<Rightarrow> sp_version_changed p (Some l) (Some r)
     | _ \<Rightarrow> should_refetch_playlist_tracks local remote)"

definition default_version_changed :: "string option \<Rightarrow> string option \<Rightarrow> bool" where
  "default_version_changed previous current = (case (previous, current) of
       (Some a, Some b) \<Rightarrow> a \<noteq> b | _ \<Rightarrow> True)"

definition is_control_provider_error :: "provider_error \<Rightarrow> bool" where
  "is_control_provider_error e \<longleftrightarrow> is_auth_error e \<or>
     (case e of RateLimited _ _ \<Rightarrow> True | SyncTokenExpired _ \<Rightarrow> True | _ \<Rightarrow> False)"

definition playlist_tracks_forbidden :: "provider_error \<Rightarrow> bool" where
  "playlist_tracks_forbidden e = (case e of Forbidden _ \<Rightarrow> True | _ \<Rightarrow> False)"

text \<open>Durations are milliseconds; the hint is kept in whole seconds, rounded up, at least one.\<close>

definition retry_after_secs :: "provider_error \<Rightarrow> nat option" where
  "retry_after_secs e = (case e of
       RateLimited _ (Some millis) \<Rightarrow> Some (min (max ((millis + 999) div 1000) 1) u64_max)
     | _ \<Rightarrow> None)"

definition is_sync_token_expired :: "sync_error \<Rightarrow> bool" where
  "is_sync_token_expired e = (case e of ProviderErr (SyncTokenExpired _) \<Rightarrow> True | _ \<Rightarrow> False)"

section \<open>Recording\<close>

definition fail_if_rate_limited_domain :: "sync_env \<Rightarrow> sync_provider \<Rightarrow> string \<Rightarrow> unit pass" where
  "fail_if_rate_limited_domain env p domain ps =
     (case cooldown_remaining_ms (sp_id p) domain (se_now_ms env) (ps_cache ps) of
        Some remaining \<Rightarrow> (ps, Err (ProviderErr (RateLimited (Some domain) (Some (nat remaining)))))
      | None \<Rightarrow> (ps, Ok ()))"

definition sync_event_of :: "sync_env \<Rightarrow> sync_provider \<Rightarrow> string \<Rightarrow> string \<Rightarrow> nat \<Rightarrow> string option \<Rightarrow> nat option \<Rightarrow> sync_event" where
  "sync_event_of env p domain status rows err retry = \<lparr>sv_provider = sp_id p, sv_domain = domain,
     sv_started_at_ms = se_started_ms env, sv_finished_at_ms = se_now_ms env, sv_status = status,
     sv_row_count = rows, sv_error = err,
     sv_retry_after_secs = (case retry of Some s \<Rightarrow> if s \<le> 2 ^ 63 - 1 then Some s else None | None \<Rightarrow> None)\<rparr>"

definition record_ok :: "sync_env \<Rightarrow> sync_provider \<Rightarrow> string \<Rightarrow> nat \<Rightarrow> unit pass" where
  "record_ok env p domain rows = on_cache (record_sync_event (sync_event_of env p domain ''ok'' rows None None) None)"

definition record_sync_error :: "sync_env \<Rightarrow> sync_provider \<Rightarrow> string \<Rightarrow> provider_error \<Rightarrow> unit pass" where
  "record_sync_error env p domain e = on_cache (record_sync_event
     (sync_event_of env p domain ''error'' 0 (Some (se_show env e)) (retry_after_secs e)) None)"

definition record_and_fail :: "sync_env \<Rightarrow> sync_provider \<Rightarrow> string \<Rightarrow> provider_error \<Rightarrow> 'a pass" where
  "record_and_fail env p domain e = pass_bind (record_sync_error env p domain e) (\<lambda>_. pass_fail (ProviderErr e))"


section \<open>Playlists\<close>

text \<open>The refetch gate: whether the items of a listed playlist are read again.\<close>

definition refetch_playlist :: "sync_provider \<Rightarrow> bool \<Rightarrow> string option \<Rightarrow> playlist \<Rightarrow> cache \<Rightarrow> bool" where
  "refetch_playlist p force local pl c =
     (let version_changed = should_refetch_for_provider p local (pl_version_token pl)
      in if \<not> force \<and> \<not> playlist_tracks_accessible (pl_id pl) c \<and> local = pl_version_token pl then False
         else force \<or> version_changed \<or>
           (\<not> version_changed \<and> 0 < pl_tracks_total pl \<and> playlist_items_count (pl_id pl) c = 0))"

definition mark_inaccessible :: "sync_env \<Rightarrow> sync_provider \<Rightarrow> playlist \<Rightarrow> unit pass" where
  "mark_inaccessible env p pl = pass_bind
     (on_cache (mark_playlist_tracks_inaccessible_at_version (pl_id pl) (pl_version_token pl) (se_now_ms env)))
     (\<lambda>_. host (EvTracksInaccessible (pl_id pl) (sp_id p)))"

definition store_playlist_items :: "sync_env \<Rightarrow> sync_provider \<Rightarrow> playlist \<Rightarrow> media_item list \<Rightarrow> (nat \<times> nat) pass" where
  "store_playlist_items env p pl items =
     pass_bind (pass_lift ProviderErr (validate_provider_collection_items p ''playlist_items'' [Track, Episode] items)) (\<lambda>_.
     pass_bind (tx (persist_playlist_items (sp_id p) (pl_id pl) items (pl_version_token pl) (se_now_ms env))) (\<lambda>written.
     pass_bind (host (IndexItems (sp_id p) (map mi_uri items) False)) (\<lambda>_. pass_return (written, length items))))"

definition sync_one_playlist :: "sync_env \<Rightarrow> sync_provider \<Rightarrow> bool \<Rightarrow> string option \<Rightarrow> playlist \<Rightarrow> (nat \<times> nat) pass" where
  "sync_one_playlist env p force local pl = pass_bind (from_cache (refetch_playlist p force local pl)) (\<lambda>needed.
     if \<not> needed then pass_return (0, 0)
     else case resource_uri_parse (pl_id pl) of
       Err _ \<Rightarrow> pass_return (0, 0)
     | Ok uri \<Rightarrow>
       (case fetch_all_playlist_items (sp_playlist_items p (as_uri uri)) (page_limit (sp_playlists_items_max p)) of
          Ok (Available items) \<Rightarrow> store_playlist_items env p pl items
        | Ok (Unavailable TemporarilyUnavailable) \<Rightarrow> pass_return (0, 0)
        | Ok (Unavailable _) \<Rightarrow> pass_bind (mark_inaccessible env p pl) (\<lambda>_. pass_return (0, 0))
        | Err e \<Rightarrow>
            (if \<not> is_control_provider_error e \<and> playlist_tracks_forbidden e
             then pass_bind (mark_inaccessible env p pl) (\<lambda>_. pass_return (0, 0))
             else record_and_fail env p ''playlists'' e)))"

fun sync_each_playlist :: "sync_env \<Rightarrow> sync_provider \<Rightarrow> bool \<Rightarrow> (string \<Rightarrow> string option) \<Rightarrow> playlist list \<Rightarrow> (nat \<times> nat) pass" where
  "sync_each_playlist env p force locals [] = pass_return (0, 0)"
| "sync_each_playlist env p force locals (pl # pls) =
     pass_bind (sync_one_playlist env p force (locals (pl_id pl)) pl) (\<lambda>(written, media).
     pass_bind (sync_each_playlist env p force locals pls) (\<lambda>(written', media').
       pass_return (written + written', media + media')))"

definition sync_listed_playlists :: "sync_env \<Rightarrow> sync_provider \<Rightarrow> bool \<Rightarrow> playlist list \<Rightarrow> sync_summary \<Rightarrow> sync_summary pass" where
  "sync_listed_playlists env p force listed summary =
     pass_bind (pass_lift (\<lambda>e. e) (normalize_provider_playlists p listed)) (\<lambda>playlists.
     pass_bind (from_cache (\<lambda>c i. playlist_version_token i c)) (\<lambda>locals.
     pass_bind (tx (\<lambda>c. replace_provider_playlists (sp_id p) (sp_id p) playlists (se_now_ms env) c)) (\<lambda>(written, removed).
     pass_bind (if removed = [] then pass_return ()
                else if se_unindex_ok env then host (RemoveIndexed removed)
                else pass_fail (HostErr ''index update failed'')) (\<lambda>_.
     pass_bind (pass_lift (\<lambda>e. HostErr (uri_error_display e)) (map_result (playlist_as_media_item (sp_id p)) playlists)) (\<lambda>media.
     pass_bind (host (IndexItems (sp_id p) (map mi_uri media) False)) (\<lambda>_.
       let summary = summary\<lparr>sm_playlists := sm_playlists summary + written,
                       sm_media_items := sm_media_items summary + length playlists\<rparr>
       in if \<not> sp_playlists_item_read p
          then pass_bind (record_ok env p ''playlists'' (sm_playlists summary)) (\<lambda>_. pass_return summary)
          else pass_bind (sync_each_playlist env p force locals playlists) (\<lambda>(items, media_items).
               pass_bind (record_ok env p ''playlists'' (sm_playlists summary)) (\<lambda>_.
                 pass_return (summary\<lparr>sm_playlist_items := sm_playlist_items summary + items,
                   sm_media_items := sm_media_items summary + media_items\<rparr>)))))))))"

definition sync_playlists :: "sync_env \<Rightarrow> sync_provider \<Rightarrow> bool \<Rightarrow> sync_summary \<Rightarrow> sync_summary pass" where
  "sync_playlists env p force summary =
     pass_bind (fail_if_rate_limited_domain env p ''playlists'') (\<lambda>_.
       if \<not> sp_playlists_list p then pass_fail (ProviderErr (Unsupported ''playlists''))
       else case fetch_all_playlists (sp_playlists p) (page_limit (sp_playlists_list_max p)) of
              Err e \<Rightarrow> record_and_fail env p ''playlists'' e
            | Ok listed \<Rightarrow> sync_listed_playlists env p force listed summary)"

section \<open>Recent plays and the library\<close>

definition sync_recent :: "sync_env \<Rightarrow> sync_provider \<Rightarrow> sync_summary \<Rightarrow> sync_summary pass" where
  "sync_recent env p summary =
     pass_bind (fail_if_rate_limited_domain env p ''recent'') (\<lambda>_.
       if \<not> sp_recently_played p then pass_fail (ProviderErr (Unsupported ''recently_played''))
       else case fetch_all_recent (sp_recent p) (page_limit (sp_recent_max p)) of
              Err e \<Rightarrow> record_and_fail env p ''recent'' e
            | Ok items \<Rightarrow>
                pass_bind (pass_lift ProviderErr (validate_provider_collection_items p ''recently_played'' [Track, Episode] items)) (\<lambda>_.
                pass_bind (tx (persist_recent_items (sp_id p) items (se_now_ms env))) (\<lambda>written.
                pass_bind (host (IndexItems (sp_id p) (map mi_uri items) False)) (\<lambda>_.
                pass_bind (record_ok env p ''recent'' (length items)) (\<lambda>_.
                  pass_return (summary\<lparr>sm_recent_items := sm_recent_items summary + written,
                    sm_media_items := sm_media_items summary + length items\<rparr>))))))"

definition library_domain :: "media_kind \<Rightarrow> string" where
  "library_domain kind = ''library/'' @ media_kind_label kind"

definition current_probe :: "sync_env \<Rightarrow> sync_provider \<Rightarrow> media_kind \<Rightarrow> string option pass" where
  "current_probe env p kind = (if \<not> sp_freshness_probe p then pass_return None
     else case sp_probe p kind of
            Ok probe \<Rightarrow> pass_return (Some probe)
          | Err e \<Rightarrow> if is_control_provider_error e then record_and_fail env p ''library'' e else pass_return None)"

definition library_unchanged :: "sync_provider \<Rightarrow> media_kind \<Rightarrow> string option \<Rightarrow> cache \<Rightarrow> bool" where
  "library_unchanged p kind probe c = (case (sync_cursor (sp_id p) (library_domain kind) c, probe) of
       (Some previous, Some current) \<Rightarrow> \<not> sp_freshness_changed p previous current
     | _ \<Rightarrow> False)"

definition store_library_kind :: "sync_env \<Rightarrow> sync_provider \<Rightarrow> media_kind \<Rightarrow> string option \<Rightarrow> media_item list \<Rightarrow> (nat \<times> nat) pass" where
  "store_library_kind env p kind probe items =
     pass_bind (pass_lift ProviderErr (validate_provider_collection_items p ''library_items'' [kind] items)) (\<lambda>_.
     pass_bind (tx (\<lambda>c. replace_provider_library_kind (sp_id p) kind items (se_now_ms env) c)) (\<lambda>(written, removed).
     pass_bind (host (IndexItems (sp_id p) (map mi_uri items) True)) (\<lambda>_.
     pass_bind (if removed = [] then pass_return ()
                else if se_index_ok env then host (IndexItems (sp_id p) removed False)
                else pass_fail (HostErr ''index update failed'')) (\<lambda>_.
     pass_bind (case probe of None \<Rightarrow> pass_return ()
                | Some cursor \<Rightarrow> on_cache (record_sync_event
                    (sync_event_of env p (library_domain kind) ''ok'' written None None) (Some cursor))) (\<lambda>_.
       pass_return (written, length items))))))"

definition sync_library_kind :: "sync_env \<Rightarrow> sync_provider \<Rightarrow> bool \<Rightarrow> media_kind \<Rightarrow> (nat \<times> nat) pass" where
  "sync_library_kind env p force kind =
     pass_bind (current_probe env p kind) (\<lambda>probe.
     pass_bind (from_cache (library_unchanged p kind probe)) (\<lambda>unchanged.
       if \<not> force \<and> unchanged then pass_return (0, 0)
       else case fetch_all_library (sp_library p) kind (page_limit (sp_library_max p)) of
              Err e \<Rightarrow> record_and_fail env p ''library'' e
            | Ok items \<Rightarrow> store_library_kind env p kind probe items))"

fun sync_each_kind :: "sync_env \<Rightarrow> sync_provider \<Rightarrow> bool \<Rightarrow> media_kind list \<Rightarrow> (nat \<times> nat) pass" where
  "sync_each_kind env p force [] = pass_return (0, 0)"
| "sync_each_kind env p force (kind # kinds) =
     pass_bind (sync_library_kind env p force kind) (\<lambda>(written, media).
     pass_bind (sync_each_kind env p force kinds) (\<lambda>(written', media').
       pass_return (written + written', media + media')))"

definition sync_library :: "sync_env \<Rightarrow> sync_provider \<Rightarrow> bool \<Rightarrow> sync_summary \<Rightarrow> sync_summary pass" where
  "sync_library env p force summary =
     pass_bind (fail_if_rate_limited_domain env p ''library'') (\<lambda>_.
     pass_bind (sync_each_kind env p force (sp_read_kinds p)) (\<lambda>(written, media).
     pass_bind (record_ok env p ''library'' (sm_library_items summary + written)) (\<lambda>_.
       pass_return (summary\<lparr>sm_library_items := sm_library_items summary + written,
         sm_media_items := sm_media_items summary + media\<rparr>))))"

section \<open>Passes over a provider\<close>

definition provider_supports_target :: "sync_provider \<Rightarrow> sync_target \<Rightarrow> bool" where
  "provider_supports_target p target = (case target of
       TargetAll \<Rightarrow> True
     | TargetPlayback \<Rightarrow> sp_playback_state p \<and> sp_has_transport p
     | TargetQueue \<Rightarrow> sp_queue_read p \<and> sp_has_transport p
     | TargetDevices \<Rightarrow> sp_device_list p \<and> sp_has_transport p
     | TargetPlaylists \<Rightarrow> sp_playlists_list p
     | TargetRecent \<Rightarrow> sp_recently_played p
     | TargetLibrary \<Rightarrow> sp_read_kinds p \<noteq> [])"

definition sync_domain_once :: "sync_env \<Rightarrow> sync_provider \<Rightarrow> sync_target \<Rightarrow> bool \<Rightarrow> sync_summary \<Rightarrow> sync_summary pass" where
  "sync_domain_once env p target force summary = (case target of
       TargetPlayback \<Rightarrow> se_live env target summary
     | TargetQueue \<Rightarrow> se_live env target summary
     | TargetDevices \<Rightarrow> se_live env target summary
     | TargetPlaylists \<Rightarrow> sync_playlists env p force summary
     | TargetRecent \<Rightarrow> sync_recent env p summary
     | TargetLibrary \<Rightarrow> sync_library env p force summary
     | TargetAll \<Rightarrow> pass_return summary)"

definition clear_target_cursor :: "sync_provider \<Rightarrow> sync_target \<Rightarrow> unit pass" where
  "clear_target_cursor p target = on_cache (if target = TargetLibrary
     then clear_sync_cursors_with_prefix (sp_id p) ''library/''
     else clear_sync_cursor (sp_id p) (sync_target_label target))"

text \<open>The second attempt meets the provider again, with answers of its own.\<close>

definition sync_domain_with_recovery ::
    "sync_env \<Rightarrow> sync_provider \<Rightarrow> sync_provider \<Rightarrow> sync_target \<Rightarrow> sync_summary \<Rightarrow> sync_summary pass" where
  "sync_domain_with_recovery env p again target summary ps =
     (let fresh = empty_summary (sm_target summary) (sm_provider summary)
      in case sync_domain_once env p target False fresh ps of
           (ps', Ok attempt) \<Rightarrow> (ps', Ok (merge_summary summary attempt))
         | (ps', Err e) \<Rightarrow>
             (if \<not> is_sync_token_expired e then (ps', Err e)
              else pass_bind (clear_target_cursor p target) (\<lambda>_.
                   pass_bind (sync_domain_once env again target True fresh) (\<lambda>retry.
                     pass_return (merge_summary summary retry))) ps'))"

definition domains_of :: "sync_target \<Rightarrow> sync_target list" where
  "domains_of target = (if target = TargetAll
     then [TargetPlayback, TargetQueue, TargetDevices, TargetPlaylists, TargetRecent, TargetLibrary] else [target])"

fun sync_domains :: "sync_env \<Rightarrow> sync_provider \<Rightarrow> sync_provider \<Rightarrow> sync_target list \<Rightarrow> sync_summary \<Rightarrow> sync_summary pass" where
  "sync_domains env p again [] summary = pass_return summary"
| "sync_domains env p again (d # ds) summary =
     pass_bind (if provider_supports_target p d then sync_domain_with_recovery env p again d summary else pass_return summary)
       (sync_domains env p again ds)"

definition sync_provider_target :: "sync_env \<Rightarrow> sync_provider \<Rightarrow> sync_provider \<Rightarrow> sync_target \<Rightarrow> sync_summary pass" where
  "sync_provider_target env p again target =
     (if target \<noteq> TargetAll \<and> \<not> provider_supports_target p target
      then pass_fail (ProviderErr (Unsupported (''provider '' @ sp_id p @ '' '' @ sync_target_label target @ '' sync'')))
      else sync_domains env p again (domains_of target) (empty_summary target (Some (sp_id p))))"

end
