(* ===== verification/Sync_Laws.thy ===== *)
theory Sync_Laws
  imports Sync_Engine
begin

text \<open>
  What the sync engine promises: laws of the cache's upserts, a calculus of weakest preconditions for passes
  (\<open>wp\<close>, with \<open>wp_rules\<close>), the invariant \<open>cache_ok\<close> that every pass keeps whether it succeeds or fails, the
  mirror that a successful playlist pass leaves, and the success of a pass whose calls are answered.
  \<open>history\<close> gives the items of a playlist at a version; \<open>honest\<close> says that a provider serves them.
\<close>

section \<open>Upserts\<close>

lemma upsert_keys:
  assumes "\<And>old. key (merge old new) = key new"
  shows "map key (upsert key merge new t) = (if row_at key (key new) t = None then map key t @ [key new] else map key t)"
proof (cases "row_at key (key new) t = None")
  case False
  have "map key (update_at key (key new) (\<lambda>_. True) (\<lambda>old. merge old new) t) = map key t"
    by (auto simp: update_at_def assms)
  with False show ?thesis by (simp add: upsert_def)
qed (simp add: upsert_def)

lemma upsert_distinct:
  assumes "\<And>old. key (merge old new) = key new" "distinct (map key t)"
  shows "distinct (map key (upsert key merge new t))"
  unfolding upsert_keys [of key merge new, OF assms(1)] using assms(2) by (auto simp: row_at_None_iff)

lemma row_at_update_new:
  assumes "\<And>old. key (merge old new) = key new"
  shows "row_at key k (update_at key (key new) (\<lambda>_. True) (\<lambda>old. merge old new) t) =
    map_option (\<lambda>r. if k = key new then merge r new else r) (row_at key k t)"
  by (induction t) (auto simp: update_at_def row_at_Cons assms)

lemma row_at_upsert:
  assumes "\<And>old. key (merge old new) = key new"
  shows "row_at key k (upsert key merge new t) =
    (if k = key new then Some (case row_at key k t of None \<Rightarrow> new | Some old \<Rightarrow> merge old new) else row_at key k t)"
proof (cases "row_at key (key new) t")
  case None
  then show ?thesis by (auto simp: upsert_def row_at_append row_at_Cons split: option.splits)
next
  case (Some old)
  then show ?thesis by (simp add: upsert_def row_at_update_new [of key merge new, OF assms] option.map_ident)
qed

lemma set_upsert: "r \<in> set (upsert key merge new t) \<Longrightarrow> r \<in> set t \<or> r = new \<or> (\<exists>old \<in> set t. key old = key new \<and> r = merge old new)"
  by (auto simp: upsert_def update_at_def split: if_splits)

section \<open>The invariant of the cache\<close>

definition has_kind :: "media_kind list \<Rightarrow> string \<Rightarrow> bool" where
  "has_kind kinds uri = (case resource_uri_parse uri of Ok r \<Rightarrow> ru_kind r \<in> set kinds | Err _ \<Rightarrow> False)"

definition cache_wf :: "cache \<Rightarrow> bool" where
  "cache_wf c \<longleftrightarrow> distinct (map py_id (cs_playlists c)) \<and>
     (\<forall>r \<in> set (cs_playlists c). has_kind [Playlist] (py_uri r)) \<and>
     (\<forall>i. \<forall>x \<in> set (cs_items c i). has_kind [Track, Episode] (fst x))"

text \<open>The history of the provider: the item URIs of a playlist at a version.\<close>

type_synonym history = "string \<Rightarrow> string \<Rightarrow> string list"

definition row_faithful :: "history \<Rightarrow> cache \<Rightarrow> playlist_row \<Rightarrow> bool" where
  "row_faithful content c r \<longleftrightarrow> (\<forall>v. py_snapshot_id r = Some v \<longrightarrow> py_tracks_accessible r \<longrightarrow>
     map fst (cs_items c (py_id r)) = content (py_id r) v)"

definition cache_ok :: "history \<Rightarrow> cache \<Rightarrow> bool" where
  "cache_ok content c \<longleftrightarrow> cache_wf c \<and> (\<forall>r \<in> set (cs_playlists c). row_faithful content c r)"

lemma cache_okI:
  assumes "distinct (map py_id (cs_playlists c))"
    "\<And>r. r \<in> set (cs_playlists c) \<Longrightarrow> has_kind [Playlist] (py_uri r)"
    "\<And>i x. x \<in> set (cs_items c i) \<Longrightarrow> has_kind [Track, Episode] (fst x)"
    "\<And>r v. r \<in> set (cs_playlists c) \<Longrightarrow> py_snapshot_id r = Some v \<Longrightarrow> py_tracks_accessible r \<Longrightarrow>
       map fst (cs_items c (py_id r)) = content (py_id r) v"
  shows "cache_ok content c"
  using assms by (auto simp: cache_ok_def cache_wf_def row_faithful_def)

lemma cache_okD:
  assumes "cache_ok content c"
  shows "distinct (map py_id (cs_playlists c))"
    "r \<in> set (cs_playlists c) \<Longrightarrow> has_kind [Playlist] (py_uri r)"
    "x \<in> set (cs_items c i) \<Longrightarrow> has_kind [Track, Episode] (fst x)"
    "r \<in> set (cs_playlists c) \<Longrightarrow> py_snapshot_id r = Some v \<Longrightarrow> py_tracks_accessible r \<Longrightarrow>
       map fst (cs_items c (py_id r)) = content (py_id r) v"
  using assms by (auto simp: cache_ok_def cache_wf_def row_faithful_def)

lemma cache_ok_cong: "cs_playlists c' = cs_playlists c \<Longrightarrow> cs_items c' = cs_items c \<Longrightarrow> cache_ok content c' = cache_ok content c"
  by (simp add: cache_ok_def cache_wf_def row_faithful_def)

lemma cache_ok_delete_playlists:
  assumes "cache_ok content c"
  shows "cache_ok content (delete_playlists P c)"
proof (rule cache_okI)
  note ok = cache_okD [OF assms]
  show "distinct (map py_id (cs_playlists (delete_playlists P c)))"
    using distinct_keys_filter [OF ok(1)] by (simp add: delete_playlists_def)
  show "has_kind [Playlist] (py_uri r)" if "r \<in> set (cs_playlists (delete_playlists P c))" for r
    using that ok(2) by (simp add: delete_playlists_def)
  show "has_kind [Track, Episode] (fst x)" if "x \<in> set (cs_items (delete_playlists P c) i)" for x i
    using that ok(3) by (auto simp: delete_playlists_def split: if_splits)
  fix r v
  assume r: "r \<in> set (cs_playlists (delete_playlists P c))" "py_snapshot_id r = Some v" "py_tracks_accessible r"
  then have m: "r \<in> set (cs_playlists c)" "\<not> P r" by (simp_all add: delete_playlists_def)
  have "\<not> (\<exists>x \<in> set (cs_playlists c). py_id x = py_id r \<and> P x)"
    using m ok(1) by (auto simp: distinct_map dest: inj_onD)
  then show "map fst (cs_items (delete_playlists P c) (py_id r)) = content (py_id r) v"
    using ok(4) [OF m(1) r(2,3)] by (auto simp: delete_playlists_def)
qed

lemma has_kind_disjoint: "has_kind ks u \<Longrightarrow> has_kind ks' u \<Longrightarrow> set ks \<inter> set ks' \<noteq> {}"
  by (auto simp: has_kind_def split: result.splits)

lemma cache_ok_delete_media:
  assumes "cache_ok content c" "has_kind [Playlist] u"
  shows "cache_ok content (delete_media u c)"
proof -
  have "fst x \<noteq> u" if "x \<in> set (cs_items c i)" for x i
    using cache_okD(3) [OF assms(1) that] assms(2) has_kind_disjoint by fastforce
  then have "cs_items (delete_media u c) = cs_items c"
    by (auto simp: delete_media_def filter_id_conv)
  then show ?thesis using assms(1) by (subst cache_ok_cong [where c = c]) (simp_all add: delete_media_def)
qed

lemma cache_ok_upsert_playlist:
  assumes "cache_ok content c" "has_kind [Playlist] (py_uri new)" "py_snapshot_id new = None"
  shows "cache_ok content (c\<lparr>cs_playlists := upsert py_id merge_playlist_row new (cs_playlists c)\<rparr>)"
proof (rule cache_okI)
  note ok = cache_okD [OF assms(1)]
  have key: "py_id (merge_playlist_row old new) = py_id new" for old by (simp add: merge_playlist_row_def)
  show "distinct (map py_id (cs_playlists (c\<lparr>cs_playlists := upsert py_id merge_playlist_row new (cs_playlists c)\<rparr>)))"
    using upsert_distinct [of py_id merge_playlist_row new, OF key ok(1)] by simp
  show "has_kind [Playlist] (py_uri r)"
    if "r \<in> set (cs_playlists (c\<lparr>cs_playlists := upsert py_id merge_playlist_row new (cs_playlists c)\<rparr>))" for r
    using that assms(2) ok(2) by (auto dest!: set_upsert simp: merge_playlist_row_def)
  show "has_kind [Track, Episode] (fst x)"
    if "x \<in> set (cs_items (c\<lparr>cs_playlists := upsert py_id merge_playlist_row new (cs_playlists c)\<rparr>) i)" for x i
    using that ok(3) by simp
  fix r v
  assume "r \<in> set (cs_playlists (c\<lparr>cs_playlists := upsert py_id merge_playlist_row new (cs_playlists c)\<rparr>))"
    and s: "py_snapshot_id r = Some v" "py_tracks_accessible r"
  then have "r \<in> set (upsert py_id merge_playlist_row new (cs_playlists c))" by simp
  from set_upsert [OF this]
  show "map fst (cs_items (c\<lparr>cs_playlists := upsert py_id merge_playlist_row new (cs_playlists c)\<rparr>) (py_id r)) = content (py_id r) v"
    using s assms(3) ok(4) by (auto simp: merge_playlist_row_def) (metis)
qed

lemma playlist_uri_kind: "playlist_uri i = Ok u \<Longrightarrow> has_kind [Playlist] u"
proof -
  assume "playlist_uri i = Ok u"
  then obtain r where r: "ru_kind r = Playlist" "u = as_uri r"
    "(case resource_uri_parse i of Ok resource \<Rightarrow> Ok resource
      | Err _ \<Rightarrow> map_err uri_error_display (spotify_from_uri_or_id Playlist i)) = Ok r"
    by (auto simp: playlist_uri_def split: if_splits)
  then have "wf_resource_uri r"
    by (auto simp: resource_uri_parse_Ok_iff spotify_from_uri_or_id_correct split: result.splits)
  then have "resource_uri_parse u = Ok r" using r(2) by (simp add: resource_uri_parse_Ok_iff)
  with r(1) show ?thesis by (simp add: has_kind_def)
qed

lemma cache_ok_write_playlists:
  "write_playlists now ps c = Ok c' \<Longrightarrow> cache_ok content c \<Longrightarrow> cache_ok content c'"
proof (induction ps arbitrary: c)
  case (Cons p ps)
  then obtain uri where u: "playlist_uri (pl_id p) = Ok uri"
    "write_playlists now ps (let st1 = delete_playlists (\<lambda>r. py_uri r = uri \<and> py_id r \<noteq> pl_id p) c
       in st1\<lparr>cs_playlists := upsert py_id merge_playlist_row (playlist_row_of now p uri) (cs_playlists st1)\<rparr>) = Ok c'"
    by (auto simp: Let_def)
  show ?case
    by (rule Cons.IH [OF u(2)], unfold Let_def, intro cache_ok_upsert_playlist cache_ok_delete_playlists Cons.prems(2))
      (simp_all add: playlist_row_of_def playlist_uri_kind [OF u(1)])
qed simp

lemma cache_ok_remove:
  "cache_ok content c \<Longrightarrow> has_kind [Playlist] uri \<Longrightarrow> cache_ok content (remove_playlist uri c)"
  unfolding remove_playlist_def by (intro cache_ok_delete_media cache_ok_delete_playlists)

lemma cache_ok_fold_remove:
  "cache_ok content c \<Longrightarrow> \<forall>u \<in> set us. has_kind [Playlist] u \<Longrightarrow> cache_ok content (fold remove_playlist us c)"
  by (induction us arbitrary: c) (simp_all add: cache_ok_remove)

lemma cached_uris_in: "u \<in> set (cached_playlist_uris p c) \<Longrightarrow> \<exists>r \<in> set (cs_playlists c). u = py_uri r"
  by (auto simp: cached_playlist_uris_def)

lemma cache_ok_replace:
  assumes "replace_provider_playlists ns origin ps now c = Ok (c', n, removed)" "cache_ok content c"
  shows "cache_ok content c'"
proof -
  obtain media c2 incoming where r: "write_playlists now ps (c\<lparr>cs_media := media\<rparr>) = Ok c2"
    "c' = fold remove_playlist removed c2"
    "removed = filter (\<lambda>uri. uri \<notin> set incoming) (cached_playlist_uris ns (c\<lparr>cs_media := media\<rparr>))"
    using assms(1) by (auto simp: replace_provider_playlists_def Let_def)
  have ok: "cache_ok content (c\<lparr>cs_media := media\<rparr>)"
    using assms(2) by (subst cache_ok_cong [where c = c]) simp_all
  have "has_kind [Playlist] u" if "u \<in> set removed" for u
    using that r(3) cached_uris_in [of u ns "c\<lparr>cs_media := media\<rparr>"] cache_okD(2) [OF ok] by auto
  then show ?thesis unfolding r(2) using cache_ok_write_playlists [OF r(1) ok] by (intro cache_ok_fold_remove) auto
qed

lemma set_update_at: "r \<in> set (update_at key k (\<lambda>_. True) f t) \<Longrightarrow> (r \<in> set t \<and> key r \<noteq> k) \<or> (\<exists>x \<in> set t. key x = k \<and> r = f x)"
  by (auto simp: update_at_def split: if_splits)

lemma cache_ok_mark:
  assumes "cache_ok content c"
  shows "cache_ok content (mark_playlist_tracks_inaccessible_at_version i token now c)"
proof (rule cache_okI)
  let ?f = "\<lambda>r. r\<lparr>py_snapshot_id := coalesce token (py_snapshot_id r), py_tracks_accessible := False, py_fetched_at_ms := now\<rparr>"
  let ?c = "mark_playlist_tracks_inaccessible_at_version i token now c"
  note ok = cache_okD [OF assms]
  have rows: "cs_playlists ?c = update_at py_id i (\<lambda>_. True) ?f (cs_playlists c)" "cs_items ?c = cs_items c"
    by (simp_all add: mark_playlist_tracks_inaccessible_at_version_def)
  show "distinct (map py_id (cs_playlists ?c))" using ok(1) by (simp add: rows keys_update)
  show "has_kind [Playlist] (py_uri r)" if "r \<in> set (cs_playlists ?c)" for r
    using that ok(2) unfolding rows by (auto dest!: set_update_at)
  show "has_kind [Track, Episode] (fst x)" if "x \<in> set (cs_items ?c j)" for x j
    using that ok(3) unfolding rows by blast
  show "map fst (cs_items ?c (py_id r)) = content (py_id r) v"
    if "r \<in> set (cs_playlists ?c)" "py_snapshot_id r = Some v" "py_tracks_accessible r" for r v
    using that ok(4) unfolding rows by (auto dest!: set_update_at)
qed

lemma cache_ok_persist:
  assumes "persist_playlist_items p i items (Some v) now c = Ok (c', n)" "cache_ok content c"
    "map mi_uri items = content i v" "\<forall>x \<in> set items. has_kind [Track, Episode] (mi_uri x)"
  shows "cache_ok content c'"
proof (rule cache_okI)
  let ?f = "\<lambda>r. r\<lparr>py_snapshot_id := Some v, py_tracks_accessible := True, py_fetched_at_ms := now\<rparr>"
  note ok = cache_okD [OF assms(2)]
  have rows: "cs_playlists c' = update_at py_id i (\<lambda>_. True) ?f (cs_playlists c)"
    "cs_items c' = (cs_items c)(i := map (\<lambda>item. (mi_uri item, Some v)) items)"
    using assms(1) by (auto simp: persist_playlist_items_def coalesce_def split: if_splits)
  have new: "map fst (map (\<lambda>item. (mi_uri item, Some v)) items) = content i v" using assms(3) by (simp add: comp_def)
  show "distinct (map py_id (cs_playlists c'))" using ok(1) by (simp add: rows keys_update)
  show "has_kind [Playlist] (py_uri r)" if "r \<in> set (cs_playlists c')" for r
    using that ok(2) unfolding rows by (auto dest!: set_update_at)
  show "has_kind [Track, Episode] (fst x)" if "x \<in> set (cs_items c' j)" for x j
    using that ok(3) assms(4) unfolding rows by (auto split: if_splits)
  show "map fst (cs_items c' (py_id r)) = content (py_id r) w"
    if r: "r \<in> set (cs_playlists c')" and s: "py_snapshot_id r = Some w" "py_tracks_accessible r" for r w
  proof -
    from r [unfolded rows] have "r \<in> set (cs_playlists c) \<and> py_id r \<noteq> i \<or> (\<exists>x \<in> set (cs_playlists c). py_id x = i \<and> r = ?f x)"
      by (rule set_update_at)
    then show ?thesis using s ok(4) new unfolding rows by auto
  qed
qed

section \<open>Weakest preconditions of passes\<close>

definition wp :: "'a pass \<Rightarrow> ('a \<Rightarrow> pass_state \<Rightarrow> bool) \<Rightarrow> (sync_error \<Rightarrow> pass_state \<Rightarrow> bool) \<Rightarrow> pass_state \<Rightarrow> bool" where
  "wp c Q E ps = (case c ps of (ps', Ok x) \<Rightarrow> Q x ps' | (ps', Err e) \<Rightarrow> E e ps')"

named_theorems wp_rules

lemma wp_bind [wp_rules]: "wp (pass_bind c f) Q E ps = wp c (\<lambda>x. wp (f x) Q E) E ps"
  by (auto simp: wp_def pass_bind_def split: prod.splits result.splits)

lemma wp_return [wp_rules]: "wp (pass_return x) Q E ps = Q x ps"
  by (simp add: wp_def pass_return_def)

lemma wp_fail [wp_rules]: "wp (pass_fail e) Q E ps = E e ps"
  by (simp add: wp_def pass_fail_def)

lemma wp_lift [wp_rules]: "wp (pass_lift f r) Q E ps = (case r of Ok x \<Rightarrow> Q x ps | Err e \<Rightarrow> E (f e) ps)"
  by (cases r) (simp_all add: wp_def pass_lift_def)

lemma wp_on_cache [wp_rules]: "wp (on_cache f) Q E ps = Q () (ps\<lparr>ps_cache := f (ps_cache ps)\<rparr>)"
  by (simp add: wp_def on_cache_def)

lemma wp_tx [wp_rules]: "wp (tx f) Q E ps = (case f (ps_cache ps) of
    Ok (c, x) \<Rightarrow> Q x (ps\<lparr>ps_cache := c\<rparr>) | Err msg \<Rightarrow> E (HostErr msg) ps)"
  by (cases "f (ps_cache ps)") (auto simp: wp_def tx_def split: prod.splits)

lemma wp_host [wp_rules]: "wp (host call) Q E ps = Q () (ps\<lparr>ps_calls := ps_calls ps @ [call]\<rparr>)"
  by (simp add: wp_def host_def)

lemma wp_from_cache [wp_rules]: "wp (from_cache f) Q E ps = Q (f (ps_cache ps)) ps"
  by (simp add: wp_def from_cache_def)

lemma wp_mono:
  "wp c Q E ps \<Longrightarrow> (\<And>x ps'. Q x ps' \<Longrightarrow> Q' x ps') \<Longrightarrow> (\<And>e ps'. E e ps' \<Longrightarrow> E' e ps') \<Longrightarrow> wp c Q' E' ps"
  by (auto simp: wp_def split: prod.splits result.splits)

section \<open>Every pass keeps the invariant\<close>

text \<open>What is asked of a provider: a listed version determines the items it serves.\<close>

definition serves :: "history \<Rightarrow> sync_provider \<Rightarrow> playlist \<Rightarrow> bool" where
  "serves content p pl \<longleftrightarrow> (\<exists>v. pl_version_token pl = Some v \<and>
     (\<forall>items. fetch_all_playlist_items (sp_playlist_items p (pl_id pl)) (page_limit (sp_playlists_items_max p)) = Ok (Available items)
        \<longrightarrow> map mi_uri items = content (pl_id pl) v))"

definition lists :: "sync_provider \<Rightarrow> playlist list \<Rightarrow> bool" where
  "lists p playlists \<longleftrightarrow> (\<exists>listed. fetch_all_playlists (sp_playlists p) (page_limit (sp_playlists_list_max p)) = Ok listed \<and>
     normalize_provider_playlists p listed = Ok playlists)"

definition honest :: "history \<Rightarrow> sync_provider \<Rightarrow> bool" where
  "honest content p \<longleftrightarrow> (\<forall>playlists. lists p playlists \<longrightarrow> (\<forall>pl \<in> set playlists. serves content p pl))"

definition keeps_cache :: "history \<Rightarrow> 'a pass \<Rightarrow> bool" where
  "keeps_cache content c \<longleftrightarrow> (\<forall>ps. cache_ok content (ps_cache ps) \<longrightarrow>
     wp c (\<lambda>_ ps'. cache_ok content (ps_cache ps')) (\<lambda>_ ps'. cache_ok content (ps_cache ps')) ps)"

lemma keeps_cacheI:
  "(\<And>ps. cache_ok content (ps_cache ps) \<Longrightarrow>
     wp c (\<lambda>_ ps'. cache_ok content (ps_cache ps')) (\<lambda>_ ps'. cache_ok content (ps_cache ps')) ps) \<Longrightarrow> keeps_cache content c"
  by (simp add: keeps_cache_def)

lemma keeps_bind [intro]:
  assumes "keeps_cache content c" "\<And>x. keeps_cache content (f x)"
  shows "keeps_cache content (pass_bind c f)"
proof (rule keeps_cacheI, unfold wp_bind)
  fix ps :: pass_state assume "cache_ok content (ps_cache ps)"
  with assms(1) have "wp c (\<lambda>_ ps'. cache_ok content (ps_cache ps')) (\<lambda>_ ps'. cache_ok content (ps_cache ps')) ps"
    by (simp add: keeps_cache_def)
  then show "wp c (\<lambda>x. wp (f x) (\<lambda>_ ps'. cache_ok content (ps_cache ps')) (\<lambda>_ ps'. cache_ok content (ps_cache ps')))
      (\<lambda>_ ps'. cache_ok content (ps_cache ps')) ps"
    by (rule wp_mono) (use assms(2) in \<open>simp_all add: keeps_cache_def\<close>)
qed

lemma keeps_return [intro!, simp]: "keeps_cache content (pass_return x)"
  and keeps_fail [intro!, simp]: "keeps_cache content (pass_fail e)"
  and keeps_lift [intro!, simp]: "keeps_cache content (pass_lift f r)"
  and keeps_host [intro!, simp]: "keeps_cache content (host call)"
  and keeps_from [intro!, simp]: "keeps_cache content (from_cache g)"
  by (simp_all add: keeps_cache_def wp_rules split: result.split)

lemma record_sync_event_rows [simp]:
  "cs_playlists (record_sync_event e cur c) = cs_playlists c" "cs_items (record_sync_event e cur c) = cs_items c"
  "cs_media (record_sync_event e cur c) = cs_media c" "cs_library (record_sync_event e cur c) = cs_library c"
  by (simp_all add: record_sync_event_def Let_def)

lemma cache_ok_record [simp]: "cache_ok content (record_sync_event e cur c) = cache_ok content c"
  by (rule cache_ok_cong) simp_all

lemma keeps_record [intro!, simp]: "keeps_cache content (on_cache (record_sync_event e cur))"
  by (rule keeps_cacheI) (simp add: wp_rules)

lemma keeps_records [intro!, simp]:
  "keeps_cache content (record_ok env p domain n)" "keeps_cache content (record_sync_error env p domain e)"
  "keeps_cache content (record_and_fail env p domain e)"
  unfolding record_ok_def record_sync_error_def record_and_fail_def by auto

lemma keeps_limited [intro!, simp]: "keeps_cache content (fail_if_rate_limited_domain env p domain)"
  by (rule keeps_cacheI) (simp add: wp_def fail_if_rate_limited_domain_def split: option.split)

lemma keeps_mark [intro!, simp]: "keeps_cache content (mark_inaccessible env p pl)"
  unfolding mark_inaccessible_def by (rule keeps_bind) (auto intro!: keeps_cacheI simp: wp_rules cache_ok_mark)

lemma validated_items:
  assumes "validate_provider_collection_items p op kinds items = Ok ()" "x \<in> set items"
  shows "has_kind kinds (mi_uri x)" "mi_kind x \<in> set kinds"
    "\<exists>r. resource_uri_parse (mi_uri x) = Ok r \<and> ru_kind r = mi_kind x \<and> ru_scheme r = sp_scheme p"
proof -
  have ok: "\<forall>x \<in> set items. validate_provider_media_item p x = Ok ()" "find (\<lambda>item. mi_kind item \<notin> set kinds) items = None"
    using assms(1) by (auto simp: validate_provider_collection_items_def validate_provider_media_items_def check_all_Ok
        split: option.splits)
  show k: "mi_kind x \<in> set kinds" using ok(2) assms(2) by (auto simp: find_None_iff)
  show "\<exists>r. resource_uri_parse (mi_uri x) = Ok r \<and> ru_kind r = mi_kind x \<and> ru_scheme r = sp_scheme p"
    using ok(1) assms(2) by (cases "resource_uri_parse (mi_uri x)") (force simp: validate_provider_media_item_def split: if_splits)+
  with k show "has_kind kinds (mi_uri x)" by (auto simp: has_kind_def)
qed

lemma keeps_store_items:
  assumes "pl_version_token pl = Some v" "map mi_uri items = content (pl_id pl) v"
  shows "keeps_cache content (store_playlist_items env p pl items)"
  unfolding store_playlist_items_def
proof (rule keeps_cacheI)
  fix ps :: pass_state assume ok: "cache_ok content (ps_cache ps)"
  have "cache_ok content c'" if "validate_provider_collection_items p ''playlist_items'' [Track, Episode] items = Ok ()"
    "persist_playlist_items (sp_id p) (pl_id pl) items (Some v) (se_now_ms env) (ps_cache ps) = Ok (c', n)" for c' n
    by (rule cache_ok_persist [OF that(2) ok assms(2)]) (use validated_items(1) [OF that(1)] in blast)
  then show "wp (pass_bind (pass_lift ProviderErr (validate_provider_collection_items p ''playlist_items'' [Track, Episode] items)) (\<lambda>_.
     pass_bind (tx (persist_playlist_items (sp_id p) (pl_id pl) items (pl_version_token pl) (se_now_ms env))) (\<lambda>written.
     pass_bind (host (IndexItems (sp_id p) (map mi_uri items) False)) (\<lambda>_. pass_return (written, length items)))))
     (\<lambda>_ ps'. cache_ok content (ps_cache ps')) (\<lambda>_ ps'. cache_ok content (ps_cache ps')) ps"
    using ok by (auto simp: wp_rules assms(1) split: result.split prod.split)
qed

lemma keeps_one_playlist:
  assumes "serves content p pl"
  shows "keeps_cache content (sync_one_playlist env p force local pl)"
proof -
  obtain v where v: "pl_version_token pl = Some v" "\<And>items. fetch_all_playlist_items (sp_playlist_items p (pl_id pl))
      (page_limit (sp_playlists_items_max p)) = Ok (Available items) \<Longrightarrow> map mi_uri items = content (pl_id pl) v"
    using assms by (auto simp: serves_def)
  have "keeps_cache content (case fetch_all_playlist_items (sp_playlist_items p (pl_id pl)) (page_limit (sp_playlists_items_max p)) of
          Ok (Available items) \<Rightarrow> store_playlist_items env p pl items
        | Ok (Unavailable TemporarilyUnavailable) \<Rightarrow> pass_return (0, 0)
        | Ok (Unavailable _) \<Rightarrow> pass_bind (mark_inaccessible env p pl) (\<lambda>_. pass_return (0, 0))
        | Err e \<Rightarrow>
            (if \<not> is_control_provider_error e \<and> playlist_tracks_forbidden e
             then pass_bind (mark_inaccessible env p pl) (\<lambda>_. pass_return (0, 0))
             else record_and_fail env p ''playlists'' e))"
    by (auto intro!: keeps_store_items v split: result.split access_outcome.split access_unavailable.split)
  moreover have "as_uri uri = pl_id pl" if "resource_uri_parse (pl_id pl) = Ok uri" for uri
    using that by (simp add: resource_uri_parse_Ok_iff)
  ultimately show ?thesis
    unfolding sync_one_playlist_def by (intro keeps_bind keeps_from) (auto split: result.split)
qed

lemma keeps_each_playlist:
  "\<forall>pl \<in> set pls. serves content p pl \<Longrightarrow> keeps_cache content (sync_each_playlist env p force locals pls)"
  by (induction pls) (auto intro!: keeps_bind keeps_one_playlist)

lemma keeps_replace:
  "keeps_cache content (tx (\<lambda>c. replace_provider_playlists ns origin ps now c))"
  by (rule keeps_cacheI) (auto simp: wp_rules cache_ok_replace split: result.split prod.split)

lemma keeps_sync_playlists:
  assumes "honest content p"
  shows "keeps_cache content (sync_playlists env p force summary)"
proof -
  have "keeps_cache content (sync_listed_playlists env p force listed summary)"
    if "fetch_all_playlists (sp_playlists p) (page_limit (sp_playlists_list_max p)) = Ok listed" for listed
  proof (cases "normalize_provider_playlists p listed")
    case (Ok playlists)
    then have "\<forall>pl \<in> set playlists. serves content p pl"
      using assms that by (auto simp: honest_def lists_def)
    then have each: "keeps_cache content (sync_each_playlist env p force locals playlists)" for locals
      by (rule keeps_each_playlist)
    have norm: "pass_bind (pass_lift (\<lambda>e. e) (normalize_provider_playlists p listed)) f = f playlists"
      for f :: "playlist list \<Rightarrow> sync_summary pass"
      by (simp add: Ok pass_bind_def pass_lift_def fun_eq_iff)
    show ?thesis unfolding sync_listed_playlists_def norm
      by (auto intro!: keeps_bind keeps_replace each simp: Let_def split: prod.split)
  next
    case (Err e)
    then show ?thesis by (simp add: keeps_cache_def sync_listed_playlists_def wp_rules)
  qed
  then show ?thesis unfolding sync_playlists_def
    by (auto intro!: keeps_bind split: result.split)
qed

lemma persist_recent_rows:
  "persist_recent_items p items now c = Ok (c', n) \<Longrightarrow> cs_playlists c' = cs_playlists c \<and> cs_items c' = cs_items c"
  by (auto simp: persist_recent_items_def split: if_splits)

lemma write_library_rows [simp]:
  "cs_playlists (write_library kind now pos items c) = cs_playlists c" "cs_items (write_library kind now pos items c) = cs_items c"
  by (induction items arbitrary: pos c) simp_all

lemma remove_library_rows [simp]:
  "cs_playlists (fold (remove_library kind) us c) = cs_playlists c" "cs_items (fold (remove_library kind) us c) = cs_items c"
  by (induction us arbitrary: c) (simp_all add: remove_library_def)

lemma replace_library_rows:
  "replace_provider_library_kind p kind items now c = Ok (c', n, us) \<Longrightarrow> cs_playlists c' = cs_playlists c \<and> cs_items c' = cs_items c"
  by (auto simp: replace_provider_library_kind_def Let_def split: if_splits)

lemma keeps_recent: "keeps_cache content (tx (persist_recent_items p items now))"
  by (rule keeps_cacheI)
    (auto simp: wp_rules split: result.split prod.split dest!: persist_recent_rows intro: cache_ok_cong [THEN iffD2])

lemma keeps_library: "keeps_cache content (tx (\<lambda>c. replace_provider_library_kind p kind items now c))"
  by (rule keeps_cacheI)
    (auto simp: wp_rules split: result.split prod.split dest!: replace_library_rows intro: cache_ok_cong [THEN iffD2])

lemma keeps_sync_recent: "keeps_cache content (sync_recent env p summary)"
  unfolding sync_recent_def by (auto intro!: keeps_bind keeps_recent split: result.split)

lemma keeps_library_kind: "keeps_cache content (sync_library_kind env p force kind)"
proof -
  have "keeps_cache content (store_library_kind env p kind probe items)" for probe items
    unfolding store_library_kind_def by (auto intro!: keeps_bind keeps_library split: option.split prod.split)
  moreover have "keeps_cache content (current_probe env p kind)"
    unfolding current_probe_def by (auto split: result.split)
  ultimately show ?thesis unfolding sync_library_kind_def by (auto intro!: keeps_bind split: result.split)
qed

lemma keeps_each_kind: "keeps_cache content (sync_each_kind env p force kinds)"
  by (induction kinds) (auto intro!: keeps_bind keeps_library_kind)

lemma keeps_sync_library: "keeps_cache content (sync_library env p force summary)"
  unfolding sync_library_def by (auto intro!: keeps_bind keeps_each_kind split: prod.split)

lemma keeps_domain_once:
  assumes "honest content p" "\<And>t s. keeps_cache content (se_live env t s)"
  shows "keeps_cache content (sync_domain_once env p target force summary)"
  unfolding sync_domain_once_def
  using assms by (auto intro!: keeps_sync_playlists keeps_sync_recent keeps_sync_library split: sync_target.split)

lemma keeps_clear_cursor: "keeps_cache content (clear_target_cursor p target)"
  unfolding clear_target_cursor_def
  by (rule keeps_cacheI) (auto simp: wp_rules clear_sync_cursors_with_prefix_def clear_sync_cursor_def
      intro: cache_ok_cong [THEN iffD2])

lemma keeps_wpD:
  "keeps_cache content c \<Longrightarrow> cache_ok content (ps_cache ps) \<Longrightarrow> cache_ok content (ps_cache (fst (c ps)))"
  by (auto simp: keeps_cache_def wp_def split: prod.splits result.splits) (metis fst_conv result.exhaust surj_pair)+

lemma keeps_iff: "keeps_cache content c \<longleftrightarrow> (\<forall>ps. cache_ok content (ps_cache ps) \<longrightarrow> cache_ok content (ps_cache (fst (c ps))))"
  unfolding keeps_cache_def wp_def
  by (intro iff_allI arg_cong2 [where f = implies] refl) (simp split: prod.split result.split)

lemma keeps_recovery:
  assumes "honest content p" "honest content again" "\<And>t s. keeps_cache content (se_live env t s)"
  shows "keeps_cache content (sync_domain_with_recovery env p again target summary)"
  unfolding keeps_iff
proof (intro allI impI)
  fix ps :: pass_state assume ok: "cache_ok content (ps_cache ps)"
  let ?fresh = "empty_summary (sm_target summary) (sm_provider summary)"
  obtain ps' r where first: "sync_domain_once env p target False ?fresh ps = (ps', r)" by fastforce
  have ok': "cache_ok content (ps_cache ps')"
    using keeps_wpD [OF keeps_domain_once [OF assms(1,3)] ok, of target False ?fresh] first by simp
  have "keeps_cache content (pass_bind (clear_target_cursor p target) (\<lambda>_.
      pass_bind (sync_domain_once env again target True ?fresh) (\<lambda>retry. pass_return (merge_summary summary retry))))"
    by (intro keeps_bind keeps_clear_cursor keeps_domain_once assms keeps_return)
  from keeps_wpD [OF this ok'] ok'
  show "cache_ok content (ps_cache (fst (sync_domain_with_recovery env p again target summary ps)))"
    by (simp add: sync_domain_with_recovery_def Let_def first split: result.split)
qed

lemma keeps_domains:
  assumes "honest content p" "honest content again" "\<And>t s. keeps_cache content (se_live env t s)"
  shows "keeps_cache content (sync_domains env p again ds summary)"
  by (induction ds arbitrary: summary) (auto intro!: keeps_bind keeps_recovery assms)


section \<open>A successful pass mirrors the provider\<close>

lemma media_row_simps [simp]:
  "mw_uri (media_row_of prov origin now x) = mi_uri x" "mw_provider (media_row_of prov origin now x) = prov"
  "mw_uri (merge_media_row old new) = mw_uri new" "mw_provider (merge_media_row old new) = mw_provider new"
  by (simp_all add: media_row_of_def merge_media_row_def)

lemma upsert_media_Ok:
  assumes "\<forall>x \<in> set items. is_ok (check_media_item x)"
  obtains t' where "upsert_media_items items (Some prov) origin now t = Ok t'"
    "\<And>u. map_option mw_provider (row_at mw_uri u t') =
       (if u \<in> mi_uri ` set items then Some prov else map_option mw_provider (row_at mw_uri u t))"
  using assms
proof (induction items arbitrary: t thesis)
  case Nil
  then show ?case by simp
next
  case (Cons x items)
  let ?new = "media_row_of prov origin now x"
  obtain r where r: "check_media_item x = Ok r" using Cons.prems(2) by (cases "check_media_item x") auto
  obtain t' where t': "upsert_media_items items (Some prov) origin now (upsert mw_uri merge_media_row ?new t) = Ok t'"
    "\<And>u. map_option mw_provider (row_at mw_uri u t') = (if u \<in> mi_uri ` set items then Some prov
       else map_option mw_provider (row_at mw_uri u (upsert mw_uri merge_media_row ?new t)))"
    using Cons.IH [of "upsert mw_uri merge_media_row ?new t"] Cons.prems(2) by auto
  have key: "mw_uri (merge_media_row old ?new) = mw_uri ?new" for old by simp
  have "map_option mw_provider (row_at mw_uri u (upsert mw_uri merge_media_row ?new t)) =
      (if u = mi_uri x then Some prov else map_option mw_provider (row_at mw_uri u t))" for u
    by (simp add: row_at_upsert [of mw_uri merge_media_row ?new, OF key] split: option.split)
  with t' r show ?case by (intro Cons.prems(1) [of t']) auto
qed

lemma check_media_ok:
  "resource_uri_parse (mi_uri x) = Ok r \<Longrightarrow> ru_kind r = mi_kind x \<Longrightarrow> is_ok (check_media_item x)"
  by (simp add: check_media_item_def)

definition canonical_playlist :: "sync_provider \<Rightarrow> playlist \<Rightarrow> bool" where
  "canonical_playlist p pl \<longleftrightarrow> (\<exists>r. resource_uri_parse (pl_id pl) = Ok r \<and> ru_kind r = Playlist \<and> ru_scheme r = sp_scheme p)"

lemma map_result_Ok: "map_result f xs = Ok ys \<longleftrightarrow> list_all2 (\<lambda>x y. f x = Ok y) xs ys"
  by (induction xs arbitrary: ys) (auto simp: list_all2_Cons1 list_all2_Nil)

lemma normalized_canonical:
  assumes "normalize_provider_playlists p listed = Ok playlists" "wf_scheme (sp_scheme p)" "pl \<in> set playlists"
  shows "canonical_playlist p pl"
proof -
  have l2: "list_all2 (\<lambda>x y. normalize_provider_playlist p x = Ok y) listed playlists"
    using assms(1) by (simp add: normalize_provider_playlists_def map_result_Ok)
  obtain n where n: "n < length playlists" "pl = playlists ! n" using assms(3) by (metis in_set_conv_nth)
  then have n: "normalize_provider_playlist p (listed ! n) = Ok pl" using list_all2_nthD2 [OF l2] by simp
  define x where "x = listed ! n"
  have n: "normalize_provider_playlist p x = Ok pl" using n by (simp add: x_def)
  then obtain uri where u: "ru_kind uri = Playlist" "ru_scheme uri = sp_scheme p" "pl_id pl = as_uri uri"
    "(case resource_uri_parse (pl_id x) of Ok uri \<Rightarrow> Ok uri
      | Err _ \<Rightarrow> map_err (\<lambda>e. HostErr (uri_error_display e)) (resource_uri_new (sp_scheme p) Playlist (pl_id x))) = Ok uri"
    by (auto simp: normalize_provider_playlist_def split: if_splits)
  then have "wf_resource_uri uri"
    using assms(2) by (auto simp: resource_uri_parse_Ok_iff resource_uri_new_Ok_iff wf_resource_uri_def split: result.splits)
  then have "resource_uri_parse (pl_id pl) = Ok uri" by (simp add: resource_uri_parse_Ok_iff u(3))
  with u show ?thesis by (auto simp: canonical_playlist_def)
qed

lemma canonical_uri:
  assumes "canonical_playlist p pl"
  shows "playlist_uri (pl_id pl) = Ok (pl_id pl)"
proof -
  obtain r where r: "resource_uri_parse (pl_id pl) = Ok r" "ru_kind r = Playlist"
    using assms by (auto simp: canonical_playlist_def)
  from r(1) have "as_uri r = pl_id pl" by (simp add: resource_uri_parse_Ok_iff)
  with r show ?thesis by (simp add: playlist_uri_def)
qed

abbreviation prow :: "cache \<Rightarrow> string \<Rightarrow> playlist_row option" where
  "prow c i \<equiv> row_at py_id i (cs_playlists c)"

definition canonical_rows :: "cache \<Rightarrow> bool" where
  "canonical_rows c \<longleftrightarrow> (\<forall>r \<in> set (cs_playlists c). py_uri r = py_id r)"

lemma playlist_row_simps [simp]:
  "py_id (playlist_row_of now pl uri) = pl_id pl" "py_uri (playlist_row_of now pl uri) = uri"
  "py_snapshot_id (playlist_row_of now pl uri) = None" "py_tracks_accessible (playlist_row_of now pl uri)"
  "py_id (merge_playlist_row old new) = py_id new" "py_uri (merge_playlist_row old new) = py_uri new"
  "py_snapshot_id (merge_playlist_row old new) = py_snapshot_id old"
  "py_tracks_accessible (merge_playlist_row old new) = py_tracks_accessible old"
  by (simp_all add: playlist_row_of_def merge_playlist_row_def)

lemma write_canonical:
  assumes "canonical_rows c" "\<forall>pl \<in> set ps. playlist_uri (pl_id pl) = Ok (pl_id pl)"
  shows "\<exists>c'. write_playlists now ps c = Ok c' \<and> canonical_rows c' \<and> cs_media c' = cs_media c \<and> cs_items c' = cs_items c \<and>
    (\<forall>i. i \<notin> pl_id ` set ps \<longrightarrow> prow c' i = prow c i) \<and>
    (\<forall>i \<in> pl_id ` set ps. \<exists>r. prow c' i = Some r \<and>
       py_snapshot_id r = Option.bind (prow c i) py_snapshot_id \<and>
       py_tracks_accessible r = (case prow c i of Some old \<Rightarrow> py_tracks_accessible old | None \<Rightarrow> True))"
  using assms
proof (induction ps arbitrary: c)
  case (Cons p ps)
  let ?new = "playlist_row_of now p (pl_id p)"
  let ?c = "c\<lparr>cs_playlists := upsert py_id merge_playlist_row ?new (cs_playlists c)\<rparr>"
  have none: "delete_playlists (\<lambda>r. py_uri r = pl_id p \<and> py_id r \<noteq> pl_id p) c = c"
    using Cons.prems(1) by (auto simp: delete_playlists_def canonical_rows_def filter_id_conv intro!: cache.equality)
  have key: "py_id (merge_playlist_row old ?new) = py_id ?new" for old by simp
  note row = row_at_upsert [of py_id merge_playlist_row ?new, OF key]
  have can: "canonical_rows ?c"
    using Cons.prems(1) by (auto simp: canonical_rows_def dest!: set_upsert)
  obtain c' where c': "write_playlists now ps ?c = Ok c'" "canonical_rows c'" "cs_media c' = cs_media c" "cs_items c' = cs_items c"
    "\<forall>i. i \<notin> pl_id ` set ps \<longrightarrow> prow c' i = prow ?c i"
    "\<forall>i \<in> pl_id ` set ps. \<exists>r. prow c' i = Some r \<and> py_snapshot_id r = Option.bind (prow ?c i) py_snapshot_id \<and>
       py_tracks_accessible r = (case prow ?c i of Some old \<Rightarrow> py_tracks_accessible old | None \<Rightarrow> True)"
    using Cons.IH [OF can] Cons.prems(2) by auto
  have new: "\<exists>r. prow ?c (pl_id p) = Some r \<and> py_snapshot_id r = Option.bind (prow c (pl_id p)) py_snapshot_id \<and>
       py_tracks_accessible r = (case prow c (pl_id p) of Some old \<Rightarrow> py_tracks_accessible old | None \<Rightarrow> True)"
    by (auto simp: row split: option.split)
  have old: "prow ?c i = prow c i" if "i \<noteq> pl_id p" for i using that by (simp add: row)
  have "\<exists>r. prow c' i = Some r \<and> py_snapshot_id r = Option.bind (prow c i) py_snapshot_id \<and>
       py_tracks_accessible r = (case prow c i of Some old \<Rightarrow> py_tracks_accessible old | None \<Rightarrow> True)"
    if "i \<in> pl_id ` set (p # ps)" for i
  proof (cases "i \<in> pl_id ` set ps")
    case True
    with c'(6) obtain r where r: "prow c' i = Some r" "py_snapshot_id r = Option.bind (prow ?c i) py_snapshot_id"
       "py_tracks_accessible r = (case prow ?c i of Some old \<Rightarrow> py_tracks_accessible old | None \<Rightarrow> True)" by blast
    then show ?thesis using new old by (cases "i = pl_id p") auto
  next
    case False
    then show ?thesis using that c'(5) new by auto
  qed
  moreover have "write_playlists now (p # ps) c = Ok c'" using Cons.prems(2) c'(1) by (simp add: none)
  ultimately show ?case using c' old by auto
qed (auto)


lemma fold_remove_rows:
  "cs_playlists (fold remove_playlist us c) = filter (\<lambda>r. py_uri r \<notin> set us) (cs_playlists c)"
  "cs_media (fold remove_playlist us c) = filter (\<lambda>r. mw_uri r \<notin> set us) (cs_media c)"
  by (induction us arbitrary: c)
    (auto simp: remove_playlist_def delete_media_def delete_playlists_def intro!: filter_cong)

lemma row_at_filter_in: "row_at key k (filter (\<lambda>r. key r \<notin> S) t) = (if k \<in> S then None else row_at key k t)"
  by (induction t) (auto simp: row_at_Cons)

definition only_listed :: "sync_provider \<Rightarrow> string set \<Rightarrow> cache \<Rightarrow> bool" where
  "only_listed p ids c \<longleftrightarrow>
     (\<forall>r \<in> set (cs_playlists c). media_provider c (py_uri r) = Some (sp_id p) \<longrightarrow> py_id r \<in> ids)"

lemma replace_canonical:
  assumes "replace_provider_playlists (sp_id p) origin ps now c = Ok (c', n, removed)" "canonical_rows c"
    "\<forall>pl \<in> set ps. playlist_uri (pl_id pl) = Ok (pl_id pl)"
  shows "canonical_rows c'" "only_listed p (pl_id ` set ps) c'"
    "pl \<in> set ps \<Longrightarrow> \<exists>r. prow c' (pl_id pl) = Some r \<and> py_snapshot_id r = playlist_version_token (pl_id pl) c \<and>
       py_tracks_accessible r = playlist_tracks_accessible (pl_id pl) c"
proof -
  obtain media c2 incoming where r: "write_playlists now ps (c\<lparr>cs_media := media\<rparr>) = Ok c2"
    "c' = fold remove_playlist removed c2" "map_result (\<lambda>p. playlist_uri (pl_id p)) ps = Ok incoming"
    "removed = filter (\<lambda>uri. uri \<notin> set incoming) (cached_playlist_uris (sp_id p) (c\<lparr>cs_media := media\<rparr>))"
    using assms(1) by (auto simp: replace_provider_playlists_def Let_def)
  have "map_result (\<lambda>p. playlist_uri (pl_id p)) ps = Ok (map pl_id ps)"
    using assms(3) by (induction ps) auto
  then have inc: "incoming = map pl_id ps" using r(3) by simp
  have can: "canonical_rows (c\<lparr>cs_media := media\<rparr>)" using assms(2) by (simp add: canonical_rows_def)
  obtain c0 where "write_playlists now ps (c\<lparr>cs_media := media\<rparr>) = Ok c0" "canonical_rows c0" "cs_media c0 = media"
    "\<forall>i. i \<notin> pl_id ` set ps \<longrightarrow> prow c0 i = prow c i"
    "\<forall>i \<in> pl_id ` set ps. \<exists>r. prow c0 i = Some r \<and> py_snapshot_id r = Option.bind (prow c i) py_snapshot_id \<and>
       py_tracks_accessible r = (case prow c i of Some old \<Rightarrow> py_tracks_accessible old | None \<Rightarrow> True)"
    using write_canonical [OF can assms(3), of now] by auto
  then have c2: "canonical_rows c2" "cs_media c2 = media"
    "\<forall>i. i \<notin> pl_id ` set ps \<longrightarrow> prow c2 i = prow c i"
    "\<forall>i \<in> pl_id ` set ps. \<exists>r. prow c2 i = Some r \<and> py_snapshot_id r = Option.bind (prow c i) py_snapshot_id \<and>
       py_tracks_accessible r = (case prow c i of Some old \<Rightarrow> py_tracks_accessible old | None \<Rightarrow> True)"
    using r(1) by auto
  show can': "canonical_rows c'" using c2(1) by (auto simp: canonical_rows_def r(2) fold_remove_rows)
  have eq: "filter (\<lambda>r. py_uri r \<notin> set removed) (cs_playlists c2) = filter (\<lambda>r. py_id r \<notin> set removed) (cs_playlists c2)"
    using c2(1) by (intro filter_cong) (auto simp: canonical_rows_def)
  have row: "prow c' i = (if i \<in> set removed then None else prow c2 i)" for i
    by (simp add: r(2) fold_remove_rows eq row_at_filter_in)
  have med: "media_provider c' u = (if u \<in> set removed then None else map_option mw_provider (row_at mw_uri u media))" for u
    by (simp add: media_provider_def r(2) fold_remove_rows row_at_filter_in c2(2))
  show "only_listed p (pl_id ` set ps) c'" unfolding only_listed_def
  proof (intro ballI impI)
    fix x assume x: "x \<in> set (cs_playlists c')" "media_provider c' (py_uri x) = Some (sp_id p)"
    have st1: "media_provider (c\<lparr>cs_media := media\<rparr>) i = map_option mw_provider (row_at mw_uri i media)" for i
      by (simp add: media_provider_def)
    have u: "py_uri x = py_id x" using can' x(1) by (simp add: canonical_rows_def)
    then have u: "py_uri x = py_id x" "py_id x \<notin> set removed" "media_provider (c\<lparr>cs_media := media\<rparr>) (py_id x) = Some (sp_id p)"
      using x(2) unfolding med st1 by (simp_all split: if_splits)
    have "prow c' (py_id x) \<noteq> None" using x(1) by (simp add: row_at_None_iff)
    then have p2: "prow c2 (py_id x) \<noteq> None" by (simp add: row u(2))
    show "py_id x \<in> pl_id ` set ps"
    proof (rule ccontr)
      assume no: "py_id x \<notin> pl_id ` set ps"
      then obtain y where "prow c (py_id x) = Some y" using c2(3) p2 by auto
      from row_at_SomeD [OF this] have y: "py_id y = py_id x" "y \<in> set (cs_playlists c)" by simp_all
      have "py_uri y = py_id x" using assms(2) y by (auto simp: canonical_rows_def)
      then have "py_id x \<in> set (cached_playlist_uris (sp_id p) (c\<lparr>cs_media := media\<rparr>))"
        using y(2) u(3) by (auto simp: cached_playlist_uris_def image_iff intro!: bexI [of _ y])
      with no u(2) show False by (simp add: r(4) inc)
    qed
  qed
  show "\<exists>r. prow c' (pl_id pl) = Some r \<and> py_snapshot_id r = playlist_version_token (pl_id pl) c \<and>
       py_tracks_accessible r = playlist_tracks_accessible (pl_id pl) c" if "pl \<in> set ps"
    using that c2(4) by (auto simp: row r(4) inc playlist_version_token_def playlist_tracks_accessible_def)
qed


text \<open>What a pass leaves of a listed playlist.\<close>

definition readable :: "sync_provider \<Rightarrow> playlist \<Rightarrow> bool" where
  "readable p pl \<longleftrightarrow> (\<exists>items. fetch_all_playlist_items (sp_playlist_items p (pl_id pl))
     (page_limit (sp_playlists_items_max p)) = Ok (Available items))"

definition postponed :: "sync_provider \<Rightarrow> playlist \<Rightarrow> bool" where
  "postponed p pl \<longleftrightarrow> fetch_all_playlist_items (sp_playlist_items p (pl_id pl))
     (page_limit (sp_playlists_items_max p)) = Ok (Unavailable TemporarilyUnavailable)"

definition latched :: "playlist \<Rightarrow> cache \<Rightarrow> bool" where
  "latched pl c \<longleftrightarrow> \<not> playlist_tracks_accessible (pl_id pl) c \<and> playlist_version_token (pl_id pl) c = pl_version_token pl"

definition row_settled :: "sync_provider \<Rightarrow> bool \<Rightarrow> bool \<Rightarrow> playlist \<Rightarrow> cache \<Rightarrow> bool" where
  "row_settled p force was_latched pl c \<longleftrightarrow> (\<exists>r. prow c (pl_id pl) = Some r \<and> py_snapshot_id r = pl_version_token pl \<and>
     (readable p pl \<and> (force \<or> \<not> was_latched) \<longrightarrow> py_tracks_accessible r))"

lemma prow_mark:
  "prow (mark_playlist_tracks_inaccessible_at_version i token now c) j = map_option (\<lambda>r. if j = i then
     r\<lparr>py_snapshot_id := coalesce token (py_snapshot_id r), py_tracks_accessible := False, py_fetched_at_ms := now\<rparr> else r) (prow c j)"
  by (simp add: mark_playlist_tracks_inaccessible_at_version_def row_at_update)

lemma only_listed_update:
  assumes "only_listed p ids c" "\<And>u. has_kind [Playlist] u \<Longrightarrow> media_provider c' u = media_provider c u"
    "cs_playlists c' = update_at py_id i (\<lambda>_. True) f (cs_playlists c)" "\<And>r. py_id (f r) = py_id r" "\<And>r. py_uri (f r) = py_uri r"
    "\<forall>r \<in> set (cs_playlists c). has_kind [Playlist] (py_uri r)"
  shows "only_listed p ids c'"
  unfolding only_listed_def
proof (intro ballI impI)
  fix r assume r: "r \<in> set (cs_playlists c')" "media_provider c' (py_uri r) = Some (sp_id p)"
  from r(1) obtain y where y: "y \<in> set (cs_playlists c)" "py_id r = py_id y" "py_uri r = py_uri y"
    unfolding assms(3) by (auto dest!: set_update_at simp: assms(4,5))
  with r(2) assms(1,2,6) show "py_id r \<in> ids" by (auto simp: only_listed_def)
qed

lemma persist_effect:
  assumes "persist_playlist_items (sp_id p) i items token now c = Ok (c', n)"
    "\<forall>x \<in> set items. has_kind [Track, Episode] (mi_uri x) \<and> is_ok (check_media_item x)"
  shows "prow c' j = map_option (\<lambda>r. if j = i then
      r\<lparr>py_snapshot_id := coalesce token (py_snapshot_id r), py_tracks_accessible := True, py_fetched_at_ms := now\<rparr> else r) (prow c j)"
    "has_kind [Playlist] u \<Longrightarrow> media_provider c' u = media_provider c u"
    "cs_playlists c' = update_at py_id i (\<lambda>_. True)
      (\<lambda>r. r\<lparr>py_snapshot_id := coalesce token (py_snapshot_id r), py_tracks_accessible := True, py_fetched_at_ms := now\<rparr>) (cs_playlists c)"
proof -
  obtain media where m: "upsert_media_items items (Some (sp_id p)) (sp_id p) now (cs_media c) = Ok media"
    "c' = c\<lparr>cs_media := media, cs_items := (cs_items c)(i := map (\<lambda>item. (mi_uri item, token)) items),
       cs_playlists := update_at py_id i (\<lambda>_. True)
         (\<lambda>r. r\<lparr>py_snapshot_id := coalesce token (py_snapshot_id r), py_tracks_accessible := True, py_fetched_at_ms := now\<rparr>) (cs_playlists c)\<rparr>"
    using assms(1) by (auto simp: persist_playlist_items_def split: if_splits)
  show "cs_playlists c' = update_at py_id i (\<lambda>_. True)
      (\<lambda>r. r\<lparr>py_snapshot_id := coalesce token (py_snapshot_id r), py_tracks_accessible := True, py_fetched_at_ms := now\<rparr>) (cs_playlists c)"
    by (simp add: m(2))
  then show "prow c' j = map_option (\<lambda>r. if j = i then
      r\<lparr>py_snapshot_id := coalesce token (py_snapshot_id r), py_tracks_accessible := True, py_fetched_at_ms := now\<rparr> else r) (prow c j)"
    by (simp add: row_at_update)
  assume u: "has_kind [Playlist] u"
  then have "u \<notin> mi_uri ` set items" using assms(2) has_kind_disjoint by fastforce
  moreover obtain t' where "upsert_media_items items (Some (sp_id p)) (sp_id p) now (cs_media c) = Ok t'"
    "\<And>u. map_option mw_provider (row_at mw_uri u t') =
       (if u \<in> mi_uri ` set items then Some (sp_id p) else map_option mw_provider (row_at mw_uri u (cs_media c)))"
    using upsert_media_Ok [of items "sp_id p" "sp_id p" now "cs_media c"] assms(2) by blast
  ultimately show "media_provider c' u = media_provider c u" using m by (simp add: media_provider_def)
qed


definition step_post :: "sync_provider \<Rightarrow> bool \<Rightarrow> bool \<Rightarrow> string set \<Rightarrow> playlist \<Rightarrow> cache \<Rightarrow> cache \<Rightarrow> bool" where
  "step_post p force was_latched ids pl c c' \<longleftrightarrow> (\<not> postponed p pl \<longrightarrow> row_settled p force was_latched pl c') \<and>
     (\<forall>j. j \<noteq> pl_id pl \<longrightarrow> prow c' j = prow c j) \<and> only_listed p ids c'"

lemma step_post_mark:
  assumes "prow c (pl_id pl) = Some r" "pl_version_token pl = Some v" "\<not> readable p pl" "only_listed p ids c" "cache_ok content c"
  shows "step_post p force b ids pl c (mark_playlist_tracks_inaccessible_at_version (pl_id pl) (pl_version_token pl) now c)"
proof -
  have "only_listed p ids (mark_playlist_tracks_inaccessible_at_version (pl_id pl) (pl_version_token pl) now c)"
    by (rule only_listed_update [OF assms(4), where i = "pl_id pl" and f = "\<lambda>r. r\<lparr>py_snapshot_id := coalesce (pl_version_token pl) (py_snapshot_id r),
          py_tracks_accessible := False, py_fetched_at_ms := now\<rparr>"])
      (use cache_okD(2) [OF assms(5)] in \<open>auto simp: mark_playlist_tracks_inaccessible_at_version_def media_provider_def\<close>)
  then show ?thesis
    using assms(1-3) by (auto simp: step_post_def row_settled_def prow_mark coalesce_def option.map_ident)
qed

lemma step_post_persist:
  assumes "persist_playlist_items (sp_id p) (pl_id pl) items (pl_version_token pl) now c = Ok (c', n)"
    "validate_provider_collection_items p ''playlist_items'' [Track, Episode] items = Ok ()"
    "prow c (pl_id pl) = Some r" "pl_version_token pl = Some v" "only_listed p ids c" "cache_ok content c"
  shows "step_post p force b ids pl c c'"
proof -
  have items: "\<forall>x \<in> set items. has_kind [Track, Episode] (mi_uri x) \<and> is_ok (check_media_item x)"
    using validated_items [OF assms(2)] check_media_ok by blast
  note eff = persist_effect [OF assms(1) items]
  have "only_listed p ids c'"
    by (rule only_listed_update [OF assms(5), where i = "pl_id pl" and f = "\<lambda>r. r\<lparr>py_snapshot_id := coalesce (pl_version_token pl) (py_snapshot_id r),
          py_tracks_accessible := True, py_fetched_at_ms := now\<rparr>"])
      (use cache_okD(2) [OF assms(6)] eff(2,3) in auto)
  then show ?thesis using assms(3,4) by (auto simp: step_post_def row_settled_def eff(1) coalesce_def option.map_ident)
qed

lemma one_playlist_settles:
  assumes "serves content p pl" "canonical_playlist p pl" "sp_version_changed p = default_version_changed"
    "cache_ok content (ps_cache ps)" "only_listed p ids (ps_cache ps)"
    "prow (ps_cache ps) (pl_id pl) = Some r" "py_snapshot_id r = local"
  shows "wp (sync_one_playlist env p force local pl)
     (\<lambda>_ ps'. step_post p force (\<not> py_tracks_accessible r \<and> local = pl_version_token pl) ids pl (ps_cache ps) (ps_cache ps'))
     (\<lambda>_ _. True) ps"
proof -
  obtain v where v: "pl_version_token pl = Some v" using assms(1) by (auto simp: serves_def)
  obtain uri where uri: "resource_uri_parse (pl_id pl) = Ok uri" "as_uri uri = pl_id pl"
    using assms(2) by (auto simp: canonical_playlist_def resource_uri_parse_Ok_iff)
  have skip: "step_post p force (\<not> py_tracks_accessible r \<and> local = pl_version_token pl) ids pl (ps_cache ps) (ps_cache ps)"
    if "\<not> refetch_playlist p force local pl (ps_cache ps)"
    using that assms(3,5,6,7) v
    by (auto simp: refetch_playlist_def Let_def step_post_def row_settled_def playlist_tracks_accessible_def
        should_refetch_for_provider_def default_version_changed_def should_refetch_playlist_tracks_def
        split: if_splits option.splits)
  have postponed: "step_post p force b ids pl (ps_cache ps) (ps_cache ps)" if "postponed p pl" for b
    using that assms(5) by (simp add: step_post_def)
  have mark: "step_post p force b ids pl (ps_cache ps)
      (mark_playlist_tracks_inaccessible_at_version (pl_id pl) (pl_version_token pl) (se_now_ms env) (ps_cache ps))"
    if "\<not> readable p pl" for b
    using step_post_mark [OF assms(6) v that assms(5,4)] .
  show ?thesis
    unfolding sync_one_playlist_def wp_rules
    by (auto simp: wp_rules uri skip mark_inaccessible_def store_playlist_items_def record_and_fail_def record_sync_error_def
        readable_def postponed_def
        intro!: mark postponed step_post_persist [OF _ _ assms(6) v assms(5,4)]
        split: result.split access_outcome.split access_unavailable.split prod.split)
qed


lemma wp_conj: "wp c Q E ps \<Longrightarrow> wp c Q' E' ps \<Longrightarrow> wp c (\<lambda>x ps'. Q x ps' \<and> Q' x ps') (\<lambda>e ps'. E e ps' \<and> E' e ps') ps"
  by (auto simp: wp_def split: prod.split result.split)

lemma row_settled_cong: "prow c' (pl_id pl) = prow c (pl_id pl) \<Longrightarrow> row_settled p force b pl c' = row_settled p force b pl c"
  by (simp add: row_settled_def)

lemma each_playlist_settles:
  assumes "\<forall>pl \<in> set pls. serves content p pl \<and> canonical_playlist p pl" "sp_version_changed p = default_version_changed"
    "cache_ok content (ps_cache ps)" "only_listed p ids (ps_cache ps)" "distinct (map pl_id pls)"
    "\<forall>pl \<in> set pls. \<exists>r. prow (ps_cache ps) (pl_id pl) = Some r \<and> py_snapshot_id r = locals (pl_id pl) \<and>
       py_tracks_accessible r = acc (pl_id pl)"
  shows "wp (sync_each_playlist env p force locals pls)
     (\<lambda>_ ps'. (\<forall>pl \<in> set pls. \<not> postponed p pl \<longrightarrow>
          row_settled p force (\<not> acc (pl_id pl) \<and> locals (pl_id pl) = pl_version_token pl) pl (ps_cache ps')) \<and>
        (\<forall>j. j \<notin> pl_id ` set pls \<longrightarrow> prow (ps_cache ps') j = prow (ps_cache ps) j) \<and> only_listed p ids (ps_cache ps') \<and>
        cache_ok content (ps_cache ps'))
     (\<lambda>_ _. True) ps"
  using assms
proof (induction pls arbitrary: ps)
  case Nil
  then show ?case by (simp add: wp_rules)
next
  case (Cons pl pls)
  let ?b = "\<lambda>pl. \<not> acc (pl_id pl) \<and> locals (pl_id pl) = pl_version_token pl"
  obtain r where r: "prow (ps_cache ps) (pl_id pl) = Some r" "py_snapshot_id r = locals (pl_id pl)"
    "py_tracks_accessible r = acc (pl_id pl)" using Cons.prems(6) by auto
  have pl: "serves content p pl" "canonical_playlist p pl" using Cons.prems(1) by auto
  have "wp (sync_one_playlist env p force (locals (pl_id pl)) pl)
      (\<lambda>_ ps'. cache_ok content (ps_cache ps')) (\<lambda>_ ps'. cache_ok content (ps_cache ps')) ps"
    using keeps_one_playlist [OF pl(1), of env force "locals (pl_id pl)"] Cons.prems(3) by (simp add: keeps_cache_def)
  from wp_conj [OF one_playlist_settles [OF pl Cons.prems(2-4) r(1,2), of env force] this]
  show ?case unfolding sync_each_playlist.simps wp_bind split_def wp_return
  proof (rule wp_mono, elim conjE)
    fix x and ps' :: pass_state
    assume step: "step_post p force (\<not> py_tracks_accessible r \<and> locals (pl_id pl) = pl_version_token pl) ids pl (ps_cache ps) (ps_cache ps')"
      and ok: "cache_ok content (ps_cache ps')"
    have frame: "prow (ps_cache ps') j = prow (ps_cache ps) j" if "j \<noteq> pl_id pl" for j
      using step that by (simp add: step_post_def)
    have rest: "\<forall>pl \<in> set pls. \<exists>r. prow (ps_cache ps') (pl_id pl) = Some r \<and> py_snapshot_id r = locals (pl_id pl) \<and>
       py_tracks_accessible r = acc (pl_id pl)"
      using Cons.prems(5,6) frame by (auto simp: image_iff)
    have only: "only_listed p ids (ps_cache ps')" using step by (simp add: step_post_def)
    have ih: "wp (sync_each_playlist env p force locals pls)
     (\<lambda>_ ps''. (\<forall>pl \<in> set pls. \<not> postponed p pl \<longrightarrow> row_settled p force (?b pl) pl (ps_cache ps'')) \<and>
        (\<forall>j. j \<notin> pl_id ` set pls \<longrightarrow> prow (ps_cache ps'') j = prow (ps_cache ps') j) \<and> only_listed p ids (ps_cache ps'') \<and>
        cache_ok content (ps_cache ps''))
     (\<lambda>_ _. True) ps'"
      by (rule Cons.IH) (use Cons.prems ok only rest in auto)
    show "wp (sync_each_playlist env p force locals pls)
     (\<lambda>_ ps''. (\<forall>pl' \<in> set (pl # pls). \<not> postponed p pl' \<longrightarrow> row_settled p force (?b pl') pl' (ps_cache ps'')) \<and>
        (\<forall>j. j \<notin> pl_id ` set (pl # pls) \<longrightarrow> prow (ps_cache ps'') j = prow (ps_cache ps) j) \<and> only_listed p ids (ps_cache ps'') \<and>
        cache_ok content (ps_cache ps''))
     (\<lambda>_ _. True) ps'"
      using ih
    proof (rule wp_mono)
      fix y and ps'' :: pass_state
      assume post: "(\<forall>pl \<in> set pls. \<not> postponed p pl \<longrightarrow> row_settled p force (?b pl) pl (ps_cache ps'')) \<and>
        (\<forall>j. j \<notin> pl_id ` set pls \<longrightarrow> prow (ps_cache ps'') j = prow (ps_cache ps') j) \<and> only_listed p ids (ps_cache ps'') \<and>
        cache_ok content (ps_cache ps'')"
      have "prow (ps_cache ps'') (pl_id pl) = prow (ps_cache ps') (pl_id pl)" using post Cons.prems(5) by auto
      then have "\<not> postponed p pl \<Longrightarrow> row_settled p force (?b pl) pl (ps_cache ps'')"
        using step r(3) by (simp add: step_post_def row_settled_def)
      then show "(\<forall>pl' \<in> set (pl # pls). \<not> postponed p pl' \<longrightarrow> row_settled p force (?b pl') pl' (ps_cache ps'')) \<and>
        (\<forall>j. j \<notin> pl_id ` set (pl # pls) \<longrightarrow> prow (ps_cache ps'') j = prow (ps_cache ps) j) \<and> only_listed p ids (ps_cache ps'') \<and>
        cache_ok content (ps_cache ps'')" using post frame by auto
    qed simp
  qed simp
qed


lemma row_settled_record [simp]: "row_settled p force b pl (record_sync_event e cur c) = row_settled p force b pl c"
  and only_listed_record [simp]: "only_listed p ids (record_sync_event e cur c) = only_listed p ids c"
  by (simp_all add: row_settled_def only_listed_def media_provider_def)



section \<open>A pass whose calls are answered succeeds\<close>

definition well_served :: "sync_provider \<Rightarrow> playlist \<Rightarrow> bool" where
  "well_served p pl \<longleftrightarrow> (case fetch_all_playlist_items (sp_playlist_items p (pl_id pl)) (page_limit (sp_playlists_items_max p)) of
       Ok (Available items) \<Rightarrow> validate_provider_collection_items p ''playlist_items'' [Track, Episode] items = Ok ()
     | Ok (Unavailable _) \<Rightarrow> True
     | Err e \<Rightarrow> \<not> is_control_provider_error e \<and> playlist_tracks_forbidden e)"

definition owned :: "sync_provider \<Rightarrow> string set \<Rightarrow> cache \<Rightarrow> bool" where
  "owned p ids c \<longleftrightarrow> (\<forall>i \<in> ids. \<exists>r. prow c i = Some r \<and> has_kind [Playlist] (py_uri r) \<and> media_provider c (py_uri r) = Some (sp_id p))"

lemma owned_frame:
  assumes "owned p ids c" "\<And>j. prow c' j = map_option (\<lambda>r. if j = i then f r else r) (prow c j)"
    "\<And>r. py_uri (f r) = py_uri r" "\<And>u. has_kind [Playlist] u \<Longrightarrow> media_provider c' u = media_provider c u"
  shows "owned p ids c'"
  unfolding owned_def
proof
  fix j assume "j \<in> ids"
  then obtain r where r: "prow c j = Some r" "has_kind [Playlist] (py_uri r)" "media_provider c (py_uri r) = Some (sp_id p)"
    using assms(1) by (auto simp: owned_def)
  then have "prow c' j = Some (if j = i then f r else r)" "py_uri (if j = i then f r else r) = py_uri r"
    by (simp_all add: assms(2,3))
  with r assms(4) show "\<exists>r. prow c' j = Some r \<and> has_kind [Playlist] (py_uri r) \<and> media_provider c' (py_uri r) = Some (sp_id p)"
    by metis
qed

lemma owned_mark:
  assumes "owned p ids c"
  shows "owned p ids (mark_playlist_tracks_inaccessible_at_version i token now c)"
  by (rule owned_frame [OF assms prow_mark]) (simp_all add: media_provider_def mark_playlist_tracks_inaccessible_at_version_def)

lemma valid_items:
  assumes "validate_provider_collection_items p ''playlist_items'' [Track, Episode] items = Ok ()"
  shows "\<forall>x \<in> set items. has_kind [Track, Episode] (mi_uri x) \<and> is_ok (check_media_item x)"
  using validated_items [OF assms] check_media_ok by blast

lemma owned_persist:
  assumes "owned p ids c" "persist_playlist_items (sp_id p) i items token now c = Ok (c', n)"
    "validate_provider_collection_items p ''playlist_items'' [Track, Episode] items = Ok ()"
  shows "owned p ids c'"
  by (rule owned_frame [OF assms(1) persist_effect(1) [OF assms(2) valid_items [OF assms(3)]]])
    (simp_all add: persist_effect(2) [OF assms(2) valid_items [OF assms(3)]])

lemma persist_Ok:
  assumes "owned p ids c" "i \<in> ids" "validate_provider_collection_items p ''playlist_items'' [Track, Episode] items = Ok ()"
  shows "persist_playlist_items (sp_id p) i items token now c \<noteq> Err e"
proof -
  have "\<forall>x \<in> set items. is_ok (check_media_item x)" using valid_items [OF assms(3)] by blast
  then obtain t' where "upsert_media_items items (Some (sp_id p)) (sp_id p) now (cs_media c) = Ok t'"
    by (rule upsert_media_Ok)
  then show ?thesis using assms(1,2) by (auto simp: persist_playlist_items_def owned_def)
qed

lemma one_playlist_succeeds:
  assumes "well_served p pl" "pl_id pl \<in> ids" "owned p ids (ps_cache ps)"
  shows "wp (sync_one_playlist env p force local pl) (\<lambda>_ ps'. owned p ids (ps_cache ps')) (\<lambda>_ _. False) ps"
proof -
  have "as_uri uri = pl_id pl" if "resource_uri_parse (pl_id pl) = Ok uri" for uri
    using that by (simp add: resource_uri_parse_Ok_iff)
  then show ?thesis
    unfolding sync_one_playlist_def wp_rules
    using assms(1,3) persist_Ok [OF assms(3,2)]
    by (auto simp: wp_rules mark_inaccessible_def store_playlist_items_def well_served_def owned_mark
        intro: owned_persist
        split: result.splits access_outcome.splits access_unavailable.split prod.split)
qed

lemma each_playlist_succeeds:
  assumes "\<forall>pl \<in> set pls. well_served p pl \<and> pl_id pl \<in> ids" "owned p ids (ps_cache ps)"
  shows "wp (sync_each_playlist env p force locals pls) (\<lambda>_ ps'. owned p ids (ps_cache ps')) (\<lambda>_ _. False) ps"
  using assms
proof (induction pls arbitrary: ps)
  case (Cons pl pls)
  show ?case unfolding sync_each_playlist.simps wp_bind split_def wp_return
    by (rule wp_mono [OF one_playlist_succeeds [of p pl ids]]) (use Cons in auto)
qed (simp add: wp_rules)

lemma media_items_Ok:
  assumes "\<forall>pl \<in> set ps. canonical_playlist p pl"
  obtains items where "map_result (playlist_media_item origin) ps = Ok items" "map mi_uri items = map pl_id ps"
    "\<forall>x \<in> set items. is_ok (check_media_item x)"
proof -
  have "\<exists>items. map_result (playlist_media_item origin) ps = Ok items \<and> map mi_uri items = map pl_id ps \<and>
    (\<forall>x \<in> set items. is_ok (check_media_item x))"
    using assms
  proof (induction ps)
    case (Cons pl ps)
    then have can: "canonical_playlist p pl" by simp
    from canonical_uri [OF this] have "\<exists>x. playlist_media_item origin pl = Ok x \<and> mi_uri x = pl_id pl \<and> mi_kind x = Playlist"
      by (simp add: playlist_media_item_def)
    then obtain x where "playlist_media_item origin pl = Ok x" "mi_uri x = pl_id pl" "mi_kind x = Playlist" by blast
    moreover from this can have "is_ok (check_media_item x)" by (auto simp: canonical_playlist_def intro: check_media_ok)
    ultimately show ?case using Cons by auto
  qed simp
  with that show thesis by blast
qed

lemma replace_Ok:
  assumes "canonical_rows c" "\<forall>pl \<in> set ps. canonical_playlist p pl"
  shows "\<exists>c' n removed. replace_provider_playlists (sp_id p) (sp_id p) ps now c = Ok (c', n, removed) \<and> owned p (pl_id ` set ps) c'"
proof -
  obtain items where items: "map_result (playlist_media_item (sp_id p)) ps = Ok items" "map mi_uri items = map pl_id ps"
    "\<forall>x \<in> set items. is_ok (check_media_item x)" using media_items_Ok [OF assms(2)] .
  have ids: "mi_uri ` set items = pl_id ` set ps" using items(2) by (metis list.set_map)
  obtain media where media: "upsert_media_items items (Some (sp_id p)) (sp_id p) now (cs_media c) = Ok media"
    "\<And>u. map_option mw_provider (row_at mw_uri u media) =
       (if u \<in> mi_uri ` set items then Some (sp_id p) else map_option mw_provider (row_at mw_uri u (cs_media c)))"
    using upsert_media_Ok [OF items(3), where prov = "sp_id p" and origin = "sp_id p" and now = now and t = "cs_media c"] by blast
  have uris: "\<forall>pl \<in> set ps. playlist_uri (pl_id pl) = Ok (pl_id pl)" using assms(2) canonical_uri by blast
  then have inc: "map_result (\<lambda>p. playlist_uri (pl_id p)) ps = Ok (map pl_id ps)" by (induction ps) auto
  have "canonical_rows (c\<lparr>cs_media := media\<rparr>)" using assms(1) by (simp add: canonical_rows_def)
  from write_canonical [OF this uris, of now] obtain c2 where c2: "write_playlists now ps (c\<lparr>cs_media := media\<rparr>) = Ok c2"
    "canonical_rows c2" "cs_media c2 = media" "\<forall>i \<in> pl_id ` set ps. \<exists>r. prow c2 i = Some r" by auto blast
  define removed where "removed = filter (\<lambda>uri. uri \<notin> pl_id ` set ps) (cached_playlist_uris (sp_id p) (c\<lparr>cs_media := media\<rparr>))"
  have "replace_provider_playlists (sp_id p) (sp_id p) ps now c = Ok (fold remove_playlist removed c2, length ps, removed)"
    by (simp add: replace_provider_playlists_def items(1) inc media(1) c2(1) Let_def removed_def)
  moreover have "owned p (pl_id ` set ps) (fold remove_playlist removed c2)" unfolding owned_def
  proof
    fix i assume i: "i \<in> pl_id ` set ps"
    then obtain r where r: "prow c2 i = Some r" using c2(4) by blast
    from row_at_SomeD [OF this] have uri: "py_uri r = i" using c2(2) by (auto simp: canonical_rows_def)
    have keep: "i \<notin> set removed" using i by (simp add: removed_def)
    have eq: "filter (\<lambda>r. py_uri r \<notin> set removed) (cs_playlists c2) = filter (\<lambda>r. py_id r \<notin> set removed) (cs_playlists c2)"
      using c2(2) by (intro filter_cong) (auto simp: canonical_rows_def)
    have "has_kind [Playlist] i" using i uris playlist_uri_kind by blast
    moreover have "prow (fold remove_playlist removed c2) i = Some r"
      using r keep by (simp add: fold_remove_rows eq row_at_filter_in)
    moreover have "media_provider (fold remove_playlist removed c2) i = Some (sp_id p)"
      using keep i media(2) [of i] by (simp add: media_provider_def fold_remove_rows row_at_filter_in c2(3) ids)
    ultimately show "\<exists>r. prow (fold remove_playlist removed c2) i = Some r \<and> has_kind [Playlist] (py_uri r) \<and>
        media_provider (fold remove_playlist removed c2) (py_uri r) = Some (sp_id p)" using uri by blast
  qed
  ultimately show ?thesis by blast
qed


lemma answered_pass_wp:
  assumes "lists p playlists" "wf_scheme (sp_scheme p)" "\<forall>pl \<in> set playlists. well_served p pl"
    "sp_playlists_list p" "canonical_rows (ps_cache ps)" "se_unindex_ok env"
    "cooldown_remaining_ms (sp_id p) ''playlists'' (se_now_ms env) (ps_cache ps) = None"
  shows "wp (sync_playlists env p force summary) (\<lambda>_ _. True) (\<lambda>_ _. False) ps"
proof -
  obtain listed where l: "fetch_all_playlists (sp_playlists p) (page_limit (sp_playlists_list_max p)) = Ok listed"
    "normalize_provider_playlists p listed = Ok playlists" using assms(1) by (auto simp: lists_def)
  have can: "\<forall>pl \<in> set playlists. canonical_playlist p pl" using normalized_canonical [OF l(2) assms(2)] by blast
  from replace_Ok [OF assms(5) can] obtain c' n removed where
    r: "replace_provider_playlists (sp_id p) (sp_id p) playlists (se_now_ms env) (ps_cache ps) = Ok (c', n, removed)"
      "owned p (pl_id ` set playlists) c'" by blast
  have "\<exists>media. map_result (playlist_as_media_item (sp_id p)) playlists = Ok media"
    using can by (induction playlists) (auto simp: canonical_playlist_def playlist_as_media_item_def)
  then obtain media where media: "map_result (playlist_as_media_item (sp_id p)) playlists = Ok media" by blast
  have each: "wp (sync_each_playlist env p force locals playlists) (\<lambda>_ _. True) (\<lambda>_ _. False) ps1"
    if "ps_cache ps1 = c'" for ps1 locals
    by (rule wp_mono [OF each_playlist_succeeds [where ids = "pl_id ` set playlists"]])
      (use assms(3) r(2) that in auto)
  have "wp (sync_listed_playlists env p force listed summary) (\<lambda>_ _. True) (\<lambda>_ _. False) ps"
    unfolding sync_listed_playlists_def
    by (auto simp: wp_rules l(2) r(1) media assms(6) Let_def record_ok_def split_def intro: wp_mono [OF each])
  then show ?thesis
    unfolding sync_playlists_def
    by (simp add: wp_rules l(1) assms(4,7) wp_def [of "fail_if_rate_limited_domain env p d" for d] fail_if_rate_limited_domain_def)
qed

text \<open>
  C38: A playlist pass succeeds when the provider answers: no cooldown is pending, the listing arrives, every
  item listing arrives with valid items, is refused as unavailable, or is forbidden. A playlist that cannot
  be read does not fail the pass, and neither does anything the store does with these answers.
\<close>

theorem answered_pass_succeeds:
  assumes "lists p playlists" "wf_scheme (sp_scheme p)" "\<forall>pl \<in> set playlists. well_served p pl"
    "sp_playlists_list p" "canonical_rows (ps_cache ps)" "se_unindex_ok env"
    "cooldown_remaining_ms (sp_id p) ''playlists'' (se_now_ms env) (ps_cache ps) = None"
  shows "is_ok (snd (sync_playlists env p force summary ps))"
  using answered_pass_wp [OF assms, of force summary] by (auto simp: wp_def split: prod.splits result.splits)

section \<open>A provider with one playlist\<close>

definition demo_playlist :: playlist where
  "demo_playlist = \<lparr>pl_id = ''fake:playlist:p'', pl_name = ''P'', pl_owner = ''me'', pl_tracks_total = 1,
     pl_image_url = None, pl_version_token = Some ''v1''\<rparr>"

definition demo_item :: media_item where
  "demo_item = media_stub ''fake:track:a''"

definition demo_sync_provider :: sync_provider where
  "demo_sync_provider = \<lparr>sp_id = ''fake'', sp_scheme = ''fake'', sp_playlists_list = True, sp_playlists_item_read = True,
     sp_playlists_list_max = None, sp_playlists_items_max = None, sp_recently_played = False, sp_recent_max = None,
     sp_read_kinds = [], sp_library_max = None, sp_freshness_probe = False, sp_playback_state = False,
     sp_queue_read = False, sp_device_list = False, sp_has_transport = False,
     sp_playlists = (\<lambda>k r. Ok \<lparr>pp_items = [demo_playlist], pp_requested_offset = pr_offset r, pp_total = Some 1, pp_next = None\<rparr>),
     sp_playlist_items = (\<lambda>i k r. Ok (Available \<lparr>pp_items = [demo_item], pp_requested_offset = pr_offset r, pp_total = Some 1, pp_next = None\<rparr>)),
     sp_recent = (\<lambda>k r. Err (Unsupported ''recently_played'')), sp_library = (\<lambda>kd k r. Err (Unsupported ''library'')),
     sp_probe = (\<lambda>kd. Err (Unsupported ''probe'')), sp_freshness_changed = (\<lambda>a b. a \<noteq> b),
     sp_version_changed = default_version_changed\<rparr>"

definition demo_sync_env :: sync_env where
  "demo_sync_env = \<lparr>se_started_ms = 1000, se_now_ms = 1000, se_show = (\<lambda>e. ''failed''), se_unindex_ok = True,
     se_index_ok = True, se_live = (\<lambda>t s ps. (ps, Ok s))\<rparr>"

definition demo_content :: history where
  "demo_content i v = [''fake:track:a'']"

definition empty_cache :: cache where
  "empty_cache = \<lparr>cs_media = [], cs_playlists = [], cs_items = (\<lambda>_. []), cs_library = [], cs_recent = [], cs_events = [], cs_cursors = []\<rparr>"

definition demo_start :: pass_state where
  "demo_start = \<lparr>ps_cache = empty_cache, ps_calls = []\<rparr>"

lemma fetch_one_page:
  assumes "fetch 0 (page_request_new limit 0) = Ok page" "pp_requested_offset page = 0" "pp_next page = None"
  shows "fetch_pages lift operation message fetch limit = Ok (pp_items page)"
proof -
  obtain n where n: "MAX_PAGES = Suc n" using not0_implies_Suc [of MAX_PAGES] by (auto simp: MAX_PAGES_def)
  show ?thesis using assms unfolding fetch_pages_def n
    by (simp add: checked_page_def validate_provider_page_offset_def page_request_new_def)
qed

lemma demo_listed:
  "fetch_all_playlists (sp_playlists demo_sync_provider) (page_limit (sp_playlists_list_max demo_sync_provider)) = Ok [demo_playlist]"
  unfolding fetch_all_playlists_def by (subst fetch_one_page, simp add: demo_sync_provider_def page_request_new_def, simp_all)

lemma demo_normalized: "normalize_provider_playlists demo_sync_provider [demo_playlist] = Ok [demo_playlist]"
  by code_simp

lemma demo_items:
  "fetch_all_playlist_items (sp_playlist_items demo_sync_provider (pl_id demo_playlist))
     (page_limit (sp_playlists_items_max demo_sync_provider)) = Ok (Available [demo_item])"
  unfolding fetch_all_playlist_items_def
  by (subst fetch_one_page, simp add: demo_sync_provider_def page_request_new_def access_fetcher_def, simp_all)

lemma demo_honest: "honest demo_content demo_sync_provider"
  by (auto simp: honest_def lists_def demo_listed demo_normalized serves_def demo_items)
    (simp_all add: demo_playlist_def demo_item_def demo_content_def media_stub_def)

lemma demo_lists: "lists demo_sync_provider [demo_playlist]"
  by (simp add: lists_def demo_listed demo_normalized)

lemma empty_cache_ok: "cache_ok content empty_cache" "canonical_rows empty_cache"
  by (simp_all add: cache_ok_def cache_wf_def empty_cache_def canonical_rows_def)


lemma demo_scheme: "wf_scheme (sp_scheme demo_sync_provider)"
  unfolding wf_scheme_def by code_simp

lemma demo_served: "\<forall>pl \<in> set [demo_playlist]. well_served demo_sync_provider pl"
proof -
  have "validate_provider_collection_items demo_sync_provider ''playlist_items'' [Track, Episode] [demo_item] = Ok ()"
    by code_simp
  then show ?thesis by (simp add: well_served_def demo_items)
qed

lemma demo_ready:
  "sp_playlists_list demo_sync_provider" "canonical_rows (ps_cache demo_start)" "se_unindex_ok demo_sync_env"
  "cooldown_remaining_ms (sp_id demo_sync_provider) ''playlists'' (se_now_ms demo_sync_env) (ps_cache demo_start) = None"
  by (simp add: demo_sync_provider_def, simp add: demo_start_def empty_cache_ok, simp add: demo_sync_env_def,
      simp add: demo_start_def empty_cache_def cooldown_remaining_ms_def cooldown_event_def events_of_def)

theorem answered_pass_succeeds_witness:
  "is_ok (snd (sync_playlists demo_sync_env demo_sync_provider False (empty_summary TargetPlaylists None) demo_start))"
  by (rule answered_pass_succeeds [OF demo_lists demo_scheme demo_served demo_ready])


end
