(* ===== verification/Sync_Schedule.thy ===== *)
theory Sync_Schedule
  imports Sync_Engine
begin

text \<open>
  The scheduler of the sync engine (\<open>spotuify-sync/src/sync_loop.rs\<close>): the backoff of a target, the circuit
  breaker that a provider's two lanes share, the fast and the slow lane as programs over it, the restart
  delay of a crashed lane, and the aggregate over all providers. Instants and durations are milliseconds.
  What a lane reads of the host, and how a poll ends, is part of the step's event.
\<close>

section \<open>Constants\<close>

definition QUEUE_CADENCE :: nat where "QUEUE_CADENCE = 15000"
definition DEVICES_CADENCE :: nat where "DEVICES_CADENCE = 60000"
definition PLAYBACK_RECONCILE_CADENCE :: nat where "PLAYBACK_RECONCILE_CADENCE = 30000"
definition RECENT_ACTIVE_CADENCE :: nat where "RECENT_ACTIVE_CADENCE = 300000"
definition IDLE_CADENCE :: nat where "IDLE_CADENCE = 30000"
definition BACKOFF_BASE :: nat where "BACKOFF_BASE = 15000"
definition BACKOFF_MAX :: nat where "BACKOFF_MAX = 120000"
definition GLOBAL_BACKOFF_BASE :: nat where "GLOBAL_BACKOFF_BASE = 60000"
definition GLOBAL_BACKOFF_MAX :: nat where "GLOBAL_BACKOFF_MAX = 600000"
definition SCHEDULER_RESTART_BASE :: nat where "SCHEDULER_RESTART_BASE = 1000"
definition SCHEDULER_RESTART_MAX :: nat where "SCHEDULER_RESTART_MAX = 60000"
definition SCHEDULER_RESTART_RESET_AFTER :: nat where "SCHEDULER_RESTART_RESET_AFTER = 300000"

section \<open>Backoff\<close>

definition sat_u32_succ :: "u32 \<Rightarrow> u32" where
  "sat_u32_succ n = min (2 ^ 32 - 1) (n + 1)"

record target_backoff =
  tb_failures :: u32
  tb_next_allowed :: "nat option"
  tb_epoch :: u64

definition default_backoff :: target_backoff where
  "default_backoff = \<lparr>tb_failures = 0, tb_next_allowed = None, tb_epoch = 0\<rparr>"

definition should_run :: "target_backoff \<Rightarrow> nat \<Rightarrow> bool" where
  "should_run b now = (case tb_next_allowed b of None \<Rightarrow> True | Some nxt \<Rightarrow> nxt \<le> now)"

definition backoff_record_success :: "target_backoff \<Rightarrow> target_backoff" where
  "backoff_record_success b = b\<lparr>tb_failures := 0, tb_next_allowed := None\<rparr>"

definition record_success_if_epoch :: "u64 \<Rightarrow> target_backoff \<Rightarrow> target_backoff" where
  "record_success_if_epoch observed b = (if tb_epoch b = observed then backoff_record_success b else b)"

definition seed_persisted_cooldown :: "nat \<Rightarrow> nat \<Rightarrow> target_backoff \<Rightarrow> target_backoff" where
  "seed_persisted_cooldown now remaining b = b\<lparr>tb_failures := max (tb_failures b) 1,
     tb_epoch := sat_u64 (tb_epoch b + 1), tb_next_allowed := Some (now + remaining)\<rparr>"

definition rate_limit_pause :: "u32 \<Rightarrow> nat \<Rightarrow> nat" where
  "rate_limit_pause failures retry_after =
     (let shift = min (failures - 1) 4;
          escalated = min (GLOBAL_BACKOFF_BASE * 2 ^ shift) GLOBAL_BACKOFF_MAX
      in min (max retry_after escalated) GLOBAL_BACKOFF_MAX)"

definition note_rate_limit :: "nat \<Rightarrow> nat \<Rightarrow> target_backoff \<Rightarrow> target_backoff" where
  "note_rate_limit now retry_after b =
     (let failures = sat_u32_succ (tb_failures b)
      in b\<lparr>tb_failures := failures, tb_epoch := sat_u64 (tb_epoch b + 1),
           tb_next_allowed := Some (now + rate_limit_pause failures retry_after)\<rparr>)"

definition record_failure :: "nat \<Rightarrow> sync_error \<Rightarrow> target_backoff \<Rightarrow> target_backoff" where
  "record_failure now err b =
     (let failures = sat_u32_succ (tb_failures b)
      in case err of
           ProviderErr (RateLimited scope retry_after) \<Rightarrow>
             b\<lparr>tb_failures := failures, tb_next_allowed := Some (now + (case retry_after of Some d \<Rightarrow> d | None \<Rightarrow> BACKOFF_BASE))\<rparr>
         | _ \<Rightarrow> b\<lparr>tb_failures := failures,
                 tb_next_allowed := Some (now + min (BACKOFF_BASE * 2 ^ min (failures - 1) 3) BACKOFF_MAX)\<rparr>)"

type_synonym poll_result = "(sync_summary, sync_error) result"

definition rate_limit_retry_after :: "poll_result option \<Rightarrow> nat option" where
  "rate_limit_retry_after res = (case res of
       Some (Err (ProviderErr (RateLimited scope retry_after))) \<Rightarrow>
         Some (case retry_after of Some d \<Rightarrow> d | None \<Rightarrow> GLOBAL_BACKOFF_BASE)
     | _ \<Rightarrow> None)"

definition record_global_at :: "nat \<Rightarrow> u64 \<Rightarrow> poll_result option \<Rightarrow> target_backoff \<Rightarrow> target_backoff" where
  "record_global_at completed_at observed res g = (case rate_limit_retry_after res of
       Some retry \<Rightarrow> note_rate_limit completed_at retry g
     | None \<Rightarrow> (case res of Some (Ok _) \<Rightarrow> record_success_if_epoch observed g | _ \<Rightarrow> g))"

definition settle_backoff :: "nat \<Rightarrow> poll_result \<Rightarrow> target_backoff \<Rightarrow> target_backoff" where
  "settle_backoff now res b = (case res of Ok _ \<Rightarrow> backoff_record_success b | Err e \<Rightarrow> record_failure now e b)"

section \<open>The lanes\<close>

text \<open>
  A lane between two awaits: waiting for its interval, going through the targets of a tick that began at
  the given instant, or polling a target with the epoch of the breaker it saw before the poll.
\<close>

datatype lane_phase =
    LaneIdle
  | Ticking nat "sync_target list"
  | Polling nat sync_target u64 "sync_target list"

text \<open>The variables \<open>last_\<dots>_sync\<close> and \<open>\<dots>_backoff\<close> of the two lanes are one function each.\<close>

record sched =
  sd_now :: nat
  sd_global :: target_backoff
  sd_fast :: lane_phase
  sd_slow :: lane_phase
  sd_last_sync :: "nat option"
  sd_last :: "sync_target \<Rightarrow> nat option"
  sd_backoff :: "sync_target \<Rightarrow> target_backoff"

record host_view =
  hv_subscribers :: nat
  hv_embedded_active :: bool
  hv_playing :: bool

datatype sched_event =
    Elapse nat
  | FastTick host_view
  | FastNext host_view
  | FastDone poll_result
  | SlowTick
  | SlowNext
  | SlowDone poll_result

definition none_or_elapsed :: "nat option \<Rightarrow> nat \<Rightarrow> nat \<Rightarrow> bool" where
  "none_or_elapsed previous cadence now = (case previous of None \<Rightarrow> True | Some t \<Rightarrow> cadence \<le> now - t)"

definition FAST_TARGETS :: "sync_target list" where
  "FAST_TARGETS = [TargetPlayback, TargetQueue, TargetDevices, TargetRecent]"

definition SLOW_TARGETS :: "sync_target list" where
  "SLOW_TARGETS = [TargetPlaylists, TargetLibrary]"

definition fast_tick :: "host_view \<Rightarrow> sched \<Rightarrow> sched" where
  "fast_tick hv s =
     (let elapsed = (case sd_last_sync s of None \<Rightarrow> IDLE_CADENCE | Some t \<Rightarrow> sd_now s - t)
      in if hv_subscribers hv = 0 \<and> elapsed < IDLE_CADENCE then s
         else if \<not> should_run (sd_global s) (sd_now s) then s
         else s\<lparr>sd_fast := Ticking (sd_now s) FAST_TARGETS\<rparr>)"

definition playback_due :: "host_view \<Rightarrow> sched \<Rightarrow> bool" where
  "playback_due hv s =
     (if hv_embedded_active hv then none_or_elapsed (sd_last s TargetPlayback) PLAYBACK_RECONCILE_CADENCE (sd_now s)
      else if \<not> hv_playing hv then none_or_elapsed (sd_last s TargetPlayback) IDLE_CADENCE (sd_now s)
      else True)"

definition fast_due :: "sync_provider \<Rightarrow> host_view \<Rightarrow> nat \<Rightarrow> sync_target \<Rightarrow> sched \<Rightarrow> bool" where
  "fast_due p hv tick target s \<longleftrightarrow> provider_supports_target p target \<and>
     (if target = TargetPlayback then playback_due hv s
      else should_run (sd_global s) tick \<and>
        none_or_elapsed (sd_last s target)
          (if target = TargetQueue then QUEUE_CADENCE else if target = TargetDevices then DEVICES_CADENCE else RECENT_ACTIVE_CADENCE)
          (sd_now s))"

definition fast_next :: "sync_provider \<Rightarrow> host_view \<Rightarrow> nat \<Rightarrow> sync_target list \<Rightarrow> sched \<Rightarrow> sched" where
  "fast_next p hv tick targets s = (case targets of
       [] \<Rightarrow> s\<lparr>sd_fast := LaneIdle, sd_last_sync := Some tick\<rparr>
     | target # rest \<Rightarrow>
         (if \<not> fast_due p hv tick target s then s\<lparr>sd_fast := Ticking tick rest\<rparr>
          else if should_run (sd_backoff s target) (sd_now s)
          then s\<lparr>sd_fast := Polling tick target (tb_epoch (sd_global s)) rest\<rparr>
          else s\<lparr>sd_fast := Ticking tick rest, sd_last := (sd_last s)(target := Some tick)\<rparr>))"

definition fast_done :: "poll_result \<Rightarrow> nat \<Rightarrow> sync_target \<Rightarrow> u64 \<Rightarrow> sync_target list \<Rightarrow> sched \<Rightarrow> sched" where
  "fast_done res tick target observed rest s = s\<lparr>
     sd_backoff := (sd_backoff s)(target := settle_backoff (sd_now s) res (sd_backoff s target)),
     sd_global := record_global_at (sd_now s) observed (Some res) (sd_global s),
     sd_last := (sd_last s)(target := Some tick),
     sd_fast := Ticking tick rest\<rparr>"

definition slow_tick :: "sched \<Rightarrow> sched" where
  "slow_tick s = (if should_run (sd_global s) (sd_now s) then s\<lparr>sd_slow := Ticking (sd_now s) SLOW_TARGETS\<rparr> else s)"

definition slow_next :: "sync_provider \<Rightarrow> nat \<Rightarrow> sync_target list \<Rightarrow> sched \<Rightarrow> sched" where
  "slow_next p tick targets s = (case targets of
       [] \<Rightarrow> s\<lparr>sd_slow := LaneIdle\<rparr>
     | target # rest \<Rightarrow>
         (if provider_supports_target p target \<and> should_run (sd_backoff s target) (sd_now s)
          then s\<lparr>sd_slow := Polling tick target (tb_epoch (sd_global s)) rest\<rparr>
          else s\<lparr>sd_slow := Ticking tick rest\<rparr>))"

definition slow_done :: "poll_result \<Rightarrow> nat \<Rightarrow> sync_target \<Rightarrow> u64 \<Rightarrow> sync_target list \<Rightarrow> sched \<Rightarrow> sched" where
  "slow_done res tick target observed rest s = s\<lparr>
     sd_backoff := (sd_backoff s)(target := settle_backoff (sd_now s) res (sd_backoff s target)),
     sd_global := record_global_at (sd_now s) observed (Some res) (sd_global s),
     sd_slow := (if target = TargetPlaylists \<and> rate_limit_retry_after (Some res) \<noteq> None then LaneIdle else Ticking tick rest)\<rparr>"

definition sched_step :: "sync_provider \<Rightarrow> sched_event \<Rightarrow> sched \<Rightarrow> sched option" where
  "sched_step p e s = (case e of
       Elapse d \<Rightarrow> Some (s\<lparr>sd_now := sd_now s + d\<rparr>)
     | FastTick hv \<Rightarrow> (case sd_fast s of LaneIdle \<Rightarrow> Some (fast_tick hv s) | _ \<Rightarrow> None)
     | FastNext hv \<Rightarrow> (case sd_fast s of Ticking tick targets \<Rightarrow> Some (fast_next p hv tick targets s) | _ \<Rightarrow> None)
     | FastDone res \<Rightarrow> (case sd_fast s of
           Polling tick target observed rest \<Rightarrow> Some (fast_done res tick target observed rest s) | _ \<Rightarrow> None)
     | SlowTick \<Rightarrow> (case sd_slow s of LaneIdle \<Rightarrow> Some (slow_tick s) | _ \<Rightarrow> None)
     | SlowNext \<Rightarrow> (case sd_slow s of Ticking tick targets \<Rightarrow> Some (slow_next p tick targets s) | _ \<Rightarrow> None)
     | SlowDone res \<Rightarrow> (case sd_slow s of
           Polling tick target observed rest \<Rightarrow> Some (slow_done res tick target observed rest s) | _ \<Rightarrow> None))"

text \<open>A provider's lanes start with the cooldown the store remembers.\<close>

definition initial_sched :: "nat \<Rightarrow> nat option \<Rightarrow> sched" where
  "initial_sched now remaining = \<lparr>sd_now = now,
     sd_global = (case remaining of Some d \<Rightarrow> seed_persisted_cooldown now d default_backoff | None \<Rightarrow> default_backoff),
     sd_fast = LaneIdle, sd_slow = LaneIdle, sd_last_sync = None, sd_last = (\<lambda>_. None),
     sd_backoff = (\<lambda>_. default_backoff)\<rparr>"

section \<open>Restarting a lane\<close>

definition restart_delay :: "u32 \<Rightarrow> nat" where
  "restart_delay failures = (if failures = 0 then 0
     else min (SCHEDULER_RESTART_BASE * 2 ^ min (failures - 1) 6) SCHEDULER_RESTART_MAX)"

definition scheduler_restart_failures_after_run :: "u32 \<Rightarrow> nat \<Rightarrow> u32" where
  "scheduler_restart_failures_after_run failures run_duration =
     (if SCHEDULER_RESTART_RESET_AFTER \<le> run_duration then 0 else failures)"

text \<open>A lane that stopped after a run is started again with one more failure.\<close>

definition lane_stopped :: "u32 \<Rightarrow> nat \<Rightarrow> u32" where
  "lane_stopped failures run_duration = sat_u32_succ (scheduler_restart_failures_after_run failures run_duration)"

section \<open>All providers\<close>

definition failed_summary :: "sync_target \<Rightarrow> string \<Rightarrow> string \<Rightarrow> sync_summary" where
  "failed_summary target provider err =
     (empty_summary target (Some provider))\<lparr>sm_status := SyncFailed, sm_error := Some err\<rparr>"

definition terminal_summary :: "(sync_error \<Rightarrow> string) \<Rightarrow> sync_target \<Rightarrow> string \<Rightarrow> poll_result \<Rightarrow> sync_summary" where
  "terminal_summary render target provider res = (case res of
       Ok summary \<Rightarrow> summary | Err e \<Rightarrow> failed_summary target provider (render e))"

definition outcome_from :: "sync_summary \<Rightarrow> provider_outcome" where
  "outcome_from s = \<lparr>po_provider = (case sm_provider s of Some p \<Rightarrow> p | None \<Rightarrow> ''unknown''),
     po_status = sm_status s, po_error = sm_error s\<rparr>"

text \<open>The aggregate of the results in the order they arrive, before the verdict.\<close>

definition aggregate_step :: "(sync_error \<Rightarrow> string) \<Rightarrow> sync_target \<Rightarrow> string \<times> poll_result
    \<Rightarrow> sync_summary \<times> sync_error option \<Rightarrow> sync_summary \<times> sync_error option" where
  "aggregate_step render target pr acc = (case (pr, acc) of ((provider, res), (summary, first_error)) \<Rightarrow>
     let summary = summary\<lparr>sm_outcomes := sm_outcomes summary @ [outcome_from (terminal_summary render target provider res)]\<rparr>
     in case res of
          Ok s \<Rightarrow> (merge_summary summary s, first_error)
        | Err e \<Rightarrow> (summary, case first_error of None \<Rightarrow> Some e | Some _ \<Rightarrow> first_error))"

definition aggregate_verdict :: "(sync_error \<Rightarrow> string) \<Rightarrow> nat \<Rightarrow> sync_summary \<times> sync_error option \<Rightarrow> poll_result" where
  "aggregate_verdict render successes acc = (case acc of
       (summary, None) \<Rightarrow> Ok summary
     | (summary, Some e) \<Rightarrow> if successes = 0 then Err e
         else Ok (summary\<lparr>sm_status := SyncPartial, sm_error := Some (render e)\<rparr>))"

definition aggregate_start :: "sync_target \<Rightarrow> string list \<Rightarrow> sync_summary \<times> sync_error option" where
  "aggregate_start target providers =
     (empty_summary target (case providers of [p] \<Rightarrow> Some p | _ \<Rightarrow> None), None)"

definition sync_target_all :: "(sync_error \<Rightarrow> string) \<Rightarrow> sync_target \<Rightarrow> (string \<times> poll_result) list \<Rightarrow> poll_result" where
  "sync_target_all render target results =
     aggregate_verdict render (length (filter (\<lambda>(_, res). is_ok res) results))
       (fold (aggregate_step render target) results (aggregate_start target (map fst results)))"

text \<open>The concurrent variant: results in completion order, outcomes sorted by provider at the end.\<close>

definition sync_target_isolated :: "(sync_error \<Rightarrow> string) \<Rightarrow> sync_target \<Rightarrow> string list \<Rightarrow> (string \<times> poll_result) list \<Rightarrow> poll_result" where
  "sync_target_isolated render target providers completed =
     (let (summary, first_error) = fold (aggregate_step render target) completed (aggregate_start target providers);
          summary = summary\<lparr>sm_outcomes := sort_key po_provider (sm_outcomes summary)\<rparr>
      in aggregate_verdict render (length (filter (\<lambda>o'. po_status o' = SyncSucceeded) (sm_outcomes summary))) (summary, first_error))"

end
