(* ===== verification/Schedule_Laws.thy ===== *)
theory Schedule_Laws
  imports Sync_Schedule "HOL-Library.Multiset"
begin

text \<open>
  What the scheduler promises: the pauses of the circuit breaker and their escalation, the silence after a
  rate limit in every interleaving of the two lanes, the two ways in which the code falls short of it, the
  bounds of the backoffs, and the agreement of the concurrent aggregate with the sequential one.
\<close>

section \<open>Pauses\<close>

lemma rate_limit_pause_bounds:
  "GLOBAL_BACKOFF_BASE \<le> rate_limit_pause n retry" "rate_limit_pause n retry \<le> GLOBAL_BACKOFF_MAX"
proof -
  have "60000 * (1::nat) \<le> 60000 * 2 ^ min (n - 1) 4" by (intro mult_le_mono order_refl one_le_power) simp
  then show "GLOBAL_BACKOFF_BASE \<le> rate_limit_pause n retry"
    unfolding rate_limit_pause_def Let_def GLOBAL_BACKOFF_BASE_def GLOBAL_BACKOFF_MAX_def by linarith
  show "rate_limit_pause n retry \<le> GLOBAL_BACKOFF_MAX" by (simp add: rate_limit_pause_def Let_def)
qed

lemma note_rate_limit_simps [simp]:
  "tb_next_allowed (note_rate_limit now retry b) = Some (now + rate_limit_pause (sat_u32_succ (tb_failures b)) retry)"
  "tb_epoch (note_rate_limit now retry b) = sat_u64 (tb_epoch b + 1)"
  "tb_failures (note_rate_limit now retry b) = sat_u32_succ (tb_failures b)"
  by (simp_all add: note_rate_limit_def Let_def)

definition consecutive_hits :: "(nat \<times> nat) list \<Rightarrow> target_backoff" where
  "consecutive_hits hits = fold (\<lambda>(t, retry). note_rate_limit t retry) hits default_backoff"

lemma consecutive_failures: "length hits < 2 ^ 32 \<Longrightarrow> tb_failures (consecutive_hits hits) = length hits"
  by (induction hits rule: rev_induct) (auto simp: consecutive_hits_def default_backoff_def sat_u32_succ_def split: prod.split)



section \<open>Reachable states\<close>

fun lane_rest :: "lane_phase \<Rightarrow> sync_target list" where
  "lane_rest LaneIdle = []"
| "lane_rest (Ticking tick targets) = targets"
| "lane_rest (Polling tick target observed rest) = rest"

fun is_polling :: "lane_phase \<Rightarrow> bool" where
  "is_polling (Polling _ _ _ _) = True"
| "is_polling _ = False"

fun phase_ok :: "nat \<Rightarrow> u64 \<Rightarrow> lane_phase \<Rightarrow> bool" where
  "phase_ok now e LaneIdle = True"
| "phase_ok now e (Ticking tick targets) = (tick \<le> now)"
| "phase_ok now e (Polling tick target observed rest) = (tick \<le> now \<and> observed \<le> e)"

inductive sched_reachable :: "sync_provider \<Rightarrow> sched \<Rightarrow> bool" for p where
  sched_reachable_init: "sched_reachable p (initial_sched now remaining)"
| sched_reachable_step: "sched_reachable p s \<Longrightarrow> sched_step p e s = Some s' \<Longrightarrow> sched_reachable p s'"

definition fast_shape :: "lane_phase \<Rightarrow> bool" where
  "fast_shape ph \<longleftrightarrow> TargetPlayback \<notin> set (lane_rest ph) \<or> (\<exists>tick. ph = Ticking tick FAST_TARGETS)"

definition sched_ok :: "sched \<Rightarrow> bool" where
  "sched_ok s \<longleftrightarrow> phase_ok (sd_now s) (tb_epoch (sd_global s)) (sd_fast s) \<and>
     phase_ok (sd_now s) (tb_epoch (sd_global s)) (sd_slow s) \<and> tb_epoch (sd_global s) \<le> u64_max \<and> fast_shape (sd_fast s)"

lemma phase_ok_mono: "phase_ok now e ph \<Longrightarrow> now \<le> now' \<Longrightarrow> e \<le> e' \<Longrightarrow> phase_ok now' e' ph"
  by (cases ph) auto

lemma record_global_epoch:
  "tb_epoch g \<le> u64_max \<Longrightarrow> tb_epoch g \<le> tb_epoch (record_global_at t observed res g) \<and> tb_epoch (record_global_at t observed res g) \<le> u64_max"
  by (auto simp: record_global_at_def record_success_if_epoch_def backoff_record_success_def sat_u64_def split: option.split result.split)

lemma sched_ok_step:
  assumes "sched_ok s" "sched_step p e s = Some s'"
  shows "sched_ok s'"
proof (cases e)
  case (Elapse d)
  then show ?thesis using assms by (auto simp: sched_ok_def sched_step_def intro: phase_ok_mono)
next
  case (FastTick hv)
  then show ?thesis using assms
    by (auto simp: sched_ok_def sched_step_def fast_tick_def Let_def fast_shape_def split: lane_phase.splits if_splits)
next
  case (FastNext hv)
  then obtain tick targets where ph: "sd_fast s = Ticking tick targets" "s' = fast_next p hv tick targets s"
    using assms(2) by (auto simp: sched_step_def split: lane_phase.splits)
  have "TargetPlayback \<notin> set (tl targets)" using assms(1) ph(1)
    by (cases targets) (auto simp: sched_ok_def fast_shape_def FAST_TARGETS_def)
  then show ?thesis using assms(1) ph
    by (auto simp: sched_ok_def fast_next_def fast_shape_def split: list.splits)
next
  case (FastDone res)
  then show ?thesis using assms record_global_epoch [of "sd_global s"]
    by (auto simp: sched_ok_def sched_step_def fast_done_def fast_shape_def split: lane_phase.splits intro: phase_ok_mono)
next
  case SlowTick
  then show ?thesis using assms by (auto simp: sched_ok_def sched_step_def slow_tick_def split: lane_phase.splits)
next
  case SlowNext
  then show ?thesis using assms by (auto simp: sched_ok_def sched_step_def slow_next_def split: lane_phase.splits list.splits)
next
  case (SlowDone res)
  then show ?thesis using assms record_global_epoch [of "sd_global s"]
    by (auto simp: sched_ok_def sched_step_def slow_done_def split: lane_phase.splits intro: phase_ok_mono)
qed

lemma sched_reachable_ok: "sched_reachable p s \<Longrightarrow> sched_ok s"
proof (induction rule: sched_reachable.induct)
  case (sched_reachable_init now remaining)
  then show ?case
    by (auto simp: sched_ok_def initial_sched_def fast_shape_def default_backoff_def seed_persisted_cooldown_def sat_u64_def u64_max_def
        split: option.split)
qed (rule sched_ok_step)


section \<open>A rate limit silences the provider\<close>

fun run_sched :: "sync_provider \<Rightarrow> sched_event list \<Rightarrow> sched \<Rightarrow> sched option" where
  "run_sched p [] s = Some s"
| "run_sched p (e # es) s = Option.bind (sched_step p e s) (run_sched p es)"

definition poll_starts :: "sched \<Rightarrow> sched \<Rightarrow> bool" where
  "poll_starts s s' \<longleftrightarrow> \<not> is_polling (sd_fast s) \<and> is_polling (sd_fast s') \<or> \<not> is_polling (sd_slow s) \<and> is_polling (sd_slow s')"

fun polls_started :: "sync_provider \<Rightarrow> sched_event list \<Rightarrow> sched \<Rightarrow> nat" where
  "polls_started p [] s = 0"
| "polls_started p (e # es) s = (case sched_step p e s of
     None \<Rightarrow> 0 | Some s' \<Rightarrow> (if poll_starts s s' then 1 else 0) + polls_started p es s')"

definition rate_limited :: "sched_event \<Rightarrow> bool" where
  "rate_limited e \<longleftrightarrow> (\<exists>scope hint. e = FastDone (Err (ProviderErr (RateLimited scope hint))) \<or>
     e = SlowDone (Err (ProviderErr (RateLimited scope hint))))"

text \<open>Lanes that can neither start a poll before the cooldown ends nor clear it by a late success.\<close>

fun phase_silent :: "u64 \<Rightarrow> lane_phase \<Rightarrow> bool" where
  "phase_silent e (Polling tick target observed rest) = (observed < e)"
| "phase_silent e _ = True"

definition silent :: "nat \<Rightarrow> sched \<Rightarrow> bool" where
  "silent until s \<longleftrightarrow> sched_ok s \<and> (\<exists>T. tb_next_allowed (sd_global s) = Some T \<and> until \<le> T) \<and>
     phase_silent (tb_epoch (sd_global s)) (sd_fast s) \<and> phase_silent (tb_epoch (sd_global s)) (sd_slow s) \<and>
     TargetPlayback \<notin> set (lane_rest (sd_fast s)) \<and> lane_rest (sd_slow s) = []"

lemma silent_should_run: "silent until s \<Longrightarrow> now < until \<Longrightarrow> \<not> should_run (sd_global s) now"
  by (auto simp: silent_def should_run_def)

lemma phase_silent_mono: "phase_silent e ph \<Longrightarrow> e \<le> e' \<Longrightarrow> phase_silent e' ph"
  by (cases ph) auto

lemma rate_limit_cases:
  obtains retry where "rate_limit_retry_after (Some res) = Some retry" "record_global_at t observed (Some res) g = note_rate_limit t retry g"
  | x where "res = Ok x" "record_global_at t observed (Some res) g = record_success_if_epoch observed g"
  | "record_global_at t observed (Some res) g = g"
proof (cases "rate_limit_retry_after (Some res)")
  case (Some retry)
  then show thesis using that(1) [of retry] by (simp add: record_global_at_def)
next
  case None
  then show thesis using that(2,3) by (cases res) (simp_all add: record_global_at_def)
qed

lemma silent_global:
  assumes "silent until s" "observed < tb_epoch (sd_global s)" "until \<le> sd_now s + GLOBAL_BACKOFF_BASE"
  shows "\<exists>T. tb_next_allowed (record_global_at (sd_now s) observed (Some res) (sd_global s)) = Some T \<and> until \<le> T"
  using assms rate_limit_pause_bounds(1) [of "sat_u32_succ (tb_failures (sd_global s))"]
  by (cases rule: rate_limit_cases [of res "sd_now s" observed "sd_global s"])
    (auto simp: silent_def record_success_if_epoch_def intro: order_trans)

lemma silent_step:
  assumes "silent until s" "sched_step p e s = Some s'" "sd_now s' < until" "until \<le> sd_now s + GLOBAL_BACKOFF_BASE"
  shows "silent until s' \<and> \<not> poll_starts s s' \<and> sd_now s \<le> sd_now s'"
proof -
  have ok: "sched_ok s'" by (rule sched_ok_step [OF _ assms(2)]) (use assms(1) in \<open>simp add: silent_def\<close>)
  have old: "sched_ok s" "phase_silent (tb_epoch (sd_global s)) (sd_fast s)" "phase_silent (tb_epoch (sd_global s)) (sd_slow s)"
    "TargetPlayback \<notin> set (lane_rest (sd_fast s))" "lane_rest (sd_slow s) = []"
    using assms(1) by (simp_all add: silent_def)
  have epoch: "tb_epoch (sd_global s) \<le> tb_epoch (record_global_at (sd_now s) observed res (sd_global s))" for observed res
    using record_global_epoch old(1) by (simp add: sched_ok_def)
  show ?thesis
  proof (cases e)
    case (Elapse d)
    then show ?thesis using assms(1,2) ok by (auto simp: sched_step_def silent_def poll_starts_def)
  next
    case (FastTick hv)
    then have "sd_now s' = sd_now s" "s' = fast_tick hv s" using assms(2) by (auto simp: sched_step_def fast_tick_def Let_def split: lane_phase.splits)
    then show ?thesis using assms(1,3) silent_should_run [OF assms(1), of "sd_now s"] by (auto simp: fast_tick_def Let_def poll_starts_def)
  next
    case (FastNext hv)
    then obtain tick targets where ph: "sd_fast s = Ticking tick targets" "s' = fast_next p hv tick targets s"
      using assms(2) by (auto simp: sched_step_def split: lane_phase.splits)
    have now: "sd_now s' = sd_now s" using ph(2) by (auto simp: fast_next_def split: list.splits)
    have "tick \<le> sd_now s" using old(1) ph(1) by (simp add: sched_ok_def)
    then have "\<not> should_run (sd_global s) tick" using silent_should_run [OF assms(1), of tick] assms(3) now by simp
    then have "\<not> fast_due p hv tick target s" if "target \<in> set targets" for target
      using that old(4) ph(1) by (auto simp: fast_due_def)
    then show ?thesis using assms(1) ok ph now by (auto simp: fast_next_def silent_def poll_starts_def split: list.splits)
  next
    case (FastDone res)
    then obtain tick target observed rest where ph: "sd_fast s = Polling tick target observed rest"
        "s' = fast_done res tick target observed rest s"
      using assms(2) by (auto simp: sched_step_def split: lane_phase.splits)
    then have "observed < tb_epoch (sd_global s)" using old(2) by simp
    from silent_global [OF assms(1) this assms(4)] show ?thesis
      using ok ph old epoch [of observed "Some res"]
      by (auto simp: silent_def fast_done_def poll_starts_def intro: phase_silent_mono)
  next
    case SlowTick
    then have "sd_now s' = sd_now s" "s' = slow_tick s" using assms(2) by (auto simp: sched_step_def slow_tick_def split: lane_phase.splits)
    then show ?thesis using assms(1,3) silent_should_run [OF assms(1), of "sd_now s"] by (auto simp: slow_tick_def poll_starts_def)
  next
    case SlowNext
    then show ?thesis using assms(1,2) ok old(5)
      by (auto simp: sched_step_def slow_next_def silent_def poll_starts_def split: lane_phase.splits list.splits)
  next
    case (SlowDone res)
    then obtain tick target observed rest where ph: "sd_slow s = Polling tick target observed rest"
        "s' = slow_done res tick target observed rest s"
      using assms(2) by (auto simp: sched_step_def split: lane_phase.splits)
    then have "observed < tb_epoch (sd_global s)" using old(3) by simp
    from silent_global [OF assms(1) this assms(4)] show ?thesis
      using ok ph old epoch [of observed "Some res"]
      by (auto simp: silent_def slow_done_def poll_starts_def intro: phase_silent_mono)
  qed
qed


lemma sched_now_mono: "sched_step p e s = Some s' \<Longrightarrow> sd_now s \<le> sd_now s'"
  by (auto simp: sched_step_def fast_tick_def fast_next_def fast_done_def slow_tick_def slow_next_def slow_done_def Let_def
      split: sched_event.splits lane_phase.splits list.splits if_splits)

lemma run_now_mono: "run_sched p es s = Some s' \<Longrightarrow> sd_now s \<le> sd_now s'"
  by (induction es arbitrary: s) (auto simp: bind_eq_Some_conv dest!: sched_now_mono intro: order_trans)

lemma silent_run:
  assumes "silent until s" "run_sched p es s = Some s'" "sd_now s' < until" "until \<le> sd_now s + GLOBAL_BACKOFF_BASE"
  shows "polls_started p es s = 0 \<and> silent until s'"
  using assms
proof (induction es arbitrary: s)
  case (Cons e es)
  then obtain s1 where s1: "sched_step p e s = Some s1" "run_sched p es s1 = Some s'" by (auto simp: bind_eq_Some_conv)
  have "sd_now s1 < until" using run_now_mono [OF s1(2)] Cons.prems(3) by simp
  from silent_step [OF Cons.prems(1) s1(1) this Cons.prems(4)] Cons.IH [of s1] s1 Cons.prems(3,4)
  show ?case by simp
qed simp

lemma trip_silent:
  assumes "sched_reachable p s" "sched_step p e s = Some s1" "rate_limited e" "tb_epoch (sd_global s) < u64_max"
    "lane_rest (sd_slow s1) = []" "\<forall>tick. sd_fast s1 \<noteq> Ticking tick FAST_TARGETS"
  shows "silent (sd_now s1 + GLOBAL_BACKOFF_BASE) s1"
proof -
  have ok: "sched_ok s" "sched_ok s1" using sched_reachable_ok assms(1) sched_reachable_step [OF assms(1,2)] by blast+
  have shape: "TargetPlayback \<notin> set (lane_rest (sd_fast s1))" using ok(2) assms(6) by (auto simp: sched_ok_def fast_shape_def)
  from assms(3) obtain scope hint where e: "e = FastDone (Err (ProviderErr (RateLimited scope hint))) \<or>
      e = SlowDone (Err (ProviderErr (RateLimited scope hint)))" by (auto simp: rate_limited_def)
  define retry where "retry = (case hint of Some d \<Rightarrow> d | None \<Rightarrow> GLOBAL_BACKOFF_BASE)"
  have g: "sd_global s1 = note_rate_limit (sd_now s1) retry (sd_global s)"
    and now: "sd_now s1 = sd_now s"
    using e assms(2) by (auto simp: sched_step_def fast_done_def slow_done_def record_global_at_def rate_limit_retry_after_def
        retry_def split: lane_phase.splits)
  have epoch: "tb_epoch (sd_global s1) = Suc (tb_epoch (sd_global s))" using assms(4) by (simp add: g sat_u64_def)
  have "phase_silent (tb_epoch (sd_global s1)) (sd_fast s1)" "phase_silent (tb_epoch (sd_global s1)) (sd_slow s1)"
    unfolding epoch using e assms(2) ok(1)
    by (auto simp: sched_step_def fast_done_def slow_done_def sched_ok_def split: lane_phase.splits)
      (cases "sd_slow s"; simp; fail | cases "sd_fast s"; simp; fail)+
  then show ?thesis using ok(2) shape assms(5) rate_limit_pause_bounds(1) by (auto simp: silent_def g)
qed


section \<open>Where the breaker falls short\<close>

definition all_targets_provider :: sync_provider where
  "all_targets_provider = \<lparr>sp_id = ''spotify'', sp_scheme = ''spotify'', sp_playlists_list = True, sp_playlists_item_read = True,
     sp_playlists_list_max = None, sp_playlists_items_max = None, sp_recently_played = True, sp_recent_max = None,
     sp_read_kinds = [Track], sp_library_max = None, sp_freshness_probe = False, sp_playback_state = True,
     sp_queue_read = True, sp_device_list = True, sp_has_transport = True,
     sp_playlists = (\<lambda>k r. Err (Unsupported [])), sp_playlist_items = (\<lambda>i k r. Err (Unsupported [])),
     sp_recent = (\<lambda>k r. Err (Unsupported [])), sp_library = (\<lambda>kd k r. Err (Unsupported [])),
     sp_probe = (\<lambda>kd. Err (Unsupported [])), sp_freshness_changed = (\<lambda>a b. a \<noteq> b),
     sp_version_changed = (\<lambda>a b. a \<noteq> b)\<rparr>"

definition limited :: "nat \<Rightarrow> poll_result" where
  "limited retry = Err (ProviderErr (RateLimited None (Some retry)))"

definition listening :: host_view where
  "listening = \<lparr>hv_subscribers = 1, hv_embedded_active = False, hv_playing = True\<rparr>"


lemma run_reachable: "sched_reachable p s \<Longrightarrow> run_sched p es s = Some s' \<Longrightarrow> sched_reachable p s'"
  by (induction es arbitrary: s) (auto simp: bind_eq_Some_conv intro: sched_reachable_step)

lemmas sched_eval = sched_step_def fast_tick_def fast_next_def fast_done_def slow_tick_def slow_next_def slow_done_def
  fast_due_def playback_due_def none_or_elapsed_def provider_supports_target_def all_targets_provider_def limited_def
  listening_def initial_sched_def default_backoff_def should_run_def FAST_TARGETS_def SLOW_TARGETS_def IDLE_CADENCE_def
  QUEUE_CADENCE_def DEVICES_CADENCE_def RECENT_ACTIVE_CADENCE_def settle_backoff_def record_failure_def backoff_record_success_def
  record_success_if_epoch_def record_global_at_def rate_limit_retry_after_def rate_limit_pause_def sat_u32_succ_def
  GLOBAL_BACKOFF_BASE_def GLOBAL_BACKOFF_MAX_def sat_u64_def u64_max_def note_rate_limit_def Let_def


text \<open>
  The slow lane does not look at the breaker again before its second target: when the fast lane meets a
  rate limit while the playlists are being read, the library poll starts in the middle of the cooldown.
\<close>

lemma library_poll_ignores_cooldown:
  "\<exists>s s'. run_sched all_targets_provider [Elapse 60000, SlowTick, SlowNext, FastTick listening, FastNext listening,
       FastDone (limited 60000), SlowDone (Ok (empty_summary TargetPlaylists None))] (initial_sched 0 None) = Some s \<and>
     \<not> should_run (sd_global s) (sd_now s) \<and>
     sched_step all_targets_provider SlowNext s = Some s' \<and> (\<exists>tick observed rest. sd_slow s' = Polling tick TargetLibrary observed rest)"
  by (simp add: sched_eval)

text \<open>
  A second rate limit replaces the standing cooldown even when it ends earlier: a provider that asked for
  ten minutes is called again after two when a poll in flight is refused with a shorter hint.
\<close>

lemma later_limit_shortens_cooldown:
  "\<exists>s s'. run_sched all_targets_provider [Elapse 60000, SlowTick, SlowNext, FastTick listening, FastNext listening,
       FastDone (limited 600000)] (initial_sched 0 None) = Some s \<and>
     tb_next_allowed (sd_global s) = Some (60000 + 600000) \<and>
     run_sched all_targets_provider [Elapse 1000, SlowDone (limited 1000)] s = Some s' \<and>
     tb_next_allowed (sd_global s') = Some (61000 + 120000)"
  by (simp add: sched_eval)


section \<open>Backoffs and restarts are bounded\<close>

lemma record_failure_waits:
  assumes "\<And>scope hint. err \<noteq> ProviderErr (RateLimited scope hint)"
  shows "tb_next_allowed (record_failure now err b) =
    Some (now + min (BACKOFF_BASE * 2 ^ min (sat_u32_succ (tb_failures b) - 1) 3) BACKOFF_MAX)"
  using assms by (auto simp: record_failure_def Let_def split: sync_error.splits provider_error.splits)

lemma restart_delay_bounds: "restart_delay n \<le> SCHEDULER_RESTART_MAX" "0 < n \<Longrightarrow> SCHEDULER_RESTART_BASE \<le> restart_delay n"
proof -
  have "1000 * (1::nat) \<le> 1000 * 2 ^ min (n - 1) 6" by (intro mult_le_mono order_refl one_le_power) simp
  then show "restart_delay n \<le> SCHEDULER_RESTART_MAX" "0 < n \<Longrightarrow> SCHEDULER_RESTART_BASE \<le> restart_delay n"
    by (auto simp: restart_delay_def SCHEDULER_RESTART_BASE_def SCHEDULER_RESTART_MAX_def)
qed

lemma short_runs_back_off:
  "run < SCHEDULER_RESTART_RESET_AFTER \<Longrightarrow> n < 2 ^ 32 - 1 \<Longrightarrow> lane_stopped n run = Suc n"
  "SCHEDULER_RESTART_RESET_AFTER \<le> run \<Longrightarrow> restart_delay (lane_stopped n run) = SCHEDULER_RESTART_BASE"
  by (simp_all add: lane_stopped_def scheduler_restart_failures_after_run_def sat_u32_succ_def restart_delay_def
      SCHEDULER_RESTART_BASE_def SCHEDULER_RESTART_MAX_def)

section \<open>The aggregate over all providers\<close>

text \<open>A counter that merging adds up and the other fields do not touch.\<close>

definition adds_up :: "(sync_summary \<Rightarrow> nat) \<Rightarrow> bool" where
  "adds_up k \<longleftrightarrow> (\<forall>a b. k (merge_summary a b) = k a + k b) \<and> (\<forall>a os. k (a\<lparr>sm_outcomes := os\<rparr>) = k a) \<and>
     (\<forall>a st e. k (a\<lparr>sm_status := st, sm_error := e\<rparr>) = k a)"

lemma counters_add_up:
  "adds_up sm_playback_snapshots" "adds_up sm_queue_snapshots" "adds_up sm_queue_items" "adds_up sm_devices"
  "adds_up sm_playlists" "adds_up sm_playlist_items" "adds_up sm_recent_items" "adds_up sm_library_items" "adds_up sm_media_items"
  by (simp_all add: adds_up_def merge_summary_def)

lemma merge_summary_keeps [simp]:
  "sm_outcomes (merge_summary a b) = sm_outcomes a" "sm_status (merge_summary a b) = sm_status a"
  "sm_error (merge_summary a b) = sm_error a" "sm_target (merge_summary a b) = sm_target a"
  "sm_provider (merge_summary a b) = sm_provider a"
  by (simp_all add: merge_summary_def)

definition arrivals :: "(sync_summary \<Rightarrow> nat) \<Rightarrow> (string \<times> poll_result) list \<Rightarrow> nat" where
  "arrivals k results = sum_list (map (\<lambda>(_, res). case res of Ok s \<Rightarrow> k s | Err _ \<Rightarrow> 0) results)"

definition first_failure :: "(string \<times> poll_result) list \<Rightarrow> sync_error option" where
  "first_failure results = (case filter (\<lambda>(_, res). \<not> is_ok res) results of (_, Err e) # _ \<Rightarrow> Some e | _ \<Rightarrow> None)"

lemma aggregate_step_simps [simp]:
  "aggregate_step render target (pr, Ok x) (s, err) =
     (merge_summary (s\<lparr>sm_outcomes := sm_outcomes s @ [outcome_from (terminal_summary render target pr (Ok x))]\<rparr>) x, err)"
  "aggregate_step render target (pr, Err e) (s, err) =
     (s\<lparr>sm_outcomes := sm_outcomes s @ [outcome_from (terminal_summary render target pr (Err e))]\<rparr>,
      case err of None \<Rightarrow> Some e | Some _ \<Rightarrow> err)"
  by (simp_all add: aggregate_step_def Let_def)

lemma results_induct [case_names Nil Good Bad]:
  assumes "P []" "\<And>pr x rs. P rs \<Longrightarrow> P ((pr, Ok x) # rs)" "\<And>pr e rs. P rs \<Longrightarrow> P ((pr, Err e) # rs)"
  shows "P rs"
proof (induction rs)
  case (Cons r rs)
  then show ?case using assms(2,3) by (cases r; cases "snd r") auto
qed (rule assms(1))

lemma fold_aggregate:
  assumes "adds_up k"
  shows "k (fst (fold (aggregate_step render target) results (s, err))) = k s + arrivals k results"
    "sm_outcomes (fst (fold (aggregate_step render target) results (s, err))) =
       sm_outcomes s @ map (\<lambda>(pr, res). outcome_from (terminal_summary render target pr res)) results"
    "sm_status (fst (fold (aggregate_step render target) results (s, err))) = sm_status s"
    "sm_error (fst (fold (aggregate_step render target) results (s, err))) = sm_error s"
    "sm_target (fst (fold (aggregate_step render target) results (s, err))) = sm_target s"
    "sm_provider (fst (fold (aggregate_step render target) results (s, err))) = sm_provider s"
    "snd (fold (aggregate_step render target) results (s, err)) = (case err of Some e \<Rightarrow> Some e | None \<Rightarrow> first_failure results)"
  using assms
  by (induction results arbitrary: s err rule: results_induct)
    (auto simp: arrivals_def adds_up_def first_failure_def split: option.split)


text \<open>What a provider's pass returns when it succeeds: a summary of its own, with nothing but success in it.\<close>

definition own_result :: "string \<times> poll_result \<Rightarrow> bool" where
  "own_result x \<longleftrightarrow> (case x of (pr, Ok s) \<Rightarrow> sm_status s = SyncSucceeded \<and> sm_provider s = Some pr | _ \<Rightarrow> True)"

abbreviation outcome_of :: "(sync_error \<Rightarrow> string) \<Rightarrow> sync_target \<Rightarrow> string \<times> poll_result \<Rightarrow> provider_outcome" where
  "outcome_of render target \<equiv> (\<lambda>(pr, res). outcome_from (terminal_summary render target pr res))"

lemma outcome_simps [simp]:
  "terminal_summary render target pr (Ok x) = x"
  "sm_provider (terminal_summary render target pr (Err e)) = Some pr"
  "sm_status (terminal_summary render target pr (Err e)) = SyncFailed"
  "po_status (outcome_from s) = sm_status s"
  "po_provider (outcome_from s) = (case sm_provider s of Some p \<Rightarrow> p | None \<Rightarrow> ''unknown'')"
  by (simp_all add: outcome_from_def terminal_summary_def failed_summary_def empty_summary_def)

lemma count_succeeded:
  "list_all own_result results \<Longrightarrow> length (filter (\<lambda>o'. po_status o' = SyncSucceeded) (map (outcome_of render target) results)) =
     length (filter (\<lambda>(_, res). is_ok res) results)"
  by (induction results rule: results_induct) (auto simp: own_result_def)

lemma length_filter_sort: "length (filter P (sort_key f xs)) = length (filter P xs)"
  by (metis mset_filter mset_sort size_mset)

lemma outcome_providers: "list_all own_result results \<Longrightarrow> map po_provider (map (outcome_of render target) results) = map fst results"
  by (induction results rule: results_induct) (auto simp: own_result_def)

lemma first_failure_None: "first_failure results = None \<longleftrightarrow> (\<forall>x \<in> set results. is_ok (snd x))"
  by (induction results rule: results_induct) (auto simp: first_failure_def)

lemma sort_outcomes:
  assumes "mset completed = mset results" "distinct (map fst results)" "list_all own_result results"
  shows "sort_key po_provider (map (outcome_of render target) completed) = sort_key po_provider (map (outcome_of render target) results)"
proof (rule sort_key_inj_key_eq)
  show "mset (map (outcome_of render target) completed) = mset (sort_key po_provider (map (outcome_of render target) results))"
    using assms(1) by (metis mset_map mset_sort)
  have "distinct (map po_provider (map (outcome_of render target) results))" using assms(2) outcome_providers [OF assms(3)] by metis
  then have "inj_on po_provider (set (map (outcome_of render target) results))" by (simp only: distinct_map)
  moreover have "set (map (outcome_of render target) completed) = set (map (outcome_of render target) results)"
    using assms(1) by (metis mset_map set_mset_mset)
  ultimately show "inj_on po_provider (set (map (outcome_of render target) completed))" by metis
  show "sorted (map po_provider (sort_key po_provider (map (outcome_of render target) results)))" by simp
qed

text \<open>
  Running the providers of a sync concurrently gives the verdict of running them one after the other. The
  same counts, the same per-provider outcomes up to sorting, failure exactly when every provider failed, and
  a partial status exactly when some did, in whatever order the providers finish. Only the error that is
  quoted may be another provider's.
\<close>

theorem concurrent_aggregate_agrees:
  assumes "mset completed = mset results" "distinct (map fst results)" "list_all own_result results"
  shows "case sync_target_isolated render target (map fst results) completed of
      Err e \<Rightarrow> \<exists>e'. sync_target_all render target results = Err e'
    | Ok b \<Rightarrow> \<exists>a. sync_target_all render target results = Ok a \<and> sync_counts.truncate b = sync_counts.truncate a \<and>
        sm_outcomes b = sort_key po_provider (sm_outcomes a) \<and> sm_status b = sm_status a \<and>
        sm_target b = sm_target a \<and> sm_provider b = sm_provider a \<and> (sm_error b = None \<longleftrightarrow> sm_error a = None)"
proof -
  obtain start where start: "aggregate_start target (map fst results) = (start, None)" "sm_outcomes start = []"
    "sm_status start = SyncSucceeded" "sm_error start = None" by (auto simp: aggregate_start_def empty_summary_def)
  obtain sa ea where a: "fold (aggregate_step render target) results (start, None) = (sa, ea)" by fastforce
  obtain sb eb where b: "fold (aggregate_step render target) completed (start, None) = (sb, eb)" by fastforce
  note fa = fold_aggregate [of _ render target results start None, unfolded a, simplified]
  note fb = fold_aggregate [of _ render target completed start None, unfolded b, simplified]
  have own: "list_all own_result completed" using assms(1,3) by (metis list.pred_set set_mset_mset)
  have arrive: "arrivals k completed = arrivals k results" for k
    unfolding arrivals_def by (metis assms(1) mset_map sum_mset_sum_list)
  have counts: "k sb = k sa" if "adds_up k" for k using fa(1) [OF that] fb(1) [OF that] arrive by simp
  then have trunc: "sync_counts.truncate sb = sync_counts.truncate sa"
    using counters_add_up by (simp add: sync_counts.defs)
  have err: "eb = None \<longleftrightarrow> ea = None"
    using fa(7) fb(7) counters_add_up(1) first_failure_None assms(1) by (metis set_mset_mset)
  have outs: "sm_outcomes sa = map (outcome_of render target) results" "sm_outcomes sb = map (outcome_of render target) completed"
    using fa(2) fb(2) counters_add_up(1) start(2) by auto
  have "length (filter (\<lambda>o'. po_status o' = SyncSucceeded) (sort_key po_provider (sm_outcomes sb))) =
      length (filter (\<lambda>(_, res). is_ok res) completed)"
    unfolding length_filter_sort outs by (rule count_succeeded [OF own])
  also have "\<dots> = length (filter (\<lambda>(_, res). is_ok res) results)" by (metis assms(1) mset_filter size_mset)
  finally have n: "length (filter (\<lambda>o'. po_status o' = SyncSucceeded) (sort_key po_provider (sm_outcomes sb))) =
      length (filter (\<lambda>(_, res). is_ok res) results)" .
  have same: "sm_status sb = sm_status sa" "sm_target sb = sm_target sa" "sm_provider sb = sm_provider sa"
    "sm_error sb = sm_error sa" "sm_error sa = None"
    using fa(3-6) fb(3-6) counters_add_up(1) start(4) by auto
  have sorted: "sort_key po_provider (sm_outcomes sb) = sort_key po_provider (sm_outcomes sa)"
    unfolding outs by (rule sort_outcomes [OF assms])
  show ?thesis
    using err n same sorted trunc
    by (auto simp: sync_target_all_def sync_target_isolated_def start(1) a b aggregate_verdict_def Let_def sync_counts.defs
        split: option.split)
qed


text \<open>The summaries of the engine are such results.\<close>

lemma pass_recovery_own:
  "sync_domain_with_recovery env p again target summary ps = (ps', Ok s) \<Longrightarrow>
     sm_status s = sm_status summary \<and> sm_provider s = sm_provider summary"
  by (auto simp: sync_domain_with_recovery_def Let_def pass_bind_def pass_return_def split: prod.splits result.splits if_splits)

lemma domains_own:
  "sync_domains env p again ds summary ps = (ps', Ok s) \<Longrightarrow> sm_status s = sm_status summary \<and> sm_provider s = sm_provider summary"
proof (induction ds arbitrary: summary ps)
  case (Cons d ds)
  then show ?case
    by (auto simp: pass_bind_def pass_return_def split: prod.splits result.splits if_splits dest!: pass_recovery_own)
qed (simp add: pass_return_def)

lemma provider_pass_own: "own_result (sp_id p, snd (sync_provider_target env p again target ps))"
  by (cases "sync_provider_target env p again target ps"; cases "snd (sync_provider_target env p again target ps)")
    (auto simp: own_result_def sync_provider_target_def pass_fail_def empty_summary_def split: if_splits dest!: domains_own)

theorem concurrent_aggregate_agrees_witness:
  "\<exists>a. sync_target_all (\<lambda>_. ''failed'') TargetRecent
      [(''b'', Ok (empty_summary TargetRecent (Some ''b''))), (''a'', limited 1)] = Ok a \<and> sm_status a = SyncPartial"
proof -
  let ?xs = "[(''b'', Ok (empty_summary TargetRecent (Some ''b''))), (''a'', limited 1)]"
  have "mset (rev ?xs) = mset ?xs" "distinct (map fst ?xs)" "list_all own_result ?xs"
    by (simp_all add: own_result_def limited_def empty_summary_def)
  from concurrent_aggregate_agrees [OF this, of "\<lambda>_. ''failed''" TargetRecent]
  show ?thesis
    by (simp add: sync_target_isolated_def sync_target_all_def aggregate_start_def aggregate_verdict_def limited_def
        empty_summary_def Let_def)
qed

end
