(* ===== verification/Player_Recovery.thy ===== *)
theory Player_Recovery
  imports Playback_Clock Session_Tracker
begin

text \<open>
  The daemon's hold on its own player (\<open>spotuify-daemon/src/state.rs\<close>, the watchdog of \<open>server.rs\<close>): the
  relay of player events into clock and session tracker, hand-over to another device, the health loop, the
  audio-flow watchdog and the automatic reconnects they schedule, with their guard against newer intent. A
  reconnect runs in steps between which everything else may happen. The device id derived from a name, the
  metadata lookup and the answers of the player are arguments.
\<close>

section \<open>Decisions\<close>

definition PLAYER_RECONNECT_GIVE_UP_AFTER :: nat where "PLAYER_RECONNECT_GIVE_UP_AFTER = 5"
definition PLAYER_RECONNECT_BASE_BACKOFF :: nat where "PLAYER_RECONNECT_BASE_BACKOFF = 1000"
definition PLAYER_RECONNECT_MAX_BACKOFF :: nat where "PLAYER_RECONNECT_MAX_BACKOFF = 30000"
definition AUDIO_STALL_THRESHOLD_MS :: i64 where "AUDIO_STALL_THRESHOLD_MS = 6000"

definition sat_succ :: "u32 \<Rightarrow> u32" where
  "sat_succ n = min (2 ^ 32 - 1) (n + 1)"

definition reconnect_backoff :: "u32 \<Rightarrow> nat" where
  "reconnect_backoff consecutive_failures =
     (let shift = min (consecutive_failures - 1) 32
      in min (sat_u64 (PLAYER_RECONNECT_BASE_BACKOFF * 2 ^ shift)) PLAYER_RECONNECT_MAX_BACKOFF)"

definition should_auto_reconnect_player :: "bool \<Rightarrow> bool \<Rightarrow> bool \<Rightarrow> u32 \<Rightarrow> bool" where
  "should_auto_reconnect_player up we_are_active in_flight consecutive_failures \<longleftrightarrow>
     \<not> up \<and> we_are_active \<and> \<not> in_flight \<and> consecutive_failures < PLAYER_RECONNECT_GIVE_UP_AFTER"

datatype audio_flow = Flowing | NotPlaying | Buffering | Stalled

definition classify_audio_flow :: "bool \<Rightarrow> u64 option \<Rightarrow> u64 option \<Rightarrow> i64 \<Rightarrow> i64 \<Rightarrow> audio_flow" where
  "classify_audio_flow is_playing current_samples last_samples stalled_for threshold =
     (if \<not> is_playing then NotPlaying
      else case current_samples of
             None \<Rightarrow> NotPlaying
           | Some current \<Rightarrow> (case last_samples of
                 None \<Rightarrow> Flowing
               | Some previous \<Rightarrow> if current \<noteq> previous then Flowing
                   else if threshold \<le> stalled_for then Stalled else Buffering))"

definition device_matches_own :: "device \<Rightarrow> string option \<Rightarrow> string option \<Rightarrow> bool" where
  "device_matches_own d own_id own_name = (case (dev_id d, own_id) of
       (Some active, Some own) \<Rightarrow> active = own
     | _ \<Rightarrow> own_name = Some (dev_name d))"

definition resume_target_after_drop :: "playback \<Rightarrow> string option \<Rightarrow> string option \<Rightarrow> (string \<times> u32) option" where
  "resume_target_after_drop p own_id own_name =
     (if \<not> pb_is_playing p then None
      else case pb_item p of
             None \<Rightarrow> None
           | Some item \<Rightarrow>
               (if mi_uri item = [] then None
                else if (case pb_device p of Some d \<Rightarrow> \<not> device_matches_own d own_id own_name | None \<Rightarrow> False) then None
                else Some (mi_uri item, min (pb_progress_ms p) (2 ^ 32 - 1))))"

section \<open>State\<close>

record player_health =
  ph_last_probe_ms :: i64
  ph_connected :: bool
  ph_consecutive_failures :: u32
  ph_last_reconnect_ms :: "i64 option"
  ph_gave_up :: bool
  ph_samples_advancing :: bool
  ph_last_stall_ms :: "i64 option"
  ph_reconnect_attempts :: u32
  ph_current_backoff_ms :: u64

text \<open>
  A scheduled reconnect: sleeping, waiting in the player's queue, the old session being shut down, the
  device being registered. \<open>rj_waiting\<close> is the task that waits for the answer for at most ten seconds.
\<close>

datatype reconnect_phase = Sleeping | Queued | Closing | Registering

record reconnect_job =
  rj_phase :: reconnect_phase
  rj_name :: string
  rj_resume :: "(string \<times> u32) option"
  rj_captured_seq :: "64 word"
  rj_backoff :: nat
  rj_waiting :: bool

record recovery_host =
  rh_clock :: clock_state
  rh_session :: session_state
  rh_embedded :: "string option"
  rh_active :: "string option"
  rh_we_are_active :: bool
  rh_inactive_after_handoff :: bool
  rh_mutation_seq :: "64 word"
  rh_own_name :: "string option"
  rh_own_volume :: "u8 option"
  rh_health :: player_health
  rh_in_flight :: bool
  rh_jobs :: "reconnect_job list"
  rh_last_samples :: "u64 option"
  rh_stalled_since :: "i64 option"

text \<open>What the daemon tells its clients about a player event; \<open>Display\<close> of a URI is its text.\<close>

datatype daemon_notice =
    PlayerReadyNotice string string
  | PlayerDegradedNotice string
  | ProviderPolicyNotice string string
  | SessionDisconnectedNotice string
  | PlayerFailedNotice string u32
  | PlaybackChangedNotice string "playback option"

datatype host_effect =
    SessionEffect effect
  | Notice daemon_notice
  | RevisionBumped
  | NativeCache string
  | PlayerShutdown
  | PlayerRegister string
  | PlayerResume string u32

record host_env =
  he_now_ms :: i64
  he_now :: instant
  he_now' :: instant
  he_device_id :: "string \<Rightarrow> string"
  he_surroundings :: surroundings
  he_lookup :: "string option \<Rightarrow> string \<Rightarrow> media_item option"
  he_sanitize :: "string \<Rightarrow> string"
  he_default_name :: string

definition own_device_id :: "host_env \<Rightarrow> recovery_host \<Rightarrow> string option" where
  "own_device_id env h = map_option (he_device_id env) (rh_own_name h)"

definition embedded_owns_global_transport :: "recovery_host \<Rightarrow> bool" where
  "embedded_owns_global_transport h = (case (rh_embedded h, rh_active h) of (Some e, Some a) \<Rightarrow> e = a | _ \<Rightarrow> False)"

definition resume_now :: "host_env \<Rightarrow> recovery_host \<Rightarrow> (string \<times> u32) option" where
  "resume_now env h = resume_target_after_drop (snapshot (rh_clock h) (he_now env)) (own_device_id env h) (rh_own_name h)"

definition bump_mutation_seq :: "recovery_host \<Rightarrow> recovery_host" where
  "bump_mutation_seq h = h\<lparr>rh_mutation_seq := rh_mutation_seq h + 1\<rparr>"

definition reset_give_up :: "recovery_host \<Rightarrow> recovery_host" where
  "reset_give_up h = h\<lparr>rh_health := (rh_health h)\<lparr>ph_gave_up := False, ph_consecutive_failures := 0\<rparr>\<rparr>"

definition set_we_are_active :: "bool \<Rightarrow> recovery_host \<Rightarrow> recovery_host" where
  "set_we_are_active active h =
     (let h' = h\<lparr>rh_we_are_active := active\<rparr> in if active \<and> \<not> rh_we_are_active h then reset_give_up h' else h')"

definition set_active_transport_provider :: "string \<Rightarrow> recovery_host \<Rightarrow> recovery_host \<times> host_effect list" where
  "set_active_transport_provider provider h =
     (if rh_active h = Some provider then (h, [])
      else (h\<lparr>rh_active := Some provider,
               rh_we_are_active := (rh_we_are_active h \<and> rh_embedded h = Some provider)\<rparr>, [RevisionBumped]))"

section \<open>Reconnects\<close>

definition still_wanted :: "host_env \<Rightarrow> recovery_host \<Rightarrow> reconnect_job \<Rightarrow> bool" where
  "still_wanted env h j \<longleftrightarrow> rh_mutation_seq h = rj_captured_seq j \<and>
     (let current = snapshot (rh_clock h) (he_now env);
          own_id = he_device_id env (rj_name j);
          foreign = (case pb_device current of Some d \<Rightarrow> \<not> device_matches_own d (Some own_id) (Some (rj_name j)) | None \<Rightarrow> False)
      in \<not> foreign \<and> (rh_we_are_active h \<or> resume_target_after_drop current (Some own_id) (Some (rj_name j)) \<noteq> None))"

definition schedule_player_reconnect :: "host_env \<Rightarrow> (string \<times> u32) option \<Rightarrow> nat \<Rightarrow> recovery_host \<Rightarrow> recovery_host" where
  "schedule_player_reconnect env resume backoff h =
     (if rh_in_flight h then h
      else h\<lparr>rh_in_flight := True,
             rh_jobs := rh_jobs h @ [\<lparr>rj_phase = Sleeping,
               rj_name = (case rh_own_name h of Some n \<Rightarrow> n | None \<Rightarrow> he_default_name env),
               rj_resume = resume, rj_captured_seq = rh_mutation_seq h, rj_backoff = backoff, rj_waiting = True\<rparr>]\<rparr>)"

text \<open>The job at a position ends; the task that waits for it clears the flag.\<close>

definition end_job :: "nat \<Rightarrow> recovery_host \<Rightarrow> recovery_host" where
  "end_job i h = h\<lparr>rh_in_flight := (rh_in_flight h \<and> \<not> rj_waiting (rh_jobs h ! i)),
     rh_jobs := take i (rh_jobs h) @ drop (Suc i) (rh_jobs h)\<rparr>"

definition move_job :: "nat \<Rightarrow> reconnect_phase \<Rightarrow> recovery_host \<Rightarrow> recovery_host" where
  "move_job i phase h = h\<lparr>rh_jobs := (rh_jobs h)[i := (rh_jobs h ! i)\<lparr>rj_phase := phase\<rparr>]\<rparr>"

text \<open>
  One step of a job; \<open>ok\<close> is the player's answer to what the job asked of it before (for a queued job:
  that a player is installed). The actor works on one command at a time; that order is not needed here, and
  several jobs may step in any order.
\<close>

definition job_step :: "host_env \<Rightarrow> nat \<Rightarrow> bool \<Rightarrow> recovery_host \<Rightarrow> recovery_host \<times> host_effect list" where
  "job_step env i ok h =
     (let j = rh_jobs h ! i
      in case rj_phase j of
           Sleeping \<Rightarrow> if still_wanted env h j then (move_job i Queued h, []) else (end_job i h, [])
         | Queued \<Rightarrow> if ok \<and> still_wanted env h j then (move_job i Closing h, [PlayerShutdown])
             else (end_job i h, [])
         | Closing \<Rightarrow> if ok \<and> still_wanted env h j then (move_job i Registering h, [PlayerRegister (rj_name j)])
             else (end_job i h, [])
         | Registering \<Rightarrow> (end_job i h, if ok \<and> still_wanted env h j
             then (case rj_resume j of Some (uri, pos_ms) \<Rightarrow> [PlayerResume uri pos_ms] | None \<Rightarrow> []) else []))"

definition job_timeout :: "nat \<Rightarrow> recovery_host \<Rightarrow> recovery_host" where
  "job_timeout i h = (if rj_phase (rh_jobs h ! i) = Sleeping \<or> \<not> rj_waiting (rh_jobs h ! i) then h
     else h\<lparr>rh_in_flight := False, rh_jobs := (rh_jobs h)[i := (rh_jobs h ! i)\<lparr>rj_waiting := False\<rparr>]\<rparr>)"

section \<open>The health loop and the watchdog\<close>

definition probe_player_health :: "host_env \<Rightarrow> bool \<Rightarrow> recovery_host \<Rightarrow> recovery_host" where
  "probe_player_health env up h =
     (let owns = embedded_owns_global_transport h;
          resume = (if owns then resume_now env h else None);
          active = (owns \<and> (rh_we_are_active h \<or> resume \<noteq> None));
          hp = (rh_health h)\<lparr>ph_last_probe_ms := he_now_ms env, ph_connected := up,
                 ph_consecutive_failures := (if up then 0 else sat_succ (ph_consecutive_failures (rh_health h))),
                 ph_gave_up := (ph_gave_up (rh_health h) \<and> \<not> up)\<rparr>;
          reconnect = should_auto_reconnect_player up active (rh_in_flight h) (ph_consecutive_failures hp - 1);
          hp = (if reconnect then hp\<lparr>ph_last_reconnect_ms := Some (he_now_ms env)\<rparr>
                else if \<not> up \<and> active \<and> PLAYER_RECONNECT_GIVE_UP_AFTER \<le> ph_consecutive_failures hp
                then hp\<lparr>ph_gave_up := True\<rparr> else hp)
      in if \<not> reconnect then h\<lparr>rh_health := hp\<rparr>
         else let backoff = reconnect_backoff (ph_consecutive_failures hp - 1)
              in schedule_player_reconnect env resume backoff
                   (h\<lparr>rh_health := hp\<lparr>ph_reconnect_attempts := sat_succ (ph_reconnect_attempts hp),
                       ph_current_backoff_ms := backoff\<rparr>\<rparr>))"

definition record_audio_flow :: "bool \<Rightarrow> i64 option \<Rightarrow> recovery_host \<Rightarrow> recovery_host" where
  "record_audio_flow advancing stalled_at h = h\<lparr>rh_health := (rh_health h)\<lparr>ph_samples_advancing := advancing,
     ph_last_stall_ms := (case stalled_at of Some t \<Rightarrow> Some t | None \<Rightarrow> ph_last_stall_ms (rh_health h))\<rparr>\<rparr>"

definition trigger_audio_stall_recovery :: "host_env \<Rightarrow> (string \<times> u32) option \<Rightarrow> recovery_host \<Rightarrow> recovery_host" where
  "trigger_audio_stall_recovery env resume h =
     (if \<not> (rh_we_are_active h \<or> resume \<noteq> None) then h
      else if rh_in_flight h then h
      else let backoff = reconnect_backoff (ph_consecutive_failures (rh_health h))
           in schedule_player_reconnect env resume backoff
                (h\<lparr>rh_health := (rh_health h)\<lparr>ph_last_reconnect_ms := Some (he_now_ms env),
                    ph_reconnect_attempts := sat_succ (ph_reconnect_attempts (rh_health h)),
                    ph_current_backoff_ms := backoff\<rparr>\<rparr>))"

definition handle_audio_stall :: "host_env \<Rightarrow> recovery_host \<Rightarrow> recovery_host \<times> host_effect list" where
  "handle_audio_stall env h =
     (if \<not> embedded_owns_global_transport h then (h, [])
      else let resume = resume_now env h;
               (clock, changed) = mark_audio_stalled (he_now_ms env) (he_now env) (he_now' env) (rh_clock h);
               h' = h\<lparr>rh_clock := clock\<rparr>
           in (trigger_audio_stall_recovery env resume h',
               if changed then [Notice (PlaybackChangedNotice ''audio_stalled'' (Some (snapshot clock (he_now' env))))] else []))"

definition active_device_is_foreign :: "host_env \<Rightarrow> recovery_host \<Rightarrow> bool" where
  "active_device_is_foreign env h = (case pb_device (snapshot (rh_clock h) (he_now env)) of
       Some d \<Rightarrow> \<not> device_matches_own d (own_device_id env h) (rh_own_name h) | None \<Rightarrow> False)"

definition watchdog_tick :: "host_env \<Rightarrow> u64 option \<Rightarrow> recovery_host \<Rightarrow> recovery_host \<times> host_effect list" where
  "watchdog_tick env samples h =
     (let now = he_now_ms env;
          is_playing = (ck_is_playing (rh_clock h) \<and> embedded_owns_global_transport h \<and> \<not> active_device_is_foreign env h);
          stalled_for = (case rh_stalled_since h of Some t \<Rightarrow> sat_i64 (now - t) | None \<Rightarrow> 0);
          (h', fx) = (case classify_audio_flow is_playing samples (rh_last_samples h) stalled_for AUDIO_STALL_THRESHOLD_MS of
              Flowing \<Rightarrow> (record_audio_flow True None (h\<lparr>rh_stalled_since := None\<rparr>), [])
            | NotPlaying \<Rightarrow> (record_audio_flow True None (h\<lparr>rh_stalled_since := None\<rparr>), [])
            | Buffering \<Rightarrow> (h\<lparr>rh_stalled_since := (case rh_stalled_since h of Some t \<Rightarrow> Some t | None \<Rightarrow> Some now)\<rparr>, [])
            | Stalled \<Rightarrow> (case handle_audio_stall env (record_audio_flow False (Some now) h) of
                (h', fx) \<Rightarrow> (h'\<lparr>rh_stalled_since := None\<rparr>, fx)))
      in (h'\<lparr>rh_last_samples := samples\<rparr>, fx))"


section \<open>The relay of player events\<close>

definition player_event_media_uri :: "player_event \<Rightarrow> string option" where
  "player_event_media_uri ev = (case ev of
       PlaybackStarted u _ \<Rightarrow> Some (as_uri u) | TrackChanged u _ \<Rightarrow> Some (as_uri u) | _ \<Rightarrow> None)"

definition translate_player_event :: "(string \<Rightarrow> string) \<Rightarrow> string \<Rightarrow> player_event \<Rightarrow> daemon_notice option" where
  "translate_player_event sanitize provider ev = (case ev of
       Ready device_id name \<Rightarrow> Some (PlayerReadyNotice device_id name)
     | Degraded reason \<Rightarrow> Some (PlayerDegradedNotice reason)
     | ProviderPolicy reason \<Rightarrow> Some (ProviderPolicyNotice provider (sanitize reason))
     | SessionDisconnected reason \<Rightarrow> Some (SessionDisconnectedNotice reason)
     | Failed reason restarts \<Rightarrow> Some (PlayerFailedNotice reason restarts)
     | PlaybackStarted u _ \<Rightarrow> Some (PlaybackChangedNotice (''started '' @ as_uri u) None)
     | Deactivated \<Rightarrow> Some (PlaybackChangedNotice ''deactivated'' None)
     | Activated \<Rightarrow> None
     | PlaybackPaused \<Rightarrow> Some (PlaybackChangedNotice ''paused'' None)
     | PlaybackResumed \<Rightarrow> Some (PlaybackChangedNotice ''resumed'' None)
     | TrackChanged u _ \<Rightarrow> Some (PlaybackChangedNotice (''track changed '' @ as_uri u) None)
     | EndOfTrack u \<Rightarrow> Some (PlaybackChangedNotice (''ended '' @ as_uri u) None)
     | VolumeChanged percent \<Rightarrow> Some (PlaybackChangedNotice (''volume '' @ show_nat percent) None)
     | PositionTick _ \<Rightarrow> None
     | PreloadNext _ \<Rightarrow> None)"

definition with_snapshot :: "playback option \<Rightarrow> daemon_notice \<Rightarrow> daemon_notice" where
  "with_snapshot snap n = (case n of PlaybackChangedNotice action None \<Rightarrow> PlaybackChangedNotice action snap | _ \<Rightarrow> n)"

text \<open>Events that are dropped while another device or provider holds the playback.\<close>

definition needs_ownership :: "player_event \<Rightarrow> bool" where
  "needs_ownership ev = (case ev of
       Ready _ _ \<Rightarrow> False | ProviderPolicy _ \<Rightarrow> False | Activated \<Rightarrow> False | PreloadNext _ \<Rightarrow> False | _ \<Rightarrow> True)"

definition pushes_snapshot :: "player_event \<Rightarrow> bool" where
  "pushes_snapshot ev \<longleftrightarrow> is_playback_transition ev \<or> (case ev of VolumeChanged _ \<Rightarrow> True | _ \<Rightarrow> False)"

definition claims_activity :: "player_event \<Rightarrow> bool" where
  "claims_activity ev = (case ev of PlaybackStarted _ _ \<Rightarrow> True | PlaybackResumed \<Rightarrow> True | TrackChanged _ _ \<Rightarrow> True | _ \<Rightarrow> False)"

definition session_lost :: "player_event \<Rightarrow> bool" where
  "session_lost ev = (case ev of SessionDisconnected _ \<Rightarrow> True | Failed _ _ \<Rightarrow> True | _ \<Rightarrow> False)"

text \<open>Deactivation revokes recovery before anything else looks at the event.\<close>

definition note_deactivation :: "player_event \<Rightarrow> recovery_host \<Rightarrow> recovery_host" where
  "note_deactivation ev h = (if ev = Deactivated
     then (bump_mutation_seq h)\<lparr>rh_inactive_after_handoff := True, rh_we_are_active := False\<rparr> else h)"

definition reclaim_transport :: "player_event \<Rightarrow> recovery_host \<Rightarrow> recovery_host \<times> host_effect list" where
  "reclaim_transport ev h =
     (if \<not> rh_inactive_after_handoff h \<and>
         ((case ev of PlaybackStarted _ _ \<Rightarrow> True | _ \<Rightarrow> False) \<or>
          (case ev of TrackChanged _ _ \<Rightarrow> rh_we_are_active h | _ \<Rightarrow> False)) \<and>
         rh_embedded h \<noteq> None \<and> rh_active h \<noteq> rh_embedded h
      then (bump_mutation_seq h\<lparr>rh_active := rh_embedded h\<rparr>, [RevisionBumped]) else (h, []))"

definition event_owns_global_transport :: "player_event \<Rightarrow> recovery_host \<Rightarrow> bool" where
  "event_owns_global_transport ev h \<longleftrightarrow>
     (case rh_embedded h of None \<Rightarrow> False | Some e \<Rightarrow> rh_active h = None \<or> rh_active h = Some e) \<and>
     (\<not> rh_inactive_after_handoff h \<or> ev = Deactivated)"

definition own_speaker :: "host_env \<Rightarrow> string \<Rightarrow> u8 \<Rightarrow> device" where
  "own_speaker env name percent = \<lparr>dev_id = Some (he_device_id env name), dev_name = name, dev_kind = ''Speaker'',
     dev_is_active = True, dev_is_restricted = False, dev_volume_percent = Some percent, dev_supports_volume = True\<rparr>"

definition note_volume :: "host_env \<Rightarrow> bool \<Rightarrow> player_event \<Rightarrow> recovery_host \<Rightarrow> recovery_host" where
  "note_volume env owns ev h = (case ev of
       VolumeChanged percent \<Rightarrow>
         (let h' = h\<lparr>rh_own_volume := Some percent\<rparr>
          in if owns \<and> \<not> active_device_is_foreign env h
             then h'\<lparr>rh_clock := apply_device_volume percent (map_option (\<lambda>n. own_speaker env n percent) (rh_own_name h))
                    (he_now_ms env) (rh_clock h)\<rparr>
             else h')
     | _ \<Rightarrow> h)"

definition apply_owned_event :: "host_env \<Rightarrow> player_event \<Rightarrow> recovery_host \<Rightarrow> recovery_host" where
  "apply_owned_event env ev h = h\<lparr>
     rh_clock := apply_player_event ev (he_now_ms env) (he_now env) (he_now' env) (rh_clock h),
     rh_we_are_active := (if claims_activity ev then True else if ev = Deactivated then False else rh_we_are_active h)\<rparr>"

definition enrich_from_lookup :: "host_env \<Rightarrow> player_event \<Rightarrow> recovery_host \<Rightarrow> recovery_host" where
  "enrich_from_lookup env ev h =
     (case Option.bind (player_event_media_uri ev) (he_lookup env (rh_embedded h)) of
        Some item \<Rightarrow> h\<lparr>rh_clock := fst (enrich_current_item item (rh_clock h))\<rparr> | None \<Rightarrow> h)"

definition reconnect_after_drop :: "host_env \<Rightarrow> recovery_host \<Rightarrow> recovery_host" where
  "reconnect_after_drop env h =
     (let resume = resume_now env h
      in if rh_we_are_active h \<or> resume \<noteq> None
         then let backoff = reconnect_backoff (ph_consecutive_failures (rh_health h) - 1)
              in schedule_player_reconnect env resume backoff
                   (h\<lparr>rh_health := (rh_health h)\<lparr>ph_reconnect_attempts := sat_succ (ph_reconnect_attempts (rh_health h)),
                       ph_current_backoff_ms := backoff\<rparr>\<rparr>)
         else h)"

text \<open>What the relay does to the daemon's state with an event other than an activation; the flag says who owns it.\<close>

definition absorb_player_event :: "host_env \<Rightarrow> string \<Rightarrow> player_event \<Rightarrow> recovery_host \<Rightarrow> bool \<times> recovery_host \<times> host_effect list" where
  "absorb_player_event env provider ev h =
     (let (h, fx) = reclaim_transport ev h;
          owns = event_owns_global_transport ev h;
          skip_clock = (ev = Deactivated \<and> active_device_is_foreign env h);
          h = (if owns \<and> \<not> skip_clock then apply_owned_event env ev h else h);
          (session, session_fx) = (if owns then observe (he_surroundings env) ev (rh_session h) else (rh_session h, []));
          h = h\<lparr>rh_session := session\<rparr>;
          h = (if owns then enrich_from_lookup env ev h else h);
          h = note_volume env owns ev h
      in (owns, h, fx @ map SessionEffect session_fx @
           (if owns \<and> \<not> skip_clock \<and> is_playback_transition ev then [NativeCache provider] else [])))"

definition forward_player_event :: "host_env \<Rightarrow> string \<Rightarrow> player_event \<Rightarrow> recovery_host \<Rightarrow> recovery_host \<times> host_effect list" where
  "forward_player_event env provider ev h0 =
     (let h = note_deactivation ev h0
      in if ev = Activated then (h\<lparr>rh_inactive_after_handoff := False\<rparr>, [])
      else case absorb_player_event env provider ev h of
        (owns, h, fx) \<Rightarrow>
          (let snap = (if owns \<and> pushes_snapshot ev then Some (snapshot (rh_clock h) (he_now' env)) else None)
           in if \<not> owns \<and> needs_ownership ev then (h, fx)
              else case map_option (with_snapshot snap) (translate_player_event (he_sanitize env) provider ev) of
                     None \<Rightarrow> (h, fx)
                   | Some notice \<Rightarrow> (if owns \<and> session_lost ev then reconnect_after_drop env h else h, fx @ [Notice notice])))"

section \<open>Polls\<close>

text \<open>
  The commit of a playback poll under the transport lane. The second check of the revision, after the
  store's write, sees the same state: the write itself is outside the model.
\<close>

definition revision_now :: "recovery_host \<Rightarrow> poll_revision" where
  "revision_now h = \<lparr>rev_mutation_seq = rh_mutation_seq h, rev_player_transition = ck_player_transition (rh_clock h)\<rparr>"

definition may_apply_playback_poll :: "string \<Rightarrow> poll_revision \<Rightarrow> recovery_host \<Rightarrow> bool" where
  "may_apply_playback_poll provider revision h \<longleftrightarrow> rh_mutation_seq h = rev_mutation_seq revision \<and>
     (rh_active h = None \<or> rh_active h = Some provider) \<and> revision_now h = revision"

definition device_is_ours :: "host_env \<Rightarrow> recovery_host \<Rightarrow> device \<Rightarrow> bool" where
  "device_is_ours env h d = device_matches_own d (own_device_id env h) (rh_own_name h)"

definition apply_playback_poll :: "host_env \<Rightarrow> string \<Rightarrow> playback \<Rightarrow> poll_revision \<Rightarrow> i64 \<Rightarrow> recovery_host
    \<Rightarrow> recovery_host \<times> bool" where
  "apply_playback_poll env provider p revision sampled_at h =
     (if rh_active h \<noteq> None \<and> rh_active h \<noteq> Some provider then (h, False)
      else let current = (rh_mutation_seq h = rev_mutation_seq revision);
          (clock, changed) = apply_web_api_poll p revision (rh_mutation_seq h) sampled_at (pb_provider_timestamp_ms p) current
            (he_now env) (he_now' env) (rh_clock h);
          called = (rev_player_transition revision = ck_player_transition (rh_clock h) \<and> current);
          h' = h\<lparr>rh_clock := clock\<rparr>
      in (case pb_device p of
            Some d \<Rightarrow> if called then set_we_are_active (device_is_ours env h d) h' else h'
          | None \<Rightarrow> h', changed))"

definition commit_playback_poll :: "host_env \<Rightarrow> string \<Rightarrow> playback \<Rightarrow> poll_revision \<Rightarrow> i64 \<Rightarrow> recovery_host
    \<Rightarrow> recovery_host \<times> (playback \<times> bool) option" where
  "commit_playback_poll env provider p revision sampled_at h =
     (if \<not> may_apply_playback_poll provider revision h then (h, None)
      else if embedded_owns_global_transport h \<and> rh_we_are_active h \<and>
              (case pb_device p of Some d \<Rightarrow> device_is_ours env h d | None \<Rightarrow> False) \<and>
              poll_precedes_player_transition (rh_clock h) p then (h, None)
      else case prepare_web_api_poll p sampled_at (pb_provider_timestamp_ms p) (he_now env) (rh_clock h) of
             (clock, None) \<Rightarrow> (h\<lparr>rh_clock := clock\<rparr>, None)
           | (clock, Some candidate) \<Rightarrow>
               (case apply_playback_poll env provider p revision sampled_at (h\<lparr>rh_clock := clock\<rparr>) of
                  (h', changed) \<Rightarrow> (h', Some (candidate, changed))))"

end
