(* ===== verification/Recovery_Laws.thy ===== *)
theory Recovery_Laws
  imports Player_Recovery
begin

text \<open>
  Laws of the player's recovery. The daemon's player moves by events: what the player says, health probes,
  watchdog ticks, steps and time-outs of reconnect jobs, and answers of playback polls, in any order.
\<close>

section \<open>Runs\<close>

datatype host_event =
    PlayerSays string player_event
  | HealthProbe bool
  | WatchdogTick "u64 option"
  | JobStep nat bool
  | JobTimeout nat
  | PollAnswer string playback poll_revision i64

fun host_step :: "host_env \<Rightarrow> host_event \<Rightarrow> recovery_host \<Rightarrow> recovery_host \<times> host_effect list" where
  "host_step env (PlayerSays provider ev) h = forward_player_event env provider ev h"
| "host_step env (HealthProbe up) h = (probe_player_health env up h, [])"
| "host_step env (WatchdogTick samples) h = watchdog_tick env samples h"
| "host_step env (JobStep i ok) h = (if i < length (rh_jobs h) then job_step env i ok h else (h, []))"
| "host_step env (JobTimeout i) h = (if i < length (rh_jobs h) then job_timeout i h else h, [])"
| "host_step env (PollAnswer provider p revision sampled_at) h =
     (fst (commit_playback_poll env provider p revision sampled_at h), [])"

fun host_run :: "(host_env \<times> host_event) list \<Rightarrow> recovery_host \<Rightarrow> recovery_host \<times> host_effect list" where
  "host_run [] h = (h, [])"
| "host_run ((env, e) # es) h = (case host_step env e h of (h', fx) \<Rightarrow>
     (case host_run es h' of (h'', fx') \<Rightarrow> (h'', fx @ fx')))"

text \<open>Effects that act on the player: the ones a recovery may have.\<close>

definition touches_player :: "host_effect \<Rightarrow> bool" where
  "touches_player fx = (case fx of
       PlayerShutdown \<Rightarrow> True | PlayerRegister _ \<Rightarrow> True | PlayerResume _ _ \<Rightarrow> True | _ \<Rightarrow> False)"

abbreviation untouched :: "host_effect list \<Rightarrow> bool" where
  "untouched fxs \<equiv> (\<forall>fx\<in>set fxs. \<not> touches_player fx)"

lemma touches_simps [simp]:
  "touches_player PlayerShutdown" "touches_player (PlayerRegister n)" "touches_player (PlayerResume u p)"
  "\<not> touches_player (SessionEffect e)" "\<not> touches_player (Notice m)" "\<not> touches_player RevisionBumped"
  "\<not> touches_player (NativeCache q)"
  by (simp_all add: touches_player_def)

text \<open>
  A predicate, indexed by the number of steps to come, that every step keeps without touching the player.
\<close>

lemma host_run_untouched:
  assumes step: "\<And>n env e h. (env, e) \<in> set steps \<Longrightarrow> I (Suc n) h \<Longrightarrow>
      I n (fst (host_step env e h)) \<and> untouched (snd (host_step env e h))"
    and start: "I (length steps) h"
  shows "I 0 (fst (host_run steps h)) \<and> untouched (snd (host_run steps h))"
  using assms
proof (induction steps arbitrary: h)
  case (Cons s steps)
  obtain env e where s: "s = (env, e)" by force
  have here: "I (length steps) (fst (host_step env e h)) \<and> untouched (snd (host_step env e h))"
    by (intro Cons.prems) (use Cons.prems(2) in \<open>simp_all add: s\<close>)
  have "I 0 (fst (host_run steps (fst (host_step env e h)))) \<and> untouched (snd (host_run steps (fst (host_step env e h))))"
    by (rule Cons.IH [OF _ here [THEN conjunct1]]) (rule Cons.prems(1), simp_all)
  then show ?case using here by (auto simp: s split: prod.splits)
qed simp

section \<open>Who owns the device of the clock\<close>

definition foreign_device :: "(string \<Rightarrow> string) \<Rightarrow> string option \<Rightarrow> device option \<Rightarrow> bool" where
  "foreign_device dev own d = (case d of Some d \<Rightarrow> \<not> device_matches_own d (map_option dev own) own | None \<Rightarrow> False)"

lemma foreign_none [simp]: "\<not> foreign_device dev own None"
  by (simp add: foreign_device_def)

lemma snapshot_simps [simp]:
  "pb_item (snapshot st t) = ck_item st" "pb_device (snapshot st t) = ck_device st"
  "pb_is_playing (snapshot st t) = ck_is_playing st"
  by (simp_all add: snapshot_def)

lemma foreign_snapshot [simp]:
  "active_device_is_foreign env h \<longleftrightarrow> foreign_device (he_device_id env) (rh_own_name h) (ck_device (rh_clock h))"
  by (simp add: active_device_is_foreign_def foreign_device_def own_device_id_def split: option.splits)

lemma resume_on_foreign: "foreign_device (he_device_id env) (rh_own_name h) (ck_device (rh_clock h)) \<Longrightarrow> resume_now env h = None"
  by (auto simp: resume_now_def resume_target_after_drop_def foreign_device_def own_device_id_def split: option.splits)

lemma resume_when_idle: "\<not> ck_is_playing (rh_clock h) \<Longrightarrow> resume_now env h = None"
  by (simp add: resume_now_def resume_target_after_drop_def)

section \<open>What the operations leave alone\<close>

lemma freeze_device [simp]: "ck_device (freeze a b c st) = ck_device st" "\<not> ck_is_playing (freeze a b c st)"
  by (simp_all add: freeze_def)

lemma event_device [simp]: "ck_device (apply_player_event ev t n n' st) = ck_device st"
  by (simp add: apply_player_event_def mark_transition_def start_track_def position_tick_def end_of_track_def Let_def
      split: player_event.splits)

lemma enrich_device [simp]: "ck_device (fst (enrich_current_item i st)) = ck_device st"
  "ck_is_playing (fst (enrich_current_item i st)) = ck_is_playing st"
  by (simp_all add: enrich_current_item_def split: option.splits prod.splits)

lemma stalled_device [simp]: "ck_device (fst (mark_audio_stalled a b c st)) = ck_device st"
  by (simp add: mark_audio_stalled_def)

lemma stalled_stops [simp]: "\<not> ck_is_playing (fst (mark_audio_stalled a b c st))"
  by (simp add: mark_audio_stalled_def)

lemma deactivated_stops [simp]: "\<not> ck_is_playing (apply_player_event Deactivated t n n' st)"
  by (simp add: apply_player_event_def)


lemma volume_device:
  "\<not> foreign_device dev own (ck_device st) \<or> foreign_device dev own (ck_device (apply_device_volume v seed t st))"
  by (auto simp: apply_device_volume_def foreign_device_def device_matches_own_def split: option.splits)

lemma enrich_host [simp]:
  "rh_own_name (enrich_from_lookup env ev h) = rh_own_name h" "rh_jobs (enrich_from_lookup env ev h) = rh_jobs h"
  "rh_mutation_seq (enrich_from_lookup env ev h) = rh_mutation_seq h"
  "rh_we_are_active (enrich_from_lookup env ev h) = rh_we_are_active h"
  "rh_inactive_after_handoff (enrich_from_lookup env ev h) = rh_inactive_after_handoff h"
  "rh_embedded (enrich_from_lookup env ev h) = rh_embedded h" "rh_active (enrich_from_lookup env ev h) = rh_active h"
  "ck_device (rh_clock (enrich_from_lookup env ev h)) = ck_device (rh_clock h)"
  "ck_is_playing (rh_clock (enrich_from_lookup env ev h)) = ck_is_playing (rh_clock h)"
  by (simp_all add: enrich_from_lookup_def split: option.splits)

lemma volume_host [simp]:
  "rh_own_name (note_volume env owns ev h) = rh_own_name h" "rh_jobs (note_volume env owns ev h) = rh_jobs h"
  "rh_mutation_seq (note_volume env owns ev h) = rh_mutation_seq h"
  "rh_we_are_active (note_volume env owns ev h) = rh_we_are_active h"
  "rh_inactive_after_handoff (note_volume env owns ev h) = rh_inactive_after_handoff h"
  "rh_embedded (note_volume env owns ev h) = rh_embedded h" "rh_active (note_volume env owns ev h) = rh_active h"
  "ck_is_playing (rh_clock (note_volume env owns ev h)) = ck_is_playing (rh_clock h)"
  by (simp_all add: note_volume_def Let_def apply_device_volume_def split: player_event.splits)

lemma volume_on_foreign:
  "foreign_device (he_device_id env) (rh_own_name h) (ck_device (rh_clock h)) \<Longrightarrow>
   ck_device (rh_clock (note_volume env owns ev h)) = ck_device (rh_clock h)"
  by (simp add: note_volume_def Let_def split: player_event.splits)

lemma owned_host [simp]:
  "rh_own_name (apply_owned_event env ev h) = rh_own_name h" "rh_jobs (apply_owned_event env ev h) = rh_jobs h"
  "rh_mutation_seq (apply_owned_event env ev h) = rh_mutation_seq h"
  "rh_inactive_after_handoff (apply_owned_event env ev h) = rh_inactive_after_handoff h"
  "rh_embedded (apply_owned_event env ev h) = rh_embedded h" "rh_active (apply_owned_event env ev h) = rh_active h"
  "ck_device (rh_clock (apply_owned_event env ev h)) = ck_device (rh_clock h)"
  by (simp_all add: apply_owned_event_def)

lemma note_host [simp]:
  "rh_own_name (note_deactivation ev h) = rh_own_name h" "rh_jobs (note_deactivation ev h) = rh_jobs h"
  "rh_clock (note_deactivation ev h) = rh_clock h" "rh_embedded (note_deactivation ev h) = rh_embedded h"
  "rh_active (note_deactivation ev h) = rh_active h"
  by (simp_all add: note_deactivation_def bump_mutation_seq_def)

lemma reclaim_host [simp]:
  "rh_own_name (fst (reclaim_transport ev h)) = rh_own_name h" "rh_jobs (fst (reclaim_transport ev h)) = rh_jobs h"
  "rh_clock (fst (reclaim_transport ev h)) = rh_clock h" "rh_embedded (fst (reclaim_transport ev h)) = rh_embedded h"
  "rh_inactive_after_handoff (fst (reclaim_transport ev h)) = rh_inactive_after_handoff h"
  "untouched (snd (reclaim_transport ev h))"
  by (simp_all add: reclaim_transport_def bump_mutation_seq_def)

lemma reclaim_inactive: "rh_inactive_after_handoff h \<Longrightarrow> reclaim_transport ev h = (h, [])"
  by (simp add: reclaim_transport_def)

lemma schedule_host [simp]:
  "rh_own_name (schedule_player_reconnect env r b h) = rh_own_name h"
  "rh_clock (schedule_player_reconnect env r b h) = rh_clock h"
  by (simp_all add: schedule_player_reconnect_def)

lemma schedule_jobs:
  "j \<in> set (rh_jobs (schedule_player_reconnect env r b h)) \<Longrightarrow> j \<in> set (rh_jobs h) \<or>
     rj_name j = (case rh_own_name h of Some n \<Rightarrow> n | None \<Rightarrow> he_default_name env)"
  by (auto simp: schedule_player_reconnect_def split: if_splits)

section \<open>Preservation by the relay\<close>

text \<open>
  A predicate that each part of the relay keeps is kept by the relay. Parts that run only for an event of
  the transport's owner may use that the event was one in some state of the predicate.
\<close>

lemma forward_preserves:
  assumes "P h"
    and note_part: "\<And>h. P h \<Longrightarrow> P (note_deactivation ev h)"
    and active_part: "\<And>h. P h \<Longrightarrow> ev = Activated \<Longrightarrow> P (h\<lparr>rh_inactive_after_handoff := False\<rparr>)"
    and reclaim_part: "\<And>h. P h \<Longrightarrow> P (fst (reclaim_transport ev h))"
    and owned_part: "\<And>h. P h \<Longrightarrow> event_owns_global_transport ev h \<Longrightarrow>
      ev \<noteq> Deactivated \<or> \<not> active_device_is_foreign env h \<Longrightarrow> P (apply_owned_event env ev h)"
    and session_part: "\<And>h s. P h \<Longrightarrow> P (h\<lparr>rh_session := s\<rparr>)"
    and enrich_part: "\<And>h. P h \<Longrightarrow> P (enrich_from_lookup env ev h)"
    and volume_part: "\<And>h owns. P h \<Longrightarrow> owns \<longrightarrow> (\<exists>h0. P h0 \<and> event_owns_global_transport ev h0) \<Longrightarrow>
      P (note_volume env owns ev h)"
    and drop_part: "\<And>h h0. P h \<Longrightarrow> session_lost ev \<Longrightarrow> P h0 \<Longrightarrow> event_owns_global_transport ev h0 \<Longrightarrow>
      P (reconnect_after_drop env h)"
  shows "P (fst (forward_player_event env provider ev h))"
proof (cases "ev = Activated")
  case True
  then show ?thesis using assms(1) note_part active_part by (simp add: forward_player_event_def Let_def)
next
  case False
  define h1 where "h1 = fst (reclaim_transport ev (note_deactivation ev h))"
  define owns where "owns = event_owns_global_transport ev h1"
  define h2 where "h2 = (if owns \<and> \<not> (ev = Deactivated \<and> active_device_is_foreign env h1)
    then apply_owned_event env ev h1 else h1)"
  define so where "so = (if owns then observe (he_surroundings env) ev (rh_session h2) else (rh_session h2, []))"
  define h3 where "h3 = h2\<lparr>rh_session := fst so\<rparr>"
  define h4 where "h4 = (if owns then enrich_from_lookup env ev h3 else h3)"
  define h5 where "h5 = note_volume env owns ev h4"
  have P1: "P h1" unfolding h1_def by (intro reclaim_part note_part assms(1))
  have "P h2" unfolding h2_def using P1 owned_part by (auto simp: owns_def)
  then have "P h3" unfolding h3_def by (rule session_part)
  then have "P h4" unfolding h4_def using enrich_part by simp
  then have P5: "P h5" unfolding h5_def by (rule volume_part) (use P1 in \<open>auto simp: owns_def\<close>)
  obtain fx where absorbed: "absorb_player_event env provider ev (note_deactivation ev h) = (owns, h5, fx)"
    by (simp add: absorb_player_event_def Let_def split_beta h5_def h4_def h3_def so_def h2_def owns_def h1_def del: foreign_snapshot)
  have "fst (forward_player_event env provider ev h) \<in>
      {h5, if owns \<and> session_lost ev then reconnect_after_drop env h5 else h5}"
    using False by (simp add: forward_player_event_def Let_def absorbed split: option.splits)
  then show ?thesis using P1 P5 drop_part by (auto simp: owns_def split: if_splits)
qed

lemma absorb_untouched: "untouched (snd (snd (absorb_player_event env provider ev h)))"
  using reclaim_host(6) [of ev h] by (auto simp: absorb_player_event_def Let_def split_beta split: if_splits)

lemma forward_untouched: "untouched (snd (forward_player_event env provider ev h))"
proof (cases "absorb_player_event env provider ev (note_deactivation ev h)")
  case (fields owns h' fx)
  then have "untouched fx" using absorb_untouched [of env provider ev "note_deactivation ev h"] by simp
  then show ?thesis by (auto simp: forward_player_event_def Let_def fields split: option.splits)
qed


section \<open>Playback on another device is never taken back\<close>

definition away :: "(string \<Rightarrow> string) \<Rightarrow> string \<Rightarrow> recovery_host \<Rightarrow> bool" where
  "away dev name h \<longleftrightarrow> rh_own_name h = Some name \<and> foreign_device dev (Some name) (ck_device (rh_clock h)) \<and>
     (\<forall>j\<in>set (rh_jobs h). rj_name j = name)"

lemma awayD:
  assumes "away dev name h"
  shows "rh_own_name h = Some name" "foreign_device dev (Some name) (ck_device (rh_clock h))"
    "j \<in> set (rh_jobs h) \<Longrightarrow> rj_name j = name"
  using assms by (auto simp: away_def)

lemma away_cong:
  assumes "away dev name h" "rh_own_name h' = rh_own_name h" "ck_device (rh_clock h') = ck_device (rh_clock h)"
    "\<And>j. j \<in> set (rh_jobs h') \<Longrightarrow> j \<in> set (rh_jobs h) \<or> rj_name j = name"
  shows "away dev name h'"
  using assms by (auto simp: away_def)

lemma away_schedule: "away dev name h \<Longrightarrow> away dev name (schedule_player_reconnect env r b h)"
  by (rule away_cong) (auto simp: awayD dest: schedule_jobs)

lemma away_health [simp]: "away dev name (h\<lparr>rh_health := hp\<rparr>) = away dev name h"
  by (simp add: away_def)

lemma not_wanted_away:
  "away dev name h \<Longrightarrow> he_device_id env = dev \<Longrightarrow> j \<in> set (rh_jobs h) \<Longrightarrow> \<not> still_wanted env h j"
  by (auto simp: still_wanted_def Let_def away_def foreign_device_def split: option.splits)

text \<open>A job that is not wanted any more ends, whatever its phase, and does nothing.\<close>

lemma unwanted_job_ends:
  assumes "i < length (rh_jobs h)" "\<not> still_wanted env h (rh_jobs h ! i)"
  shows "job_step env i ok h = (end_job i h, []) \<or> job_step env i ok h = (end_job i h, [] @ [])"
  using assms by (simp add: job_step_def Let_def split: reconnect_phase.splits)

lemma end_job_host [simp]:
  "rh_own_name (end_job i h) = rh_own_name h" "rh_clock (end_job i h) = rh_clock h"
  "rh_mutation_seq (end_job i h) = rh_mutation_seq h" "rh_we_are_active (end_job i h) = rh_we_are_active h"
  "rh_inactive_after_handoff (end_job i h) = rh_inactive_after_handoff h"
  "rh_embedded (end_job i h) = rh_embedded h" "rh_active (end_job i h) = rh_active h"
  "j \<in> set (rh_jobs (end_job i h)) \<Longrightarrow> j \<in> set (rh_jobs h)"
  by (auto simp: end_job_def dest: in_set_takeD in_set_dropD)

lemma timeout_host [simp]:
  "rh_own_name (job_timeout i h) = rh_own_name h" "rh_clock (job_timeout i h) = rh_clock h"
  "rh_mutation_seq (job_timeout i h) = rh_mutation_seq h" "rh_we_are_active (job_timeout i h) = rh_we_are_active h"
  "rh_inactive_after_handoff (job_timeout i h) = rh_inactive_after_handoff h"
  "rh_embedded (job_timeout i h) = rh_embedded h" "rh_active (job_timeout i h) = rh_active h"
  by (simp_all add: job_timeout_def)

lemma timeout_jobs:
  assumes "j \<in> set (rh_jobs (job_timeout i h))" "i < length (rh_jobs h)"
  shows "\<exists>j'\<in>set (rh_jobs h). rj_name j = rj_name j' \<and> rj_captured_seq j = rj_captured_seq j'"
  using assms set_update_subset_insert [of "rh_jobs h" i "(rh_jobs h ! i)\<lparr>rj_waiting := False\<rparr>"]
  by (force simp: job_timeout_def split: if_splits)

lemma away_probe: "away dev name h \<Longrightarrow> away dev name (probe_player_health env up h)"
  by (simp add: probe_player_health_def Let_def away_schedule)

lemma away_watchdog:
  assumes "away dev name h" "he_device_id env = dev"
  shows "away dev name (fst (watchdog_tick env samples h)) \<and> snd (watchdog_tick env samples h) = []"
proof -
  have "active_device_is_foreign env h" using assms by (simp add: awayD)
  then have "watchdog_tick env samples h =
      ((record_audio_flow True None (h\<lparr>rh_stalled_since := None\<rparr>))\<lparr>rh_last_samples := samples\<rparr>, [])"
    by (simp add: watchdog_tick_def Let_def classify_audio_flow_def del: foreign_snapshot)
  moreover have "away dev name ((record_audio_flow True None (h\<lparr>rh_stalled_since := None\<rparr>))\<lparr>rh_last_samples := samples\<rparr>)"
    by (rule away_cong [OF assms(1)]) (auto simp: record_audio_flow_def)
  ultimately show ?thesis by simp
qed

lemma away_relay:
  assumes "away dev name h" "he_device_id env = dev"
  shows "away dev name (fst (forward_player_event env provider ev h))"
proof (rule forward_preserves [where P = "away dev name", OF assms(1)])
  show "away dev name h \<Longrightarrow> away dev name (note_deactivation ev h)" for h by (erule away_cong) auto
  show "away dev name h \<Longrightarrow> away dev name (h\<lparr>rh_inactive_after_handoff := False\<rparr>)" for h by (erule away_cong) auto
  show "away dev name h \<Longrightarrow> away dev name (fst (reclaim_transport ev h))" for h by (erule away_cong) auto
  show "away dev name h \<Longrightarrow> away dev name (apply_owned_event env ev h)" for h by (erule away_cong) auto
  show "away dev name h \<Longrightarrow> away dev name (h\<lparr>rh_session := s\<rparr>)" for h s by (erule away_cong) auto
  show "away dev name h \<Longrightarrow> away dev name (enrich_from_lookup env ev h)" for h by (erule away_cong) auto
  show "away dev name h \<Longrightarrow> away dev name (note_volume env owns ev h)" for h owns
    using volume_on_foreign [of env h owns ev] assms(2) by (auto elim!: away_cong simp: awayD)
  show "away dev name h \<Longrightarrow> away dev name (reconnect_after_drop env h)" for h
    by (auto simp: reconnect_after_drop_def Let_def intro!: away_schedule)
qed

subsection \<open>Polls\<close>

abbreviation heard :: "clock_state \<Rightarrow> device option \<times> bool" where
  "heard st \<equiv> (ck_device st, ck_is_playing st)"

lemma poll_heard:
  "heard (fst (apply_web_api_poll p rvn seq t pt cur n n' st)) \<in>
     {heard st, if playback_has_live_signal p then (pb_device p, pb_is_playing p) else (None, False)}"
  by (auto simp: apply_web_api_poll_def apply_empty_web_api_poll_def clear_session_def reseat_from_poll_def Let_def
      split: option.splits prod.splits)

lemma prepare_heard [simp]:
  "ck_device (fst (prepare_web_api_poll p t pt n st)) = ck_device st"
  "ck_is_playing (fst (prepare_web_api_poll p t pt n st)) = ck_is_playing st"
  by (simp_all add: prepare_web_api_poll_def split: option.splits)

lemma set_active_host [simp]:
  "rh_own_name (set_we_are_active a h) = rh_own_name h" "rh_jobs (set_we_are_active a h) = rh_jobs h"
  "rh_clock (set_we_are_active a h) = rh_clock h" "rh_mutation_seq (set_we_are_active a h) = rh_mutation_seq h"
  "rh_we_are_active (set_we_are_active a h) = a" "rh_embedded (set_we_are_active a h) = rh_embedded h"
  "rh_active (set_we_are_active a h) = rh_active h"
  "rh_inactive_after_handoff (set_we_are_active a h) = rh_inactive_after_handoff h"
  by (simp_all add: set_we_are_active_def reset_give_up_def Let_def)

text \<open>What an answered poll does to the daemon: jobs, revision and provider stay, the clock may follow the answer.\<close>

lemma applied_poll:
  "rh_own_name (fst (apply_playback_poll env pr p rvn t h)) = rh_own_name h \<and>
   rh_jobs (fst (apply_playback_poll env pr p rvn t h)) = rh_jobs h \<and>
   rh_mutation_seq (fst (apply_playback_poll env pr p rvn t h)) = rh_mutation_seq h \<and>
   rh_embedded (fst (apply_playback_poll env pr p rvn t h)) = rh_embedded h \<and>
   rh_active (fst (apply_playback_poll env pr p rvn t h)) = rh_active h \<and>
   rh_inactive_after_handoff (fst (apply_playback_poll env pr p rvn t h)) = rh_inactive_after_handoff h"
  by (simp add: apply_playback_poll_def Let_def split_beta split: option.splits)

lemma applied_poll_active:
  "rh_we_are_active (fst (apply_playback_poll env pr p rvn t h)) \<longrightarrow>
     rh_we_are_active h \<or> (\<exists>d. pb_device p = Some d \<and> device_is_ours env h d)"
  by (simp add: apply_playback_poll_def Let_def split_beta device_is_ours_def own_device_id_def split: option.splits)

lemma applied_poll_heard:
  "heard (rh_clock (fst (apply_playback_poll env pr p rvn t h))) \<in>
     {heard (rh_clock h), if playback_has_live_signal p then (pb_device p, pb_is_playing p) else (None, False)}"
proof (cases "rh_active h \<noteq> None \<and> rh_active h \<noteq> Some pr")
  case False
  have "rh_clock (fst (apply_playback_poll env pr p rvn t h)) =
      fst (apply_web_api_poll p rvn (rh_mutation_seq h) t (pb_provider_timestamp_ms p)
        (rh_mutation_seq h = rev_mutation_seq rvn) (he_now env) (he_now' env) (rh_clock h))"
    using False by (auto simp: apply_playback_poll_def Let_def split_beta split: option.splits)
  then show ?thesis by (simp only: poll_heard)
qed (simp add: apply_playback_poll_def)

lemma committed_poll:
  obtains (discarded) "fst (commit_playback_poll env pr p rvn t h) = h"
  | (prepared) clock where "fst (commit_playback_poll env pr p rvn t h) = h\<lparr>rh_clock := clock\<rparr>"
      "heard clock = heard (rh_clock h)"
  | (applied) clock where "fst (commit_playback_poll env pr p rvn t h) =
      fst (apply_playback_poll env pr p rvn t (h\<lparr>rh_clock := clock\<rparr>))" "heard clock = heard (rh_clock h)"
proof -
  let ?c = "fst (prepare_web_api_poll p t (pb_provider_timestamp_ms p) (he_now env) (rh_clock h))"
  have "fst (commit_playback_poll env pr p rvn t h) \<in>
      {h, h\<lparr>rh_clock := ?c\<rparr>, fst (apply_playback_poll env pr p rvn t (h\<lparr>rh_clock := ?c\<rparr>))}"
    by (auto simp: commit_playback_poll_def split_beta split: option.splits prod.splits)
  then show thesis using that by auto
qed

lemma away_poll:
  assumes "away dev name h" "he_device_id env = dev" "foreign_device dev (Some name) (pb_device p)"
  shows "away dev name (fst (commit_playback_poll env pr p rvn t h))"
proof (cases rule: committed_poll [of env pr p rvn t h])
  case discarded
  then show ?thesis using assms by simp
next
  case (prepared clock)
  then show ?thesis using assms by (auto intro: away_cong)
next
  case (applied clock)
  let ?h = "fst (apply_playback_poll env pr p rvn t (h\<lparr>rh_clock := clock\<rparr>))"
  have "playback_has_live_signal p"
    using assms(3) by (auto simp: playback_has_live_signal_def foreign_device_def split: option.splits)
  then have "foreign_device dev (Some name) (ck_device (rh_clock ?h))"
    using applied_poll_heard [of env pr p rvn t "h\<lparr>rh_clock := clock\<rparr>"] applied(2) assms by (auto simp: away_def)
  then show ?thesis
    using applied_poll [of env pr p rvn t "h\<lparr>rh_clock := clock\<rparr>"] assms(1) by (simp add: away_def applied(1))
qed

lemma away_job:
  assumes "away dev name h" "he_device_id env = dev" "i < length (rh_jobs h)"
  shows "away dev name (fst (job_step env i ok h)) \<and> snd (job_step env i ok h) = []"
proof -
  have "job_step env i ok h = (end_job i h, [])"
    using unwanted_job_ends [OF assms(3)] not_wanted_away [OF assms(1,2)] assms(3) by auto
  then show ?thesis using assms(1) by (auto intro: away_cong)
qed

fun still_away :: "(string \<Rightarrow> string) \<Rightarrow> string \<Rightarrow> host_env \<times> host_event \<Rightarrow> bool" where
  "still_away dev name (env, PollAnswer provider p rvn t) \<longleftrightarrow>
     he_device_id env = dev \<and> foreign_device dev (Some name) (pb_device p)"
| "still_away dev name (env, e) \<longleftrightarrow> he_device_id env = dev"

lemma away_step:
  assumes "away dev name h" "still_away dev name (env, e)"
  shows "away dev name (fst (host_step env e h)) \<and> untouched (snd (host_step env e h))"
proof (cases e)
  case (PlayerSays provider ev)
  then show ?thesis using assms by (simp add: away_relay forward_untouched)
next
  case (HealthProbe up)
  then show ?thesis using assms by (simp add: away_probe)
next
  case (WatchdogTick samples)
  then show ?thesis using assms away_watchdog [of dev name h env samples] by simp
next
  case (JobStep i ok)
  then show ?thesis using assms away_job [of dev name h env i ok] by simp
next
  case (JobTimeout i)
  have "away dev name (job_timeout i h)" if "i < length (rh_jobs h)"
    using timeout_jobs [OF _ that] by (intro away_cong [OF assms(1)]) (auto dest: awayD(3) [OF assms(1)])
  then show ?thesis using assms JobTimeout by simp
next
  case (PollAnswer provider p rvn t)
  then show ?thesis using assms by (simp add: away_poll)
qed

section \<open>A sample daemon\<close>

definition sample_env :: "i64 \<Rightarrow> host_env" where
  "sample_env t = \<lparr>he_now_ms = t, he_now = nat t * 1000000, he_now' = nat t * 1000000, he_device_id = (\<lambda>n. ''id-'' @ n),
     he_surroundings = \<lparr>sr_now_ms = t, sr_session_id = ''s'', sr_counter = None, sr_context = None, sr_has_store = False\<rparr>,
     he_lookup = (\<lambda>_ _. None), he_sanitize = (\<lambda>r. r), he_default_name = ''desk''\<rparr>"

definition sample_phone :: device where
  "sample_phone = \<lparr>dev_id = None, dev_name = ''phone'', dev_kind = ''Smartphone'', dev_is_active = True,
     dev_is_restricted = False, dev_volume_percent = None, dev_supports_volume = False\<rparr>"

definition sample_playing :: "device option \<Rightarrow> clock_state" where
  "sample_playing d = (clock_empty 0)\<lparr>ck_item := Some (media_stub ''spotify:track:a''), ck_is_playing := True, ck_device := d\<rparr>"

definition sample_host :: "device option \<Rightarrow> recovery_host" where
  "sample_host d = \<lparr>rh_clock = sample_playing d, rh_session = Idle, rh_embedded = Some ''spotify'', rh_active = Some ''spotify'',
     rh_we_are_active = True, rh_inactive_after_handoff = False, rh_mutation_seq = 7, rh_own_name = Some ''desk'',
     rh_own_volume = None,
     rh_health = \<lparr>ph_last_probe_ms = 0, ph_connected = True, ph_consecutive_failures = 0, ph_last_reconnect_ms = None,
       ph_gave_up = False, ph_samples_advancing = True, ph_last_stall_ms = None, ph_reconnect_attempts = 0, ph_current_backoff_ms = 0\<rparr>,
     rh_in_flight = False, rh_jobs = [], rh_last_samples = Some 44100, rh_stalled_since = None\<rparr>"

section \<open>The law of the foreign device\<close>

text \<open>
  C16: While the clock shows a device that is not ours, no interleaving of player events (lost sessions
  included), failed probes, watchdog ticks, reconnect steps and time-outs, and polls that show a foreign device
  shuts the player down, registers it or resumes playback - also when the activity flag is stale.
\<close>
theorem foreign_playback_never_stolen:
  assumes "away dev name h" "\<forall>s\<in>set steps. still_away dev name s"
  shows "filter touches_player (snd (host_run steps h)) = []"
  unfolding filter_empty_conv using host_run_untouched [of steps "\<lambda>_. away dev name" h] away_step assms by blast


theorem foreign_playback_never_stolen_witness:
  "filter touches_player (snd (host_run
     [(sample_env 0, HealthProbe False), (sample_env 1000, JobStep 0 True),
      (sample_env 2000, PlayerSays ''spotify'' (SessionDisconnected ''reset'')),
      (sample_env 9000, WatchdogTick (Some 44100)), (sample_env 9500, JobStep 0 True)]
     (sample_host (Some sample_phone)))) = []"
  by (rule foreign_playback_never_stolen [of "\<lambda>n. ''id-'' @ n" "''desk''"])
    (simp_all add: away_def sample_host_def sample_playing_def sample_env_def foreign_device_def device_matches_own_def sample_phone_def)

section \<open>A hand-over ends every recovery\<close>

definition handed_over :: "(string \<Rightarrow> string) \<Rightarrow> string option \<Rightarrow> nat \<Rightarrow> recovery_host \<Rightarrow> bool" where
  "handed_over dev own n h \<longleftrightarrow> rh_own_name h = own \<and> rh_inactive_after_handoff h \<and> \<not> rh_we_are_active h \<and>
     (embedded_owns_global_transport h \<longrightarrow> \<not> ck_is_playing (rh_clock h) \<or> foreign_device dev own (ck_device (rh_clock h))) \<and>
     (\<forall>j\<in>set (rh_jobs h). rj_captured_seq j < rh_mutation_seq h) \<and> unat (rh_mutation_seq h) + n < 2 ^ 64"

lemma handed_over_cong:
  assumes "handed_over dev own (Suc n) h" "rh_own_name h' = rh_own_name h"
    "rh_inactive_after_handoff h'" "\<not> rh_we_are_active h'"
    "rh_embedded h' = rh_embedded h" "rh_active h' = rh_active h"
    "heard (rh_clock h') = heard (rh_clock h)" "rh_mutation_seq h' = rh_mutation_seq h"
    "\<And>j. j \<in> set (rh_jobs h') \<Longrightarrow> \<exists>j'\<in>set (rh_jobs h). rj_captured_seq j = rj_captured_seq j'"
  shows "handed_over dev own n h'"
  using assms by (fastforce simp: handed_over_def embedded_owns_global_transport_def)

lemma handed_overD:
  assumes "handed_over dev own n h"
  shows "rh_own_name h = own" "rh_inactive_after_handoff h" "\<not> rh_we_are_active h"
    "\<forall>j\<in>set (rh_jobs h). rj_captured_seq j < rh_mutation_seq h" "unat (rh_mutation_seq h) + n < 2 ^ 64"
    "handed_over dev own n h \<Longrightarrow> he_device_id env = dev \<Longrightarrow> embedded_owns_global_transport h \<Longrightarrow> resume_now env h = None"
  using assms resume_when_idle [of h env] resume_on_foreign [of env h] by (auto simp: handed_over_def)

lemma handed_over_less: "handed_over dev own (Suc n) h \<Longrightarrow> handed_over dev own n h"
  by (auto simp: handed_over_def)

lemma handed_over_sub:
  assumes "handed_over dev own (Suc n) h" "rh_own_name h' = rh_own_name h"
    "rh_inactive_after_handoff h' = rh_inactive_after_handoff h" "rh_we_are_active h' = rh_we_are_active h"
    "rh_embedded h' = rh_embedded h" "rh_active h' = rh_active h"
    "ck_device (rh_clock h') = ck_device (rh_clock h)" "ck_is_playing (rh_clock h') = ck_is_playing (rh_clock h)"
    "rh_mutation_seq h' = rh_mutation_seq h" "\<And>j. j \<in> set (rh_jobs h') \<Longrightarrow> j \<in> set (rh_jobs h)"
  shows "handed_over dev own n h'"
  by (rule handed_over_cong [OF assms(1)])
    (use handed_overD(2,3) [OF assms(1)] assms in \<open>simp_all\<close>, blast)

lemma next_revision: "unat (s :: 64 word) + 1 < 2 ^ 64 \<Longrightarrow> unat (s + 1) = unat s + 1"
  by (simp add: unat_word_ariths)

lemma handed_over_probe:
  assumes "handed_over dev own (Suc n) h" "he_device_id env = dev"
  shows "handed_over dev own n (probe_player_health env up h)"
proof -
  have idle: "embedded_owns_global_transport h \<Longrightarrow> resume_now env h = None" "\<not> rh_we_are_active h"
    using handed_overD(3,6) [OF assms(1)] assms by auto
  have "probe_player_health env up h = h\<lparr>rh_health := rh_health (probe_player_health env up h)\<rparr>"
    by (cases "embedded_owns_global_transport h")
      (simp_all add: probe_player_health_def Let_def should_auto_reconnect_player_def idle)
  then show ?thesis by (rule ssubst) (auto intro: handed_over_sub [OF assms(1)])
qed

lemma handed_over_watchdog:
  assumes "handed_over dev own (Suc n) h" "he_device_id env = dev"
  shows "handed_over dev own n (fst (watchdog_tick env samples h)) \<and> snd (watchdog_tick env samples h) = []"
proof -
  have "\<not> (ck_is_playing (rh_clock h) \<and> embedded_owns_global_transport h \<and> \<not> active_device_is_foreign env h)"
    using assms by (auto simp: handed_over_def)
  then have "watchdog_tick env samples h =
      ((record_audio_flow True None (h\<lparr>rh_stalled_since := None\<rparr>))\<lparr>rh_last_samples := samples\<rparr>, [])"
    unfolding watchdog_tick_def Let_def classify_audio_flow_def by (simp del: foreign_snapshot)
  then show ?thesis by (auto intro!: handed_over_sub [OF assms(1)] simp: record_audio_flow_def)
qed

lemma handed_over_job:
  assumes "handed_over dev own (Suc n) h" "i < length (rh_jobs h)"
  shows "handed_over dev own n (fst (job_step env i ok h)) \<and> snd (job_step env i ok h) = []"
proof -
  have "\<not> still_wanted env h (rh_jobs h ! i)"
    using handed_overD(4) [OF assms(1)] assms(2) by (auto simp: still_wanted_def)
  then have "job_step env i ok h = (end_job i h, [])" using unwanted_job_ends [OF assms(2)] by auto
  then show ?thesis by (auto intro: handed_over_sub [OF assms(1)])
qed


lemma handed_over_poll:
  assumes "handed_over dev own (Suc n) h" "he_device_id env = dev"
    "foreign_device dev own (pb_device p) \<or> pb_device p = None \<and> \<not> pb_is_playing p"
  shows "handed_over dev own n (fst (commit_playback_poll env pr p rvn t h))"
proof (cases rule: committed_poll [of env pr p rvn t h])
  case discarded
  then show ?thesis using assms handed_over_less by simp
next
  case (prepared clock)
  then show ?thesis using assms(1) by (auto intro: handed_over_sub)
next
  case (applied clock)
  let ?h = "fst (apply_playback_poll env pr p rvn t (h\<lparr>rh_clock := clock\<rparr>))"
  have own: "rh_own_name h = own" "\<not> rh_we_are_active h" using assms(1) by (simp_all add: handed_over_def)
  have "\<not> (\<exists>d. pb_device p = Some d \<and> device_is_ours env (h\<lparr>rh_clock := clock\<rparr>) d)"
    using assms(2,3) own by (auto simp: device_is_ours_def own_device_id_def foreign_device_def split: option.splits)
  then have inactive: "\<not> rh_we_are_active ?h"
    using applied_poll_active [of env pr p rvn t "h\<lparr>rh_clock := clock\<rparr>"] own by auto
  have quiet: "embedded_owns_global_transport h \<longrightarrow>
      \<not> ck_is_playing (rh_clock ?h) \<or> foreign_device dev own (ck_device (rh_clock ?h))"
    using applied_poll_heard [of env pr p rvn t "h\<lparr>rh_clock := clock\<rparr>"] applied(2) assms(1,3)
    by (auto simp: handed_over_def split: if_splits)
  show ?thesis
    using applied_poll [of env pr p rvn t "h\<lparr>rh_clock := clock\<rparr>"] assms(1) inactive quiet
    by (simp add: handed_over_def applied(1) embedded_owns_global_transport_def)
qed

lemma inactive_owner: "rh_inactive_after_handoff h \<Longrightarrow> event_owns_global_transport ev h \<Longrightarrow> ev = Deactivated"
  by (simp add: event_owns_global_transport_def)

lemma owner_of_transport:
  "rh_inactive_after_handoff h \<Longrightarrow> embedded_owns_global_transport h \<Longrightarrow> event_owns_global_transport Deactivated h"
  by (auto simp: event_owns_global_transport_def embedded_owns_global_transport_def split: option.splits)

text \<open>After a hand-over only another deactivation is looked at; it revokes once more.\<close>

lemma deactivated_absorbed:
  fixes env pr h
  assumes "rh_inactive_after_handoff h" "\<not> rh_we_are_active h"
  defines "h' \<equiv> fst (snd (absorb_player_event env pr Deactivated h))"
  shows "rh_own_name h' = rh_own_name h" "rh_inactive_after_handoff h'" "\<not> rh_we_are_active h'"
    "rh_jobs h' = rh_jobs h" "rh_mutation_seq h' = rh_mutation_seq h"
    "embedded_owns_global_transport h' \<Longrightarrow> \<not> ck_is_playing (rh_clock h') \<or>
      foreign_device (he_device_id env) (rh_own_name h) (ck_device (rh_clock h'))"
  using assms(1,2) owner_of_transport [of h]
  by (auto simp: h'_def absorb_player_event_def Let_def split_beta reclaim_inactive apply_owned_event_def claims_activity_def
      embedded_owns_global_transport_def enrich_from_lookup_def player_event_media_uri_def note_volume_def
      split: if_splits option.splits)

lemma handed_over_deactivated:
  assumes "rh_own_name h = own" "he_device_id env = dev"
    "\<forall>j\<in>set (rh_jobs h). rj_captured_seq j \<le> rh_mutation_seq h" "unat (rh_mutation_seq h) + Suc n < 2 ^ 64"
  shows "handed_over dev own n (fst (forward_player_event env pr Deactivated h))"
proof -
  let ?h = "note_deactivation Deactivated h"
  have h: "rh_inactive_after_handoff ?h" "\<not> rh_we_are_active ?h" "rh_mutation_seq ?h = rh_mutation_seq h + 1"
    by (simp_all add: note_deactivation_def bump_mutation_seq_def)
  have "fst (forward_player_event env pr Deactivated h) = fst (snd (absorb_player_event env pr Deactivated ?h))"
    by (simp add: forward_player_event_def Let_def translate_player_event_def session_lost_def split: prod.splits)
  moreover have next_seq: "unat (rh_mutation_seq h + 1) = unat (rh_mutation_seq h) + 1"
    using assms(4) by (intro next_revision) simp
  moreover have "\<forall>j\<in>set (rh_jobs h). rj_captured_seq j < rh_mutation_seq h + 1"
    using assms(3) next_seq by (auto simp: word_less_nat_alt word_le_nat_alt le_less_trans)
  ultimately show ?thesis
    using deactivated_absorbed [OF h(1,2), of env pr] h(3) assms(1,2,4) by (auto simp: handed_over_def)
qed

lemma handed_over_relay:
  assumes "handed_over dev own (Suc n) h" "he_device_id env = dev" "ev \<noteq> Activated"
  shows "handed_over dev own n (fst (forward_player_event env pr ev h))"
proof (cases "ev = Deactivated")
  case True
  have "\<forall>j\<in>set (rh_jobs h). rj_captured_seq j \<le> rh_mutation_seq h"
    using handed_overD(4) [OF assms(1)] by (auto simp: less_imp_le)
  then show ?thesis using handed_over_deactivated [of h own env dev n pr] handed_overD [OF assms(1)] assms True by simp
next
  case False
  have "handed_over dev own (Suc n) (fst (forward_player_event env pr ev h))"
  proof (rule forward_preserves [where P = "handed_over dev own (Suc n)", OF assms(1)])
    fix h assume h: "handed_over dev own (Suc n) h"
    show "handed_over dev own (Suc n) (note_deactivation ev h)" using h False by (simp add: note_deactivation_def)
    show "handed_over dev own (Suc n) (fst (reclaim_transport ev h))"
      using h by (simp add: reclaim_inactive handed_overD(2) [OF h])
    show "handed_over dev own (Suc n) (h\<lparr>rh_session := s\<rparr>)" for s
      using h by (simp add: handed_over_def embedded_owns_global_transport_def)
    show "handed_over dev own (Suc n) (enrich_from_lookup env ev h)"
      using h by (simp add: handed_over_def embedded_owns_global_transport_def)
    show "ev = Activated \<Longrightarrow> handed_over dev own (Suc n) (h\<lparr>rh_inactive_after_handoff := False\<rparr>)" using assms(3) by simp
    show "event_owns_global_transport ev h \<Longrightarrow> handed_over dev own (Suc n) (apply_owned_event env ev h)"
      using inactive_owner handed_overD(2) [OF h] False by blast
    show "handed_over dev own (Suc n) (note_volume env owns ev h)"
      if "owns \<longrightarrow> (\<exists>h0. handed_over dev own (Suc n) h0 \<and> event_owns_global_transport ev h0)" for owns
    proof -
      have "\<not> owns" using that inactive_owner handed_overD(2) False by blast
      then have "rh_clock (note_volume env owns ev h) = rh_clock h"
        by (simp add: note_volume_def Let_def split: player_event.splits)
      then show ?thesis using h by (simp add: handed_over_def embedded_owns_global_transport_def)
    qed
    show "handed_over dev own (Suc n) (reconnect_after_drop env h)"
      if "handed_over dev own (Suc n) h0" "event_owns_global_transport ev h0" for h0
      using inactive_owner that handed_overD(2) False by blast
  qed
  then show ?thesis by (rule handed_over_less)
qed


fun no_new_claim :: "(string \<Rightarrow> string) \<Rightarrow> string option \<Rightarrow> host_env \<times> host_event \<Rightarrow> bool" where
  "no_new_claim dev own (env, PlayerSays provider ev) \<longleftrightarrow> he_device_id env = dev \<and> ev \<noteq> Activated"
| "no_new_claim dev own (env, PollAnswer provider p rvn t) \<longleftrightarrow> he_device_id env = dev \<and>
     (foreign_device dev own (pb_device p) \<or> pb_device p = None \<and> \<not> pb_is_playing p)"
| "no_new_claim dev own (env, e) \<longleftrightarrow> he_device_id env = dev"

lemma handed_over_step:
  assumes "handed_over dev own (Suc n) h" "no_new_claim dev own (env, e)"
  shows "handed_over dev own n (fst (host_step env e h)) \<and> untouched (snd (host_step env e h))"
proof (cases e)
  case (PlayerSays provider ev)
  then show ?thesis using assms by (simp add: handed_over_relay forward_untouched)
next
  case (HealthProbe up)
  then show ?thesis using assms by (simp add: handed_over_probe)
next
  case (WatchdogTick samples)
  then show ?thesis using assms handed_over_watchdog [of dev own n h env samples] by simp
next
  case (JobStep i ok)
  then show ?thesis using assms handed_over_job [of dev own n h i env ok] handed_over_less by simp
next
  case (JobTimeout i)
  have "handed_over dev own n (job_timeout i h)" if "i < length (rh_jobs h)"
    using timeout_jobs [OF _ that] handed_overD(2,3) [OF assms(1)] by (intro handed_over_cong [OF assms(1)]) auto
  then show ?thesis using assms handed_over_less JobTimeout by simp
next
  case (PollAnswer provider p rvn t)
  then show ?thesis using assms by (simp add: handed_over_poll)
qed



section \<open>Giving up\<close>

definition registers :: "host_effect list \<Rightarrow> nat" where
  "registers fxs = length (filter (\<lambda>fx. case fx of PlayerRegister _ \<Rightarrow> True | _ \<Rightarrow> False) fxs)"

definition pending :: "recovery_host \<Rightarrow> nat" where
  "pending h = length (filter (\<lambda>j. rj_phase j \<noteq> Registering) (rh_jobs h))"

definition failures :: "recovery_host \<Rightarrow> nat" where
  "failures h = ph_consecutive_failures (rh_health h)"

lemma registers_simps [simp]:
  "registers [] = 0" "registers (fx @ fx') = registers fx + registers fx'"
  "registers [PlayerRegister n] = 1" "registers [PlayerShutdown] = 0" "registers [PlayerResume u p] = 0"
  by (simp_all add: registers_def)

fun session_down :: "host_event \<Rightarrow> bool" where
  "session_down (HealthProbe up) \<longleftrightarrow> \<not> up"
| "session_down (JobStep i ok) \<longleftrightarrow> True"
| "session_down (JobTimeout i) \<longleftrightarrow> True"
| "session_down _ \<longleftrightarrow> False"

lemma reconnect_backoff_bounds: "1000 \<le> reconnect_backoff n \<and> reconnect_backoff n \<le> 30000"
proof -
  have "(1::nat) \<le> 2 ^ min (n - 1) 32" by simp
  then show ?thesis
    by (auto simp: reconnect_backoff_def Let_def PLAYER_RECONNECT_BASE_BACKOFF_def PLAYER_RECONNECT_MAX_BACKOFF_def sat_u64_def
        u64_max_def min_def)
qed

lemma reconnect_backoff_doubles:
  "reconnect_backoff 0 = 1000" "1 \<le> n \<Longrightarrow> reconnect_backoff n = min 30000 (1000 * 2 ^ (n - 1))"
proof -
  show "reconnect_backoff 0 = 1000"
    by (simp add: reconnect_backoff_def PLAYER_RECONNECT_BASE_BACKOFF_def PLAYER_RECONNECT_MAX_BACKOFF_def sat_u64_def u64_max_def)
  assume n: "1 \<le> n"
  show "reconnect_backoff n = min 30000 (1000 * 2 ^ (n - 1))"
  proof (cases "n - 1 \<le> 4")
    case True
    then have "n \<in> {1, 2, 3, 4, 5}" using n by auto
    then show ?thesis
      by (auto simp: reconnect_backoff_def PLAYER_RECONNECT_BASE_BACKOFF_def PLAYER_RECONNECT_MAX_BACKOFF_def sat_u64_def u64_max_def)
  next
    case False
    have small: "(2::nat) ^ 5 \<le> 2 ^ min (n - 1) 32" "(2::nat) ^ 5 \<le> 2 ^ (n - 1)"
      by (rule power_increasing; use False in simp)+
    have "(2::nat) ^ min (n - 1) 32 \<le> 2 ^ 32" by (rule power_increasing) auto
    then show ?thesis using small
      by (auto simp: reconnect_backoff_def Let_def PLAYER_RECONNECT_BASE_BACKOFF_def PLAYER_RECONNECT_MAX_BACKOFF_def sat_u64_def
          u64_max_def min_def)
  qed
qed


text \<open>The daemon wants its device, and has given up once more than five probes failed.\<close>

definition wanting :: "recovery_host \<Rightarrow> bool" where
  "wanting h \<longleftrightarrow> embedded_owns_global_transport h \<and> rh_we_are_active h \<and>
     (5 < failures h \<longrightarrow> ph_gave_up (rh_health h)) \<and> (\<forall>j\<in>set (rh_jobs h). 1000 \<le> rj_backoff j \<and> rj_backoff j \<le> 30000)"

lemma job_at:
  assumes "i < length (rh_jobs h)"
  obtains js js' where "rh_jobs h = js @ (rh_jobs h ! i) # js'" "length js = i"
  using id_take_nth_drop [OF assms] assms that [of "take i (rh_jobs h)"] by simp

lemma end_job_others [simp]:
  "rh_health (end_job i h) = rh_health h" "rh_health (move_job i ph h) = rh_health h"
  "rh_health (job_timeout i h) = rh_health h"
  by (simp_all add: end_job_def move_job_def job_timeout_def)


lemma job_pending:
  assumes i: "i < length (rh_jobs h)"
  shows "registers (snd (job_step env i ok h)) + pending (fst (job_step env i ok h)) \<le> pending h"
    and "pending (job_timeout i h) = pending h"
proof -
  obtain js js' where js: "rh_jobs h = js @ (rh_jobs h ! i) # js'" "length js = i" by (rule job_at [OF i])
  define j where "j = rh_jobs h ! i"
  have jobs: "rh_jobs h = js @ j # js'" using js(1) by (simp add: j_def)
  have nth: "(js @ j # js') ! i = j" using js(2) by auto
  have gone: "rh_jobs (end_job i h) = js @ js'" using jobs js(2) by (simp add: end_job_def)
  have moved: "rh_jobs (move_job i ph h) = js @ (j\<lparr>rj_phase := ph\<rparr>) # js'" for ph
    using js(2) by (simp add: move_job_def jobs nth list_update_append)
  show "registers (snd (job_step env i ok h)) + pending (fst (job_step env i ok h)) \<le> pending h"
    by (cases "rj_phase j"; cases "ok \<and> still_wanted env h j"; cases "still_wanted env h j"; cases "rj_resume j")
      (simp_all add: job_step_def Let_def jobs nth pending_def gone moved split_beta)
  show "pending (job_timeout i h) = pending h"
    using js(2) by (simp add: job_timeout_def pending_def jobs nth list_update_append)
qed

text \<open>A probe of a lost session: it counts the failure and schedules at most one reconnect, early enough.\<close>

lemma probe_down:
  fixes env h
  assumes "wanting h"
  defines "h' \<equiv> probe_player_health env False h"
  shows "failures h' = sat_succ (failures h)" "wanting h'"
    "pending h' + min (failures h) 5 \<le> pending h + min (failures h') 5"
proof -
  have owns: "embedded_owns_global_transport h" "rh_we_are_active h" using assms(1) by (simp_all add: wanting_def)
  define go where "go \<longleftrightarrow> \<not> rh_in_flight h \<and> sat_succ (failures h) - 1 < 5"
  have same: "rh_clock h' = rh_clock h" "rh_embedded h' = rh_embedded h" "rh_active h' = rh_active h" "rh_we_are_active h'"
    "failures h' = sat_succ (failures h)"
    using owns(2) unfolding h'_def probe_player_health_def Let_def failures_def
    by (simp_all add: owns(1) schedule_player_reconnect_def)
  have stays: "ph_gave_up (rh_health h') = (ph_gave_up (rh_health h) \<or> 5 \<le> sat_succ (failures h))" "rh_jobs h' = rh_jobs h" if "\<not> go"
    using that owns unfolding h'_def probe_player_health_def Let_def
    by (auto simp: go_def should_auto_reconnect_player_def failures_def PLAYER_RECONNECT_GIVE_UP_AFTER_def)
  have goes: "ph_gave_up (rh_health h') = ph_gave_up (rh_health h)"
    "\<exists>j. rh_jobs h' = rh_jobs h @ [j] \<and> rj_phase j = Sleeping \<and> 1000 \<le> rj_backoff j \<and> rj_backoff j \<le> 30000" if go
    using that owns reconnect_backoff_bounds unfolding h'_def probe_player_health_def Let_def
    by (simp_all add: go_def should_auto_reconnect_player_def failures_def PLAYER_RECONNECT_GIVE_UP_AFTER_def
        schedule_player_reconnect_def)
  show "failures h' = sat_succ (failures h)" by (rule same)
  show "wanting h'"
    using same goes stays assms(1) by (cases go) (auto simp: wanting_def embedded_owns_global_transport_def go_def)
  show "pending h' + min (failures h) 5 \<le> pending h + min (failures h') 5"
    using same(5) goes(2) stays(2) by (cases go) (auto simp: pending_def sat_succ_def min_def go_def split: if_splits)
qed


lemma job_host:
  assumes "wanting h" "i < length (rh_jobs h)"
  shows "wanting (fst (job_step env i ok h)) \<and> failures (fst (job_step env i ok h)) = failures h"
    and "wanting (job_timeout i h) \<and> failures (job_timeout i h) = failures h"
proof -
  have ended: "wanting (end_job i h)" "failures (end_job i h) = failures h"
    using assms(1) by (auto simp: wanting_def failures_def embedded_owns_global_transport_def)
  have "rj_backoff j \<in> rj_backoff ` set (rh_jobs h)" if "j \<in> set (rh_jobs (move_job i ph h))" for j ph
    using that assms(2) set_update_subset_insert [of "rh_jobs h" i "(rh_jobs h ! i)\<lparr>rj_phase := ph\<rparr>"]
    by (force simp: move_job_def)
  then have moved: "wanting (move_job i ph h)" "failures (move_job i ph h) = failures h" for ph
    using assms(1) by (fastforce simp: wanting_def failures_def embedded_owns_global_transport_def move_job_def)+
  show "wanting (fst (job_step env i ok h)) \<and> failures (fst (job_step env i ok h)) = failures h"
    by (simp add: job_step_def Let_def ended moved split: reconnect_phase.splits)
  have "rj_backoff j \<in> rj_backoff ` set (rh_jobs h)" if "j \<in> set (rh_jobs (job_timeout i h))" for j
    using that assms(2) set_update_subset_insert [of "rh_jobs h" i "(rh_jobs h ! i)\<lparr>rj_waiting := False\<rparr>"]
    by (force simp: job_timeout_def split: if_splits)
  then show "wanting (job_timeout i h) \<and> failures (job_timeout i h) = failures h"
    using assms(1) by (fastforce simp: wanting_def failures_def embedded_owns_global_transport_def)
qed

definition probes :: "(host_env \<times> host_event) list \<Rightarrow> nat" where
  "probes steps = length (filter (\<lambda>s. snd s = HealthProbe False) steps)"

lemma down_step:
  assumes "wanting h" "session_down e"
  shows "wanting (fst (host_step env e h))"
    and "failures (fst (host_step env e h)) = (if e = HealthProbe False then sat_succ (failures h) else failures h)"
    and "registers (snd (host_step env e h)) + pending (fst (host_step env e h)) + min (failures h) 5
      \<le> pending h + min (failures (fst (host_step env e h))) 5"
  using assms probe_down [OF assms(1), of env] job_host [OF assms(1)] job_pending [of _ h]
  by (cases e; simp; fastforce)+

lemma down_run:
  assumes "wanting h" "\<forall>s\<in>set steps. session_down (snd s)"
  shows "wanting (fst (host_run steps h)) \<and>
    min 6 (failures (fst (host_run steps h))) = min 6 (failures h + probes steps) \<and>
    registers (snd (host_run steps h)) + min (failures h) 5 \<le> pending h + min (failures (fst (host_run steps h))) 5"
  using assms
proof (induction steps arbitrary: h)
  case (Cons s steps)
  obtain env e where s: "s = (env, e)" by force
  let ?h = "fst (host_step env e h)"
  have down: "session_down e" using Cons.prems(2) by (simp add: s)
  have rest: "wanting (fst (host_run steps ?h)) \<and>
    min 6 (failures (fst (host_run steps ?h))) = min 6 (failures ?h + probes steps) \<and>
    registers (snd (host_run steps ?h)) + min (failures ?h) 5 \<le> pending ?h + min (failures (fst (host_run steps ?h))) 5"
    using Cons.IH [of ?h] down_step(1) [OF Cons.prems(1) down] Cons.prems(2) by simp
  have run: "host_run (s # steps) h = (fst (host_run steps ?h), snd (host_step env e h) @ snd (host_run steps ?h))"
    by (simp add: s split: prod.splits)
  have "min 6 (failures ?h + probes steps) = min 6 (failures h + probes (s # steps))"
    using down_step(2) [OF Cons.prems(1) down, of env] by (auto simp: probes_def s sat_succ_def min_def)
  then show ?case using rest down_step(3) [OF Cons.prems(1) down, of env] by (simp add: run)
qed (simp add: probes_def)




section \<open>The watchdog\<close>

definition hears_own :: "(string \<Rightarrow> string) \<Rightarrow> recovery_host \<Rightarrow> bool" where
  "hears_own dev h \<longleftrightarrow> ck_is_playing (rh_clock h) \<and> embedded_owns_global_transport h \<and>
     \<not> foreign_device dev (rh_own_name h) (ck_device (rh_clock h))"

definition tick_of :: "u64 \<Rightarrow> host_env \<Rightarrow> host_env \<times> host_event" where
  "tick_of n env = (env, WatchdogTick (Some n))"

lemma tolerated_tick:
  assumes "hears_own (he_device_id env) h" "rh_last_samples h = Some n"
    "he_now_ms env - (case rh_stalled_since h of Some t \<Rightarrow> t | None \<Rightarrow> he_now_ms env) < 6000"
  shows "watchdog_tick env (Some n) h =
    (h\<lparr>rh_stalled_since := Some (case rh_stalled_since h of Some t \<Rightarrow> t | None \<Rightarrow> he_now_ms env)\<rparr>, [])"
proof -
  have "6000 \<le> sat_i64 x \<longleftrightarrow> 6000 \<le> x" for x by (auto simp: sat_i64_def i64_max_def i64_min_def)
  then show ?thesis using assms
    by (cases "rh_stalled_since h")
      (simp_all add: watchdog_tick_def Let_def hears_own_def classify_audio_flow_def AUDIO_STALL_THRESHOLD_MS_def not_le)
qed


lemma tolerated_ticks:
  assumes "hears_own dev h" "rh_last_samples h = Some n" "rh_stalled_since h = Some t"
    and "\<forall>env\<in>set envs. he_device_id env = dev \<and> he_now_ms env - t < 6000"
  shows "host_run (map (tick_of n) envs) h = (h, [])"
  using assms(4)
proof (induction envs)
  case (Cons env envs)
  have "watchdog_tick env (Some n) h = (h, [])"
    using tolerated_tick [of env h n] assms(1-3) Cons.prems by (simp add: hears_own_def)
  then show ?case using Cons by (simp add: tick_of_def)
qed simp

lemma stalling_tick:
  assumes "hears_own (he_device_id env) h" "rh_last_samples h = Some n" "rh_stalled_since h = Some t"
    "6000 \<le> he_now_ms env - t" "rh_we_are_active h \<or> resume_now env h \<noteq> None" "\<not> rh_in_flight h"
  defines "h' \<equiv> fst (watchdog_tick env (Some n) h)"
  shows "\<not> ck_is_playing (rh_clock h')" "ph_last_stall_ms (rh_health h') = Some (he_now_ms env)"
    "\<not> ph_samples_advancing (rh_health h')" "rh_stalled_since h' = None" "rh_in_flight h'"
    "\<exists>j. rh_jobs h' = rh_jobs h @ [j] \<and> rj_phase j = Sleeping \<and> rj_resume j = resume_now env h"
proof -
  have "6000 \<le> sat_i64 x \<longleftrightarrow> 6000 \<le> x" for x by (auto simp: sat_i64_def i64_max_def i64_min_def)
  then have stalled: "watchdog_tick env (Some n) h =
     (case handle_audio_stall env (record_audio_flow False (Some (he_now_ms env)) h) of
        (h', fx) \<Rightarrow> (h'\<lparr>rh_stalled_since := None, rh_last_samples := Some n\<rparr>, fx))"
    using assms(1-4) by (simp add: watchdog_tick_def Let_def hears_own_def classify_audio_flow_def AUDIO_STALL_THRESHOLD_MS_def split_beta)
  define g where "g = record_audio_flow False (Some (he_now_ms env)) h"
  have g: "embedded_owns_global_transport g" "resume_now env g = resume_now env h" "rh_we_are_active g = rh_we_are_active h"
    "\<not> rh_in_flight g" "rh_jobs g = rh_jobs h" "ph_last_stall_ms (rh_health g) = Some (he_now_ms env)"
    "\<not> ph_samples_advancing (rh_health g)"
    using assms(1,6)
    by (simp_all add: g_def record_audio_flow_def hears_own_def embedded_owns_global_transport_def resume_now_def own_device_id_def)
  note defs = h'_def stalled g_def [symmetric] handle_audio_stall_def g Let_def split_beta trigger_audio_stall_recovery_def
    schedule_player_reconnect_def
  show "\<not> ck_is_playing (rh_clock h')" "ph_last_stall_ms (rh_health h') = Some (he_now_ms env)"
    "\<not> ph_samples_advancing (rh_health h')" "rh_stalled_since h' = None" "rh_in_flight h'"
    "\<exists>j. rh_jobs h' = rh_jobs h @ [j] \<and> rj_phase j = Sleeping \<and> rj_resume j = resume_now env h"
    using assms(5) by (simp_all add: defs)
qed

text \<open>
  While the clock plays on our device and the sample counter stands still, the watchdog first only starts its
  timer; the tick at which six seconds have passed stops the clock, records the stall and schedules one
  reconnect with the playback that was interrupted.
\<close>
theorem watchdog_detects_silence:
  assumes "hears_own dev h" "rh_last_samples h = Some n" "rh_stalled_since h = None"
    and "rh_we_are_active h \<or> resume_now last_env h \<noteq> None" "\<not> rh_in_flight h"
    and "\<forall>env\<in>set (env0 # envs). he_device_id env = dev \<and> he_now_ms env - he_now_ms env0 < 6000"
    and "he_device_id last_env = dev" "6000 \<le> he_now_ms last_env - he_now_ms env0"
  shows "host_run (map (tick_of n) (env0 # envs)) h = (h\<lparr>rh_stalled_since := Some (he_now_ms env0)\<rparr>, []) \<and>
    (let h' = fst (host_run (map (tick_of n) (env0 # envs @ [last_env])) h)
     in \<not> ck_is_playing (rh_clock h') \<and> ph_last_stall_ms (rh_health h') = Some (he_now_ms last_env) \<and>
        \<not> ph_samples_advancing (rh_health h') \<and> rh_stalled_since h' = None \<and> rh_in_flight h' \<and>
        (\<exists>j. rh_jobs h' = rh_jobs h @ [j] \<and> rj_phase j = Sleeping \<and> rj_resume j = resume_now last_env h))"
proof -
  let ?h = "h\<lparr>rh_stalled_since := Some (he_now_ms env0)\<rparr>"
  have first: "watchdog_tick env0 (Some n) h = (?h, [])"
    using tolerated_tick [of env0 h n] assms by simp
  have own: "hears_own dev ?h" "resume_now last_env ?h = resume_now last_env h"
    using assms(1) by (simp_all add: hears_own_def embedded_owns_global_transport_def resume_now_def own_device_id_def)
  have middle: "host_run (map (tick_of n) envs) ?h = (?h, [])"
    using tolerated_ticks [OF own(1)] assms(2,6) by simp
  have more: "host_run (xs @ ys) g = (case host_run xs g of (g', fx) \<Rightarrow> (case host_run ys g' of (g'', fx') \<Rightarrow> (g'', fx @ fx')))" for xs ys g
    by (induction xs arbitrary: g) (auto split: prod.splits)
  have "fst (host_run (map (tick_of n) (env0 # envs @ [last_env])) h) = fst (watchdog_tick last_env (Some n) ?h)"
    using first middle by (simp add: tick_of_def more split: prod.splits)
  moreover have "host_run (map (tick_of n) (env0 # envs)) h = (?h, [])"
    using first middle by (simp add: tick_of_def)
  ultimately show ?thesis
    using stalling_tick [of last_env ?h n "he_now_ms env0"] own assms(2,4,5,7,8) by simp
qed

theorem watchdog_detects_silence_witness:
  "(\<exists>j. rh_jobs (fst (host_run (map (tick_of 44100) (sample_env 0 # [sample_env 2000, sample_env 4000] @ [sample_env 6000]))
       (sample_host None))) = [j] \<and> rj_resume j = resume_now (sample_env 6000) (sample_host None)) \<and>
   map_option fst (resume_now (sample_env 6000) (sample_host None)) = Some ''spotify:track:a''"
proof -
  have resume: "map_option fst (resume_now (sample_env 6000) (sample_host None)) = Some ''spotify:track:a''"
    by (simp add: resume_now_def resume_target_after_drop_def sample_host_def sample_playing_def clock_empty_def media_stub_def)
  have own: "hears_own (\<lambda>n. ''id-'' @ n) (sample_host None)"
    by (simp add: hears_own_def sample_host_def sample_playing_def embedded_owns_global_transport_def clock_empty_def)
  have host: "rh_last_samples (sample_host None) = Some 44100" "rh_stalled_since (sample_host None) = None"
    "rh_we_are_active (sample_host None)" "\<not> rh_in_flight (sample_host None)" "rh_jobs (sample_host None) = []"
    by (simp_all add: sample_host_def)
  have env: "he_device_id (sample_env t) = (\<lambda>n. ''id-'' @ n)" "he_now_ms (sample_env t) = t" for t
    by (simp_all add: sample_env_def)
  have ticks: "\<forall>env\<in>set (sample_env 0 # [sample_env 2000, sample_env 4000]).
      he_device_id env = (\<lambda>n. ''id-'' @ n) \<and> he_now_ms env - he_now_ms (sample_env 0) < 6000"
    "6000 \<le> he_now_ms (sample_env 6000) - he_now_ms (sample_env 0)"
    by (simp_all add: env)
  note caught = watchdog_detects_silence [OF own host(1,2) disjI1 [OF host(3)] host(4) ticks(1) env(1) ticks(2)]
  then show ?thesis using resume host(5) unfolding Let_def by (auto simp del: host_run.simps)
qed

end
