(* ===== verification/Provider_Catalog.thy ===== *)
theory Provider_Catalog
  imports Resource_Uri
begin

text \<open>
  Provider identities, capability declarations and the catalog the daemon publishes
  (\<open>spotuify-core/src/provider.rs\<close>). A provider identifier is its text; the constructor's check is
  \<open>provider_id_new\<close>.
\<close>

section \<open>Identities\<close>

type_synonym provider_id = string

definition provider_id_new :: "string \<Rightarrow> (provider_id, string) result" where
  "provider_id_new v =
     (let valid = (case v of
          [] \<Rightarrow> False
        | c # cs \<Rightarrow> is_ascii_lowercase c \<and> list_all (\<lambda>b. is_ascii_lowercase b \<or> is_ascii_digit b \<or> b = CHR ''-'') cs)
      in if \<not> valid then Err v else Ok v)"

section \<open>Capabilities\<close>

record search_caps =
  sc_remote :: bool
  sc_kinds :: "media_kind list"
  sc_max_page_size :: "nat option"
  sc_max_query_chars :: "nat option"

record catalog_caps =
  cc_lookup_kinds :: "media_kind list"
  cc_recently_played :: bool
  cc_recently_played_max_page_size :: "nat option"
  cc_album_tracks :: bool
  cc_album_tracks_max_page_size :: "nat option"
  cc_artist_albums :: bool
  cc_artist_albums_max_page_size :: "nat option"
  cc_show_episodes :: bool
  cc_show_episodes_max_page_size :: "nat option"

record library_caps =
  lc_read_kinds :: "media_kind list"
  lc_save_kinds :: "media_kind list"
  lc_follow_kinds :: "media_kind list"
  lc_mutation_max_batch :: "nat option"
  lc_max_page_size :: "nat option"
  lc_freshness_probe :: bool

definition can_read :: "library_caps \<Rightarrow> media_kind \<Rightarrow> bool" where "can_read c kind \<longleftrightarrow> kind \<in> set (lc_read_kinds c)"
definition can_save :: "library_caps \<Rightarrow> media_kind \<Rightarrow> bool" where "can_save c kind \<longleftrightarrow> kind \<in> set (lc_save_kinds c)"
definition can_follow :: "library_caps \<Rightarrow> media_kind \<Rightarrow> bool" where "can_follow c kind \<longleftrightarrow> kind \<in> set (lc_follow_kinds c)"

record playlist_caps =
  plc_list :: bool
  plc_item_read :: bool
  plc_create :: bool
  plc_add :: bool
  plc_remove :: bool
  plc_reorder :: bool
  plc_image :: bool
  plc_unfollow :: bool
  plc_version_tokens :: bool
  plc_list_max_page_size :: "nat option"
  plc_items_max_page_size :: "nat option"
  plc_add_max_batch :: "nat option"
  plc_remove_max_batch :: "nat option"

record transport_caps =
  tc_playback_state :: bool
  tc_play :: bool
  tc_pause :: bool
  tc_resume :: bool
  tc_next :: bool
  tc_previous :: bool
  tc_seek :: bool
  tc_volume :: bool
  tc_shuffle :: bool
  tc_repeat :: bool
  tc_queue_read :: bool
  tc_queue_snapshots_complete :: bool
  tc_queue_add :: bool
  tc_devices :: bool
  tc_transfer :: bool

record extras_caps =
  xc_native_lyrics :: bool
  xc_related_artists :: bool
  xc_radio :: bool
  xc_artist_top_tracks :: bool

record provider_caps =
  pc_search :: search_caps
  pc_catalog :: catalog_caps
  pc_library :: library_caps
  pc_playlists :: playlist_caps
  pc_transport :: "transport_caps option"
  pc_extras :: extras_caps

definition default_search_caps :: search_caps where
  "default_search_caps = \<lparr>sc_remote = False, sc_kinds = [], sc_max_page_size = None, sc_max_query_chars = None\<rparr>"

definition default_provider_caps :: provider_caps where
  "default_provider_caps = \<lparr>pc_search = default_search_caps,
     pc_catalog = \<lparr>cc_lookup_kinds = [], cc_recently_played = False, cc_recently_played_max_page_size = None,
       cc_album_tracks = False, cc_album_tracks_max_page_size = None, cc_artist_albums = False,
       cc_artist_albums_max_page_size = None, cc_show_episodes = False, cc_show_episodes_max_page_size = None\<rparr>,
     pc_library = \<lparr>lc_read_kinds = [], lc_save_kinds = [], lc_follow_kinds = [], lc_mutation_max_batch = None,
       lc_max_page_size = None, lc_freshness_probe = False\<rparr>,
     pc_playlists = \<lparr>plc_list = False, plc_item_read = False, plc_create = False, plc_add = False, plc_remove = False,
       plc_reorder = False, plc_image = False, plc_unfollow = False, plc_version_tokens = False,
       plc_list_max_page_size = None, plc_items_max_page_size = None, plc_add_max_batch = None, plc_remove_max_batch = None\<rparr>,
     pc_transport = None,
     pc_extras = \<lparr>xc_native_lyrics = False, xc_related_artists = False, xc_radio = False, xc_artist_top_tracks = False\<rparr>\<rparr>"

section \<open>The catalog\<close>

record provider_descriptor =
  pd_id :: provider_id
  pd_uri_scheme :: uri_scheme
  pd_display_name :: string
  pd_capabilities :: provider_caps
  pd_is_default :: bool

record provider_catalog =
  pg_default_provider :: "provider_id option"
  pg_providers :: "provider_descriptor list"

datatype catalog_error = DuplicateProviderId provider_id | DuplicateUriScheme uri_scheme | DefaultMismatch "provider_id option"

fun check_distinct_providers :: "provider_descriptor list \<Rightarrow> provider_id set \<Rightarrow> uri_scheme set \<Rightarrow> (unit, catalog_error) result" where
  "check_distinct_providers [] ids schemes = Ok ()"
| "check_distinct_providers (p # ps) ids schemes =
     (if pd_id p \<in> ids then Err (DuplicateProviderId (pd_id p))
      else if pd_uri_scheme p \<in> schemes then Err (DuplicateUriScheme (pd_uri_scheme p))
      else check_distinct_providers ps (insert (pd_id p) ids) (insert (pd_uri_scheme p) schemes))"

definition catalog_validate :: "provider_catalog \<Rightarrow> (unit, catalog_error) result" where
  "catalog_validate g = result_bind (check_distinct_providers (pg_providers g) {} {}) (\<lambda>_.
     let marked = filter pd_is_default (pg_providers g)
     in case pg_default_provider g of
          None \<Rightarrow> if marked = [] then Ok () else Err (DefaultMismatch None)
        | Some d \<Rightarrow> if length marked = 1 \<and> pd_id (hd marked) = d then Ok () else Err (DefaultMismatch (Some d)))"

definition descriptor_for_provider :: "provider_catalog \<Rightarrow> provider_id option \<Rightarrow> provider_descriptor option" where
  "descriptor_for_provider g provider =
     (case (case provider of Some p \<Rightarrow> Some p | None \<Rightarrow> pg_default_provider g) of
        None \<Rightarrow> None
      | Some p \<Rightarrow> find (\<lambda>d. pd_id d = p) (pg_providers g))"

section \<open>A valid catalog\<close>

lemma check_distinct_iff:
  "check_distinct_providers ps ids schemes = Ok () \<longleftrightarrow>
     distinct (map pd_id ps) \<and> distinct (map pd_uri_scheme ps) \<and>
     set (map pd_id ps) \<inter> ids = {} \<and> set (map pd_uri_scheme ps) \<inter> schemes = {}"
  by (induction ps arbitrary: ids schemes) auto

lemma catalog_validate_iff:
  "catalog_validate g = Ok () \<longleftrightarrow>
     distinct (map pd_id (pg_providers g)) \<and> distinct (map pd_uri_scheme (pg_providers g)) \<and>
     map pd_id (filter pd_is_default (pg_providers g)) = (case pg_default_provider g of None \<Rightarrow> [] | Some d \<Rightarrow> [d])"
  by (auto simp: catalog_validate_def check_distinct_iff Let_def length_Suc_conv split: option.splits)

lemma find_provider:
  "find (\<lambda>d. pd_id d = p) ps = Some d \<Longrightarrow> d \<in> set ps \<and> pd_id d = p"
  by (induction ps) (auto split: if_splits)

lemma descriptor_member: "descriptor_for_provider g p = Some d \<Longrightarrow> d \<in> set (pg_providers g)"
  by (auto simp: descriptor_for_provider_def split: option.splits dest: find_provider)

end
