(* ===== verification/Mcp_Tools.thy ===== *)
theory Mcp_Tools
  imports Provider_Catalog Rust_Float
begin

text \<open>
  The tool catalogue of the agent (MCP) server (\<open>spotuify-mcp/src/tools.rs\<close>, \<open>confirm.rs\<close>): JSON arguments, the
  table of tools, the confirmation gate, and the capability checks that decide which tools are listed and
  which calls are let through. Descriptions of tools and the wording of refusals are left out.
\<close>

section \<open>JSON\<close>

text \<open>A parsed JSON value as \<open>serde_json\<close> holds it; an object has its members in order, without repeated keys.\<close>

datatype json =
    JNull
  | JBool bool
  | JInt int
  | JFloat rfloat
  | JStr string
  | JArr "json list"
  | JObj "(string \<times> json) list"

definition json_get :: "json \<Rightarrow> string \<Rightarrow> json option" where
  "json_get v key = (case v of JObj members \<Rightarrow> map_of members key | _ \<Rightarrow> None)"

definition as_str :: "json \<Rightarrow> string option" where "as_str v = (case v of JStr s \<Rightarrow> Some s | _ \<Rightarrow> None)"
definition as_bool :: "json \<Rightarrow> bool option" where "as_bool v = (case v of JBool b \<Rightarrow> Some b | _ \<Rightarrow> None)"
definition as_array :: "json \<Rightarrow> json list option" where "as_array v = (case v of JArr vs \<Rightarrow> Some vs | _ \<Rightarrow> None)"

definition as_u64 :: "json \<Rightarrow> nat option" where
  "as_u64 v = (case v of JInt n \<Rightarrow> if 0 \<le> n \<and> n \<le> int u64_max then Some (nat n) else None | _ \<Rightarrow> None)"

definition as_i64 :: "json \<Rightarrow> int option" where
  "as_i64 v = (case v of JInt n \<Rightarrow> if in_i64 n then Some n else None | _ \<Rightarrow> None)"

definition as_f64 :: "json \<Rightarrow> rfloat option" where
  "as_f64 v = (case v of JInt n \<Rightarrow> Some (to_float f64 (of_int n)) | JFloat x \<Rightarrow> Some x | _ \<Rightarrow> None)"

section \<open>The table\<close>

datatype tool_kind = KindRead | KindTransport | KindDestructive | KindMercury | KindAnalytics | KindOps

record tool =
  tl_name :: string
  tl_kind :: tool_kind
  tl_destructive :: bool

definition mcp_tool :: "string \<Rightarrow> tool_kind \<Rightarrow> bool \<Rightarrow> tool" where
  "mcp_tool name kind destructive = \<lparr>tl_name = name, tl_kind = kind, tl_destructive = destructive\<rparr>"

definition TOOLS :: "tool list" where
  "TOOLS = [
     mcp_tool ''search'' KindRead False,
     mcp_tool ''now_playing'' KindRead False,
     mcp_tool ''devices_list'' KindRead False,
     mcp_tool ''queue_show'' KindRead False,
     mcp_tool ''playlists_list'' KindRead False,
     mcp_tool ''playlist_tracks'' KindRead False,
     mcp_tool ''library_list'' KindRead False,
     mcp_tool ''playlist_plan'' KindRead False,
     mcp_tool ''playlist_resolve_tracks'' KindRead False,
     mcp_tool ''play'' KindTransport False,
     mcp_tool ''play_uri'' KindTransport False,
     mcp_tool ''pause'' KindTransport False,
     mcp_tool ''resume'' KindTransport False,
     mcp_tool ''next'' KindTransport False,
     mcp_tool ''previous'' KindTransport False,
     mcp_tool ''seek'' KindTransport False,
     mcp_tool ''playback_speed_get'' KindRead False,
     mcp_tool ''playback_speed_set'' KindTransport False,
     mcp_tool ''eq_get'' KindRead False,
     mcp_tool ''eq_set'' KindTransport False,
     mcp_tool ''bookmarks_list'' KindRead False,
     mcp_tool ''bookmark_add'' KindTransport False,
     mcp_tool ''bookmark_play'' KindTransport False,
     mcp_tool ''bookmark_delete'' KindDestructive True,
     mcp_tool ''viz_style_get'' KindRead False,
     mcp_tool ''viz_style_set'' KindTransport False,
     mcp_tool ''themes_list'' KindRead False,
     mcp_tool ''theme_set'' KindTransport False,
     mcp_tool ''volume'' KindTransport False,
     mcp_tool ''shuffle'' KindTransport False,
     mcp_tool ''repeat'' KindTransport False,
     mcp_tool ''queue_add'' KindDestructive True,
     mcp_tool ''transfer_device'' KindDestructive True,
     mcp_tool ''playlist_create'' KindDestructive True,
     mcp_tool ''playlist_add'' KindDestructive True,
     mcp_tool ''playlist_remove'' KindDestructive True,
     mcp_tool ''playlist_remove_occurrences'' KindDestructive True,
     mcp_tool ''playlist_unfollow'' KindDestructive True,
     mcp_tool ''playlist_set_image'' KindDestructive True,
     mcp_tool ''library_save'' KindDestructive True,
     mcp_tool ''library_unsave'' KindDestructive True,
     mcp_tool ''lyrics'' KindMercury False,
     mcp_tool ''related_artists'' KindRead False,
     mcp_tool ''artist_top_tracks'' KindRead False,
     mcp_tool ''radio_start'' KindTransport False,
     mcp_tool ''analytics_top'' KindAnalytics False,
     mcp_tool ''analytics_habits'' KindAnalytics False,
     mcp_tool ''analytics_search'' KindAnalytics False,
     mcp_tool ''analytics_rediscovery'' KindAnalytics False,
     mcp_tool ''analytics_import_lastfm'' KindDestructive True,
     mcp_tool ''analytics_import_status'' KindAnalytics False,
     mcp_tool ''analytics_import_unresolved'' KindAnalytics False,
     mcp_tool ''analytics_import_undo'' KindDestructive True,
     mcp_tool ''ops_log'' KindOps False,
     mcp_tool ''undo_last'' KindOps False]"

definition tool_by_name :: "string \<Rightarrow> tool option" where
  "tool_by_name name = find (\<lambda>t. tl_name t = name) TOOLS"

section \<open>The confirmation gate\<close>

datatype authorized = Execute | PreviewOnly

definition decide :: "string \<Rightarrow> bool option \<Rightarrow> (authorized, string) result" where
  "decide tool_name confirm = (case tool_by_name tool_name of
       None \<Rightarrow> Err tool_name
     | Some t \<Rightarrow> if \<not> tl_destructive t then Ok Execute
         else if confirm = Some True then Ok Execute else Ok PreviewOnly)"

section \<open>Requirements\<close>

datatype tool_requirement = LocalTool | ProviderTool "provider_caps \<Rightarrow> bool"

definition transport_cap :: "(transport_caps \<Rightarrow> bool) \<Rightarrow> provider_caps \<Rightarrow> bool" where
  "transport_cap f c = (case pc_transport c of Some t \<Rightarrow> f t | None \<Rightarrow> False)"

definition can_save_or_follow :: "provider_caps \<Rightarrow> bool" where
  "can_save_or_follow c \<longleftrightarrow> lc_save_kinds (pc_library c) \<noteq> [] \<or> lc_follow_kinds (pc_library c) \<noteq> []"

definition REQUIREMENTS :: "(string \<times> (provider_caps \<Rightarrow> bool)) list" where
  "REQUIREMENTS = [
     (''search'', sc_remote \<circ> pc_search),
     (''now_playing'', transport_cap tc_playback_state),
     (''devices_list'', transport_cap tc_devices),
     (''queue_show'', transport_cap tc_queue_read),
     (''playlists_list'', plc_list \<circ> pc_playlists),
     (''playlist_tracks'', plc_item_read \<circ> pc_playlists),
     (''library_list'', \<lambda>c. lc_read_kinds (pc_library c) \<noteq> []),
     (''playlist_resolve_tracks'', \<lambda>c. sc_remote (pc_search c) \<and> Track \<in> set (sc_kinds (pc_search c))),
     (''play'', transport_cap tc_play),
     (''play_uri'', transport_cap tc_play),
     (''radio_start'', xc_radio \<circ> pc_extras),
     (''pause'', transport_cap tc_pause),
     (''resume'', transport_cap tc_resume),
     (''next'', transport_cap tc_next),
     (''previous'', transport_cap tc_previous),
     (''seek'', transport_cap tc_seek),
     (''volume'', transport_cap tc_volume),
     (''shuffle'', transport_cap tc_shuffle),
     (''repeat'', transport_cap tc_repeat),
     (''queue_add'', transport_cap tc_queue_add),
     (''transfer_device'', transport_cap tc_transfer),
     (''playlist_create'', plc_create \<circ> pc_playlists),
     (''playlist_add'', plc_add \<circ> pc_playlists),
     (''playlist_remove'', plc_remove \<circ> pc_playlists),
     (''playlist_remove_occurrences'', plc_remove \<circ> pc_playlists),
     (''playlist_unfollow'', plc_unfollow \<circ> pc_playlists),
     (''playlist_set_image'', plc_image \<circ> pc_playlists),
     (''library_save'', can_save_or_follow),
     (''library_unsave'', can_save_or_follow),
     (''related_artists'', xc_related_artists \<circ> pc_extras),
     (''artist_top_tracks'', xc_artist_top_tracks \<circ> pc_extras)]"

definition requirement :: "string \<Rightarrow> tool_requirement" where
  "requirement name = (case map_of REQUIREMENTS name of Some f \<Rightarrow> ProviderTool f | None \<Rightarrow> LocalTool)"

definition provider_scoped :: "string \<Rightarrow> bool" where
  "provider_scoped name \<longleftrightarrow> name \<in> {''search'', ''playlists_list'', ''library_list'', ''playlist_resolve_tracks'',
     ''playlist_create'', ''playlist_tracks'', ''playlist_add'', ''playlist_remove'', ''playlist_remove_occurrences'',
     ''playlist_unfollow'', ''playlist_set_image'', ''related_artists'', ''artist_top_tracks''}"

definition active_transport_routed :: "string \<Rightarrow> bool" where
  "active_transport_routed name \<longleftrightarrow> name \<in> {''now_playing'', ''devices_list'', ''queue_show'', ''pause'', ''resume'',
     ''next'', ''previous'', ''seek'', ''volume'', ''shuffle'', ''repeat'', ''transfer_device''}"

definition resource_arg_name :: "string \<Rightarrow> string option" where
  "resource_arg_name name =
     (if name \<in> {''play'', ''play_uri'', ''queue_add'', ''library_save'', ''library_unsave''} then Some ''uri''
      else if name \<in> {''playlist_tracks'', ''playlist_add'', ''playlist_remove'', ''playlist_unfollow'',
        ''playlist_remove_occurrences'', ''playlist_set_image''} then Some ''playlist''
      else if name = ''lyrics'' then Some ''track_uri''
      else if name \<in> {''related_artists'', ''artist_top_tracks''} then Some ''artist''
      else if name = ''radio_start'' then Some ''seed_uri''
      else None)"

definition resource_arg :: "string \<Rightarrow> json \<Rightarrow> string option" where
  "resource_arg name args = Option.bind (resource_arg_name name) (\<lambda>key. Option.bind (json_get args key) as_str)"

definition resource_uri_arg :: "string \<Rightarrow> json \<Rightarrow> resource_uri option" where
  "resource_uri_arg name args = Option.bind (resource_arg name args)
     (\<lambda>s. case resource_uri_parse s of Ok u \<Rightarrow> Some u | Err _ \<Rightarrow> None)"

text \<open>Which tools \<open>tools/list\<close> shows.\<close>

definition any_provider :: "(provider_caps \<Rightarrow> bool) \<Rightarrow> provider_catalog \<Rightarrow> bool" where
  "any_provider supported g \<longleftrightarrow> (\<exists>d\<in>set (pg_providers g). supported (pd_capabilities d))"

definition tool_visible :: "string \<Rightarrow> provider_catalog option \<Rightarrow> bool" where
  "tool_visible name catalog =
     (if name = ''search'' then True
      else case catalog of
             None \<Rightarrow> True
           | Some g \<Rightarrow>
               (case requirement name of
                  LocalTool \<Rightarrow> True
                | ProviderTool supported \<Rightarrow>
                    if provider_scoped name \<or> resource_arg_name name \<noteq> None then any_provider supported g
                    else if active_transport_routed name then any_provider supported g
                    else (case descriptor_for_provider g None of Some d \<Rightarrow> supported (pd_capabilities d) | None \<Rightarrow> False)))"

definition available_tools :: "provider_catalog option \<Rightarrow> tool list" where
  "available_tools catalog = filter (\<lambda>t. tool_visible (tl_name t) catalog) TOOLS"

section \<open>Checks of a call\<close>

datatype refusal =
    RfNeedsCatalog
  | RfProviderNotString
  | RfBadProviderId string
  | RfUnknownProvider provider_id
  | RfNoProviderSupports string
  | RfSchemeConflict provider_id uri_scheme
  | RfUnknownScheme uri_scheme
  | RfUnsupported provider_id string
  | RfNoDefaultProvider string
  | RfBadOccurrences
  | RfOccurrenceScheme provider_id uri_scheme
  | RfNoRadioQueue provider_id
  | RfBadSearchKind
  | RfUnsupportedKind provider_id
  | RfUnsupportedSave provider_id media_kind
  | RfBadArgument string

definition provider_for_args :: "json \<Rightarrow> provider_catalog option \<Rightarrow> (provider_id option, refusal) result" where
  "provider_for_args args catalog =
     result_bind (case json_get args ''provider'' of
         None \<Rightarrow> Ok None
       | Some v \<Rightarrow> (case as_str v of
           None \<Rightarrow> Err RfProviderNotString
         | Some s \<Rightarrow> (case provider_id_new s of Ok p \<Rightarrow> Ok (Some p) | Err e \<Rightarrow> Err (RfBadProviderId e))))
       (\<lambda>explicit. case (explicit, catalog) of
           (Some p, Some g) \<Rightarrow> if (\<exists>d\<in>set (pg_providers g). pd_id d = p) then Ok explicit else Err (RfUnknownProvider p)
         | _ \<Rightarrow> Ok explicit)"

definition supports_remote_search :: "provider_catalog \<Rightarrow> provider_id option \<Rightarrow> bool" where
  "supports_remote_search g p =
     (case descriptor_for_provider g p of Some d \<Rightarrow> sc_remote (pc_search (pd_capabilities d)) | None \<Rightarrow> False)"

definition search_uses_local_source :: "json \<Rightarrow> provider_catalog \<Rightarrow> bool" where
  "search_uses_local_source args g = (case Option.bind (json_get args ''source'') as_str of
       Some s \<Rightarrow> s = ''local''
     | None \<Rightarrow> \<not> supports_remote_search g (Option.bind (Option.bind (json_get args ''provider'') as_str)
         (\<lambda>s. case provider_id_new s of Ok p \<Rightarrow> Some p | Err _ \<Rightarrow> None)))"

fun check_occurrences :: "provider_descriptor \<Rightarrow> json list \<Rightarrow> (unit, refusal) result" where
  "check_occurrences d [] = Ok ()"
| "check_occurrences d (item # items) = (case Option.bind (json_get item ''uri'') as_str of
       None \<Rightarrow> check_occurrences d items
     | Some s \<Rightarrow> (case resource_uri_parse s of
         Err _ \<Rightarrow> Err RfBadOccurrences
       | Ok u \<Rightarrow> if ru_scheme u \<noteq> pd_uri_scheme d then Err (RfOccurrenceScheme (pd_id d) (ru_scheme u))
           else check_occurrences d items))"

definition search_kind_ok :: "json \<Rightarrow> media_kind list \<Rightarrow> bool option" where
  "search_kind_ok args kinds = (case json_get args ''kind'' of
       None \<Rightarrow> Some (Track \<in> set kinds)
     | Some v \<Rightarrow> (case as_str v of
         None \<Rightarrow> None
       | Some s \<Rightarrow>
           if s = ''track'' then Some (Track \<in> set kinds)
           else if s = ''episode'' then Some (Episode \<in> set kinds)
           else if s \<in> {''show'', ''podcast'', ''podcasts''} then Some (Show \<in> set kinds)
           else if s = ''album'' then Some (Album \<in> set kinds)
           else if s = ''artist'' then Some (Artist \<in> set kinds)
           else if s = ''playlist'' then Some (Playlist \<in> set kinds)
           else if s = ''all'' then Some (kinds \<noteq> [])
           else None))"

definition ensure_argument_capability :: "string \<Rightarrow> json \<Rightarrow> provider_descriptor \<Rightarrow> (unit, refusal) result" where
  "ensure_argument_capability name args d =
     result_bind (if name = ''playlist_remove_occurrences''
        then (case Option.bind (json_get args ''items'') as_array of
                None \<Rightarrow> Err RfBadOccurrences | Some items \<Rightarrow> check_occurrences d items)
        else Ok ()) (\<lambda>_.
     result_bind (if name = ''radio_start'' \<and> Option.bind (json_get args ''dry_run'') as_bool \<noteq> Some True \<and>
          \<not> transport_cap tc_queue_add (pd_capabilities d)
        then Err (RfNoRadioQueue (pd_id d)) else Ok ()) (\<lambda>_.
     result_bind (if name = ''search''
        then (case search_kind_ok args (sc_kinds (pc_search (pd_capabilities d))) of
                None \<Rightarrow> Err RfBadSearchKind
              | Some ok \<Rightarrow> if ok then Ok () else Err (RfUnsupportedKind (pd_id d)))
        else Ok ()) (\<lambda>_.
     if name = ''library_save'' \<or> name = ''library_unsave''
     then (case resource_uri_arg name args of
             None \<Rightarrow> Ok ()
           | Some u \<Rightarrow> if can_save (pc_library (pd_capabilities d)) (ru_kind u) \<or> can_follow (pc_library (pd_capabilities d)) (ru_kind u)
               then Ok () else Err (RfUnsupportedSave (pd_id d) (ru_kind u)))
     else Ok ())))"

definition pick_descriptor :: "provider_catalog \<Rightarrow> provider_id option \<Rightarrow> resource_uri option
    \<Rightarrow> (provider_descriptor option, refusal) result" where
  "pick_descriptor g explicit uri = (case explicit of
       Some p \<Rightarrow>
         (let d = find (\<lambda>d. pd_id d = p) (pg_providers g)
          in case (d, uri) of
               (Some d', Some u) \<Rightarrow> if pd_uri_scheme d' \<noteq> ru_scheme u then Err (RfSchemeConflict p (ru_scheme u)) else Ok d
             | _ \<Rightarrow> Ok d)
     | None \<Rightarrow> (case uri of
         Some u \<Rightarrow> (case find (\<lambda>d. pd_uri_scheme d = ru_scheme u) (pg_providers g) of
             Some d \<Rightarrow> Ok (Some d) | None \<Rightarrow> Err (RfUnknownScheme (ru_scheme u)))
       | None \<Rightarrow> Ok (descriptor_for_provider g None)))"

definition ensure_tool_available :: "string \<Rightarrow> json \<Rightarrow> provider_catalog option \<Rightarrow> (unit, refusal) result" where
  "ensure_tool_available name args catalog = (case catalog of
       None \<Rightarrow> if json_get args ''provider'' \<noteq> None then Err RfNeedsCatalog else Ok ()
     | Some g \<Rightarrow>
         if name = ''search'' \<and> search_uses_local_source args g
         then result_bind (provider_for_args args catalog) (\<lambda>_. Ok ())
         else (case requirement name of
             LocalTool \<Rightarrow> Ok ()
           | ProviderTool supported \<Rightarrow>
               result_bind (if provider_scoped name then provider_for_args args catalog else Ok None) (\<lambda>explicit.
               let uri = resource_uri_arg name args
               in if explicit = None \<and> uri = None \<and> active_transport_routed name
                  then if any_provider supported g then Ok () else Err (RfNoProviderSupports name)
                  else result_bind (pick_descriptor g explicit uri) (\<lambda>descriptor. case descriptor of
                      Some d \<Rightarrow> if supported (pd_capabilities d) then ensure_argument_capability name args d
                        else Err (RfUnsupported (pd_id d) name)
                    | None \<Rightarrow> Err (RfNoDefaultProvider name)))))"

definition tool_needs_provider_catalog :: "string \<Rightarrow> json \<Rightarrow> bool" where
  "tool_needs_provider_catalog name args =
     (if name = ''search'' \<and> Option.bind (json_get args ''source'') as_str = Some ''local''
      then json_get args ''provider'' \<noteq> None
      else (case requirement name of ProviderTool _ \<Rightarrow> True | LocalTool \<Rightarrow> False))"

text \<open>The default source of a search when every provider agrees on it.\<close>

definition search_default_source :: "provider_catalog option \<Rightarrow> string option" where
  "search_default_source catalog = (case catalog of
       None \<Rightarrow> Some ''hybrid''
     | Some g \<Rightarrow>
         (let default_remote = supports_remote_search g None;
              remotes = map (\<lambda>d. sc_remote (pc_search (pd_capabilities d))) (pg_providers g);
              has_remote = (default_remote \<or> True \<in> set remotes);
              has_local = (\<not> default_remote \<or> False \<in> set remotes)
          in if has_local \<and> \<not> has_remote then Some ''local''
             else if \<not> has_local \<and> has_remote then Some ''hybrid'' else None))"

end
