(* ===== verification/Agent_Playlists.thy ===== *)
theory Agent_Playlists
  imports Media Rust_Float
begin

text \<open>
  Playlist plans for agents (\<open>spotuify-protocol/src/agent_playlists.rs\<close>): a plan scaffold from a brief, the
  resolution of its candidate searches into tracks, and the preview of the playlist that would be created.
  Confidences are \<open>f32\<close> constants; the JSON forms of the types are derived.
\<close>

section \<open>Plans\<close>

record playlist_plan =
  pp_title :: string
  pp_description :: string
  pp_target_length :: u32
  pp_mood :: string
  pp_theme_notes :: "string list"
  pp_candidate_searches :: "string list"
  pp_sequencing_notes :: "string list"
  pp_exclusions :: "string list"

text \<open>\<open>str::split_whitespace\<close>: the maximal runs without a white-space character.\<close>

function split_whitespace_from :: "string \<Rightarrow> string \<Rightarrow> string list" where
  "split_whitespace_from word [] = (if word = [] then [] else [rev word])"
| "split_whitespace_from word (c # s) =
     (if ws_len (c # s) = 0 then split_whitespace_from (c # word) s
      else (if word = [] then [] else [rev word]) @ split_whitespace_from [] (drop (ws_len (c # s)) (c # s)))"
  by pat_completeness auto
termination
  by (relation "measure (length \<circ> snd)") auto

definition split_whitespace :: "string \<Rightarrow> string list" where
  "split_whitespace = split_whitespace_from []"

definition STOP_WORDS :: "string list" where
  "STOP_WORDS = [''and'', ''the'', ''for'', ''with'', ''from'', ''into'', ''about'']"

text \<open>\<open>split\<close> at every byte outside ASCII letters and digits; a longer UTF-8 character only adds empty words.\<close>

fun split_words :: "string \<Rightarrow> string \<Rightarrow> string list" where
  "split_words word [] = [rev word]"
| "split_words word (c # s) =
     (if is_ascii_alphanumeric c then split_words (c # word) s else rev word # split_words [] s)"

definition significant_words :: "string \<Rightarrow> string list" where
  "significant_words brief =
     filter (\<lambda>word. 2 < length word \<and> word \<notin> set STOP_WORDS)
       (map (\<lambda>word. to_ascii_lowercase (trim word)) (split_words [] brief))"

definition to_ascii_uppercase_char :: "char \<Rightarrow> char" where
  "to_ascii_uppercase_char c = (if is_ascii_lowercase c then char_of (byte c - 32) else c)"

definition capitalize_ascii :: "string \<Rightarrow> string" where
  "capitalize_ascii word = (case word of [] \<Rightarrow> [] | c # cs \<Rightarrow> to_ascii_uppercase_char c # cs)"

definition title_from_brief :: "string \<Rightarrow> string" where
  "title_from_brief brief = join_with '' ''
     (map (\<lambda>(index, word). let lower = to_ascii_lowercase word
          in if 0 < index \<and> lower \<in> {''and'', ''or'', ''the'', ''of'', ''to''} then lower else capitalize_ascii lower)
       (enumerate 0 (split_whitespace brief)))"

definition push_unique :: "string list \<Rightarrow> string \<Rightarrow> string list" where
  "push_unique vals v = (if trim v \<noteq> [] \<and> v \<notin> set vals then vals @ [v] else vals)"

definition candidate_searches :: "string \<Rightarrow> string list" where
  "candidate_searches brief =
     (let wordz = significant_words brief;
          n = length wordz;
          direct = [brief, brief @ '' music'', brief @ '' song''] @ wordz;
          pairs = (if 2 \<le> n then [join_with '' '' (take 2 wordz), join_with '' '' (drop (n - 2) wordz)] else [])
      in foldl push_unique [] (direct @ pairs))"

definition build_playlist_plan :: "string \<Rightarrow> (playlist_plan, string) result" where
  "build_playlist_plan brief0 =
     (let brief = trim brief0
      in if brief = [] then Err ''playlist brief is required''
         else Ok \<lparr>pp_title = title_from_brief brief,
                  pp_description = ''A spotuify playlist plan for '' @ brief @ ''.'', pp_target_length = 12,
                  pp_mood = ''unspecified'', pp_theme_notes = [brief],
                  pp_candidate_searches = take 12 (candidate_searches brief),
                  pp_sequencing_notes = [''Open with direct theme matches.'',
                    ''Group similar moods together and save the strongest closer for last.''],
                  pp_exclusions = []\<rparr>)"

section \<open>Resolution\<close>

datatype candidate_status = CandResolved | CandDuplicate | CandUnresolved

record track_candidate =
  tk_position :: nat
  tk_query :: string
  tk_status :: candidate_status
  tk_chosen_uri :: "string option"
  tk_chosen :: "media_item option"
  tk_confidence :: rfloat
  tk_reason :: string
  tk_alternatives :: "media_item list"
  tk_duplicate_of :: "string option"
  tk_explicit :: "bool option"
  tk_playable :: "bool option"
  tk_source :: string

definition alternatives :: "media_item list \<Rightarrow> nat \<Rightarrow> media_item list" where
  "alternatives items chosen = map snd (filter (\<lambda>(i, _). i \<noteq> chosen) (enumerate 0 items))"

definition confidence :: "nat \<Rightarrow> rfloat" where
  "confidence index = to_float f32 (if index = 0 then 9 / 10 else if index = 1 \<or> index = 2 then 3 / 4 else 6 / 10)"

definition source_text :: "media_item \<Rightarrow> string" where
  "source_text item = (case mi_source item of Some s \<Rightarrow> item_source_as_str s | None \<Rightarrow> ''unknown'')"

definition playable :: "media_item \<Rightarrow> bool" where
  "playable item \<longleftrightarrow> mi_is_playable item \<noteq> Some False"

definition resolve_query :: "nat \<Rightarrow> string \<Rightarrow> media_item list \<Rightarrow> string set \<Rightarrow> track_candidate \<times> string set" where
  "resolve_query pos query items seen =
     (let tracks = filter (\<lambda>item. mi_kind item = Track) items
      in case position (\<lambda>item. playable item \<and> mi_uri item \<notin> seen) tracks of
           Some i \<Rightarrow>
             (let chosen = tracks ! i
              in (\<lparr>tk_position = pos, tk_query = query, tk_status = CandResolved, tk_chosen_uri = Some (mi_uri chosen),
                   tk_chosen = Some chosen, tk_confidence = confidence i,
                   tk_reason = (if i = 0 then ''selected first playable track result''
                                else ''selected first playable non-duplicate track result''),
                   tk_alternatives = alternatives tracks i, tk_duplicate_of = None, tk_explicit = mi_explicit chosen,
                   tk_playable = mi_is_playable chosen, tk_source = source_text chosen\<rparr>, insert (mi_uri chosen) seen))
         | None \<Rightarrow>
             (case position (\<lambda>item. playable item \<and> mi_uri item \<in> seen) tracks of
                Some i \<Rightarrow>
                  (let dup = tracks ! i
                   in (\<lparr>tk_position = pos, tk_query = query, tk_status = CandDuplicate, tk_chosen_uri = Some (mi_uri dup),
                        tk_chosen = Some dup, tk_confidence = confidence i,
                        tk_reason = ''all playable matches were already selected'',
                        tk_alternatives = alternatives tracks i, tk_duplicate_of = Some (mi_uri dup),
                        tk_explicit = mi_explicit dup, tk_playable = mi_is_playable dup, tk_source = source_text dup\<rparr>, seen))
              | None \<Rightarrow>
                  (\<lparr>tk_position = pos, tk_query = query, tk_status = CandUnresolved, tk_chosen_uri = None, tk_chosen = None,
                    tk_confidence = Fin 0,
                    tk_reason = (if tracks = [] then ''no track results returned'' else ''no playable track results returned''),
                    tk_alternatives = tracks, tk_duplicate_of = None, tk_explicit = None, tk_playable = None,
                    tk_source = ''none''\<rparr>, seen)))"

fun resolve_from :: "nat \<Rightarrow> string list \<Rightarrow> media_item list list \<Rightarrow> string set \<Rightarrow> track_candidate list" where
  "resolve_from pos [] results seen = []"
| "resolve_from pos (query # queries) results seen =
     (case resolve_query pos query (case results of [] \<Rightarrow> [] | items # _ \<Rightarrow> items) seen of
        (candidate, seen') \<Rightarrow> candidate # resolve_from (pos + 1) queries (tl results) seen')"

definition resolve_plan_candidates :: "playlist_plan \<Rightarrow> media_item list list \<Rightarrow> track_candidate list" where
  "resolve_plan_candidates plan results = resolve_from 1 (pp_candidate_searches plan) results {}"

section \<open>Preview\<close>

record track_selection =
  ts_position :: nat
  ts_uri :: string
  ts_name :: string
  ts_subtitle :: string
  ts_explicit :: "bool option"

record candidate_issue =
  ci_query :: string
  ci_reason :: string
  ci_uri :: "string option"

record playlist_preview =
  pv_name :: string
  pv_requested_candidate_count :: nat
  pv_added_item_count :: nat
  pv_tracks :: "track_selection list"
  pv_unresolved :: "candidate_issue list"
  pv_duplicates_removed :: "candidate_issue list"
  pv_warnings :: "string list"
  pv_add_uris :: "string list"

definition ensure_playlist_create_allowed :: "bool \<Rightarrow> bool \<Rightarrow> (unit, string) result" where
  "ensure_playlist_create_allowed dry_run yes = (if dry_run \<or> yes then Ok ()
     else Err ''playlist creation requires --dry-run for preview or --yes to commit'')"

definition candidate_uri :: "track_candidate \<Rightarrow> string option" where
  "candidate_uri c = (case tk_chosen_uri c of Some u \<Rightarrow> Some u | None \<Rightarrow> map_option mi_uri (tk_chosen c))"

definition selection_of :: "nat \<Rightarrow> string \<Rightarrow> track_candidate \<Rightarrow> track_selection" where
  "selection_of pos uri c = \<lparr>ts_position = pos, ts_uri = uri,
     ts_name = (case tk_chosen c of Some item \<Rightarrow> mi_name item | None \<Rightarrow> uri),
     ts_subtitle = (case tk_chosen c of Some item \<Rightarrow> mi_subtitle item | None \<Rightarrow> []),
     ts_explicit = (case tk_explicit c of Some e \<Rightarrow> Some e | None \<Rightarrow> Option.bind (tk_chosen c) mi_explicit)\<rparr>"

fun select_tracks :: "track_candidate list \<Rightarrow> string set \<Rightarrow> track_selection list \<Rightarrow> track_selection list" where
  "select_tracks [] seen tracks = tracks"
| "select_tracks (c # cs) seen tracks =
     (if tk_status c \<noteq> CandResolved then select_tracks cs seen tracks
      else case candidate_uri c of
             None \<Rightarrow> select_tracks cs seen tracks
           | Some uri \<Rightarrow> if uri \<in> seen then select_tracks cs seen tracks
               else select_tracks cs (insert uri seen) (tracks @ [selection_of (length tracks + 1) uri c]))"

definition playlist_tracks_from_candidates :: "track_candidate list \<Rightarrow> track_selection list" where
  "playlist_tracks_from_candidates candidates = select_tracks candidates {} []"

definition selected_track_uris :: "track_candidate list \<Rightarrow> string list" where
  "selected_track_uris candidates = map ts_uri (playlist_tracks_from_candidates candidates)"

definition issues :: "candidate_status \<Rightarrow> (track_candidate \<Rightarrow> string option) \<Rightarrow> track_candidate list \<Rightarrow> candidate_issue list" where
  "issues status uri_of candidates = map (\<lambda>c. \<lparr>ci_query = tk_query c, ci_reason = tk_reason c, ci_uri = uri_of c\<rparr>)
     (filter (\<lambda>c. tk_status c = status) candidates)"

definition build_playlist_preview :: "string \<Rightarrow> track_candidate list \<Rightarrow> playlist_preview" where
  "build_playlist_preview name candidates =
     (let tracks = playlist_tracks_from_candidates candidates;
          unresolved = issues CandUnresolved (\<lambda>_. None) candidates;
          duplicates = issues CandDuplicate tk_chosen_uri candidates
      in \<lparr>pv_name = name, pv_requested_candidate_count = length candidates, pv_added_item_count = length tracks,
          pv_tracks = tracks, pv_unresolved = unresolved, pv_duplicates_removed = duplicates,
          pv_warnings = (if tracks = [] then [''no resolved tracks to add''] else []) @
            (if unresolved \<noteq> [] then [show_nat (length unresolved) @ '' unresolved candidate(s)''] else []) @
            (if duplicates \<noteq> [] then [show_nat (length duplicates) @ '' duplicate candidate(s) removed''] else []),
          pv_add_uris = map ts_uri tracks\<rparr>)"


section \<open>Laws\<close>

definition candidates_of :: "media_item list \<Rightarrow> media_item list" where
  "candidates_of = filter (\<lambda>item. mi_kind item = Track \<and> playable item)"

definition answers :: "media_item list list \<Rightarrow> nat \<Rightarrow> media_item list" where
  "answers results i = (if i < length results then results ! i else [])"

definition chosen_uris :: "track_candidate list \<Rightarrow> string list" where
  "chosen_uris cs = map (\<lambda>c. the (tk_chosen_uri c)) (filter (\<lambda>c. tk_status c = CandResolved) cs)"

lemma chosen_uris_simps [simp]:
  "chosen_uris [] = []"
  "chosen_uris (c # cs) = (if tk_status c = CandResolved then [the (tk_chosen_uri c)] else []) @ chosen_uris cs"
  by (simp_all add: chosen_uris_def)

text \<open>What one query yields, by the playable tracks of its answer and what was chosen before.\<close>

lemma resolve_query_cases:
  obtains (resolved) c item where "resolve_query pos q items seen = (c, insert (mi_uri item) seen)"
      "tk_status c = CandResolved" "tk_position c = pos" "tk_query c = q" "tk_chosen c = Some item"
      "tk_chosen_uri c = Some (mi_uri item)" "item \<in> set (candidates_of items)" "mi_uri item \<notin> seen"
  | (duplicate) c where "resolve_query pos q items seen = (c, seen)" "tk_status c = CandDuplicate"
      "tk_position c = pos" "tk_query c = q" "candidates_of items \<noteq> []" "mi_uri ` set (candidates_of items) \<subseteq> seen"
  | (unresolved) c where "resolve_query pos q items seen = (c, seen)" "tk_status c = CandUnresolved"
      "tk_position c = pos" "tk_query c = q" "candidates_of items = []"
proof -
  let ?tracks = "filter (\<lambda>item. mi_kind item = Track) items"
  let ?new = "position (\<lambda>item. playable item \<and> mi_uri item \<notin> seen) ?tracks"
  let ?old = "position (\<lambda>item. playable item \<and> mi_uri item \<in> seen) ?tracks"
  show thesis
  proof (cases ?new)
    case (Some i)
    then have i: "i < length ?tracks" "playable (?tracks ! i)" "mi_uri (?tracks ! i) \<notin> seen"
      by (simp_all add: position_Some_iff)
    then have "?tracks ! i \<in> set (candidates_of items)"
      using nth_mem [OF i(1)] by (simp add: candidates_of_def)
    then show thesis using Some i by - (rule resolved [where item = "?tracks ! i"], simp add: resolve_query_def Let_def, simp_all)
  next
    case None
    then have none: "\<And>item. item \<in> set (candidates_of items) \<Longrightarrow> mi_uri item \<in> seen"
      by (auto simp: candidates_of_def)
    show thesis
    proof (cases ?old)
      case (Some i)
      then have i: "i < length ?tracks" "playable (?tracks ! i)" by (simp_all add: position_Some_iff)
      then have "?tracks ! i \<in> set (candidates_of items)"
        using nth_mem [OF i(1)] by (simp add: candidates_of_def)
      then have "candidates_of items \<noteq> []" by auto
      then show thesis using None Some none by - (rule duplicate, simp add: resolve_query_def Let_def del: position_None_iff, auto)
    next
      case old: None
      then have "candidates_of items = []" using none by (force simp: candidates_of_def filter_empty_conv)
      then show thesis using None old by - (rule unresolved, simp add: resolve_query_def Let_def del: position_None_iff, simp_all)
    qed
  qed
qed

lemma length_resolve_from [simp]: "length (resolve_from pos queries results seen) = length queries"
  by (induction queries arbitrary: pos results seen) (simp_all split: prod.splits)

text \<open>The verdict on query \<open>i\<close>, with what earlier queries chose.\<close>

definition verdict_ok :: "media_item list \<Rightarrow> string set \<Rightarrow> track_candidate \<Rightarrow> bool" where
  "verdict_ok items before c = (case tk_status c of
       CandResolved \<Rightarrow> (\<exists>item\<in>set (candidates_of items). tk_chosen c = Some item \<and> tk_chosen_uri c = Some (mi_uri item) \<and>
         mi_uri item \<notin> before)
     | CandDuplicate \<Rightarrow> candidates_of items \<noteq> [] \<and> mi_uri ` set (candidates_of items) \<subseteq> before
     | CandUnresolved \<Rightarrow> candidates_of items = [])"

lemma answers_Cons: "answers results 0 = (case results of [] \<Rightarrow> [] | items # _ \<Rightarrow> items)"
  "answers results (Suc i) = answers (tl results) i"
  by (auto simp: answers_def nth_tl split: list.splits)

lemma resolve_from_verdicts:
  "i < length queries \<Longrightarrow>
   (let cs = resolve_from pos queries results seen
    in tk_position (cs ! i) = pos + i \<and> tk_query (cs ! i) = queries ! i \<and>
       verdict_ok (answers results i) (seen \<union> set (chosen_uris (take i cs))) (cs ! i))"
proof (induction queries arbitrary: pos results seen i)
  case (Cons q queries)
  let ?items = "case results of [] \<Rightarrow> [] | items # _ \<Rightarrow> items"
  obtain c seen' where c: "resolve_query pos q ?items seen = (c, seen')" by force
  have here: "tk_position c = pos \<and> tk_query c = q \<and> verdict_ok ?items seen c \<and>
      seen' = seen \<union> set (chosen_uris [c])"
    using c by (cases pos q ?items seen rule: resolve_query_cases) (auto simp: verdict_ok_def)
  show ?case
  proof (cases i)
    case 0
    then show ?thesis using here by (simp add: c answers_Cons)
  next
    case (Suc k)
    then show ?thesis
      using Cons.IH [of k "pos + 1" "tl results" seen'] Cons.prems here
      by (simp add: c answers_Cons Let_def Un_assoc)
  qed
qed simp

lemma resolved_selected:
  "map ts_uri (select_tracks (resolve_from pos queries results seen) seen tracks) =
   map ts_uri tracks @ chosen_uris (resolve_from pos queries results seen)"
proof (induction queries arbitrary: pos results seen tracks)
  case (Cons q queries)
  let ?items = "case results of [] \<Rightarrow> [] | items # _ \<Rightarrow> items"
  show ?case
    by (cases pos q ?items seen rule: resolve_query_cases)
      (simp_all add: Cons.IH candidate_uri_def selection_of_def)
qed simp

lemma chosen_fresh: "distinct (chosen_uris (resolve_from pos queries results seen)) \<and>
   set (chosen_uris (resolve_from pos queries results seen)) \<inter> seen = {}"
proof (induction queries arbitrary: pos results seen)
  case (Cons q queries)
  let ?items = "case results of [] \<Rightarrow> [] | items # _ \<Rightarrow> items"
  show ?case
  proof (cases pos q ?items seen rule: resolve_query_cases)
    case (resolved c item)
    then show ?thesis using Cons.IH [of "pos + 1" "tl results" "insert (mi_uri item) seen"] by simp
  qed (use Cons.IH [of "pos + 1" "tl results" seen] in simp_all)
qed simp

lemma status_count:
  "length (filter (\<lambda>c. tk_status c = CandResolved) cs) + length (filter (\<lambda>c. tk_status c = CandDuplicate) cs) +
   length (filter (\<lambda>c. tk_status c = CandUnresolved) cs) = length cs"
proof (induction cs)
  case (Cons c cs)
  then show ?case by (cases "tk_status c") simp_all
qed simp

text \<open>
  C23: The preview of a resolved plan. Candidate \<open>i\<close> belongs to query \<open>i\<close>; it is resolved with a playable track
  of the query's own answer that no earlier query chose, a duplicate only if earlier queries chose all playable
  tracks of its answer, and unresolved only if there is none. The playlist gets exactly the resolved tracks, in
  order and without repetition, and added, duplicate and unresolved candidates add up to the queries.
\<close>
theorem resolved_plan_previewed:
  fixes plan results name
  defines "cs \<equiv> resolve_plan_candidates plan results"
  defines "pv \<equiv> build_playlist_preview name cs"
  shows "length cs = length (pp_candidate_searches plan) \<and>
    (\<forall>i<length cs. tk_position (cs ! i) = i + 1 \<and> tk_query (cs ! i) = pp_candidate_searches plan ! i \<and>
       verdict_ok (answers results i) (set (chosen_uris (take i cs))) (cs ! i)) \<and>
    pv_add_uris pv = chosen_uris cs \<and> distinct (pv_add_uris pv) \<and>
    pv_added_item_count pv + length (pv_duplicates_removed pv) + length (pv_unresolved pv) = pv_requested_candidate_count pv"
proof -
  have cs: "cs = resolve_from 1 (pp_candidate_searches plan) results {}" by (simp add: cs_def resolve_plan_candidates_def)
  have added: "map ts_uri (playlist_tracks_from_candidates cs) = chosen_uris cs"
    using resolved_selected [of 1 "pp_candidate_searches plan" results "{}" "[]"]
    by (simp add: cs playlist_tracks_from_candidates_def)
  have "length (playlist_tracks_from_candidates cs) = length (filter (\<lambda>c. tk_status c = CandResolved) cs)"
    using arg_cong [OF added, of length] by (simp add: chosen_uris_def)
  then show ?thesis
    using resolve_from_verdicts [of _ "pp_candidate_searches plan" 1 results "{}"] added status_count [of cs]
      chosen_fresh [of 1 "pp_candidate_searches plan" results "{}"]
    by (auto simp: pv_def build_playlist_preview_def Let_def issues_def cs)
qed

definition mix_plan :: playlist_plan where
  "mix_plan = \<lparr>pp_title = [], pp_description = [], pp_target_length = 12, pp_mood = [], pp_theme_notes = [],
     pp_candidate_searches = [''one'', ''two'', ''three''], pp_sequencing_notes = [], pp_exclusions = []\<rparr>"

definition mix_answers :: "media_item list list" where
  "mix_answers = [[default_media_item\<lparr>mi_uri := ''a'', mi_kind := Track\<rparr>], [default_media_item\<lparr>mi_uri := ''a'', mi_kind := Track\<rparr>], []]"

theorem resolved_plan_previewed_witness:
  "map tk_status (resolve_plan_candidates mix_plan mix_answers) = [CandResolved, CandDuplicate, CandUnresolved] \<and>
   distinct (pv_add_uris (build_playlist_preview ''mix'' (resolve_plan_candidates mix_plan mix_answers)))"
proof -
  have "map tk_status (resolve_plan_candidates mix_plan mix_answers) = [CandResolved, CandDuplicate, CandUnresolved]"
    by (simp add: mix_plan_def mix_answers_def resolve_plan_candidates_def resolve_query_def Let_def playable_def default_media_item_def)
  then show ?thesis using resolved_plan_previewed [of mix_plan mix_answers "''mix''"] by blast
qed

end
