(* ===== verification/Mcp_Bridge.thy ===== *)
theory Mcp_Bridge
  imports Mcp_Tools Agent_Playlists Audio_Settings Operation_Log
begin

text \<open>
  From tool calls to daemon requests (\<open>spotuify-mcp/src/bridge.rs\<close>) and the requests themselves
  (\<open>spotuify-protocol/src/lib.rs\<close>, those an agent can cause). Decoders that \<open>serde\<close> derives are arguments
  (\<open>mcp_lib\<close>): a plan from a text or a value, an occurrence from a value. Constant fields of requests and the
  explanations in errors are left out.
\<close>

section \<open>Requests\<close>

datatype search_scope = ScopeAll | ScopeTrack | ScopeEpisode | ScopeShow | ScopeAlbum | ScopeArtist | ScopePlaylist

datatype search_source = SourceLocal | SourceRemote provider_id | SourceHybrid

definition legacy_default_remote :: search_source where
  "legacy_default_remote = SourceRemote ''spotify''"

definition LIKED_SONGS_CONTEXT :: string where
  "LIKED_SONGS_CONTEXT = ''spotuify:collection:liked''"

datatype playback_command =
    CmdPause | CmdResume | CmdToggle | CmdNext | CmdPrevious
  | CmdPlayUri string "string option"
  | CmdSeek u64
  | CmdSeekRelative i64
  | CmdVolume u8
  | CmdShuffle bool
  | CmdRepeat repeat_mode

record occurrence_ref =
  or_uri :: resource_uri
  or_positions :: "u32 list"

definition occurrence_ref_new :: "resource_uri \<Rightarrow> u32 list \<Rightarrow> occurrence_ref option" where
  "occurrence_ref_new uri positions = (if positions = [] then None else Some \<lparr>or_uri = uri, or_positions = positions\<rparr>)"

datatype item_action = ActionAdd | ActionRemove
datatype top_kind = TopTracks | TopArtists | TopAlbums | TopPlaylists
datatype since_window = SinceAll | SinceDays u32
datatype habit_window = HabitDay | HabitWeek | HabitMonth
datatype search_mode = ModeRaw | ModeNormalized

datatype (plugins only: code) request =
    RqProvidersList
  | RqResolveTarget string "provider_id option" "media_kind list option"
  | RqGetDoctorReport
  | RqPlaybackGet
  | RqPlaybackCommand playback_command
  | RqDevicesList
  | RqDeviceTransfer string
  | RqSearch string search_scope search_source u32 "provider_id option"
  | RqLibraryList u32 "provider_id option"
  | RqQueueGet
  | RqQueueAdd string
  | RqQueueAddMany "string list"
  | RqPlaylistsList "provider_id option"
  | RqPlaylistTracks string bool "provider_id option"
  | RqArtistFollow string
  | RqArtistUnfollow string
  | RqPlaylistAddItems string "string list" "provider_id option"
  | RqPlaylistRemoveItems string "string list" "provider_id option"
  | RqPlaylistRemoveOccurrences string "occurrence_ref list" "provider_id option"
  | RqPlaylistRemoveOccurrencesPreview string "occurrence_ref list" "provider_id option"
  | RqPlaylistItemsPreview string "string list" item_action "provider_id option"
  | RqPlaylistCreate string "string option" "string list" "provider_id option"
  | RqPlaylistCreatePreview string "string option" "string list" "provider_id option"
  | RqPlaylistUnfollow string "provider_id option"
  | RqPlaylistSetImage string string "provider_id option"
  | RqLibrarySave "string option" bool
  | RqLibraryUnsave string
  | RqLyricsGet "string option" bool
  | RqAnalyticsTop top_kind since_window u32
  | RqAnalyticsHabits habit_window
  | RqAnalyticsSearch search_mode u32
  | RqAnalyticsRediscovery u32
  | RqAnalyticsImport "string option" "string option" "i64 option" "i64 option" bool
  | RqAnalyticsImportStatus string
  | RqAnalyticsImportUnresolved string
  | RqAnalyticsImportUndo string bool bool
  | RqRelatedArtists string
  | RqArtistTopTracks string
  | RqRadioStart string bool
  | RqOpsLog u32 "operation_source option"
  | RqOpsUndo "string option" bool bool "i64 option"
  | RqOpsRedo "string option"
  | RqPlaybackSpeedGet
  | RqPlaybackSpeedSet playback_speed
  | RqEqGet
  | RqEqSet "string option" "int list option"
  | RqBookmarksList "string option"
  | RqBookmarkCreate "string option" "u64 option" "string option"
  | RqBookmarkPlay string
  | RqBookmarkDelete string
  | RqGetVizStatus
  | RqSetVizStyle string
  | RqThemesList
  | RqSetTheme string

definition requires_mutation_id :: "request \<Rightarrow> bool" where
  "requires_mutation_id r = (case r of
       RqOpsUndo _ dry_run _ _ \<Rightarrow> \<not> dry_run
     | RqRadioStart _ dry_run \<Rightarrow> \<not> dry_run
     | RqOpsRedo _ \<Rightarrow> True
     | RqQueueAdd _ \<Rightarrow> True
     | RqQueueAddMany _ \<Rightarrow> True
     | RqPlaylistAddItems _ _ _ \<Rightarrow> True
     | RqPlaylistRemoveItems _ _ _ \<Rightarrow> True
     | RqPlaylistRemoveOccurrences _ _ _ \<Rightarrow> True
     | RqPlaylistCreate _ _ _ _ \<Rightarrow> True
     | RqPlaylistUnfollow _ _ \<Rightarrow> True
     | RqPlaylistSetImage _ _ _ \<Rightarrow> True
     | RqLibrarySave _ _ \<Rightarrow> True
     | RqLibraryUnsave _ \<Rightarrow> True
     | RqArtistFollow _ \<Rightarrow> True
     | RqArtistUnfollow _ \<Rightarrow> True
     | _ \<Rightarrow> False)"

definition is_playlist_preview_request :: "request \<Rightarrow> bool" where
  "is_playlist_preview_request r = (case r of
       RqPlaylistCreatePreview _ _ _ _ \<Rightarrow> True | RqPlaylistItemsPreview _ _ _ _ \<Rightarrow> True
     | RqPlaylistRemoveOccurrencesPreview _ _ _ \<Rightarrow> True | _ \<Rightarrow> False)"

section \<open>Arguments\<close>

datatype bridge_error =
    MissingArg string string
  | BadArgType string string
  | InvalidArg string string
  | NotYetImplemented string
  | UnknownTool string

record mcp_lib =
  ml_plan_from_text :: "string \<Rightarrow> playlist_plan option"
  ml_plan_from_value :: "json \<Rightarrow> playlist_plan option"
  ml_occurrence_wire :: "json \<Rightarrow> (resource_uri \<times> u32 list) option"

definition required_str :: "json \<Rightarrow> string \<Rightarrow> string \<Rightarrow> (string, bridge_error) result" where
  "required_str args t key = (case json_get args key of
       None \<Rightarrow> Err (MissingArg t key)
     | Some v \<Rightarrow> (case as_str v of Some s \<Rightarrow> Ok s | None \<Rightarrow> Err (BadArgType t key)))"

definition optional_str :: "json \<Rightarrow> string \<Rightarrow> string option" where
  "optional_str args key = Option.bind (json_get args key) as_str"

definition optional_u64 :: "json \<Rightarrow> string \<Rightarrow> u64 option" where
  "optional_u64 args key = Option.bind (json_get args key) as_u64"

definition optional_bool :: "json \<Rightarrow> string \<Rightarrow> bool option" where
  "optional_bool args key = Option.bind (json_get args key) as_bool"

definition optional_checked_str :: "json \<Rightarrow> string \<Rightarrow> string \<Rightarrow> (string option, bridge_error) result" where
  "optional_checked_str args t key = (case json_get args key of
       None \<Rightarrow> Ok None
     | Some v \<Rightarrow> (case as_str v of Some s \<Rightarrow> Ok (Some s) | None \<Rightarrow> Err (BadArgType t key)))"

definition optional_checked_bool :: "json \<Rightarrow> string \<Rightarrow> string \<Rightarrow> (bool option, bridge_error) result" where
  "optional_checked_bool args t key = (case json_get args key of
       None \<Rightarrow> Ok None
     | Some v \<Rightarrow> (case as_bool v of Some b \<Rightarrow> Ok (Some b) | None \<Rightarrow> Err (BadArgType t key)))"

definition or_else :: "'a option \<Rightarrow> 'a option \<Rightarrow> 'a option" where
  "or_else a b = (case a of Some x \<Rightarrow> Some x | None \<Rightarrow> b)"

definition unwrap_or :: "'a \<Rightarrow> 'a option \<Rightarrow> 'a" where
  "unwrap_or d a = (case a of Some x \<Rightarrow> x | None \<Rightarrow> d)"

definition limit_arg :: "json \<Rightarrow> nat \<Rightarrow> nat \<Rightarrow> u32" where
  "limit_arg args dflt cap = (case optional_u64 args ''limit'' of None \<Rightarrow> dflt | Some n \<Rightarrow> min n cap)"

definition parse_provider :: "json \<Rightarrow> string \<Rightarrow> (provider_id option, bridge_error) result" where
  "parse_provider args t = (case json_get args ''provider'' of
       None \<Rightarrow> Ok None
     | Some v \<Rightarrow> (case as_str v of
         None \<Rightarrow> Err (BadArgType t ''provider'')
       | Some s \<Rightarrow> (case provider_id_new s of Ok p \<Rightarrow> Ok (Some p) | Err _ \<Rightarrow> Err (InvalidArg t ''provider''))))"

definition parse_scope :: "string option \<Rightarrow> string \<Rightarrow> (search_scope, bridge_error) result" where
  "parse_scope raw t =
     (let kind = unwrap_or ''track'' raw
      in if kind = ''track'' then Ok ScopeTrack
         else if kind = ''episode'' then Ok ScopeEpisode
         else if kind \<in> {''show'', ''podcast'', ''podcasts''} then Ok ScopeShow
         else if kind = ''album'' then Ok ScopeAlbum
         else if kind = ''artist'' then Ok ScopeArtist
         else if kind = ''playlist'' then Ok ScopePlaylist
         else if kind = ''all'' then Ok ScopeAll
         else Err (InvalidArg t ''kind''))"

definition parse_source :: "string option \<Rightarrow> provider_id option \<Rightarrow> provider_id option \<Rightarrow> string \<Rightarrow> string
    \<Rightarrow> (search_source \<times> provider_id option, bridge_error) result" where
  "parse_source raw provider default_provider omitted t =
     (let src = unwrap_or omitted raw
      in if src = ''local'' then Ok (SourceLocal, provider)
         else if src = ''hybrid'' then Ok (SourceHybrid, provider)
         else if src = ''remote'' \<or> src = ''spotify''
         then Ok (case or_else provider default_provider of None \<Rightarrow> legacy_default_remote | Some p \<Rightarrow> SourceRemote p, provider)
         else Err (InvalidArg t ''source''))"

fun map_playlist_uris :: "string \<Rightarrow> media_kind list \<Rightarrow> json list \<Rightarrow> (string list, bridge_error) result" where
  "map_playlist_uris t allowed [] = Ok []"
| "map_playlist_uris t allowed (v # vs) = (case as_str v of
       None \<Rightarrow> Err (BadArgType t ''uris'')
     | Some s \<Rightarrow> (case resource_uri_parse s of
         Err _ \<Rightarrow> Err (InvalidArg t ''uris'')
       | Ok u \<Rightarrow> if ru_kind u \<notin> set allowed then Err (InvalidArg t ''uris'')
           else result_bind (map_playlist_uris t allowed vs) (\<lambda>us. Ok (as_uri u # us))))"

definition required_playlist_uris :: "json \<Rightarrow> string \<Rightarrow> media_kind list \<Rightarrow> (string list, bridge_error) result" where
  "required_playlist_uris args t allowed = (case json_get args ''uris'' of
       None \<Rightarrow> Err (MissingArg t ''uris'')
     | Some v \<Rightarrow> (case as_array v of
         None \<Rightarrow> Err (BadArgType t ''uris'')
       | Some raw \<Rightarrow> if raw = [] then Err (InvalidArg t ''uris'') else map_playlist_uris t allowed raw))"

definition required_playlist_item_uris :: "json \<Rightarrow> string \<Rightarrow> (string list, bridge_error) result" where
  "required_playlist_item_uris args t = required_playlist_uris args t [Track, Episode]"

definition optional_playlist_create_uris :: "json \<Rightarrow> string \<Rightarrow> (string list, bridge_error) result" where
  "optional_playlist_create_uris args t = (case json_get args ''uris'' of
       None \<Rightarrow> Ok []
     | Some v \<Rightarrow> (case as_array v of
         None \<Rightarrow> Err (BadArgType t ''uris'')
       | Some raw \<Rightarrow> if raw = [] then Ok [] else map_playlist_uris t [Track, Episode] raw))"

fun decode_occurrences :: "mcp_lib \<Rightarrow> string \<Rightarrow> json list \<Rightarrow> (occurrence_ref list, bridge_error) result" where
  "decode_occurrences lib t [] = Ok []"
| "decode_occurrences lib t (v # vs) =
     (case Option.bind (ml_occurrence_wire lib v) (\<lambda>(u, ps). occurrence_ref_new u ps) of
        None \<Rightarrow> Err (InvalidArg t ''items'')
      | Some item \<Rightarrow> result_bind (decode_occurrences lib t vs) (\<lambda>items. Ok (item # items)))"

fun insert_positions :: "u32 list \<Rightarrow> u32 set \<Rightarrow> u32 set option" where
  "insert_positions [] seen = Some seen"
| "insert_positions (p # ps) seen = (if p \<in> seen then None else insert_positions ps (insert p seen))"

fun check_occurrence_refs :: "string \<Rightarrow> resource_uri option \<Rightarrow> occurrence_ref list \<Rightarrow> u32 set \<Rightarrow> (unit, bridge_error) result" where
  "check_occurrence_refs t playlist [] seen = Ok ()"
| "check_occurrence_refs t playlist (item # items) seen =
     (if ru_kind (or_uri item) \<notin> {Track, Episode} then Err (InvalidArg t ''items'')
      else if (case playlist of Some p \<Rightarrow> ru_scheme p \<noteq> ru_scheme (or_uri item) | None \<Rightarrow> False) then Err (InvalidArg t ''items'')
      else (case insert_positions (or_positions item) seen of
              None \<Rightarrow> Err (InvalidArg t ''items'')
            | Some seen' \<Rightarrow> check_occurrence_refs t playlist items seen'))"

definition required_playlist_occurrences :: "mcp_lib \<Rightarrow> json \<Rightarrow> string \<Rightarrow> (occurrence_ref list, bridge_error) result" where
  "required_playlist_occurrences lib args t = (case json_get args ''items'' of
       None \<Rightarrow> Err (MissingArg t ''items'')
     | Some v \<Rightarrow> (case as_array v of
         None \<Rightarrow> Err (BadArgType t ''items'')
       | Some raw \<Rightarrow> if raw = [] then Err (InvalidArg t ''items'')
           else result_bind (decode_occurrences lib t raw) (\<lambda>items.
             let playlist = (case required_str args t ''playlist'' of Err _ \<Rightarrow> None
                  | Ok s \<Rightarrow> (case resource_uri_parse s of Ok u \<Rightarrow> Some u | Err _ \<Rightarrow> None))
             in result_bind (check_occurrence_refs t playlist items {}) (\<lambda>_. Ok items))))"

definition is_artist_uri :: "string \<Rightarrow> bool" where
  "is_artist_uri uri = (case resource_uri_parse uri of Ok u \<Rightarrow> ru_kind u = Artist | Err _ \<Rightarrow> False)"

definition parse_playlist_plan_arg :: "mcp_lib \<Rightarrow> json \<Rightarrow> string \<Rightarrow> (playlist_plan, bridge_error) result" where
  "parse_playlist_plan_arg lib args t = (case json_get args ''plan'' of
       None \<Rightarrow> Err (MissingArg t ''plan'')
     | Some raw \<Rightarrow> (case (case as_str raw of Some s \<Rightarrow> ml_plan_from_text lib s | None \<Rightarrow> ml_plan_from_value lib raw) of
         Some plan \<Rightarrow> Ok plan | None \<Rightarrow> Err (InvalidArg t ''plan'')))"

definition play_context_uri :: "string \<Rightarrow> json \<Rightarrow> (string option, bridge_error) result" where
  "play_context_uri t args = result_bind (optional_checked_str args t ''context_uri'') (\<lambda>ctx. case ctx of
       None \<Rightarrow> Ok None
     | Some context \<Rightarrow> result_bind (required_str args t ''uri'') (\<lambda>raw. case resource_uri_parse raw of
         Err _ \<Rightarrow> Err (InvalidArg t ''uri'')
       | Ok uri \<Rightarrow>
           if ru_kind uri \<notin> {Track, Episode} then Err (InvalidArg t ''uri'')
           else if context = LIKED_SONGS_CONTEXT then Ok (Some context)
           else (case resource_uri_parse context of
               Err _ \<Rightarrow> Err (InvalidArg t ''context_uri'')
             | Ok c \<Rightarrow> if ru_kind c \<notin> {Album, Artist, Playlist, Show} then Err (InvalidArg t ''context_uri'')
                 else if ru_scheme c \<noteq> ru_scheme uri then Err (InvalidArg t ''context_uri'')
                 else Ok (Some (as_uri c)))))"

section \<open>Translation\<close>

datatype translated_call =
    TcRequest request
  | TcLocalPlan playlist_plan
  | TcResolveTracks playlist_plan "provider_id option"
  | TcRelatedArtists string "provider_id option"
  | TcArtistTopTracks string "provider_id option"

definition require :: "'a option \<Rightarrow> 'e \<Rightarrow> ('a, 'e) result" where
  "require v e = (case v of Some x \<Rightarrow> Ok x | None \<Rightarrow> Err e)"

definition send :: "('a \<Rightarrow> request) \<Rightarrow> ('a, bridge_error) result \<Rightarrow> (translated_call, bridge_error) result" where
  "send f r = result_bind r (\<lambda>x. Ok (TcRequest (f x)))"

definition omitted_source :: "provider_id option \<Rightarrow> provider_catalog option \<Rightarrow> string" where
  "omitted_source provider catalog = (case catalog of
       None \<Rightarrow> ''hybrid''
     | Some g \<Rightarrow> if supports_remote_search g provider then ''hybrid'' else ''local'')"

definition search_request :: "string \<Rightarrow> json \<Rightarrow> provider_id option \<Rightarrow> provider_catalog option \<Rightarrow> (request, bridge_error) result" where
  "search_request t args default_provider catalog =
     result_bind (required_str args t ''query'') (\<lambda>query.
     result_bind (optional_checked_str args t ''kind'') (\<lambda>kind.
     result_bind (parse_scope kind t) (\<lambda>scope.
     result_bind (parse_provider args t) (\<lambda>provider.
     result_bind (optional_checked_str args t ''source'') (\<lambda>src.
     result_bind (parse_source src provider default_provider (omitted_source provider catalog) t) (\<lambda>(source, provider').
     Ok (RqSearch query scope source (limit_arg args 20 50) provider')))))))"

definition artist_reference :: "string \<Rightarrow> json \<Rightarrow> (string \<times> provider_id option, bridge_error) result" where
  "artist_reference t args = result_bind (required_str args t ''artist'') (\<lambda>artist.
     result_bind (case resource_uri_parse artist of
         Ok u \<Rightarrow> if ru_kind u = Artist then Ok () else Err (InvalidArg t ''artist'') | Err _ \<Rightarrow> Ok ()) (\<lambda>_.
     result_bind (parse_provider args t) (\<lambda>provider. Ok (artist, provider))))"

definition translate_read ::
  "mcp_lib \<Rightarrow> string \<Rightarrow> json \<Rightarrow> provider_id option \<Rightarrow> provider_catalog option \<Rightarrow> (translated_call, bridge_error) result option" where
  "translate_read lib t args default_provider catalog =
     (if t = ''search'' then Some (send id (search_request t args default_provider catalog))
      else if t = ''now_playing'' then Some (Ok (TcRequest RqPlaybackGet))
      else if t = ''devices_list'' then Some (Ok (TcRequest RqDevicesList))
      else if t = ''queue_show'' then Some (Ok (TcRequest RqQueueGet))
      else if t = ''playlists_list'' then Some (send RqPlaylistsList (parse_provider args t))
      else if t = ''playlist_tracks''
      then Some (result_bind (required_str args t ''playlist'') (\<lambda>playlist.
             send (RqPlaylistTracks playlist True) (parse_provider args t)))
      else if t = ''library_list'' then Some (send (RqLibraryList (limit_arg args 100 500)) (parse_provider args t))
      else if t = ''playlist_plan''
      then Some (result_bind (required_str args t ''brief'') (\<lambda>brief. case build_playlist_plan brief of
             Ok plan \<Rightarrow> Ok (TcLocalPlan plan) | Err _ \<Rightarrow> Err (InvalidArg t ''brief'')))
      else if t = ''playlist_resolve_tracks''
      then Some (result_bind (parse_playlist_plan_arg lib args t) (\<lambda>plan.
             result_bind (parse_provider args t) (\<lambda>provider. Ok (TcResolveTracks plan provider))))
      else if t = ''related_artists''
      then Some (result_bind (artist_reference t args) (\<lambda>(a, p). Ok (TcRelatedArtists a p)))
      else if t = ''artist_top_tracks''
      then Some (result_bind (artist_reference t args) (\<lambda>(a, p). Ok (TcArtistTopTracks a p)))
      else if t = ''lyrics''
      then Some (Ok (TcRequest (RqLyricsGet (or_else (optional_str args ''track_uri'') (optional_str args ''uri''))
             (unwrap_or False (optional_bool args ''force_refresh'')))))
      else None)"

definition cast_f32 :: "rfloat \<Rightarrow> rfloat" where
  "cast_f32 x = (case x of Fin q \<Rightarrow> to_float f32 q | v \<Rightarrow> v)"

definition eq_request :: "string \<Rightarrow> json \<Rightarrow> (request, bridge_error) result" where
  "eq_request t args =
     (let preset = optional_str args ''preset''
      in result_bind (case json_get args ''bands'' of
             None \<Rightarrow> Ok None
           | Some JNull \<Rightarrow> Ok None
           | Some (JArr values) \<Rightarrow>
               (case Option.bind (those (map (\<lambda>v. map_option cast_f32 (as_f64 v)) values)) eq_bands_from_db of
                  Some bands \<Rightarrow> Ok (Some bands) | None \<Rightarrow> Err (InvalidArg t ''bands''))
           | Some _ \<Rightarrow> Err (InvalidArg t ''bands'')) (\<lambda>bands.
         if (preset \<noteq> None) = (bands \<noteq> None) then Err (InvalidArg t ''preset'') else Ok (RqEqSet preset bands)))"

definition speed_request :: "string \<Rightarrow> json \<Rightarrow> (request, bridge_error) result" where
  "speed_request t args = result_bind (require (Option.bind (json_get args ''speed'') as_f64) (MissingArg t ''speed'')) (\<lambda>raw.
     if \<not> is_finite raw then Err (InvalidArg t ''speed'') else Ok (RqPlaybackSpeedSet (speed_from_f32 (cast_f32 raw))))"

definition seek_request :: "string \<Rightarrow> json \<Rightarrow> (playback_command, bridge_error) result" where
  "seek_request t args = (case Option.bind (json_get args ''offset_ms'') as_i64 of
       Some offset_ms \<Rightarrow> Ok (CmdSeekRelative offset_ms)
     | None \<Rightarrow> result_bind (require (optional_u64 args ''position_ms'') (MissingArg t ''position_ms'')) (\<lambda>p. Ok (CmdSeek p)))"

definition repeat_request :: "string \<Rightarrow> json \<Rightarrow> (playback_command, bridge_error) result" where
  "repeat_request t args = result_bind (required_str args t ''mode'') (\<lambda>mode. case repeat_mode_parse mode of
       Ok state \<Rightarrow> Ok (CmdRepeat state) | Err _ \<Rightarrow> Err (InvalidArg t ''mode''))"

definition translate_transport :: "string \<Rightarrow> json \<Rightarrow> (translated_call, bridge_error) result option" where
  "translate_transport t args =
     (if t = ''play'' \<or> t = ''play_uri''
      then Some (result_bind (required_str args t ''uri'') (\<lambda>uri.
             send (\<lambda>ctx. RqPlaybackCommand (CmdPlayUri uri ctx)) (play_context_uri t args)))
      else if t = ''pause'' then Some (Ok (TcRequest (RqPlaybackCommand CmdPause)))
      else if t = ''resume'' then Some (Ok (TcRequest (RqPlaybackCommand CmdResume)))
      else if t = ''next'' then Some (Ok (TcRequest (RqPlaybackCommand CmdNext)))
      else if t = ''previous'' then Some (Ok (TcRequest (RqPlaybackCommand CmdPrevious)))
      else if t = ''seek'' then Some (send RqPlaybackCommand (seek_request t args))
      else if t = ''playback_speed_get'' then Some (Ok (TcRequest RqPlaybackSpeedGet))
      else if t = ''playback_speed_set'' then Some (send id (speed_request t args))
      else if t = ''eq_get'' then Some (Ok (TcRequest RqEqGet))
      else if t = ''eq_set'' then Some (send id (eq_request t args))
      else if t = ''volume''
      then Some (send (\<lambda>p. RqPlaybackCommand (CmdVolume (min p 100)))
             (require (optional_u64 args ''percent'') (MissingArg t ''percent'')))
      else if t = ''shuffle''
      then Some (send (\<lambda>s. RqPlaybackCommand (CmdShuffle s)) (require (optional_bool args ''on'') (MissingArg t ''on'')))
      else if t = ''repeat'' then Some (send RqPlaybackCommand (repeat_request t args))
      else if t = ''queue_add'' then Some (send RqQueueAdd (required_str args t ''uri''))
      else if t = ''transfer_device'' then Some (send RqDeviceTransfer (required_str args t ''device''))
      else if t = ''radio_start''
      then Some (result_bind (required_str args t ''seed_uri'') (\<lambda>seed_uri.
             send (\<lambda>dry. RqRadioStart seed_uri (unwrap_or False dry)) (optional_checked_bool args t ''dry_run'')))
      else None)"

definition translate_local :: "string \<Rightarrow> json \<Rightarrow> (translated_call, bridge_error) result option" where
  "translate_local t args =
     (if t = ''bookmarks_list'' then Some (Ok (TcRequest (RqBookmarksList (optional_str args ''uri''))))
      else if t = ''bookmark_add''
      then Some (Ok (TcRequest (RqBookmarkCreate (optional_str args ''uri'') (optional_u64 args ''position_ms'')
             (optional_str args ''note''))))
      else if t = ''bookmark_play'' then Some (send RqBookmarkPlay (required_str args t ''id''))
      else if t = ''bookmark_delete'' then Some (send RqBookmarkDelete (required_str args t ''id''))
      else if t = ''viz_style_get'' then Some (Ok (TcRequest RqGetVizStatus))
      else if t = ''viz_style_set''
      then Some (send (\<lambda>s. RqSetVizStyle (to_ascii_lowercase (trim s))) (required_str args t ''style''))
      else if t = ''themes_list'' then Some (Ok (TcRequest RqThemesList))
      else if t = ''theme_set'' then Some (send RqSetTheme (required_str args t ''name''))
      else None)"

definition playlist_edit ::
  "string \<Rightarrow> json \<Rightarrow> item_action \<Rightarrow> (string \<Rightarrow> string list \<Rightarrow> provider_id option \<Rightarrow> request) \<Rightarrow> (request, bridge_error) result" where
  "playlist_edit t args act live =
     result_bind (required_str args t ''playlist'') (\<lambda>playlist.
     result_bind (required_playlist_item_uris args t) (\<lambda>uris.
     result_bind (parse_provider args t) (\<lambda>provider.
     result_bind (optional_checked_bool args t ''dry_run'') (\<lambda>dry.
     Ok (if unwrap_or False dry then RqPlaylistItemsPreview playlist uris act provider else live playlist uris provider)))))"

definition playlist_create_request :: "string \<Rightarrow> json \<Rightarrow> (request, bridge_error) result" where
  "playlist_create_request t args =
     result_bind (required_str args t ''name'') (\<lambda>name.
     result_bind (optional_checked_str args t ''description'') (\<lambda>description.
     result_bind (optional_playlist_create_uris args t) (\<lambda>uris.
     result_bind (parse_provider args t) (\<lambda>provider.
     result_bind (optional_checked_bool args t ''dry_run'') (\<lambda>dry.
     Ok (if unwrap_or False dry then RqPlaylistCreatePreview name description uris provider
         else RqPlaylistCreate name description uris provider))))))"

definition occurrences_request :: "mcp_lib \<Rightarrow> string \<Rightarrow> json \<Rightarrow> (request, bridge_error) result" where
  "occurrences_request lib t args =
     result_bind (required_str args t ''playlist'') (\<lambda>playlist.
     result_bind (required_playlist_occurrences lib args t) (\<lambda>items.
     result_bind (parse_provider args t) (\<lambda>provider. Ok (RqPlaylistRemoveOccurrences playlist items provider))))"

definition translate_write :: "mcp_lib \<Rightarrow> string \<Rightarrow> json \<Rightarrow> (translated_call, bridge_error) result option" where
  "translate_write lib t args =
     (if t = ''playlist_create'' then Some (send id (playlist_create_request t args))
      else if t = ''playlist_add'' then Some (send id (playlist_edit t args ActionAdd RqPlaylistAddItems))
      else if t = ''playlist_remove'' then Some (send id (playlist_edit t args ActionRemove RqPlaylistRemoveItems))
      else if t = ''playlist_remove_occurrences'' then Some (send id (occurrences_request lib t args))
      else if t = ''playlist_unfollow''
      then Some (result_bind (required_str args t ''playlist'') (\<lambda>playlist.
             send (RqPlaylistUnfollow playlist) (parse_provider args t)))
      else if t = ''playlist_set_image''
      then Some (result_bind (required_str args t ''playlist'') (\<lambda>playlist.
             result_bind (required_str args t ''image_base64'') (\<lambda>image.
             send (RqPlaylistSetImage playlist image) (parse_provider args t))))
      else if t = ''library_save''
      then Some (send (\<lambda>uri. if is_artist_uri uri then RqArtistFollow uri else RqLibrarySave (Some uri) False)
             (required_str args t ''uri''))
      else if t = ''library_unsave''
      then Some (send (\<lambda>uri. if is_artist_uri uri then RqArtistUnfollow uri else RqLibraryUnsave uri)
             (required_str args t ''uri''))
      else None)"

definition strip_suffix_d :: "string \<Rightarrow> string" where
  "strip_suffix_d s = (if s \<noteq> [] \<and> last s = CHR ''d'' then butlast s else s)"

definition parse_u32 :: "string \<Rightarrow> u32 option" where
  "parse_u32 s = parse_uint (2 ^ 32 - 1) s"

definition top_kind_arg :: "json \<Rightarrow> top_kind" where
  "top_kind_arg args = (let k = unwrap_or ''tracks'' (optional_str args ''kind'')
     in if k = ''artists'' then TopArtists else if k = ''albums'' then TopAlbums
        else if k = ''playlists'' then TopPlaylists else TopTracks)"

definition since_arg :: "json \<Rightarrow> since_window" where
  "since_arg args = (let raw = unwrap_or ''30d'' (optional_str args ''since'')
     in if raw = ''all'' then SinceAll else SinceDays (unwrap_or 30 (parse_u32 (strip_suffix_d raw))))"

definition habit_arg :: "json \<Rightarrow> habit_window" where
  "habit_arg args = (let w = unwrap_or ''week'' (optional_str args ''window'')
     in if w = ''day'' then HabitDay else if w = ''month'' then HabitMonth else HabitWeek)"

definition translate_analytics :: "string \<Rightarrow> json \<Rightarrow> (translated_call, bridge_error) result option" where
  "translate_analytics t args =
     (if t = ''analytics_top''
      then Some (Ok (TcRequest (RqAnalyticsTop (top_kind_arg args) (since_arg args) (limit_arg args 25 100))))
      else if t = ''analytics_habits'' then Some (Ok (TcRequest (RqAnalyticsHabits (habit_arg args))))
      else if t = ''analytics_search''
      then Some (Ok (TcRequest (RqAnalyticsSearch
             (if optional_str args ''mode'' = Some ''normalized'' then ModeNormalized else ModeRaw) (limit_arg args 50 200))))
      else if t = ''analytics_rediscovery''
      then Some (Ok (TcRequest (RqAnalyticsRediscovery
             (unwrap_or 90 (Option.bind (optional_str args ''gap'') (\<lambda>s. parse_u32 (strip_suffix_d s)))))))
      else if t = ''analytics_import_lastfm''
      then Some (Ok (TcRequest (RqAnalyticsImport (or_else (optional_str args ''user'') (optional_str args ''username''))
             (optional_str args ''api_key'') (map_option u64_as_i64 (optional_u64 args ''from_ms''))
             (map_option u64_as_i64 (optional_u64 args ''to_ms'')) (unwrap_or False (optional_bool args ''apply'')))))
      else if t = ''analytics_import_status'' then Some (send RqAnalyticsImportStatus (required_str args t ''run_id''))
      else if t = ''analytics_import_unresolved'' then Some (send RqAnalyticsImportUnresolved (required_str args t ''run_id''))
      else if t = ''analytics_import_undo''
      then Some (send (\<lambda>run_id. RqAnalyticsImportUndo run_id (unwrap_or True (optional_bool args ''dry_run''))
             (unwrap_or False (or_else (optional_bool args ''yes'') (optional_bool args ''force'')))) (required_str args t ''run_id''))
      else if t = ''ops_log''
      then Some (Ok (TcRequest (RqOpsLog (limit_arg args 20 200)
             (Option.bind (optional_str args ''source'') (\<lambda>v. result_ok (operation_source_from_str v))))))
      else if t = ''undo_last''
      then Some (Ok (TcRequest (RqOpsUndo None False (unwrap_or False (optional_bool args ''force'')) None)))
      else None)"

definition translate_with_context ::
  "mcp_lib \<Rightarrow> string \<Rightarrow> json \<Rightarrow> provider_id option \<Rightarrow> provider_catalog option \<Rightarrow> (translated_call, bridge_error) result" where
  "translate_with_context lib t args default_provider catalog =
     (case or_else (translate_read lib t args default_provider catalog)
             (or_else (translate_transport t args)
             (or_else (translate_local t args)
             (or_else (translate_write lib t args) (translate_analytics t args)))) of
        Some r \<Rightarrow> r
      | None \<Rightarrow> Err (UnknownTool t))"

definition translate_with_catalog ::
  "mcp_lib \<Rightarrow> string \<Rightarrow> json \<Rightarrow> provider_catalog option \<Rightarrow> (translated_call, bridge_error) result" where
  "translate_with_catalog lib t args catalog =
     translate_with_context lib t args (Option.bind catalog pg_default_provider) catalog"

text \<open>The read-only request that previews an unconfirmed playlist edit.\<close>

definition preview_of :: "request \<Rightarrow> request option" where
  "preview_of r = (case r of
       RqPlaylistCreate name description uris provider \<Rightarrow> Some (RqPlaylistCreatePreview name description uris provider)
     | RqPlaylistCreatePreview name description uris provider \<Rightarrow> Some (RqPlaylistCreatePreview name description uris provider)
     | RqPlaylistAddItems playlist uris provider \<Rightarrow> Some (RqPlaylistItemsPreview playlist uris ActionAdd provider)
     | RqPlaylistRemoveItems playlist uris provider \<Rightarrow> Some (RqPlaylistItemsPreview playlist uris ActionRemove provider)
     | RqPlaylistRemoveOccurrences playlist items provider \<Rightarrow> Some (RqPlaylistRemoveOccurrencesPreview playlist items provider)
     | RqPlaylistRemoveOccurrencesPreview playlist items provider \<Rightarrow> Some (RqPlaylistRemoveOccurrencesPreview playlist items provider)
     | RqPlaylistItemsPreview playlist uris act provider \<Rightarrow> Some (RqPlaylistItemsPreview playlist uris act provider)
     | _ \<Rightarrow> None)"

definition translate_playlist_preview_with_catalog ::
  "mcp_lib \<Rightarrow> string \<Rightarrow> json \<Rightarrow> provider_catalog option \<Rightarrow> (request option, bridge_error) result" where
  "translate_playlist_preview_with_catalog lib t args catalog =
     (if t \<notin> {''playlist_create'', ''playlist_add'', ''playlist_remove'', ''playlist_remove_occurrences''} then Ok None
      else result_bind (translate_with_catalog lib t args catalog) (\<lambda>call. case call of
          TcRequest r \<Rightarrow> (case preview_of r of Some p \<Rightarrow> Ok (Some p) | None \<Rightarrow> Err (NotYetImplemented t))
        | _ \<Rightarrow> Err (NotYetImplemented t)))"

text \<open>Checks made before the catalog is asked for.\<close>

definition validate_tool_arguments :: "string \<Rightarrow> json \<Rightarrow> (unit, string) result" where
  "validate_tool_arguments t args =
     result_bind (if t \<in> {''play'', ''play_uri''} then
         (case play_context_uri t args of Ok _ \<Rightarrow> Ok () | Err _ \<Rightarrow> Err ''context_uri'') else Ok ()) (\<lambda>_.
     if t = ''playlist_remove_occurrences'' \<and> json_get args ''dry_run'' \<noteq> None then Err ''dry_run''
     else if t \<in> {''playlist_create'', ''playlist_add'', ''playlist_remove'', ''radio_start''} \<and>
       (case json_get args ''dry_run'' of Some v \<Rightarrow> as_bool v = None | None \<Rightarrow> False) then Err ''dry_run''
     else Ok ())"

end
