(* ===== verification/Mcp_Server.thy ===== *)
theory Mcp_Server
  imports Mcp_Bridge Mutation_Claims
begin

text \<open>
  The agent (MCP) server (\<open>spotuify-mcp/src/server.rs\<close>, \<open>rpc.rs\<close>, \<open>resources.rs\<close>, \<open>http.rs\<close>, the client side of
  \<open>daemon_client.rs\<close>). A call is a function from an environment (what the daemon answers to the requests
  sent so far, decoders and identifier source of libraries) to a reply and the log of the requests sent, each with
  the mutation identifier it carried. Replies keep the decision and the data, not the rendered text.
\<close>

section \<open>The daemon as the server sees it\<close>

type_synonym mutation_key = "u8 list"

datatype response_data =
    RdProviderList "provider_id option" "provider_descriptor list"
  | RdSearchResults "media_item list"
  | RdTargetResolved "resource_uri option"
  | RdMutation "receipt_status option" bool
  | RdPlaylistCreate bool
  | RdOther string

datatype daemon_response = RespOk response_data | RespError ipc_error_kind

datatype transport_error = PostSendCompat | HardFailure

type_synonym daemon_outcome = "(daemon_response, transport_error) result"

type_synonym request_log = "(request \<times> mutation_key option) list"

record parsed_url =
  pu_scheme :: string
  pu_username :: string
  pu_password :: "string option"
  pu_port :: "u16 option"
  pu_fragment :: "string option"
  pu_query :: "(string \<times> string) list"
  pu_host :: "string option"
  pu_path :: string

record rpc_request =
  rq_jsonrpc :: string
  rq_id :: "json option"
  rq_method :: string
  rq_params :: json

record mcp_env =
  me_lib :: mcp_lib
  me_answer :: "request_log \<Rightarrow> daemon_outcome"
  me_new_v7 :: "nat \<Rightarrow> mutation_key"
  me_parse_uuid :: "string \<Rightarrow> mutation_key option"
  me_url_parse :: "string \<Rightarrow> parsed_url option"
  me_decode_request :: "string \<Rightarrow> rpc_request option"

definition round_trip_with_mutation_id ::
  "mcp_env \<Rightarrow> request \<Rightarrow> mutation_key option \<Rightarrow> request_log \<Rightarrow> daemon_outcome \<times> request_log" where
  "round_trip_with_mutation_id env r m sent =
     (if requires_mutation_id r \<noteq> (m \<noteq> None) then (Err HardFailure, sent)
      else (me_answer env (sent @ [(r, m)]), sent @ [(r, m)]))"

definition round_trip :: "mcp_env \<Rightarrow> request \<Rightarrow> request_log \<Rightarrow> daemon_outcome \<times> request_log" where
  "round_trip env r sent = round_trip_with_mutation_id env r
     (if requires_mutation_id r then Some (me_new_v7 env (length sent)) else None) sent"

definition provider_catalog_from_outcome :: "daemon_outcome \<Rightarrow> (provider_catalog option, unit) result" where
  "provider_catalog_from_outcome out = (case out of
       Ok (RespOk (RdProviderList d ps)) \<Rightarrow>
         (let g = \<lparr>pg_default_provider = d, pg_providers = ps\<rparr>
          in case catalog_validate g of Ok _ \<Rightarrow> Ok (Some g) | Err _ \<Rightarrow> Err ())
     | Ok (RespError k) \<Rightarrow> if k \<in> {IpcUnsupported, IpcInvalidRequest} then Ok None else Err ()
     | Ok (RespOk _) \<Rightarrow> Err ()
     | Err e \<Rightarrow> if e = PostSendCompat then Ok None else Err ())"

definition discover_provider_catalog :: "mcp_env \<Rightarrow> request_log \<Rightarrow> (provider_catalog option, unit) result \<times> request_log" where
  "discover_provider_catalog env sent =
     (case round_trip env RqProvidersList sent of (out, sent') \<Rightarrow> (provider_catalog_from_outcome out, sent'))"

section \<open>Replies\<close>

datatype retry_disposition = RetrySameId | VerifyBeforeRetry | PollSameId | DoNotRetry

record preview_info =
  pv_tool :: string
  pv_action :: string
  pv_would_execute :: json
  pv_fields :: "(string \<times> json) list"

datatype mcp_reply =
    RpFail int
  | RpInitialize
  | RpTools "tool list"
  | RpResources "string list"
  | RpResourceText string
  | RpResource string daemon_outcome
  | RpDone
  | RpPreview preview_info
  | RpDaemonPreview preview_info daemon_outcome
  | RpDaemon daemon_outcome
  | RpMutation daemon_outcome mutation_key retry_disposition
  | RpLocalPlan playlist_plan
  | RpCandidates "track_candidate list"
  | RpResolveFailed
  | RpTranslated request
  | RpTranslatedPreview preview_info request
  | RpWorkflow string

definition invalid_request :: mcp_reply where "invalid_request = RpFail (- 32600)"
definition method_not_found :: mcp_reply where "method_not_found = RpFail (- 32601)"
definition invalid_params :: mcp_reply where "invalid_params = RpFail (- 32602)"
definition internal_error :: mcp_reply where "internal_error = RpFail (- 32603)"

definition args_without_confirm :: "json \<Rightarrow> json" where
  "args_without_confirm args = (case args of JObj members \<Rightarrow> JObj (filter (\<lambda>m. fst m \<noteq> ''confirm'') members) | v \<Rightarrow> v)"

definition preview_action :: "string \<Rightarrow> string" where
  "preview_action name =
     (if name = ''playlist_create'' then ''playlist-create''
      else if name = ''playlist_add'' then ''playlist-add''
      else if name = ''playlist_remove'' then ''playlist-remove''
      else if name = ''playlist_remove_occurrences'' then ''playlist-remove-occurrences''
      else if name = ''library_save'' then ''library-save''
      else if name = ''library_unsave'' then ''library-unsave''
      else if name = ''queue_add'' then ''queue-add''
      else if name = ''transfer_device'' then ''transfer-device'' else name)"

definition destructive_preview :: "string \<Rightarrow> json \<Rightarrow> preview_info" where
  "destructive_preview name args =
     (let clean = args_without_confirm args
      in \<lparr>pv_tool = name, pv_action = preview_action name, pv_would_execute = clean,
          pv_fields = List.map_filter (\<lambda>key. map_option (\<lambda>v. (key, v)) (json_get clean key))
            [''name'', ''description'', ''playlist'', ''uri'', ''device'', ''uris'', ''items'']\<rparr>)"

definition is_v7 :: "mutation_key \<Rightarrow> bool" where
  "is_v7 bytes \<longleftrightarrow> bytes ! 6 div 16 = 7 \<and> bytes ! 8 div 64 = 2"

definition live_mutation_id :: "mcp_env \<Rightarrow> json \<Rightarrow> request_log \<Rightarrow> (mutation_key, unit) result" where
  "live_mutation_id env args sent = (case json_get args ''mutation_id'' of
       None \<Rightarrow> Ok (me_new_v7 env (length sent))
     | Some v \<Rightarrow> (case Option.bind (as_str v) (me_parse_uuid env) of
         None \<Rightarrow> Err ()
       | Some bytes \<Rightarrow> if is_v7 bytes then Ok bytes else Err ()))"

definition mutation_disposition :: "daemon_outcome \<Rightarrow> bool \<Rightarrow> retry_disposition" where
  "mutation_disposition out daemon_dedupes = (case out of
       Err _ \<Rightarrow> if daemon_dedupes then RetrySameId else VerifyBeforeRetry
     | Ok (RespOk (RdMutation (Some ReceiptPending) _)) \<Rightarrow> PollSameId
     | Ok _ \<Rightarrow> DoNotRetry)"

section \<open>Workflows of several requests\<close>

definition plan_search :: "provider_id option \<Rightarrow> provider_id option \<Rightarrow> string \<Rightarrow> request" where
  "plan_search effective provider query = RqSearch query ScopeTrack
     (case effective of None \<Rightarrow> legacy_default_remote | Some p \<Rightarrow> SourceRemote p) 50 provider"

datatype resolve_outcome = ResolveItems "media_item list list" | ResolveDaemonError ipc_error_kind | ResolveFailed

fun search_plan ::
  "mcp_env \<Rightarrow> provider_id option \<Rightarrow> provider_id option \<Rightarrow> string list \<Rightarrow> media_item list list \<Rightarrow> request_log
     \<Rightarrow> resolve_outcome \<times> request_log" where
  "search_plan env effective provider [] results sent = (ResolveItems results, sent)"
| "search_plan env effective provider (query # queries) results sent =
     (case round_trip env (plan_search effective provider query) sent of
        (Ok (RespOk (RdSearchResults items)), sent') \<Rightarrow> search_plan env effective provider queries (results @ [items]) sent'
      | (Ok (RespOk _), sent') \<Rightarrow> (ResolveFailed, sent')
      | (Ok (RespError k), sent') \<Rightarrow> (ResolveDaemonError k, sent')
      | (Err _, sent') \<Rightarrow> (ResolveFailed, sent'))"

definition resolve_playlist_tracks ::
  "mcp_env \<Rightarrow> playlist_plan \<Rightarrow> provider_id option \<Rightarrow> provider_catalog option \<Rightarrow> request_log \<Rightarrow> mcp_reply \<times> request_log" where
  "resolve_playlist_tracks env plan provider catalog sent =
     (case search_plan env (or_else provider (Option.bind catalog pg_default_provider)) provider
             (pp_candidate_searches plan) [] sent of
        (ResolveItems results, sent') \<Rightarrow> (RpCandidates (resolve_plan_candidates plan results), sent')
      | (ResolveDaemonError k, sent') \<Rightarrow> (RpDaemon (Ok (RespError k)), sent')
      | (ResolveFailed, sent') \<Rightarrow> (RpResolveFailed, sent'))"

definition resolve_artist_uri ::
  "mcp_env \<Rightarrow> string \<Rightarrow> provider_id option \<Rightarrow> request_log \<Rightarrow> (string, daemon_outcome) result \<times> request_log" where
  "resolve_artist_uri env artist provider sent = (case resource_uri_parse artist of
       Ok uri \<Rightarrow> (if ru_kind uri = Artist then Ok (as_uri uri) else Err (Err HardFailure), sent)
     | Err _ \<Rightarrow> (case round_trip env (RqResolveTarget artist provider (Some [Artist])) sent of (out, sent') \<Rightarrow>
         ((case out of
             Ok (RespOk (RdTargetResolved (Some u))) \<Rightarrow> if ru_kind u = Artist then Ok (as_uri u) else Err (Err HardFailure)
           | Ok (RespError k) \<Rightarrow> Err (Ok (RespError k))
           | Ok (RespOk _) \<Rightarrow> Err (Err HardFailure)
           | Err PostSendCompat \<Rightarrow> Ok (''spotify:artist:'' @ artist)
           | Err e \<Rightarrow> Err (Err e)), sent')))"

definition resolve_artist_request ::
  "mcp_env \<Rightarrow> (string \<Rightarrow> request) \<Rightarrow> string \<Rightarrow> provider_id option \<Rightarrow> request_log \<Rightarrow> daemon_outcome \<times> request_log" where
  "resolve_artist_request env f artist provider sent = (case resolve_artist_uri env artist provider sent of
       (Ok uri, sent') \<Rightarrow> round_trip env (f uri) sent'
     | (Err out, sent') \<Rightarrow> (out, sent'))"

section \<open>Tool calls\<close>

definition run_mutation :: "mcp_env \<Rightarrow> json \<Rightarrow> provider_catalog option \<Rightarrow> request \<Rightarrow> request_log \<Rightarrow> mcp_reply \<times> request_log" where
  "run_mutation env args catalog r sent = (case live_mutation_id env args sent of
       Err _ \<Rightarrow> (invalid_params, sent)
     | Ok key \<Rightarrow> (case round_trip_with_mutation_id env r (Some key) sent of (out, sent1) \<Rightarrow>
         if catalog \<noteq> None then (RpMutation out key (mutation_disposition out True), sent1)
         else if \<not> is_ok out
         then (case discover_provider_catalog env sent1 of (found, sent2) \<Rightarrow>
             (RpMutation out key (mutation_disposition out (case found of Ok (Some _) \<Rightarrow> True | _ \<Rightarrow> False)), sent2))
         else (RpMutation out key (mutation_disposition out False), sent1)))"

definition run_request ::
  "mcp_env \<Rightarrow> string \<Rightarrow> json \<Rightarrow> provider_catalog option \<Rightarrow> request \<Rightarrow> request_log \<Rightarrow> mcp_reply \<times> request_log" where
  "run_request env name args catalog r sent =
     (if is_playlist_preview_request r
      then if json_get args ''mutation_id'' \<noteq> None then (invalid_params, sent)
           else (case round_trip env r sent of (out, sent') \<Rightarrow> (RpDaemonPreview (destructive_preview name args) out, sent'))
      else if requires_mutation_id r then run_mutation env args catalog r sent
      else if json_get args ''mutation_id'' \<noteq> None then (invalid_params, sent)
      else (case round_trip env r sent of (out, sent') \<Rightarrow> (RpDaemon out, sent')))"

definition run_preview ::
  "mcp_env \<Rightarrow> string \<Rightarrow> json \<Rightarrow> provider_catalog option \<Rightarrow> request_log \<Rightarrow> mcp_reply \<times> request_log" where
  "run_preview env name args catalog sent =
     (if json_get args ''mutation_id'' \<noteq> None then (invalid_params, sent)
      else (case translate_playlist_preview_with_catalog (me_lib env) name args catalog of
          Ok (Some r) \<Rightarrow> (case round_trip env r sent of (out, sent') \<Rightarrow> (RpDaemonPreview (destructive_preview name args) out, sent'))
        | Ok None \<Rightarrow> (RpPreview (destructive_preview name args), sent)
        | Err _ \<Rightarrow> (invalid_params, sent)))"

definition run_call ::
  "mcp_env \<Rightarrow> string \<Rightarrow> json \<Rightarrow> provider_catalog option \<Rightarrow> request_log \<Rightarrow> mcp_reply \<times> request_log" where
  "run_call env name args catalog sent = (case translate_with_catalog (me_lib env) name args catalog of
       Ok (TcRequest r) \<Rightarrow> run_request env name args catalog r sent
     | Ok (TcLocalPlan plan) \<Rightarrow> (RpLocalPlan plan, sent)
     | Ok (TcResolveTracks plan provider) \<Rightarrow> resolve_playlist_tracks env plan provider catalog sent
     | Ok (TcRelatedArtists artist provider) \<Rightarrow>
         (case resolve_artist_request env RqRelatedArtists artist provider sent of (out, sent') \<Rightarrow> (RpDaemon out, sent'))
     | Ok (TcArtistTopTracks artist provider) \<Rightarrow>
         (case resolve_artist_request env RqArtistTopTracks artist provider sent of (out, sent') \<Rightarrow> (RpDaemon out, sent'))
     | Err _ \<Rightarrow> (invalid_params, sent))"

definition confirm_arg :: "json \<Rightarrow> bool option" where
  "confirm_arg args = Option.bind (json_get args ''confirm'') as_bool"

definition call_catalog :: "mcp_env \<Rightarrow> string \<Rightarrow> json \<Rightarrow> (provider_catalog option, unit) result \<times> request_log" where
  "call_catalog env name args =
     (if tool_needs_provider_catalog name args then discover_provider_catalog env [] else (Ok None, []))"

definition tools_call :: "mcp_env \<Rightarrow> string \<Rightarrow> json \<Rightarrow> mcp_reply \<times> request_log" where
  "tools_call env name args = (case validate_tool_arguments name args of
       Err _ \<Rightarrow> (invalid_params, [])
     | Ok _ \<Rightarrow> (case call_catalog env name args of
         (Err _, sent) \<Rightarrow> (internal_error, sent)
       | (Ok catalog, sent) \<Rightarrow>
           (case ensure_tool_available name args catalog of
              Err _ \<Rightarrow> (invalid_request, sent)
            | Ok _ \<Rightarrow> (case decide name (confirm_arg args) of
                Err _ \<Rightarrow> (invalid_request, sent)
              | Ok PreviewOnly \<Rightarrow> run_preview env name args catalog sent
              | Ok Execute \<Rightarrow> run_call env name args catalog sent))))"

definition call_name :: "json \<Rightarrow> string" where
  "call_name params = unwrap_or [] (Option.bind (json_get params ''name'') as_str)"

definition call_arguments :: "json \<Rightarrow> json" where
  "call_arguments params = unwrap_or (JObj []) (json_get params ''arguments'')"

section \<open>Resources\<close>

definition RESOURCES :: "(string \<times> bool) list" where
  "RESOURCES = [(''spotuify://playback'', True), (''spotuify://devices'', True), (''spotuify://playlists'', True),
     (''spotuify://now_playing/lyrics'', True), (''spotuify://doctor'', False)]"

definition resource_by_uri :: "string \<Rightarrow> (string \<times> bool) option" where
  "resource_by_uri uri = find (\<lambda>r. fst r = uri) RESOURCES"

record resource_route =
  rt_request :: request
  rt_capability_tool :: "string option"
  rt_capability_args :: json

fun route_provider :: "(string \<times> string) list \<Rightarrow> provider_id option \<Rightarrow> (provider_id option, unit) result" where
  "route_provider [] provider = Ok provider"
| "route_provider ((key, v) # rest) provider =
     (if key \<noteq> ''provider'' \<or> provider \<noteq> None then Err ()
      else (case provider_id_new v of Ok p \<Rightarrow> route_provider rest (Some p) | Err _ \<Rightarrow> Err ()))"

definition route_for :: "string option \<Rightarrow> string \<Rightarrow> provider_id option \<Rightarrow> resource_route option" where
  "route_for host path provider =
     (let args = (case provider of None \<Rightarrow> JObj [] | Some p \<Rightarrow> JObj [(''provider'', JStr p)]);
          route = (\<lambda>r t. Some \<lparr>rt_request = r, rt_capability_tool = t, rt_capability_args = args\<rparr>);
          root = (path = [] \<or> path = ''/'')
      in if host = Some ''playback'' \<and> root \<and> provider = None then route RqPlaybackGet (Some ''now_playing'')
         else if host = Some ''devices'' \<and> root \<and> provider = None then route RqDevicesList (Some ''devices_list'')
         else if host = Some ''playlists'' \<and> root then route (RqPlaylistsList provider) (Some ''playlists_list'')
         else if host = Some ''now_playing'' \<and> path = ''/lyrics'' \<and> provider = None
         then route (RqLyricsGet None False) (Some ''lyrics'')
         else if host = Some ''doctor'' \<and> root \<and> provider = None then route RqGetDoctorReport None
         else None)"

definition resource_request_for_uri :: "mcp_env \<Rightarrow> string \<Rightarrow> (resource_route option, unit) result" where
  "resource_request_for_uri env uri = (case me_url_parse env uri of
       None \<Rightarrow> Ok None
     | Some u \<Rightarrow> if pu_scheme u \<noteq> ''spotuify'' then Ok None
         else if pu_username u \<noteq> [] \<or> pu_password u \<noteq> None \<or> pu_port u \<noteq> None \<or> pu_fragment u \<noteq> None then Err ()
         else result_bind (route_provider (pu_query u) None) (\<lambda>provider. Ok (route_for (pu_host u) (pu_path u) provider)))"

definition run_route :: "mcp_env \<Rightarrow> string \<Rightarrow> resource_route \<Rightarrow> mcp_reply \<times> request_log" where
  "run_route env uri route =
     (case (case rt_capability_tool route of None \<Rightarrow> (Ok None, []) | Some _ \<Rightarrow> discover_provider_catalog env []) of
        (Err _, sent) \<Rightarrow> (internal_error, sent)
      | (Ok catalog, sent) \<Rightarrow>
          if (case rt_capability_tool route of None \<Rightarrow> False
              | Some t \<Rightarrow> \<not> is_ok (ensure_tool_available t (rt_capability_args route) catalog))
          then (invalid_request, sent)
          else (case round_trip env (rt_request route) sent of (out, sent') \<Rightarrow> (RpResource uri out, sent')))"

section \<open>JSON-RPC\<close>

text \<open>
  The requests answered without the daemon; subscriptions are the process-wide set of resource addresses. A tool call
  given to this dispatcher is only translated.
\<close>

definition static_tools_call :: "mcp_lib \<Rightarrow> json \<Rightarrow> provider_catalog option \<Rightarrow> mcp_reply" where
  "static_tools_call lib params catalog = (case Option.bind (json_get params ''name'') as_str of
       None \<Rightarrow> invalid_params
     | Some name \<Rightarrow>
         (let args = call_arguments params
          in if \<not> is_ok (validate_tool_arguments name args) then invalid_params
             else if \<not> is_ok (ensure_tool_available name args catalog) then invalid_request
             else (case decide name (confirm_arg args) of
                 Err _ \<Rightarrow> invalid_request
               | Ok PreviewOnly \<Rightarrow> (case translate_playlist_preview_with_catalog lib name args catalog of
                   Ok (Some r) \<Rightarrow> RpTranslatedPreview (destructive_preview name args) r
                 | Ok None \<Rightarrow> RpPreview (destructive_preview name args)
                 | Err _ \<Rightarrow> invalid_params)
               | Ok Execute \<Rightarrow> (case translate_with_catalog lib name args catalog of
                   Ok (TcRequest r) \<Rightarrow> if is_playlist_preview_request r
                     then RpTranslatedPreview (destructive_preview name args) r else RpTranslated r
                 | Ok (TcLocalPlan plan) \<Rightarrow> RpLocalPlan plan
                 | Ok (TcResolveTracks _ _) \<Rightarrow> RpWorkflow ''playlist_resolve_tracks''
                 | Ok (TcRelatedArtists _ _) \<Rightarrow> RpWorkflow ''related_artists''
                 | Ok (TcArtistTopTracks _ _) \<Rightarrow> RpWorkflow ''artist_top_tracks''
                 | Err _ \<Rightarrow> invalid_params))))"

definition dispatch_with_catalog ::
  "mcp_lib \<Rightarrow> rpc_request \<Rightarrow> provider_catalog option \<Rightarrow> string set \<Rightarrow> mcp_reply \<times> string set" where
  "dispatch_with_catalog lib rq catalog subs =
     (let m = rq_method rq; uri = Option.bind (json_get (rq_params rq) ''uri'') as_str
      in if rq_jsonrpc rq \<noteq> ''2.0'' then (invalid_request, subs)
         else if m = ''initialize'' then (RpInitialize, subs)
         else if m = ''tools/list'' then (RpTools (available_tools catalog), subs)
         else if m = ''tools/call'' then (static_tools_call lib (rq_params rq) catalog, subs)
         else if m = ''resources/list'' then (RpResources (map fst RESOURCES), subs)
         else if m = ''resources/read''
         then (case uri of None \<Rightarrow> (invalid_params, subs)
               | Some u \<Rightarrow> (case resource_by_uri u of Some _ \<Rightarrow> (RpResourceText u, subs) | None \<Rightarrow> (invalid_params, subs)))
         else if m = ''resources/subscribe''
         then (case uri of None \<Rightarrow> (invalid_params, subs)
               | Some u \<Rightarrow> if resource_by_uri u = None then (invalid_params, subs) else (RpDone, insert u subs))
         else if m = ''resources/unsubscribe''
         then (case uri of None \<Rightarrow> (invalid_params, subs) | Some u \<Rightarrow> (RpDone, subs - {u}))
         else if m = ''ping'' then (RpDone, subs)
         else (method_not_found, subs))"

record rpc_response =
  rr_id :: json
  rr_reply :: mcp_reply

definition handle_request :: "mcp_env \<Rightarrow> rpc_request \<Rightarrow> string set \<Rightarrow> rpc_response \<times> request_log \<times> string set" where
  "handle_request env rq subs =
     (let respond = (\<lambda>reply. \<lparr>rr_id = unwrap_or JNull (rq_id rq), rr_reply = reply\<rparr>);
          static = (\<lambda>catalog sent. case dispatch_with_catalog (me_lib env) rq catalog subs of (reply, subs') \<Rightarrow> (respond reply, sent, subs'))
      in if rq_method rq = ''tools/list''
         then (case discover_provider_catalog env [] of (found, sent) \<Rightarrow>
             static (case found of Ok catalog \<Rightarrow> catalog | Err _ \<Rightarrow> None) sent)
         else if rq_method rq = ''resources/read''
         then (case Option.bind (json_get (rq_params rq) ''uri'') as_str of
             None \<Rightarrow> static None []
           | Some uri \<Rightarrow> (case resource_request_for_uri env uri of
               Ok (Some route) \<Rightarrow> (case run_route env uri route of (reply, sent) \<Rightarrow> (respond reply, sent, subs))
             | Ok None \<Rightarrow> static None []
             | Err _ \<Rightarrow> (respond invalid_params, [], subs)))
         else if rq_method rq = ''tools/call''
         then (case tools_call env (call_name (rq_params rq)) (call_arguments (rq_params rq)) of (reply, sent) \<Rightarrow>
             (respond reply, sent, subs))
         else static None [])"

section \<open>The HTTP transport\<close>

text \<open>Header values are those that read as text; an absent and an unreadable header are both None.\<close>

type_synonym headers = "string \<Rightarrow> string option"

datatype http_answer = HttpStatus nat | HttpReply rpc_response

definition local_host :: "mcp_env \<Rightarrow> string \<Rightarrow> bool" where
  "local_host env url = (case me_url_parse env url of
       None \<Rightarrow> False
     | Some u \<Rightarrow> pu_host u \<in> {Some ''127.0.0.1'', Some ''localhost'', Some ''::1''})"

definition validate_auth :: "string \<Rightarrow> headers \<Rightarrow> (unit, nat) result" where
  "validate_auth token hs = (if hs ''authorization'' = Some (''Bearer '' @ token) then Ok () else Err 401)"

definition validate_host :: "mcp_env \<Rightarrow> headers \<Rightarrow> (unit, nat) result" where
  "validate_host env hs = (case hs ''host'' of
       None \<Rightarrow> Err 403
     | Some host \<Rightarrow> if local_host env (''http://'' @ host @ ''/'') then Ok () else Err 403)"

definition validate_origin :: "mcp_env \<Rightarrow> headers \<Rightarrow> (unit, nat) result" where
  "validate_origin env hs = (case hs ''origin'' of
       None \<Rightarrow> Ok ()
     | Some origin \<Rightarrow> if local_host env origin then Ok () else Err 403)"

fun has_substring :: "string \<Rightarrow> string \<Rightarrow> bool" where
  "has_substring pat [] = (pat = [])"
| "has_substring pat (c # s) = (take (length pat) (c # s) = pat \<or> has_substring pat s)"

definition validate_accept :: "headers \<Rightarrow> (unit, nat) result" where
  "validate_accept hs =
     (let accept = unwrap_or [] (hs ''accept'')
      in if has_substring ''application/json'' accept \<and> has_substring ''text/event-stream'' accept then Ok () else Err 406)"

definition validate_headers :: "mcp_env \<Rightarrow> string \<Rightarrow> headers \<Rightarrow> bool \<Rightarrow> (unit, nat) result" where
  "validate_headers env token hs require_accept =
     result_bind (validate_auth token hs) (\<lambda>_.
     result_bind (validate_host env hs) (\<lambda>_.
     result_bind (validate_origin env hs) (\<lambda>_.
     if require_accept then validate_accept hs else Ok ())))"

definition get_mcp :: "mcp_env \<Rightarrow> string \<Rightarrow> headers \<Rightarrow> http_answer" where
  "get_mcp env token hs = (case validate_headers env token hs False of Err status \<Rightarrow> HttpStatus status | Ok _ \<Rightarrow> HttpStatus 405)"

definition post_mcp ::
  "mcp_env \<Rightarrow> string \<Rightarrow> headers \<Rightarrow> string \<Rightarrow> string set \<Rightarrow> http_answer \<times> request_log \<times> string set" where
  "post_mcp env token hs body subs = (case validate_headers env token hs True of
       Err status \<Rightarrow> (HttpStatus status, [], subs)
     | Ok _ \<Rightarrow>
         if length body > 1024 * 1024 then (HttpStatus 400, [], subs)
         else (case me_decode_request env body of
             None \<Rightarrow> (HttpStatus 400, [], subs)
           | Some rq \<Rightarrow> (case handle_request env rq subs of (response, sent, subs') \<Rightarrow> (HttpReply response, sent, subs'))))"

section \<open>Notifications\<close>

definition resource_uris_invalidated_by :: "string \<Rightarrow> string list" where
  "resource_uris_invalidated_by tag =
     (if tag = ''playback-changed'' then [''spotuify://playback'']
      else if tag = ''devices-changed'' then [''spotuify://devices'']
      else if tag = ''playlists-changed'' then [''spotuify://playlists'']
      else if tag = ''library-changed'' then [''spotuify://playlists'']
      else [])"

definition invalidation_tag_for_label :: "string \<Rightarrow> string option" where
  "invalidation_tag_for_label label =
     (if label = ''playback-changed'' \<or> label = ''queue-changed'' then Some ''playback-changed''
      else if label \<in> {''devices-changed'', ''playlists-changed'', ''library-changed''} then Some label
      else None)"

text \<open>An event by its wire label; an undecodable one counts only when its label is known to this build.\<close>

datatype wire_event = Decoded string | UndecodableKnown string | UnknownTag string

definition event_invalidation_tag :: "wire_event \<Rightarrow> string option" where
  "event_invalidation_tag e = (case e of
       Decoded label \<Rightarrow> invalidation_tag_for_label label
     | UndecodableKnown label \<Rightarrow> invalidation_tag_for_label label
     | UnknownTag _ \<Rightarrow> None)"

definition push_event :: "string set \<Rightarrow> wire_event \<Rightarrow> string list" where
  "push_event subs e = (case event_invalidation_tag e of
       None \<Rightarrow> []
     | Some tag \<Rightarrow> filter (\<lambda>u. u \<in> subs) (resource_uris_invalidated_by tag))"

end
