(* ===== verification/Mcp_Log.thy ===== *)
theory Mcp_Log
  imports Mcp_Server
begin

text \<open>
  The log of requests of a call to the agent server: a condition that the server's own requests and the request a
  call translates to meet is met by every request it sends.
\<close>

section \<open>The log of a call\<close>

definition log_ok :: "(request \<Rightarrow> bool) \<Rightarrow> request_log \<Rightarrow> bool" where
  "log_ok P sent \<longleftrightarrow> (\<forall>e\<in>set sent. P (fst e) \<and> requires_mutation_id (fst e) = (snd e \<noteq> None))"

lemma log_ok_Nil [simp]: "log_ok P []"
  by (simp add: log_ok_def)

lemma round_trip_with_mutation_id_log:
  "round_trip_with_mutation_id env r m sent = (out, sent') \<Longrightarrow> log_ok P sent \<Longrightarrow> P r \<Longrightarrow> log_ok P sent'"
  by (auto simp: round_trip_with_mutation_id_def log_ok_def split: if_splits)

lemma round_trip_log: "round_trip env r sent = (out, sent') \<Longrightarrow> log_ok P sent \<Longrightarrow> P r \<Longrightarrow> log_ok P sent'"
  by (auto simp: round_trip_def intro: round_trip_with_mutation_id_log)

text \<open>The requests the server makes on its own account.\<close>

definition housekeeping :: "request \<Rightarrow> bool" where
  "housekeeping r = (case r of
       RqProvidersList \<Rightarrow> True | RqResolveTarget _ _ _ \<Rightarrow> True | RqSearch _ _ _ _ _ \<Rightarrow> True
     | RqRelatedArtists _ \<Rightarrow> True | RqArtistTopTracks _ \<Rightarrow> True
     | RqPlaybackGet \<Rightarrow> True | RqDevicesList \<Rightarrow> True | RqPlaylistsList _ \<Rightarrow> True | RqLyricsGet _ _ \<Rightarrow> True
     | RqGetDoctorReport \<Rightarrow> True | _ \<Rightarrow> False)"

lemma housekeeping_plain [simp]: "housekeeping r \<Longrightarrow> \<not> requires_mutation_id r"
  by (cases r) (simp_all add: housekeeping_def requires_mutation_id_def)

lemma housekeeping_plan_search [simp]: "housekeeping (plan_search e p q)"
  by (simp add: housekeeping_def plan_search_def)

lemma discover_log:
  "discover_provider_catalog env sent = (found, sent') \<Longrightarrow> log_ok P sent \<Longrightarrow> P RqProvidersList \<Longrightarrow> log_ok P sent'"
  by (auto simp: discover_provider_catalog_def split: prod.splits intro: round_trip_log)

lemma search_plan_log:
  assumes "search_plan env eff p qs results sent = (out, sent')" "log_ok P sent" "\<And>r. housekeeping r \<Longrightarrow> P r"
  shows "log_ok P sent'"
  using assms(1,2)
proof (induction qs arbitrary: results sent)
  case (Cons q qs)
  obtain o1 s1 where rt: "round_trip env (plan_search eff p q) sent = (o1, s1)" by fastforce
  then have ok: "log_ok P s1" using Cons.prems(2) assms(3) by (auto intro: round_trip_log)
  show ?case
    using Cons.prems(1) Cons.IH[OF _ ok] ok
    by (auto simp: rt split: result.splits daemon_response.splits response_data.splits)
qed simp

lemma resolve_playlist_tracks_log:
  assumes "resolve_playlist_tracks env plan p catalog sent = (reply, sent')" "log_ok P sent" "\<And>r. housekeeping r \<Longrightarrow> P r"
  shows "log_ok P sent'"
  using assms(1) search_plan_log[where P = P, OF _ assms(2,3)]
  by (auto simp: resolve_playlist_tracks_def split: prod.splits resolve_outcome.splits)

lemma resolve_artist_uri_log:
  assumes "resolve_artist_uri env a p sent = (r, sent')" "log_ok P sent" "\<And>r. housekeeping r \<Longrightarrow> P r"
  shows "log_ok P sent'"
  using assms round_trip_log[of env "RqResolveTarget a p (Some [Artist])" sent _ _ P]
  by (auto simp: resolve_artist_uri_def housekeeping_def split: result.splits prod.splits)

lemma resolve_artist_request_log:
  assumes "resolve_artist_request env f a p sent = (out, sent')" "log_ok P sent" "\<And>r. housekeeping r \<Longrightarrow> P r"
    "\<And>x. housekeeping (f x)"
  shows "log_ok P sent'"
proof -
  obtain r s1 where u: "resolve_artist_uri env a p sent = (r, s1)" by fastforce
  show ?thesis
    using assms(1) resolve_artist_uri_log[where P = P, OF u assms(2,3)] assms(3)[OF assms(4)]
    by (auto simp: resolve_artist_request_def u split: result.splits intro: round_trip_log)
qed

lemma run_mutation_log:
  assumes "run_mutation env args catalog r sent = (reply, sent')" "log_ok P sent" "P r" "P RqProvidersList"
  shows "log_ok P sent'"
proof (cases "live_mutation_id env args sent")
  case (Ok key)
  obtain out s1 where rt: "round_trip_with_mutation_id env r (Some key) sent = (out, s1)" by fastforce
  show ?thesis
    using assms(1) round_trip_with_mutation_id_log[where P = P, OF rt assms(2,3)] discover_log[where P = P, OF _ _ assms(4)]
    by (auto simp: run_mutation_def Ok rt split: if_splits prod.splits)
qed (use assms in \<open>simp add: run_mutation_def\<close>)

lemma run_request_log:
  assumes "run_request env name args catalog r sent = (reply, sent')" "log_ok P sent" "P r" "P RqProvidersList"
  shows "log_ok P sent'"
  using assms
  by (auto simp: run_request_def split: if_splits prod.splits intro: run_mutation_log round_trip_log)

lemma run_preview_log:
  assumes "run_preview env name args catalog sent = (reply, sent')" "log_ok P sent"
    "\<And>r. translate_playlist_preview_with_catalog (me_lib env) name args catalog = Ok (Some r) \<Longrightarrow> P r"
  shows "log_ok P sent'"
  using assms
  by (auto simp: run_preview_def split: if_splits prod.splits result.splits option.splits intro: round_trip_log)

lemma run_call_log:
  assumes "run_call env name args catalog sent = (reply, sent')" "log_ok P sent" "\<And>r. housekeeping r \<Longrightarrow> P r"
    "\<And>r. translate_with_catalog (me_lib env) name args catalog = Ok (TcRequest r) \<Longrightarrow> P r"
  shows "log_ok P sent'"
proof -
  have pl: "P RqProvidersList" by (rule assms(3)) (simp add: housekeeping_def)
  have f: "housekeeping (RqRelatedArtists x)" "housekeeping (RqArtistTopTracks x)" for x
    by (simp_all add: housekeeping_def)
  show ?thesis
    using assms(1,2,4) pl run_request_log[of env name args catalog _ sent reply sent' P]
      resolve_playlist_tracks_log[where P = P, OF _ assms(2,3)]
      resolve_artist_request_log[where P = P, OF _ assms(2,3) f(1)] resolve_artist_request_log[where P = P, OF _ assms(2,3) f(2)]
    by (auto simp: run_call_def split: result.splits translated_call.splits prod.splits)
qed

text \<open>
  Every request of a tool call is one the server makes on its own account, the preview of the call, or the request
  the call translates to once it may execute.
\<close>

lemma tools_call_log:
  assumes "tools_call env name args = (reply, sent)" "\<And>r. housekeeping r \<Longrightarrow> P r"
    "\<And>r c. translate_playlist_preview_with_catalog (me_lib env) name args c = Ok (Some r) \<Longrightarrow> P r"
    "\<And>r c. decide name (confirm_arg args) = Ok Execute \<Longrightarrow>
       translate_with_catalog (me_lib env) name args c = Ok (TcRequest r) \<Longrightarrow> P r"
  shows "log_ok P sent"
proof -
  obtain found s0 where c: "call_catalog env name args = (found, s0)" by fastforce
  have "P RqProvidersList" by (rule assms(2)) (simp add: housekeeping_def)
  then have s0: "log_ok P s0"
    using c discover_log[of env "[]" found s0 P] by (auto simp: call_catalog_def split: if_splits)
  show ?thesis
    using assms(1) s0 run_preview_log[where P = P, OF _ s0 assms(3)] run_call_log[where P = P, OF _ s0 assms(2) assms(4)]
    by (auto simp: tools_call_def c split: result.splits authorized.splits)
qed

lemma route_for_housekeeping: "route_for h p pr = Some route \<Longrightarrow> housekeeping (rt_request route)"
  by (auto simp: route_for_def Let_def housekeeping_def split: if_splits)

lemma run_route_log:
  assumes "run_route env uri route = (reply, sent)" "\<And>r. housekeeping r \<Longrightarrow> P r" "housekeeping (rt_request route)"
  shows "log_ok P sent"
proof -
  have pl: "P RqProvidersList" by (rule assms(2)) (simp add: housekeeping_def)
  show ?thesis
    using assms(1) discover_log[where P = P, OF _ log_ok_Nil pl] assms(2)[OF assms(3)]
    by (auto simp: run_route_def split: option.splits prod.splits result.splits if_splits intro: round_trip_log)
qed

lemma handle_request_log:
  assumes "handle_request env rq subs = (resp, sent, subs')" "\<And>r. housekeeping r \<Longrightarrow> P r"
    "rq_method rq = ''tools/call'' \<Longrightarrow>
       tools_call env (call_name (rq_params rq)) (call_arguments (rq_params rq)) = (rr_reply resp, sent) \<Longrightarrow> log_ok P sent"
  shows "log_ok P sent"
proof -
  have pl: "P RqProvidersList" by (rule assms(2)) (simp add: housekeeping_def)
  have rt: "run_route env uri route = (reply, s) \<Longrightarrow> resource_request_for_uri env uri = Ok (Some route) \<Longrightarrow> log_ok P s"
    for uri route reply s
    using run_route_log[where P = P, OF _ assms(2)] route_for_housekeeping
    by (fastforce simp: resource_request_for_uri_def split: option.splits if_splits)
  show ?thesis
    using assms(1,3) discover_log[where P = P, OF _ log_ok_Nil pl] rt
    by (auto simp: handle_request_def Let_def split: if_splits prod.splits option.splits result.splits)
qed

lemma translated_preview:
  "translate_playlist_preview_with_catalog lib t args c = Ok (Some p) \<Longrightarrow>
     \<exists>r. translate_with_catalog lib t args c = Ok (TcRequest r) \<and> preview_of r = Some p"
proof -
  assume a: "translate_playlist_preview_with_catalog lib t args c = Ok (Some p)"
  then obtain call where c: "translate_with_catalog lib t args c = Ok call"
    by (auto simp: translate_playlist_preview_with_catalog_def split: if_splits)
  with a show ?thesis
    by (cases call) (auto simp: translate_playlist_preview_with_catalog_def split: if_splits option.splits)
qed

section \<open>What a call translates to\<close>

lemma send_Ok [simp]: "send f r = Ok c \<longleftrightarrow> (\<exists>x. r = Ok x \<and> c = TcRequest (f x))"
  by (auto simp: send_def)

lemma local_plan_no_request [simp]:
  "(case p of Ok plan \<Rightarrow> Ok (TcLocalPlan plan) | Err _ \<Rightarrow> Err e) \<noteq> Ok (TcRequest r)"
  by (cases p) simp_all

lemma tool_case:
  "(if b then Some x else y) = Some z \<Longrightarrow> (b \<Longrightarrow> x = z \<Longrightarrow> Q) \<Longrightarrow> (y = Some z \<Longrightarrow> Q) \<Longrightarrow> Q"
  by (auto split: if_splits)

lemma eq_request_Ok: "eq_request t args = Ok r \<Longrightarrow> \<exists>p b. r = RqEqSet p b"
  by (auto simp: eq_request_def Let_def split: if_splits)

lemma speed_request_Ok: "speed_request t args = Ok r \<Longrightarrow> \<exists>s. r = RqPlaybackSpeedSet s"
  by (auto simp: speed_request_def split: if_splits)

lemma translate_Ok_cases:
  assumes "translate_with_catalog lib t args c = Ok call"
  shows "translate_read lib t args (Option.bind c pg_default_provider) c = Some (Ok call) \<or>
    translate_transport t args = Some (Ok call) \<or> translate_local t args = Some (Ok call) \<or>
    translate_write lib t args = Some (Ok call) \<or> translate_analytics t args = Some (Ok call)"
  using assms by (auto simp: translate_with_catalog_def translate_with_context_def or_else_def split: option.splits)

section \<open>A sample conversation\<close>

text \<open>
  One provider that can add to playlists; the daemon answers the question for the catalog and is lost afterwards.
\<close>

definition sample_descriptor :: provider_descriptor where
  "sample_descriptor = \<lparr>pd_id = ''spotify'', pd_uri_scheme = ''spotify'', pd_display_name = ''Spotify'',
     pd_capabilities = default_provider_caps\<lparr>pc_playlists := (pc_playlists default_provider_caps)\<lparr>plc_add := True\<rparr>\<rparr>,
     pd_is_default = True\<rparr>"

definition sample_catalog :: provider_catalog where
  "sample_catalog = \<lparr>pg_default_provider = Some ''spotify'', pg_providers = [sample_descriptor]\<rparr>"

definition sample_env :: mcp_env where
  "sample_env = \<lparr>me_lib = \<lparr>ml_plan_from_text = (\<lambda>_. None), ml_plan_from_value = (\<lambda>_. None), ml_occurrence_wire = (\<lambda>_. None)\<rparr>,
     me_answer = (\<lambda>sent. case fst (last sent) of
         RqProvidersList \<Rightarrow> Ok (RespOk (RdProviderList (Some ''spotify'') [sample_descriptor]))
       | _ \<Rightarrow> Err HardFailure),
     me_new_v7 = (\<lambda>n. replicate 6 0 @ [112, 0, 128] @ replicate 6 0 @ [n]),
     me_parse_uuid = (\<lambda>s. Some (replicate 6 0 @ [112, 0, 128] @ replicate 6 0 @ [length s])),
     me_url_parse = (\<lambda>_. None), me_decode_request = (\<lambda>_. None)\<rparr>"

definition sample_args :: "(string \<times> json) list \<Rightarrow> json" where
  "sample_args extra = JObj ([(''playlist'', JStr ''spotify:playlist:p1''), (''uris'', JArr [JStr ''spotify:track:t1''])] @ extra)"

definition sample_call :: "(string \<times> json) list \<Rightarrow> rpc_request" where
  "sample_call extra = \<lparr>rq_jsonrpc = ''2.0'', rq_id = Some (JInt 1), rq_method = ''tools/call'',
     rq_params = JObj [(''name'', JStr ''playlist_add''), (''arguments'', sample_args extra)]\<rparr>"

definition sample_log :: "(string \<times> json) list \<Rightarrow> request_log" where
  "sample_log extra = fst (snd (handle_request sample_env (sample_call extra) {}))"

lemma sample_run:
  "handle_request sample_env (sample_call extra) {} =
     (fst (handle_request sample_env (sample_call extra) {}), sample_log extra,
      snd (snd (handle_request sample_env (sample_call extra) {})))"
  by (simp add: sample_log_def)

lemma sample_unconfirmed:
  "sample_log [] = [(RqProvidersList, None),
     (RqPlaylistItemsPreview ''spotify:playlist:p1'' [''spotify:track:t1''] ActionAdd None, None)]"
  by code_simp

lemma sample_confirmed:
  "sample_log [(''confirm'', JBool True)] = [(RqProvidersList, None),
     (RqPlaylistAddItems ''spotify:playlist:p1'' [''spotify:track:t1''] None,
      Some [0, 0, 0, 0, 0, 0, 112, 0, 128, 0, 0, 0, 0, 0, 0, 1])]"
  by code_simp

end
