(* ===== verification/Mcp_Confirm.thy ===== *)
theory Mcp_Confirm
  imports Mcp_Log
begin

text \<open>
  Confirmation: what the agent server may send for a call its user has not confirmed.
\<close>

section \<open>Confirmation\<close>

text \<open>The changes that must be confirmed.\<close>

definition guarded :: "request \<Rightarrow> bool" where
  "guarded r = (case r of
       RqQueueAdd _ \<Rightarrow> True | RqQueueAddMany _ \<Rightarrow> True | RqDeviceTransfer _ \<Rightarrow> True
     | RqPlaylistCreate _ _ _ _ \<Rightarrow> True | RqPlaylistAddItems _ _ _ \<Rightarrow> True | RqPlaylistRemoveItems _ _ _ \<Rightarrow> True
     | RqPlaylistRemoveOccurrences _ _ _ \<Rightarrow> True | RqPlaylistUnfollow _ _ \<Rightarrow> True | RqPlaylistSetImage _ _ _ \<Rightarrow> True
     | RqLibrarySave _ _ \<Rightarrow> True | RqLibraryUnsave _ \<Rightarrow> True | RqArtistFollow _ \<Rightarrow> True | RqArtistUnfollow _ \<Rightarrow> True
     | RqBookmarkDelete _ \<Rightarrow> True | RqAnalyticsImport _ _ _ _ _ \<Rightarrow> True | RqAnalyticsImportUndo _ _ _ \<Rightarrow> True
     | _ \<Rightarrow> False)"

definition harmless :: "string \<Rightarrow> request \<Rightarrow> bool" where
  "harmless t r \<longleftrightarrow> \<not> guarded r \<and> (requires_mutation_id r \<longrightarrow> t = ''radio_start'' \<or> t = ''undo_last'')"

lemmas request_classes = harmless_def guarded_def requires_mutation_id_def

lemma housekeeping_harmless: "housekeeping r \<Longrightarrow> harmless t r"
  by (cases r) (simp_all add: housekeeping_def request_classes)

lemma preview_harmless: "preview_of r = Some p \<Longrightarrow> harmless t p"
  by (cases r) (auto simp: preview_of_def request_classes)

lemma preview_is_preview: "preview_of r = Some p \<Longrightarrow> is_playlist_preview_request p"
  by (cases r) (auto simp: preview_of_def is_playlist_preview_request_def)

definition GUARDED_TOOLS :: "string list" where
  "GUARDED_TOOLS = [''queue_add'', ''transfer_device'', ''bookmark_delete'', ''analytics_import_lastfm'',
     ''analytics_import_undo'', ''playlist_create'', ''playlist_add'', ''playlist_remove'',
     ''playlist_remove_occurrences'', ''playlist_unfollow'', ''playlist_set_image'', ''library_save'', ''library_unsave'']"

lemma guarded_tools_destructive:
  "list_all (\<lambda>t. case tool_by_name t of Some d \<Rightarrow> tl_destructive d | None \<Rightarrow> False) GUARDED_TOOLS"
  by code_simp

lemma guarded_members [simp]:
  "''queue_add'' \<in> set GUARDED_TOOLS"
  "''transfer_device'' \<in> set GUARDED_TOOLS"
  "''bookmark_delete'' \<in> set GUARDED_TOOLS"
  "''analytics_import_lastfm'' \<in> set GUARDED_TOOLS"
  "''analytics_import_undo'' \<in> set GUARDED_TOOLS"
  by (simp_all add: GUARDED_TOOLS_def)

lemma translate_read_harmless: "translate_read lib t args d c = Some (Ok (TcRequest r)) \<Longrightarrow> harmless t r"
  unfolding translate_read_def by (elim tool_case) (auto simp: search_request_def request_classes)

lemma harmless_playback [simp]: "harmless t (RqPlaybackCommand c)" "harmless t (RqEqSet p b)" "harmless t (RqPlaybackSpeedSet s)"
  "harmless t RqPlaybackSpeedGet" "harmless t RqEqGet" "harmless ''radio_start'' (RqRadioStart u d)"
  by (simp_all add: request_classes)

lemma translate_transport_harmless:
  "translate_transport t args = Some (Ok (TcRequest r)) \<Longrightarrow> t \<in> set GUARDED_TOOLS \<or> harmless t r"
  unfolding translate_transport_def
  apply (elim tool_case)
  subgoal by clarsimp
  by (auto dest: eq_request_Ok speed_request_Ok)

lemma translate_local_harmless:
  "translate_local t args = Some (Ok (TcRequest r)) \<Longrightarrow> t \<in> set GUARDED_TOOLS \<or> harmless t r"
  unfolding translate_local_def by (elim tool_case) (auto simp: request_classes)

lemma translate_analytics_harmless:
  "translate_analytics t args = Some (Ok (TcRequest r)) \<Longrightarrow> t \<in> set GUARDED_TOOLS \<or> harmless t r"
  unfolding translate_analytics_def by (elim tool_case) (auto simp: request_classes)

lemma translate_write_guarded: "translate_write lib t args = Some x \<Longrightarrow> t \<in> set GUARDED_TOOLS"
  unfolding translate_write_def by (elim tool_case) (simp_all add: GUARDED_TOOLS_def)

lemma unconfirmed_not_guarded:
  assumes "decide t c = Ok Execute" "c \<noteq> Some True"
  shows "t \<notin> set GUARDED_TOOLS"
proof
  assume "t \<in> set GUARDED_TOOLS"
  then have "case tool_by_name t of Some d \<Rightarrow> tl_destructive d | None \<Rightarrow> False"
    using guarded_tools_destructive by (auto simp: list_all_iff)
  then show False using assms by (auto simp: decide_def split: option.splits if_splits)
qed

lemma unconfirmed_harmless:
  assumes "decide t c = Ok Execute" "c \<noteq> Some True" "translate_with_catalog lib t args g = Ok (TcRequest r)"
  shows "harmless t r"
  using unconfirmed_not_guarded[OF assms(1,2)] translate_Ok_cases[OF assms(3)] translate_read_harmless
    translate_transport_harmless translate_local_harmless translate_write_guarded translate_analytics_harmless
  by blast



end
