(* ===== verification/Mcp_Edits.thy ===== *)
theory Mcp_Edits
  imports Mcp_Log
begin

text \<open>
  The shape of the playlist edits the agent server sends.
\<close>

definition playable_uri :: "string \<Rightarrow> bool" where
  "playable_uri s \<longleftrightarrow> (\<exists>u. resource_uri_parse s = Ok u \<and> ru_kind u \<in> {Track, Episode})"

definition occurrences_wf :: "string \<Rightarrow> occurrence_ref list \<Rightarrow> bool" where
  "occurrences_wf playlist items \<longleftrightarrow> items \<noteq> [] \<and> distinct (concat (map or_positions items)) \<and>
     (\<forall>i\<in>set items. or_positions i \<noteq> [] \<and> ru_kind (or_uri i) \<in> {Track, Episode} \<and>
        (\<forall>p. resource_uri_parse playlist = Ok p \<longrightarrow> ru_scheme (or_uri i) = ru_scheme p))"

definition edit_wf :: "request \<Rightarrow> bool" where
  "edit_wf r = (case r of
       RqPlaylistCreate _ _ uris _ \<Rightarrow> list_all playable_uri uris
     | RqPlaylistCreatePreview _ _ uris _ \<Rightarrow> list_all playable_uri uris
     | RqPlaylistAddItems _ uris _ \<Rightarrow> uris \<noteq> [] \<and> list_all playable_uri uris
     | RqPlaylistRemoveItems _ uris _ \<Rightarrow> uris \<noteq> [] \<and> list_all playable_uri uris
     | RqPlaylistItemsPreview _ uris _ _ \<Rightarrow> uris \<noteq> [] \<and> list_all playable_uri uris
     | RqPlaylistRemoveOccurrences playlist items _ \<Rightarrow> occurrences_wf playlist items
     | RqPlaylistRemoveOccurrencesPreview playlist items _ \<Rightarrow> occurrences_wf playlist items
     | _ \<Rightarrow> True)"

lemma map_playlist_uris_playable:
  "map_playlist_uris t [Track, Episode] vs = Ok us \<Longrightarrow> list_all playable_uri us \<and> length us = length vs"
  by (induction vs arbitrary: us)
    (auto simp: playable_uri_def resource_uri_parse_Ok_iff split: option.splits result.splits if_splits)

lemma required_playlist_item_uris_wf:
  "required_playlist_item_uris args t = Ok us \<Longrightarrow> us \<noteq> [] \<and> list_all playable_uri us"
  by (auto simp: required_playlist_item_uris_def required_playlist_uris_def split: option.splits if_splits
    dest: map_playlist_uris_playable)

lemma optional_playlist_create_uris_wf: "optional_playlist_create_uris args t = Ok us \<Longrightarrow> list_all playable_uri us"
  by (auto simp: optional_playlist_create_uris_def split: option.splits if_splits dest: map_playlist_uris_playable)

lemma decode_occurrences_nonempty:
  "decode_occurrences lib t vs = Ok items \<Longrightarrow> length items = length vs \<and> (\<forall>i\<in>set items. or_positions i \<noteq> [])"
  by (induction vs arbitrary: items) (auto simp: occurrence_ref_new_def split: option.splits Option.bind_splits if_splits)

lemma insert_positions_Some:
  "insert_positions ps seen = Some seen' \<Longrightarrow> distinct ps \<and> set ps \<inter> seen = {} \<and> seen' = seen \<union> set ps"
  by (induction ps arbitrary: seen) (auto split: if_splits)

lemma check_occurrence_refs_Ok:
  assumes "check_occurrence_refs t playlist items seen = Ok ()"
  shows "distinct (concat (map or_positions items)) \<and> set (concat (map or_positions items)) \<inter> seen = {} \<and>
    (\<forall>i\<in>set items. ru_kind (or_uri i) \<in> {Track, Episode} \<and>
       (\<forall>p. playlist = Some p \<longrightarrow> ru_scheme (or_uri i) = ru_scheme p))"
  using assms
proof (induction items arbitrary: seen)
  case (Cons i items)
  obtain seen' where s: "insert_positions (or_positions i) seen = Some seen'" "check_occurrence_refs t playlist items seen' = Ok ()"
    "ru_kind (or_uri i) \<in> {Track, Episode}" "\<And>p. playlist = Some p \<Longrightarrow> ru_scheme (or_uri i) = ru_scheme p"
    using Cons.prems by (auto split: if_splits option.splits)
  show ?case using Cons.IH[OF s(2)] insert_positions_Some[OF s(1)] s(3,4) by auto
qed simp

lemma required_playlist_occurrences_wf:
  assumes "required_playlist_occurrences lib args t = Ok items" "required_str args t ''playlist'' = Ok playlist"
  shows "occurrences_wf playlist items"
proof -
  obtain raw where raw: "raw \<noteq> []" "decode_occurrences lib t raw = Ok items"
    "check_occurrence_refs t (case resource_uri_parse playlist of Ok u \<Rightarrow> Some u | Err _ \<Rightarrow> None) items {} = Ok ()"
    using assms by (auto simp: required_playlist_occurrences_def Let_def split: option.splits if_splits)
  show ?thesis
    using decode_occurrences_nonempty[OF raw(2)] check_occurrence_refs_Ok[OF raw(3)] raw(1)
    by (auto simp: occurrences_wf_def)
qed

lemma playlist_edit_wf:
  assumes "playlist_edit t args act live = Ok r" "\<And>p us pr. us \<noteq> [] \<Longrightarrow> list_all playable_uri us \<Longrightarrow> edit_wf (live p us pr)"
  shows "edit_wf r"
  using assms by (auto simp: playlist_edit_def edit_wf_def dest: required_playlist_item_uris_wf)

lemma playlist_create_request_wf: "playlist_create_request t args = Ok r \<Longrightarrow> edit_wf r"
  by (auto simp: playlist_create_request_def edit_wf_def dest: optional_playlist_create_uris_wf)

lemma occurrences_request_wf: "occurrences_request lib t args = Ok r \<Longrightarrow> edit_wf r"
  by (auto simp: occurrences_request_def edit_wf_def dest: required_playlist_occurrences_wf)

lemma edit_wf_live:
  "us \<noteq> [] \<Longrightarrow> list_all playable_uri us \<Longrightarrow> edit_wf (RqPlaylistAddItems p us pr)"
  "us \<noteq> [] \<Longrightarrow> list_all playable_uri us \<Longrightarrow> edit_wf (RqPlaylistRemoveItems p us pr)"
  by (simp_all add: edit_wf_def)

lemma translate_write_wf: "translate_write lib t args = Some (Ok (TcRequest r)) \<Longrightarrow> edit_wf r"
  unfolding translate_write_def
  by (elim tool_case)
    (auto simp: edit_wf_def[of "RqPlaylistUnfollow _ _"] edit_wf_def[of "RqPlaylistSetImage _ _ _"]
      edit_wf_def[of "RqArtistFollow _"] edit_wf_def[of "RqLibrarySave _ _"] edit_wf_def[of "RqArtistUnfollow _"]
      edit_wf_def[of "RqLibraryUnsave _"]
      dest: playlist_create_request_wf occurrences_request_wf playlist_edit_wf edit_wf_live intro: playlist_edit_wf edit_wf_live)

lemma housekeeping_wf: "housekeeping r \<Longrightarrow> edit_wf r"
  by (cases r) (simp_all add: housekeeping_def edit_wf_def)

lemma preview_wf: "preview_of r = Some p \<Longrightarrow> edit_wf r \<Longrightarrow> edit_wf p"
  by (cases r) (auto simp: preview_of_def edit_wf_def)

lemma translate_read_wf: "translate_read lib t args d c = Some (Ok (TcRequest r)) \<Longrightarrow> edit_wf r"
  unfolding translate_read_def by (elim tool_case) (auto simp: search_request_def edit_wf_def)

lemma edit_wf_playback: "edit_wf (RqPlaybackCommand c)" "edit_wf (RqEqSet p b)" "edit_wf (RqPlaybackSpeedSet s)"
  "edit_wf RqPlaybackSpeedGet" "edit_wf RqEqGet" "edit_wf (RqRadioStart u d)" "edit_wf (RqQueueAdd u)"
  "edit_wf (RqDeviceTransfer v)"
  by (simp_all add: edit_wf_def)

lemma translate_transport_wf: "translate_transport t args = Some (Ok (TcRequest r)) \<Longrightarrow> edit_wf r"
  unfolding translate_transport_def
  apply (elim tool_case)
  subgoal by (clarsimp simp: edit_wf_playback)
  by (auto simp: edit_wf_playback dest: eq_request_Ok speed_request_Ok)

lemma translate_local_wf: "translate_local t args = Some (Ok (TcRequest r)) \<Longrightarrow> edit_wf r"
  unfolding translate_local_def by (elim tool_case) (auto simp: edit_wf_def)

lemma translate_analytics_wf: "translate_analytics t args = Some (Ok (TcRequest r)) \<Longrightarrow> edit_wf r"
  unfolding translate_analytics_def by (elim tool_case) (auto simp: edit_wf_def)

lemma translate_wf: "translate_with_catalog lib t args c = Ok (TcRequest r) \<Longrightarrow> edit_wf r"
  by (drule translate_Ok_cases)
    (auto dest: translate_read_wf translate_transport_wf translate_local_wf translate_write_wf translate_analytics_wf)

text \<open>
  C22: every playlist edit the agent server sends, live or as a preview, is well formed whatever the caller and the daemon
  said: additions and removals name at least one address, every address (also of the seed of a new playlist) is that of a
  track or an episode, a removal by occurrence names some positions of each entry and no position twice, and its entries
  belong to the provider of the playlist.
\<close>

theorem playlist_edits_well_formed:
  assumes "handle_request env rq subs = (resp, sent, subs')" and "(r, m) \<in> set sent"
  shows "edit_wf r"
proof -
  have "log_ok edit_wf sent"
  proof (rule handle_request_log[OF assms(1) housekeeping_wf])
    assume "tools_call env (call_name (rq_params rq)) (call_arguments (rq_params rq)) = (rr_reply resp, sent)"
    then show "log_ok edit_wf sent"
      by (rule tools_call_log) (auto intro: housekeeping_wf preview_wf translate_wf dest!: translated_preview)
  qed
  then show ?thesis using assms(2) by (auto simp: log_ok_def)
qed

theorem playlist_edits_well_formed_witness:
  "(RqPlaylistItemsPreview ''spotify:playlist:p1'' [''spotify:track:t1''] ActionAdd None, None) \<in> set (sample_log []) \<and>
   edit_wf (RqPlaylistItemsPreview ''spotify:playlist:p1'' [''spotify:track:t1''] ActionAdd None)"
  using playlist_edits_well_formed[OF sample_run,
      of "RqPlaylistItemsPreview ''spotify:playlist:p1'' [''spotify:track:t1''] ActionAdd None" None "[]"]
  by (simp add: sample_unconfirmed)

end
