(* ===== verification/Mcp_Laws.thy ===== *)
theory Mcp_Laws
  imports Mcp_Log
begin

text \<open>
  What else the agent server promises: mutations keyed once, tools run only where a provider declares them,
  well-formed playlist edits, and the checks at the HTTP door.
\<close>

section \<open>Keyed mutations\<close>

definition live :: "request_log \<Rightarrow> request_log" where
  "live sent = filter (\<lambda>e. requires_mutation_id (fst e)) sent"

text \<open>The daemon has shown a catalog of providers, which only daemons that deduplicate mutations have.\<close>

definition catalog_seen :: "mcp_env \<Rightarrow> request_log \<Rightarrow> bool" where
  "catalog_seen env sent \<longleftrightarrow> (\<exists>pre post g. sent = pre @ (RqProvidersList, None) # post \<and>
     provider_catalog_from_outcome (me_answer env (pre @ [(RqProvidersList, None)])) = Ok (Some g))"

lemma catalog_seen_append: "catalog_seen env sent \<Longrightarrow> catalog_seen env (sent @ rest)"
  by (auto simp: catalog_seen_def) (metis append.assoc append_Cons)

lemma live_append [simp]: "live (a @ b) = live a @ live b"
  by (simp add: live_def)

lemma live_Nil_iff: "live sent = [] \<longleftrightarrow> (\<forall>e\<in>set sent. \<not> requires_mutation_id (fst e))"
  by (auto simp: live_def filter_empty_conv)

lemma quiet: "log_ok (\<lambda>r. \<not> requires_mutation_id r) sent \<Longrightarrow> live sent = []"
  by (auto simp: live_Nil_iff log_ok_def)

lemma discover_sends:
  "discover_provider_catalog env sent = (found, sent') \<Longrightarrow>
     sent' = sent @ [(RqProvidersList, None)] \<and> (found = Ok (Some g) \<longrightarrow> catalog_seen env sent')"
  by (auto simp: discover_provider_catalog_def round_trip_def round_trip_with_mutation_id_def requires_mutation_id_def
    catalog_seen_def split: prod.splits)

lemma call_catalog_quiet: "call_catalog env name args = (found, sent) \<Longrightarrow> live sent = []"
  by (auto simp: call_catalog_def live_def requires_mutation_id_def dest!: discover_sends split: if_splits)

lemma call_catalog_seen: "call_catalog env name args = (Ok (Some g), sent) \<Longrightarrow> catalog_seen env sent"
  by (auto simp: call_catalog_def dest: discover_sends split: if_splits)

definition keyed :: "mcp_env \<Rightarrow> json \<Rightarrow> mcp_reply \<Rightarrow> request_log \<Rightarrow> bool" where
  "keyed env args reply sent \<longleftrightarrow> live sent = [] \<or>
     (\<exists>pre r key out d. live sent = [(r, Some key)] \<and> reply = RpMutation out key d \<and>
        live_mutation_id env args pre = Ok key \<and>
        (d = RetrySameId \<longrightarrow> \<not> is_ok out \<and> catalog_seen env sent))"

lemma keyed_quiet: "live sent = [] \<Longrightarrow> keyed env args reply sent"
  by (simp add: keyed_def)

lemma mutation_disposition_Retry:
  "mutation_disposition out dd = RetrySameId \<longleftrightarrow> \<not> is_ok out \<and> dd"
  by (auto simp: mutation_disposition_def split: result.splits daemon_response.splits response_data.splits option.splits
    receipt_status.splits)

lemma run_mutation_keyed:
  assumes "run_mutation env args catalog r sent = (reply, sent')" "requires_mutation_id r" "live sent = []"
    "catalog \<noteq> None \<Longrightarrow> catalog_seen env sent"
  shows "keyed env args reply sent'"
proof (cases "live_mutation_id env args sent")
  case (Ok key)
  let ?s1 = "sent @ [(r, Some key)]" and ?out = "me_answer env (sent @ [(r, Some key)])"
  have l1: "live ?s1 = [(r, Some key)]" using assms(2,3) by (simp add: live_def)
  have fin: "keyed env args (RpMutation ?out key (mutation_disposition ?out dd)) s"
    if "live s = live ?s1" "dd \<Longrightarrow> catalog_seen env s" for dd s
    unfolding keyed_def using that l1 Ok by (auto simp: mutation_disposition_Retry)
  show ?thesis
  proof (cases "catalog = None \<and> \<not> is_ok ?out")
    case True
    obtain found s2 where d: "discover_provider_catalog env ?s1 = (found, s2)" by fastforce
    then have s2: "live s2 = live ?s1" "\<And>g. found = Ok (Some g) \<Longrightarrow> catalog_seen env s2"
      using discover_sends[OF d] by (auto simp: live_def requires_mutation_id_def)
    have "reply = RpMutation ?out key (mutation_disposition ?out (case found of Ok (Some _) \<Rightarrow> True | _ \<Rightarrow> False)) \<and> sent' = s2"
      using assms(1,2) True by (simp add: run_mutation_def Ok round_trip_with_mutation_id_def d)
    then show ?thesis using s2 by (auto intro!: fin split: result.splits option.splits)
  next
    case False
    then have "reply = RpMutation ?out key (mutation_disposition ?out (catalog \<noteq> None)) \<and> sent' = ?s1"
      using assms(1,2) by (auto simp: run_mutation_def Ok round_trip_with_mutation_id_def split: if_splits)
    then show ?thesis using assms(4) by (auto intro!: fin catalog_seen_append)
  qed
qed (use assms in \<open>simp add: run_mutation_def keyed_quiet\<close>)

abbreviation plain_log :: "request_log \<Rightarrow> bool" where
  "plain_log \<equiv> log_ok (\<lambda>r. \<not> requires_mutation_id r)"

lemma run_request_keyed:
  assumes "run_request env name args catalog r sent = (reply, sent')" "plain_log sent"
    "catalog \<noteq> None \<Longrightarrow> catalog_seen env sent"
  shows "keyed env args reply sent'"
proof (cases "requires_mutation_id r \<and> \<not> is_playlist_preview_request r")
  case True
  then show ?thesis using assms run_mutation_keyed[OF _ _ quiet[OF assms(2)] assms(3)] by (simp add: run_request_def)
next
  case False
  have "\<not> requires_mutation_id r \<or> is_playlist_preview_request r" using False by blast
  then have "\<not> requires_mutation_id r"
    by (cases r) (auto simp: requires_mutation_id_def is_playlist_preview_request_def)
  then have "plain_log sent'"
    using assms(1,2) by (auto simp: run_request_def split: if_splits prod.splits intro: round_trip_log)
  then show ?thesis by (intro keyed_quiet quiet)
qed

lemma run_call_keyed:
  assumes "run_call env name args catalog sent = (reply, sent')" "plain_log sent"
    "catalog \<noteq> None \<Longrightarrow> catalog_seen env sent"
  shows "keyed env args reply sent'"
proof (cases "\<exists>r. translate_with_catalog (me_lib env) name args catalog = Ok (TcRequest r)")
  case True
  then show ?thesis using assms run_request_keyed[OF _ assms(2,3)] by (auto simp: run_call_def)
next
  case False
  have "plain_log sent'"
    by (rule run_call_log[OF assms(1,2)]) (use False in auto)
  then show ?thesis by (intro keyed_quiet quiet)
qed

lemma preview_plain:
  assumes "translate_playlist_preview_with_catalog lib t args c = Ok (Some p)"
  shows "\<not> requires_mutation_id p"
proof -
  obtain r where "preview_of r = Some p"
    using translated_preview[OF assms] by blast
  then show ?thesis by (cases r) (auto simp: preview_of_def requires_mutation_id_def)
qed

lemma tools_call_keyed:
  assumes "tools_call env name args = (reply, sent)"
  shows "keyed env args reply sent"
proof -
  obtain found s0 where c: "call_catalog env name args = (found, s0)" by fastforce
  have s0: "plain_log s0"
    using c discover_log[where P = "\<lambda>r. \<not> requires_mutation_id r", of env "[]" found s0]
    by (auto simp: call_catalog_def requires_mutation_id_def split: if_splits)
  have rp: "keyed env args reply' s'" if "run_preview env name args catalog s0 = (reply', s')" for reply' s' catalog
    by (intro keyed_quiet quiet run_preview_log[OF that s0] preview_plain)
  have rc: "keyed env args reply' s'" if "run_call env name args catalog s0 = (reply', s')" "found = Ok catalog" for reply' s' catalog
    using run_call_keyed[OF that(1) s0] call_catalog_seen c that(2) by (cases catalog) auto
  show ?thesis
    using assms rp rc keyed_quiet[OF quiet[OF s0]]
    by (auto simp: tools_call_def c split: result.splits authorized.splits) (simp add: keyed_def live_def)
qed

text \<open>
  C20: a request to the agent server sends at most one durable change. It carries an identifier, the reply names that
  same identifier, it is the one the caller gave when the caller gave one (which must then read as a version 7 UUID) and
  a fresh one otherwise. The reply invites a retry with the same identifier only when the outcome is unknown and the
  daemon has answered with a provider catalog, the sign that it deduplicates.
\<close>

theorem live_mutations_are_keyed:
  assumes "handle_request env rq subs = (resp, sent, subs')" and "(r, m) \<in> set sent" and "requires_mutation_id r"
  shows "\<exists>key out d. live sent = [(r, Some key)] \<and> m = Some key \<and> rr_reply resp = RpMutation out key d \<and>
    (case json_get (call_arguments (rq_params rq)) ''mutation_id'' of
       None \<Rightarrow> key \<in> range (me_new_v7 env)
     | Some v \<Rightarrow> Option.bind (as_str v) (me_parse_uuid env) = Some key \<and> is_v7 key) \<and>
    (d = RetrySameId \<longrightarrow> \<not> is_ok out \<and> catalog_seen env sent)"
proof -
  let ?args = "call_arguments (rq_params rq)"
  have mem: "(r, m) \<in> set (live sent)" using assms(2,3) by (simp add: live_def)
  have "rq_method rq = ''tools/call'' \<and>
      tools_call env (call_name (rq_params rq)) ?args = (rr_reply resp, sent)"
  proof (rule ccontr)
    assume no: "\<not> ?thesis"
    have "plain_log sent"
      by (rule handle_request_log[where P = "\<lambda>r. \<not> requires_mutation_id r", OF assms(1)])
        (erule housekeeping_plain, use no in blast)
    then show False using mem quiet[of sent] by simp
  qed
  then have "keyed env ?args (rr_reply resp) sent" using tools_call_keyed by blast
  then obtain pre r' key out d where k: "live sent = [(r', Some key)]" "rr_reply resp = RpMutation out key d"
    "live_mutation_id env ?args pre = Ok key" "d = RetrySameId \<longrightarrow> \<not> is_ok out \<and> catalog_seen env sent"
    using mem by (auto simp: keyed_def)
  moreover have "r' = r \<and> m = Some key" using mem k(1) by simp
  moreover have "case json_get ?args ''mutation_id'' of None \<Rightarrow> key \<in> range (me_new_v7 env)
     | Some v \<Rightarrow> Option.bind (as_str v) (me_parse_uuid env) = Some key \<and> is_v7 key"
    using k(3) by (auto simp: live_mutation_id_def split: option.splits if_splits)
  ultimately show ?thesis by blast
qed

theorem live_mutations_are_keyed_witness:
  "\<exists>key out d. live (sample_log [(''confirm'', JBool True)]) =
       [(RqPlaylistAddItems ''spotify:playlist:p1'' [''spotify:track:t1''] None, Some key)] \<and>
     rr_reply (fst (handle_request sample_env (sample_call [(''confirm'', JBool True)]) {})) = RpMutation out key d"
  using live_mutations_are_keyed[OF sample_run,
      of "RqPlaylistAddItems ''spotify:playlist:p1'' [''spotify:track:t1''] None" _ "[(''confirm'', JBool True)]"]
  by (auto simp: sample_confirmed requires_mutation_id_def)

end
