(* ===== verification/Mcp_Gate.thy ===== *)
theory Mcp_Gate
  imports Mcp_Log
begin

text \<open>
  Where the agent server's tools run: only with a provider that declares what they need; and what opens the HTTP door.
\<close>

section \<open>Capabilities\<close>

lemma provider_id_new_Ok: "provider_id_new s = Ok p \<Longrightarrow> p = s"
  by (auto simp: provider_id_new_def Let_def split: if_splits list.splits)

lemma find_by_scheme: "find (\<lambda>d. pd_uri_scheme d = s) ps = Some d \<Longrightarrow> d \<in> set ps \<and> pd_uri_scheme d = s"
  by (induction ps) (auto split: if_splits)

lemma provider_for_args_Ok:
  assumes "provider_for_args args (Some g) = Ok explicit"
  shows "(json_get args ''provider'' = None \<and> explicit = None) \<or>
    (\<exists>p. json_get args ''provider'' = Some (JStr p) \<and> explicit = Some p \<and> find (\<lambda>d. pd_id d = p) (pg_providers g) \<noteq> None)"
proof (cases "json_get args ''provider''")
  case (Some v)
  then show ?thesis
    using assms by (cases v) (auto simp: provider_for_args_def as_str_def find_None_iff split: result.splits option.splits
      if_splits dest: provider_id_new_Ok)
qed (use assms in \<open>auto simp: provider_for_args_def\<close>)

lemma pick_descriptor_Ok:
  assumes "pick_descriptor g explicit uri = Ok (Some d)"
  shows "d \<in> set (pg_providers g) \<and> (\<forall>p. explicit = Some p \<longrightarrow> pd_id d = p) \<and>
    (\<forall>u. uri = Some u \<longrightarrow> pd_uri_scheme d = ru_scheme u) \<and>
    (explicit = None \<and> uri = None \<longrightarrow> descriptor_for_provider g None = Some d)"
  using assms
  by (auto simp: pick_descriptor_def Let_def split: option.splits if_splits
    dest: find_provider find_by_scheme descriptor_member)

definition routed :: "string \<Rightarrow> json \<Rightarrow> provider_descriptor \<Rightarrow> bool" where
  "routed name args d \<longleftrightarrow>
     (provider_scoped name \<and> json_get args ''provider'' \<noteq> None \<longrightarrow> json_get args ''provider'' = Some (JStr (pd_id d))) \<and>
     (\<forall>u. resource_uri_arg name args = Some u \<longrightarrow> pd_uri_scheme d = ru_scheme u)"

lemma ensure_supported:
  assumes "ensure_tool_available name args (Some g) = Ok ()" "requirement name = ProviderTool f"
    "\<not> (name = ''search'' \<and> search_uses_local_source args g)"
  shows "tool_visible name (Some g) \<and> (\<exists>d\<in>set (pg_providers g). f (pd_capabilities d) \<and> routed name args d)"
proof -
  let ?uri = "resource_uri_arg name args"
  obtain explicit where e: "(if provider_scoped name then provider_for_args args (Some g) else Ok None) = Ok explicit"
    and r: "(if explicit = None \<and> ?uri = None \<and> active_transport_routed name
       then if any_provider f g then Ok () else Err (RfNoProviderSupports name)
       else result_bind (pick_descriptor g explicit ?uri) (\<lambda>descriptor. case descriptor of
           Some d \<Rightarrow> if f (pd_capabilities d) then ensure_argument_capability name args d
             else Err (RfUnsupported (pd_id d) name)
         | None \<Rightarrow> Err (RfNoDefaultProvider name))) = Ok ()"
    using assms by (auto simp: ensure_tool_available_def Let_def)
  have ex: "provider_scoped name \<Longrightarrow> json_get args ''provider'' = map_option JStr explicit"
    using e provider_for_args_Ok[of args g explicit] by auto
  show ?thesis
  proof (cases "explicit = None \<and> ?uri = None \<and> active_transport_routed name")
    case True
    then have "any_provider f g" using r by (auto split: if_splits)
    then show ?thesis using True assms(2) ex by (auto simp: tool_visible_def any_provider_def routed_def)
  next
    case False
    have "\<exists>d. pick_descriptor g explicit ?uri = Ok (Some d) \<and> f (pd_capabilities d)"
      using r by (subst (asm) if_not_P[OF False]) (auto split: option.splits if_splits)
    then obtain d where d: "pick_descriptor g explicit ?uri = Ok (Some d)" "f (pd_capabilities d)" by blast
    have p: "d \<in> set (pg_providers g)" "\<And>p. explicit = Some p \<Longrightarrow> pd_id d = p"
      "\<And>u. ?uri = Some u \<Longrightarrow> pd_uri_scheme d = ru_scheme u"
      "explicit = None \<Longrightarrow> ?uri = None \<Longrightarrow> descriptor_for_provider g None = Some d"
      using pick_descriptor_Ok[OF d(1)] by blast+
    have "routed name args d" unfolding routed_def using ex p(2,3) by (cases explicit) auto
    moreover have "any_provider f g" using p(1) d(2) by (auto simp: any_provider_def)
    moreover have "\<not> provider_scoped name \<Longrightarrow> resource_arg_name name = None \<Longrightarrow> descriptor_for_provider g None = Some d"
      using e p(4) by (simp add: resource_uri_arg_def resource_arg_def)
    ultimately show ?thesis using p(1) d(2) assms(2) by (auto simp: tool_visible_def)
  qed
qed



section \<open>The HTTP door\<close>

text \<open>
  Over HTTP the server acts on a body only when the request carries the bearer token, names a loopback host, comes
  from no page or from a page of a loopback host, accepts both content types and is at most a mebibyte: whatever else is
  sent, the daemon hears nothing, no subscription changes and the answer is one of 400, 401, 403 and 406.
\<close>

theorem http_door_closed:
  assumes "post_mcp env token hs body subs = (response, sent, subs')"
    and "\<not> (hs ''authorization'' = Some (''Bearer '' @ token) \<and>
      (\<exists>host. hs ''host'' = Some host \<and> local_host env (''http://'' @ host @ ''/'')) \<and>
      (\<forall>origin. hs ''origin'' = Some origin \<longrightarrow> local_host env origin) \<and>
      (\<exists>accept. hs ''accept'' = Some accept \<and> has_substring ''application/json'' accept \<and>
        has_substring ''text/event-stream'' accept) \<and> length body \<le> 1048576)"
  shows "sent = [] \<and> subs' = subs \<and> (\<exists>status\<in>{400, 401, 403, 406}. response = HttpStatus status)"
proof (cases "validate_headers env token hs True")
  case (Err status)
  then have "status \<in> {401, 403, 406}"
    by (auto simp: validate_headers_def validate_auth_def validate_host_def validate_origin_def validate_accept_def
      result_bind_Err_iff Let_def split: if_splits option.splits)
  then show ?thesis using assms(1) by (auto simp: post_mcp_def Err)
next
  case (Ok u)
  then have "length body > 1048576"
    using assms(2) by (auto simp: validate_headers_def validate_auth_def validate_host_def validate_origin_def
      validate_accept_def unwrap_or_def Let_def split: if_splits option.splits)
  then show ?thesis using assms(1) by (simp add: post_mcp_def Ok)
qed

theorem http_door_closed_witness:
  "\<exists>status\<in>{400, 401, 403, 406}. fst (post_mcp sample_env ''secret'' (\<lambda>_. None) ''{}'' {}) = HttpStatus status"
  using http_door_closed[of sample_env "''secret''" "\<lambda>_. None" "''{}''" "{}"
      "fst (post_mcp sample_env ''secret'' (\<lambda>_. None) ''{}'' {})"
      "fst (snd (post_mcp sample_env ''secret'' (\<lambda>_. None) ''{}'' {}))"
      "snd (snd (post_mcp sample_env ''secret'' (\<lambda>_. None) ''{}'' {}))"]
  by simp

end
