(* ===== verification/Spec2Isabelle.thy ===== *)
theory Spec2Isabelle
  imports Queue_Merge Clock_Laws Session_Tracker Playlist_Undo Claim_Laws Auth_Laws Reminder_Laws Sync_Laws Schedule_Laws Recovery_Laws Mcp_Confirm Mcp_Edits Mcp_Laws Mcp_Gate
begin

text \<open>
  Verification of the core logic of spotuify, a Spotify-first music daemon in Rust with a terminal client, a
  command line, an MCP server and a desktop client (\<open>src/crates\<close>, \<open>src/src/main.rs\<close>).

  The program. One daemon (\<open>spotuify-daemon\<close>) owns all state. Clients send requests over a socket
  (\<open>spotuify-protocol\<close>); \<open>handler.rs\<close> dispatches them to handlers that call a music provider
  (\<open>spotuify-core/src/provider.rs\<close>, implemented over HTTP by \<open>spotuify-spotify\<close> and in memory by
  \<open>spotuify-provider-fake\<close>), drive an embedded player (\<open>spotuify-player\<close>) and record what happened in
  SQLite (\<open>spotuify-store\<close>). Background tasks poll the provider (\<open>spotuify-sync\<close>), fire reminders and settle
  mutations whose outcome was unclear. Playback state arrives from three sides, commands, player events
  and polls, and is merged by the playback clock.

  How it is modelled. A struct is a \<open>record\<close>, an enum a \<open>datatype\<close>, each operation one definition over an
  explicit state; errors are values of \<open>result\<close>; a table is a list of rows with a key (\<open>Keyed_Table\<close>), or a
  function from keys; clocks, fresh ids, random draws and answers of servers are arguments, so that a
  statement about all arguments covers every timing and every answer. Signed and unsigned integers carry
  their wrap-around or saturation (\<open>wrap_i64\<close>, \<open>sat_i64\<close>, \<open>sat_u64\<close>, \<open>64 word\<close> for the counters compared for
  equality); floats are exact rationals with the rounding of the format (\<open>Rust_Float\<close>). Strings are byte
  lists.

  Theories, in the order of the program:

  \<open>Prelude\<close>, \<open>Keyed_Table\<close>, \<open>Rust_Float\<close>: results, integers, strings, number parsing, tables with a primary
  key, IEEE arithmetic; the interfaces \<open>label_codec\<close> and \<open>strict_label_codec\<close> that the labels of the
  wire format interpret.

  \<open>Media\<close>, \<open>Resource_Uri\<close>, \<open>Audio_Settings\<close> (\<open>spotuify-core/src/lib.rs\<close>, \<open>uri.rs\<close>): kinds, items, dates, lyrics,
  resource URIs with their strict parser, playback speed and equalizer settings,
  which interpret the interface \<open>scalar_codec\<close>. Shown: round trips of
  labels, dates, URIs, speeds and settings; ranges; the lyric line at a position.

  \<open>Queue_Merge\<close> (\<open>queue_merge.rs\<close>): reattaching the cached tail to a truncated provider queue. Shown: no item is
  invented, duplicated or lost, and a window of the queue restores it.

  \<open>Player_Events\<close>, \<open>Playback_Clock\<close>, \<open>Clock_Laws\<close> (\<open>clock.rs\<close>, \<open>player/src/events.rs\<close>): the authoritative
  playback clock. Shown: its invariant over every sequence of operations, that stale polls are dropped,
  that the player outranks lagging reports, and exact progress (interface \<open>extrapolation\<close>).

  \<open>Analytics\<close>, \<open>Session_Tracker\<close> (\<open>analytics.rs\<close>, \<open>session_tracker.rs\<close>, \<open>audio_counter_tap.rs\<close>): listen sessions
  and the facts they leave, and the redaction of recorded request paths.

  \<open>Provider_Mutations\<close>, \<open>Operation_Log\<close>, \<open>Playlist_Undo\<close> (\<open>provider.rs\<close>, \<open>provider-fake/src/lib.rs\<close>,
  \<open>protocol/operations.rs\<close>, \<open>store/operations.rs\<close>, \<open>undo.rs\<close>, \<open>handlers/playlists.rs\<close>): mutations of a versioned
  provider (interface \<open>versioned_provider\<close>), the operation log, undo and its plans.

  \<open>Mutation_Claims\<close>, \<open>Claim_Laws\<close>, \<open>Reconciliation\<close> (\<open>mutation_dedup.rs\<close>, \<open>provider_reconciliations.rs\<close>):
  idempotency claims with their receipt and operation rows (interface \<open>lease_table\<close>) and the queue of
  reconciliations for unclear outcomes. Shown: a mutation runs once per period, the three rows settle
  together, retries replay, restarts leave nothing in flight, attempts are exclusive.

  \<open>Rate_Limit\<close> (\<open>spotuify-spotify/src/rate_limit.rs\<close>, \<open>error.rs\<close>): the request loop with retries, backoff and
  per-scope cooldowns. The loop is a \<open>function\<close> whose measure is the retries left, so it returns for every
  server.

  \<open>Auth_Sessions\<close>, \<open>Auth_Laws\<close> (\<open>auth_sessions.rs\<close>): login sessions as an interleaving step relation with one
  rule per observable instruction, its invariant, and the API calls as runs of it.

  \<open>Reminders\<close>, \<open>Reminder_Laws\<close> (\<open>reminders.rs\<close>, \<open>handlers/reminders.rs\<close>, tables in \<open>store/src/lib.rs\<close>): the
  reminder scheduler. \<open>MAX_SKIPPED\<close> is the code's bound of 10,000 skipped occurrences; the laws say for which
  clocks it is enough.

  \<open>Sync_Paging\<close>, \<open>Sync_Store\<close> (\<open>sync_loop.rs\<close>, \<open>store/src/lib.rs\<close>): reading paged collections (interface
  \<open>page_server\<close>, \<open>MAX_PAGES\<close> is the code's bound) and the cache tables the sync engine maintains.

  \<open>Sync_Engine\<close>, \<open>Sync_Laws\<close> (\<open>sync_loop.rs\<close>): playlist, recent and library passes as programs over the cache
  (\<open>pass_bind\<close>), with validation, the refetch gate and recovery from an expired change token. Shown: every pass,
  also a failed one, leaves the cache faithful; a successful one mirrors the provider; an answered one
  succeeds. A collection is read for at most 1000 pages, the bound of the code.

  \<open>Sync_Schedule\<close>, \<open>Schedule_Laws\<close> (\<open>sync_loop.rs\<close>): backoffs, the shared circuit breaker (60 s doubling to ten
  minutes) and the two lanes as interleaved programs. Shown: a rate limit silences the provider in every
  interleaving; the escalation; agreement of the sequential and the concurrent aggregate.

  \<open>Player_Recovery\<close>, \<open>Recovery_Laws\<close> (\<open>state.rs\<close>, \<open>server.rs\<close>): the relay of player events, the health loop, the
  watchdog (six seconds of a flat sample counter) and automatic reconnects (1 to 30 s apart, given up after
  five) as interleaved jobs. Shown: playback on another device is never stolen, a hand-over ends every
  recovery, a lost session is given up in bounded time, silence is detected.

  \<open>Agent_Playlists\<close>, \<open>Provider_Catalog\<close> (\<open>agent_playlists.rs\<close>, \<open>provider.rs\<close>): playlist plans for agents and their
  resolution; what providers declare and when a catalog of them is consistent.

  \<open>Mcp_Tools\<close>, \<open>Mcp_Bridge\<close>, \<open>Mcp_Server\<close>, \<open>Mcp_Log\<close>, \<open>Mcp_Confirm\<close>, \<open>Mcp_Laws\<close>, \<open>Mcp_Gate\<close>, \<open>Mcp_Edits\<close>
  (\<open>spotuify-mcp\<close>): the agent server, from its tool table and capability checks over the translation of
  calls to daemon requests to the server itself, which is a function of an environment (\<open>mcp_env\<close>: what the
  daemon answers to the requests so far) to a reply and the log of requests sent. \<open>Mcp_Log\<close> carries a
  condition on requests through every path of the server; the other four use it: nothing guarded is sent
  unconfirmed, changes are keyed once, tools run only with providers that declare them, playlist edits are
  well formed.

  Parameters. Code outside the repository is an argument: the HTTP stack (\<open>http_lib\<close>), calendar arithmetic
  (\<open>fire_env\<close>), the provider behind the adapter contract, key store and browser (\<open>auth_env\<close>). Named hypotheses
  state what the code relies on: a calendar month is at least 28 days, ids are fresh.

  Not modelled: rendering and key handling (\<open>spotuify-tui\<close>), argument parsing and text output (\<open>spotuify-cli\<close>,
  \<open>src/main.rs\<close>), sockets and process control, the SQL engine and migrations, the full-text index, the audio
  back ends and their signal processing, cover art, operating-system integration, and the serialisation
  derived by serde: they are input and output, third-party code, or have no logic of their own.
\<close>

end
